(* ===== verification/Prelude.thy ===== *)
theory Prelude
  imports Main "HOL-Library.Word"
begin

text \<open>
  Shared vocabulary of the development: the C integer types as machine words, the
  collections of simplification rules the component theories fill, and the lemmas on
  words and lists that more than one component needs.

  \<^item> \<open>ops\<close> collects the defining equations of operations that are meant to be unfolded
    in proofs about one operation;
  \<^item> \<open>frame\<close> collects the facts that an operation leaves a part of the state alone;
  \<^item> \<open>reg_simps\<close> collects the facts that evaluate register addresses and flag words.
\<close>

unbundle bit_operations_syntax

named_theorems ops
named_theorems frame
named_theorems reg_simps

type_synonym u8 = "8 word"
type_synonym u16 = "16 word"
type_synonym u32 = "32 word"
type_synonym u64 = "64 word"

text \<open>A quadword of EE memory, the unit of every DMA transfer, as its four words.\<close>

type_synonym quad = "u32 \<times> u32 \<times> u32 \<times> u32"

subsection \<open>Words\<close>

text \<open>Masking with \<open>2 ^ n - 1\<close> is reduction modulo \<open>2 ^ n\<close>.\<close>

lemma and_mask_take_bit: "(a :: 'a :: len word) AND mask n = take_bit n a"
  by (simp add: take_bit_eq_mask)

lemma unat_take_bit_mod: "unat (take_bit n (a :: 'a :: len word)) = unat a mod 2 ^ n"
  by (simp only: unsigned_take_bit_eq) (simp only: take_bit_eq_mod)

lemma unat_of_nat_lt: "n < 2 ^ LENGTH('a) \<Longrightarrow> unat (of_nat n :: 'a :: len word) = n"
  by (simp add: unat_of_nat take_bit_nat_eq_self)

lemma unat_ucast_up:
  assumes "LENGTH('a) \<le> LENGTH('b)"
  shows "unat (ucast (w :: 'a :: len word) :: 'b :: len word) = unat w"
proof -
  have "unat w < 2 ^ LENGTH('b)"
    by (rule order_less_le_trans [OF unsigned_less]) (simp add: assms)
  then show ?thesis by (simp add: unsigned_ucast_eq take_bit_nat_eq_self)
qed

lemma unat_take_bit_add:
  assumes "k \<le> LENGTH('a)"
  shows "unat (take_bit k (a + b :: 'a :: len word)) = (unat a + unat b) mod 2 ^ k"
proof -
  have "(2::nat) ^ k dvd 2 ^ LENGTH('a)"
    using assms by (rule le_imp_power_dvd)
  then show ?thesis
    by (simp only: unat_take_bit_mod unat_word_ariths mod_mod_cancel)
qed

lemma take_bit_add_left:
  assumes "k \<le> LENGTH('a)"
  shows "take_bit k (take_bit k a + b) = take_bit k (a + b :: 'a :: len word)"
proof -
  have "unat (take_bit k (take_bit k a + b)) = unat (take_bit k (a + b))"
    by (simp only: unat_take_bit_add [OF assms]) (simp only: unat_take_bit_mod mod_add_left_eq)
  then show ?thesis by (simp only: word_unat_eq_iff)
qed

lemma mod_add_left_cancel_nat:
  fixes a m n p :: nat
  assumes "(a + m) mod p = (a + n) mod p"
  shows "m mod p = n mod p"
proof -
  have "(int a + int m) mod int p = (int a + int n) mod int p"
    using assms by (simp flip: of_nat_add of_nat_mod)
  then have "int m mod int p = int n mod int p"
    by (simp add: mod_eq_dvd_iff)
  then show ?thesis by (simp flip: of_nat_mod)
qed

text \<open>
  Two addresses at small offsets from one base are equal modulo a power of two only when
  the offsets are equal. The memory model is indexed by physical addresses (the low 29
  bits), and this is what separates two fields of one array.
\<close>

lemma take_bit_offset_inj:
  fixes x :: "'a :: len word"
  assumes "take_bit k (x + of_nat m) = take_bit k (x + of_nat n)"
    and "m < 2 ^ k" "n < 2 ^ k" "k \<le> LENGTH('a)"
  shows "m = n"
proof -
  have dvd: "(2::nat) ^ k dvd 2 ^ LENGTH('a)"
    using assms(4) by (rule le_imp_power_dvd)
  have "(unat x + m) mod 2 ^ LENGTH('a) mod 2 ^ k = (unat x + n) mod 2 ^ LENGTH('a) mod 2 ^ k"
    using arg_cong [where f = unat, OF assms(1)]
    by (simp add: unat_take_bit_mod unat_word_ariths unat_of_nat mod_simps del: take_bit_eq_mod)
  then have "(unat x + m) mod 2 ^ k = (unat x + n) mod 2 ^ k"
    using dvd by (simp add: mod_mod_cancel)
  then have "m mod 2 ^ k = n mod 2 ^ k"
    by (rule mod_add_left_cancel_nat)
  with assms(2,3) show ?thesis by simp
qed

subsection \<open>C integers\<close>

text \<open>A value of C type \<open>int\<close> is an integer; its arithmetic wraps at 32 bits like the processor's.\<close>

definition int32 :: "int \<Rightarrow> int" where
  "int32 x = signed_take_bit 31 x"

lemma int32_id [simp]: "- (2 ^ 31) \<le> x \<Longrightarrow> x < 2 ^ 31 \<Longrightarrow> int32 x = x"
  by (simp add: int32_def signed_take_bit_int_eq_self)

lemma int32_range: "- (2 ^ 31) \<le> int32 x" "int32 x < 2 ^ 31"
  using signed_take_bit_int_greater_eq_minus_exp [of 31 x] signed_take_bit_int_less_exp [of 31 x]
  by (simp_all add: int32_def)

lemma sint_small:
  assumes "unat (w :: u32) < 2 ^ 31"
  shows "sint w = int (unat w)"
proof -
  define n where "n = unat w"
  have "int n < 2 ^ 31" using assms by (simp add: n_def [symmetric])
  then have "signed_take_bit 31 (int n) = int n" by (intro signed_take_bit_int_eq_self) simp_all
  moreover have "uint w = int n" by (simp add: n_def)
  ultimately show ?thesis by (simp only: sint_uint n_def [symmetric]) simp
qed

subsection \<open>Lists\<close>

lemma nth_list_update_le [simp]:
  "i < length xs \<Longrightarrow> xs[i := x] ! j = (if i = j then x else xs ! j)"
  by (simp add: nth_list_update)

text \<open>The last \<open>n\<close> elements of a list.\<close>

definition lastn :: "nat \<Rightarrow> 'a list \<Rightarrow> 'a list" where
  "lastn n xs = drop (length xs - n) xs"

lemma length_lastn [simp]: "length (lastn n xs) = min n (length xs)"
  by (simp add: lastn_def)

lemma lastn_snoc: "0 < n \<Longrightarrow> lastn n (xs @ [x]) = lastn n (lastn n xs @ [x])"
  by (cases "length xs < n") (simp_all add: lastn_def Suc_diff_le not_less)

lemma lastn_map: "lastn n (map f xs) = map f (lastn n xs)"
  by (simp add: lastn_def drop_map)

text \<open>A C string is what stands before the first NUL.\<close>

definition cstr :: "char list \<Rightarrow> string" where
  "cstr = takeWhile (\<lambda>c. c \<noteq> CHR 0x00)"

lemma cstr_terminated:
  assumes "p < length xs" "xs ! p = CHR 0x00" "\<And>j. j < p \<Longrightarrow> xs ! j \<noteq> CHR 0x00"
  shows "cstr xs = take p xs"
  unfolding cstr_def using assms by (intro takeWhile_eq_take_P_nth) auto

section \<open>Simulations\<close>

text \<open>
  A concrete machine that follows an abstract one input by input follows it on every
  sequence of inputs. Components with a declarative specification prove the one-step law.
\<close>

locale simulation =
  fixes R :: "'c \<Rightarrow> 'a \<Rightarrow> bool" and cstep :: "'c \<Rightarrow> 'i \<Rightarrow> 'c" and astep :: "'a \<Rightarrow> 'i \<Rightarrow> 'a"
  assumes step: "R c a \<Longrightarrow> R (cstep c i) (astep a i)"
begin

lemma run: "R c a \<Longrightarrow> R (foldl cstep c is) (foldl astep a is)"
  by (induction "is" arbitrary: c a) (simp_all add: step)

end

section \<open>Pools of numbered slots\<close>

text \<open>
  Several components hand out slots of a fixed array and take them back. A client holds what
  it was given until it returns it; the laws say which slots are in use after each operation,
  and the lemma is what clients rely on: no slot is handed out while it is held.
\<close>

datatype 'q pool_op = Alloc 'q | Release nat

fun pool_run ::
  "('q \<Rightarrow> 's \<Rightarrow> nat option \<times> 's) \<Rightarrow> (nat \<Rightarrow> 's \<Rightarrow> 's) \<Rightarrow> 'q pool_op list \<Rightarrow> nat list \<times> 's \<Rightarrow> nat list \<times> 's" where
  "pool_run alloc release [] (held, s) = (held, s)"
| "pool_run alloc release (Alloc q # ops) (held, s) =
     (case alloc q s of
        (Some i, s') \<Rightarrow> pool_run alloc release ops (i # held, s')
      | (None, s') \<Rightarrow> pool_run alloc release ops (held, s'))"
| "pool_run alloc release (Release i # ops) (held, s) =
     (if i \<in> set held then pool_run alloc release ops (remove1 i held, release i s)
      else pool_run alloc release ops (held, s))"

locale slot_pool =
  fixes inv :: "'s \<Rightarrow> bool" and used :: "'s \<Rightarrow> nat set" and cap :: nat
    and alloc :: "'q \<Rightarrow> 's \<Rightarrow> nat option \<times> 's" and release :: "nat \<Rightarrow> 's \<Rightarrow> 's"
  assumes used_cap: "inv s \<Longrightarrow> used s \<subseteq> {..<cap}"
    and alloc_some: "inv s \<Longrightarrow> alloc q s = (Some i, s') \<Longrightarrow>
      inv s' \<and> i < cap \<and> i \<notin> used s \<and> used s' = insert i (used s)"
    and alloc_none: "inv s \<Longrightarrow> alloc q s = (None, s') \<Longrightarrow> inv s' \<and> used s' = used s"
    and release_used: "inv s \<Longrightarrow> i \<in> used s \<Longrightarrow>
      inv (release i s) \<and> used (release i s) = used s - {i}"
begin

lemma run_held:
  assumes "inv s" "distinct held" "set held = used s"
    and "pool_run alloc release ops (held, s) = (held', s')"
  shows "inv s' \<and> distinct held' \<and> set held' = used s'"
  using assms
proof (induction ops arbitrary: held s)
  case Nil
  then show ?case by simp
next
  case (Cons op ops)
  show ?case
  proof (cases op)
    case (Alloc q)
    obtain r t where r: "alloc q s = (r, t)" by (cases "alloc q s")
    show ?thesis
    proof (cases r)
      case None
      then show ?thesis
        using Cons.prems Cons.IH [of t held] alloc_none [OF Cons.prems(1), of q t] r
        by (simp add: Alloc)
    next
      case (Some i)
      then show ?thesis
        using Cons.prems Cons.IH [of t "i # held"] alloc_some [OF Cons.prems(1), of q i t] r
        by (simp add: Alloc)
    qed
  next
    case (Release i)
    show ?thesis
    proof (cases "i \<in> set held")
      case True
      then show ?thesis
        using Cons.prems Cons.IH [of "release i s" "remove1 i held"]
          release_used [OF Cons.prems(1), of i] by (simp add: Release)
    next
      case False
      then show ?thesis using Cons.prems Cons.IH [of s held] by (simp add: Release)
    qed
  qed
qed

lemma run_bounded:
  assumes "inv s" "distinct held" "set held = used s"
    and "pool_run alloc release ops (held, s) = (held', s')"
  shows "length held' \<le> cap"
proof -
  have "distinct held'" "set held' \<subseteq> {..<cap}"
    using run_held [OF assms] used_cap by auto
  then show ?thesis
    using card_mono [of "{..<cap}" "set held'"] by (simp add: distinct_card)
qed

end

end
