(* ===== verification/Core.thy ===== *)
theory Core
  imports Prelude
begin

text \<open>
  The processor-level vocabulary of the SBIOS (\<open>TGE/sbios/core.h\<close>, \<open>hwreg.h\<close>,
  \<open>tge_defs.h\<close>): the segment macros, the COP0 status word with its save/disable/restore
  pair, the memory-mapped registers, and main memory.

  Main memory is a store of words indexed by physical address; the cached (KSEG0) and
  uncached (KSEG1) windows of the processor are two names of the same physical word, so
  \<open>ldw\<close> and \<open>stw\<close> go through \<open>PHYSADDR\<close>. The data cache itself is not modelled; the
  ranges the code writes back before a DMA transfer are logged in \<open>dcache_wb\<close>.
  Register reads see the register file; hardware changes it between calls.
\<close>

definition PHYSADDR :: "u32 \<Rightarrow> u32" where
  "PHYSADDR a = a AND 0x1fffffff"

definition KSEG0ADDR :: "u32 \<Rightarrow> u32" where
  "KSEG0ADDR a = PHYSADDR a OR 0x80000000"

definition KSEG1ADDR :: "u32 \<Rightarrow> u32" where
  "KSEG1ADDR a = PHYSADDR a OR 0xA0000000"

record hwst =
  cp0_status :: u32
  hwreg :: "u32 \<Rightarrow> u32"
  mem :: "u32 \<Rightarrow> u32"
  dcache_wb :: "(u32 \<times> u32) list"

definition reg_lw :: "u32 \<Rightarrow> 'a hwst_scheme \<Rightarrow> u32" where
  "reg_lw a s = hwreg s a"

definition reg_sw :: "u32 \<Rightarrow> u32 \<Rightarrow> 'a hwst_scheme \<Rightarrow> 'a hwst_scheme" where
  "reg_sw v a s = s\<lparr>hwreg := (hwreg s)(a := v)\<rparr>"

definition ldw :: "u32 \<Rightarrow> 'a hwst_scheme \<Rightarrow> u32" where
  "ldw a s = mem s (PHYSADDR a)"

definition stw :: "u32 \<Rightarrow> u32 \<Rightarrow> 'a hwst_scheme \<Rightarrow> 'a hwst_scheme" where
  "stw v a s = s\<lparr>mem := (mem s)(PHYSADDR a := v)\<rparr>"

definition ldq :: "u32 \<Rightarrow> 'a hwst_scheme \<Rightarrow> quad" where
  "ldq a s = (ldw a s, ldw (a + 4) s, ldw (a + 8) s, ldw (a + 12) s)"

definition stq :: "quad \<Rightarrow> u32 \<Rightarrow> 'a hwst_scheme \<Rightarrow> 'a hwst_scheme" where
  "stq q a s = (let (w0, w1, w2, w3) = q
     in stw w3 (a + 12) (stw w2 (a + 8) (stw w1 (a + 4) (stw w0 a s))))"

definition CORE_IE :: u32 where "CORE_IE = 1"
definition CORE_EXL :: u32 where "CORE_EXL = 2"
definition CORE_ERL :: u32 where "CORE_ERL = 4"
definition CORE_EIE :: u32 where "CORE_EIE = 0x10000"

definition core_in_interrupt :: "'a hwst_scheme \<Rightarrow> bool" where
  "core_in_interrupt s \<longleftrightarrow>
     (let status = cp0_status s in
      if status AND CORE_EIE = 0 then True
      else if status AND CORE_IE = 0 then True
      else if status AND (CORE_EXL OR CORE_ERL) \<noteq> 0 then True
      else False)"

definition core_save_disable :: "'a hwst_scheme \<Rightarrow> u32 \<times> 'a hwst_scheme" where
  "core_save_disable s = (let status = cp0_status s in
     (status, s\<lparr>cp0_status := (status OR 1) XOR 1\<rparr>))"

definition core_restore :: "u32 \<Rightarrow> 'a hwst_scheme \<Rightarrow> 'a hwst_scheme" where
  "core_restore status s =
     s\<lparr>cp0_status := (status AND NOT 0xff00) OR (cp0_status s AND 0xff00)\<rparr>"

definition SifWriteBackDCache :: "u32 \<Rightarrow> u32 \<Rightarrow> 'a hwst_scheme \<Rightarrow> 'a hwst_scheme" where
  "SifWriteBackDCache ptr sz s = s\<lparr>dcache_wb := (ptr, sz) # dcache_wb s\<rparr>"

text \<open>The C macro \<open>_sw(_lw(reg) op m, reg')\<close> is written out with \<open>reg_lw\<close> and \<open>reg_sw\<close>.\<close>

lemmas core_ops [ops] = reg_lw_def reg_sw_def core_save_disable_def core_restore_def
  SifWriteBackDCache_def Let_def

subsection \<open>Addresses\<close>

lemma PHYSADDR_take_bit: "PHYSADDR a = take_bit 29 a"
proof -
  have "mask 29 = (0x1fffffff :: u32)" by (simp add: mask_eq_exp_minus_1)
  then show ?thesis by (metis PHYSADDR_def take_bit_eq_mask)
qed

lemma PHYSADDR_idem [simp]: "PHYSADDR (PHYSADDR a) = PHYSADDR a"
  by (simp add: PHYSADDR_take_bit)

lemma PHYSADDR_KSEG0 [simp]: "PHYSADDR (KSEG0ADDR a) = PHYSADDR a"
  by (simp add: PHYSADDR_def KSEG0ADDR_def and.assoc bit.conj_disj_distrib2)

lemma PHYSADDR_KSEG1 [simp]: "PHYSADDR (KSEG1ADDR a) = PHYSADDR a"
  by (simp add: PHYSADDR_def KSEG1ADDR_def and.assoc bit.conj_disj_distrib2)

lemma PHYSADDR_add_left: "PHYSADDR (PHYSADDR a + b) = PHYSADDR (a + b)"
  by (simp add: PHYSADDR_take_bit take_bit_add_left)

text \<open>Two offsets into an array of less than half a gigabyte name different words.\<close>

lemma PHYSADDR_offset_eq_iff:
  assumes "m < 2 ^ 29" "n < 2 ^ 29"
  shows "PHYSADDR (x + of_nat m) = PHYSADDR (x + of_nat n) \<longleftrightarrow> m = n"
  using take_bit_offset_inj [of 29 x m n] assms by (auto simp: PHYSADDR_take_bit)

subsection \<open>Loads and stores\<close>

lemma ldw_stw [simp]: "ldw a (stw v b s) = (if PHYSADDR a = PHYSADDR b then v else ldw a s)"
  by (simp add: ldw_def stw_def)

lemma ldw_KSEG1 [simp]: "ldw (KSEG1ADDR a) s = ldw a s"
  by (simp add: ldw_def)

lemma ldw_cong: "mem s = mem t \<Longrightarrow> ldw a s = ldw a t"
  by (simp add: ldw_def)

lemma ldq_cong: "mem s = mem t \<Longrightarrow> ldq a s = ldq a t"
  by (simp add: ldq_def ldw_def)

lemma ldq_KSEG1_offset: "ldq (KSEG1ADDR a + b) s = ldq (a + b) s"
proof -
  have "PHYSADDR (KSEG1ADDR a + c) = PHYSADDR (a + c)" for c
    by (metis PHYSADDR_KSEG1 PHYSADDR_add_left)
  then show ?thesis by (simp add: ldq_def ldw_def add.assoc)
qed

lemma stw_frame [frame, simp]:
  "cp0_status (stw v a s) = cp0_status s" "hwreg (stw v a s) = hwreg s"
  "dcache_wb (stw v a s) = dcache_wb s"
  by (simp_all add: stw_def)

subsection \<open>Interrupt masking\<close>

lemma core_restore_saved:
  "cp0_status s = (st OR 1) XOR 1 \<Longrightarrow> cp0_status (core_restore st s) = st"
proof -
  have "((st AND NOT 0xff00) OR (((st OR 1) XOR 1) AND 0xff00)) = st"
    by (rule bit_word_eqI) (auto simp: bit_simps intro!: gr0I)
  then show "cp0_status s = (st OR 1) XOR 1 \<Longrightarrow> ?thesis"
    by (simp add: core_restore_def)
qed

lemma core_restore_id:
  "cp0_status s = (st OR 1) XOR 1 \<Longrightarrow> core_restore st s = s\<lparr>cp0_status := st\<rparr>"
  using core_restore_saved [of s st] by (simp add: core_restore_def)

lemma cp0_same: "cp0_status t = v \<Longrightarrow> t\<lparr>cp0_status := v\<rparr> = t"
  by (cases t) auto

text \<open>A section with interrupts disabled that keeps the rest of the status register.\<close>

lemma masked [simp]:
  "cp0_status t = cp0_status s \<Longrightarrow> core_restore (cp0_status s) (t\<lparr>cp0_status := (cp0_status s OR 1) XOR 1\<rparr>) = t"
  by (subst core_restore_id) (auto intro: cp0_same)

end
