(* ===== verification/SifDma.thy ===== *)
theory SifDma
  imports Core
begin

text \<open>
  SIF1 DMA, the EE-to-IOP transport (\<open>TGE/sbios/sifdma.c\<close>). Thirty-two DMA tags form a
  ring of which tag 31 only jumps back to tag 0, so thirty-one are usable. Software
  appends at \<open>sif1_dmatag_index\<close>; the hardware position is read back from the TADR
  register. Each transfer takes one tag, or two when the data does not fit into the seven
  quadwords behind the tag the IOP reads.

  The link-time addresses of the two tag arrays are fields of the state. A C array index
  of the ring is a list index here; a call with an empty transfer array makes the C loop
  run off the array (its counter \<open>tcount - 1\<close> wraps) and is \<open>None\<close>.
\<close>

section \<open>State\<close>

record ee_dmatag =
  id_qwc :: u32
  tag_addr :: u32

record iop_dmatag =
  iop_addr :: u32
  iop_size :: u32
  iop_data :: "quad list"

record tge_sifdma_transfer =
  xf_src :: u32
  xf_dest :: u32
  xf_size :: u32
  xf_attr :: u32

record sifdma = hwst +
  sif_initialized :: bool
  sif_reg_table :: "u32 list"
  sif1_dmatag_index :: u8
  sif1_dma_count :: u16
  sif1_dmatags :: "ee_dmatag list"
  iop_dmatags :: "iop_dmatag list"
  a_sif1_dmatags :: u32
  a_iop_dmatags :: u32

section \<open>Registers and tag words\<close>

definition EE_DMAC_SIF0_CHCR :: u32 where "EE_DMAC_SIF0_CHCR = 0xb000c000"
definition EE_DMAC_SIF0_QWC :: u32 where "EE_DMAC_SIF0_QWC = 0xb000c020"
definition EE_DMAC_SIF1_CHCR :: u32 where "EE_DMAC_SIF1_CHCR = 0xb000c400"
definition EE_DMAC_SIF1_MADR :: u32 where "EE_DMAC_SIF1_MADR = 0xb000c410"
definition EE_DMAC_SIF1_QWC :: u32 where "EE_DMAC_SIF1_QWC = 0xb000c420"
definition EE_DMAC_SIF1_TADR :: u32 where "EE_DMAC_SIF1_TADR = 0xb000c430"
definition EE_SIF_MAINADDR :: u32 where "EE_SIF_MAINADDR = 0xb000f200"
definition EE_SIF_SUBADDR :: u32 where "EE_SIF_SUBADDR = 0xb000f210"
definition EE_SIF_MSFLAG :: u32 where "EE_SIF_MSFLAG = 0xb000f220"
definition EE_SIF_SMFLAG :: u32 where "EE_SIF_SMFLAG = 0xb000f230"
definition EE_SIF_UNKNF260 :: u32 where "EE_SIF_UNKNF260 = 0xb000f260"
definition EE_DMAC_ENABLER :: u32 where "EE_DMAC_ENABLER = 0xb000f520"
definition EE_DMAC_ENABLEW :: u32 where "EE_DMAC_ENABLEW = 0xb000f590"
definition EE_DMAC_CPND :: u32 where "EE_DMAC_CPND = 0x10000"

lemmas dma_regs [reg_simps] = EE_DMAC_SIF0_CHCR_def EE_DMAC_SIF0_QWC_def EE_DMAC_SIF1_CHCR_def
  EE_DMAC_SIF1_MADR_def EE_DMAC_SIF1_QWC_def EE_DMAC_SIF1_TADR_def EE_SIF_MAINADDR_def
  EE_SIF_SUBADDR_def EE_SIF_MSFLAG_def EE_SIF_SMFLAG_def EE_SIF_UNKNF260_def
  EE_DMAC_ENABLER_def EE_DMAC_ENABLEW_def EE_DMAC_CPND_def

definition TGE_SIFDMA_ATTR_INT_I :: u32 where "TGE_SIFDMA_ATTR_INT_I = 0x02"
definition TGE_SIFDMA_ATTR_INT_O :: u32 where "TGE_SIFDMA_ATTR_INT_O = 0x04"
definition TGE_SIFDMA_ATTR_DMATAG :: u32 where "TGE_SIFDMA_ATTR_DMATAG = 0x20"
definition TGE_SIFDMA_ATTR_ERT :: u32 where "TGE_SIFDMA_ATTR_ERT = 0x40"

lemmas dma_attrs [reg_simps] = TGE_SIFDMA_ATTR_INT_I_def TGE_SIFDMA_ATTR_INT_O_def
  TGE_SIFDMA_ATTR_DMATAG_def TGE_SIFDMA_ATTR_ERT_def

datatype ee_dmatag_id = EE_DMATAG_ID_REFE | EE_DMATAG_ID_CNT | EE_DMATAG_ID_NEXT
  | EE_DMATAG_ID_REF | EE_DMATAG_ID_REFS | EE_DMATAG_ID_CALL | EE_DMATAG_ID_RET
  | EE_DMATAG_ID_END

fun dmatag_id_val :: "ee_dmatag_id \<Rightarrow> u32" where
  "dmatag_id_val EE_DMATAG_ID_REFE = 0"
| "dmatag_id_val EE_DMATAG_ID_CNT = 1"
| "dmatag_id_val EE_DMATAG_ID_NEXT = 2"
| "dmatag_id_val EE_DMATAG_ID_REF = 3"
| "dmatag_id_val EE_DMATAG_ID_REFS = 4"
| "dmatag_id_val EE_DMATAG_ID_CALL = 5"
| "dmatag_id_val EE_DMATAG_ID_RET = 6"
| "dmatag_id_val EE_DMATAG_ID_END = 7"

definition EE_DMATAG_ID :: "ee_dmatag_id \<Rightarrow> u32" where
  "EE_DMATAG_ID i = push_bit 28 (dmatag_id_val i)"

definition EE_DMATAG_ID_QWC :: "ee_dmatag_id \<Rightarrow> u32 \<Rightarrow> u32" where
  "EE_DMATAG_ID_QWC i qwc = EE_DMATAG_ID i OR qwc"

definition EE_DMATAG_IRQ :: u32 where "EE_DMATAG_IRQ = 0x80000000"

section \<open>Operations\<close>

definition sbcall_sifsetdchain :: "'a sifdma_scheme \<Rightarrow> 'a sifdma_scheme" where
  "sbcall_sifsetdchain s =
     (let (status, s) = core_save_disable s;
          s = reg_sw 0 EE_DMAC_SIF0_CHCR s;
          s = reg_sw 0 EE_DMAC_SIF0_QWC s;
          s = reg_sw 0x184 EE_DMAC_SIF0_CHCR s
      in core_restore status s)"

definition sbcall_sifstopdma :: "'a sifdma_scheme \<Rightarrow> 'a sifdma_scheme" where
  "sbcall_sifstopdma s = reg_sw 0 EE_DMAC_SIF0_QWC (reg_sw 0 EE_DMAC_SIF0_CHCR s)"

text \<open>Address of element \<open>i\<close> of the ring; an \<open>ee_dmatag_t\<close> is 16 bytes.\<close>

definition dmatag_addr :: "'a sifdma_scheme \<Rightarrow> nat \<Rightarrow> u32" where
  "dmatag_addr s i = a_sif1_dmatags s + 16 * of_nat i"

text \<open>An \<open>iop_dmatag_t\<close> is a 16-byte header and seven quadwords of data.\<close>

definition iop_dmatag_addr :: "'a sifdma_scheme \<Rightarrow> nat \<Rightarrow> u32" where
  "iop_dmatag_addr s i = a_iop_dmatags s + 128 * of_nat i"

definition sif_dma_init :: "'a sifdma_scheme \<Rightarrow> 'a sifdma_scheme" where
  "sif_dma_init s =
     (let s = s\<lparr>sif1_dma_count := 0xffff, sif1_dmatag_index := 30\<rparr>;
          s = s\<lparr>sif1_dmatags := (sif1_dmatags s)[31 :=
                 (sif1_dmatags s ! 31)\<lparr>id_qwc := EE_DMATAG_ID EE_DMATAG_ID_NEXT,
                                      tag_addr := PHYSADDR (a_sif1_dmatags s)\<rparr>]\<rparr>;
          s = reg_sw 0 EE_DMAC_SIF1_QWC s
      in reg_sw (PHYSADDR (a_sif1_dmatags s)) EE_DMAC_SIF1_TADR s)"

definition sbcall_sifinit :: "'a sifdma_scheme \<Rightarrow> 'a sifdma_scheme" where
  "sbcall_sifinit s =
     (if sif_initialized s then s
      else let s = s\<lparr>sif_initialized := True, sif_reg_table := replicate 32 0\<rparr>;
               s = reg_sw 0xff EE_SIF_UNKNF260 s;
               s = reg_sw 0 EE_DMAC_SIF0_CHCR s;
               s = reg_sw 0 EE_DMAC_SIF1_CHCR s;
               s = sbcall_sifsetdchain s
           in sif_dma_init s)"

definition sbcall_sifexit :: "'a sifdma_scheme \<Rightarrow> 'a sifdma_scheme" where
  "sbcall_sifexit s = s\<lparr>sif_initialized := False\<rparr>"

definition set_next_dmatag :: "'a sifdma_scheme \<Rightarrow> 'a sifdma_scheme" where
  "set_next_dmatag s =
     (let s = s\<lparr>sif1_dmatag_index := sif1_dmatag_index s + 1\<rparr>
      in if sif1_dmatag_index s = 31
         then s\<lparr>sif1_dmatag_index := 0, sif1_dma_count := sif1_dma_count s + 1\<rparr>
         else s)"

definition cur_tag :: "'a sifdma_scheme \<Rightarrow> nat" where
  "cur_tag s = unat (sif1_dmatag_index s)"

definition upd_tag :: "(ee_dmatag \<Rightarrow> ee_dmatag) \<Rightarrow> 'a sifdma_scheme \<Rightarrow> 'a sifdma_scheme" where
  "upd_tag f s = s\<lparr>sif1_dmatags := (sif1_dmatags s)[cur_tag s := f (sif1_dmatags s ! cur_tag s)]\<rparr>"

definition upd_dtag :: "nat \<Rightarrow> (iop_dmatag \<Rightarrow> iop_dmatag) \<Rightarrow> 'a sifdma_scheme \<Rightarrow> 'a sifdma_scheme" where
  "upd_dtag d f s = s\<lparr>iop_dmatags := (iop_dmatags s)[d := f (iop_dmatags s ! d)]\<rparr>"

text \<open>The copy loop \<open>for (i = 0, ...; i < data_qwc; i++) *d128++ = *s128++\<close>.\<close>

fun copy_quads :: "nat \<Rightarrow> nat \<Rightarrow> u32 \<Rightarrow> 'a sifdma_scheme \<Rightarrow> quad list \<Rightarrow> quad list" where
  "copy_quads i 0 s128 s d = d"
| "copy_quads i (Suc n) s128 s d = copy_quads (Suc i) n s128 s (d[i := ldq (s128 + 16 * of_nat i) s])"

definition dma_irq :: "u32 \<Rightarrow> u32" where
  "dma_irq attr = (if attr AND TGE_SIFDMA_ATTR_INT_I \<noteq> 0 then EE_DMATAG_IRQ else 0)"

definition sif_dma_transfer ::
  "u32 \<Rightarrow> u32 \<Rightarrow> u32 \<Rightarrow> u32 \<Rightarrow> ee_dmatag_id \<Rightarrow> 'a sifdma_scheme \<Rightarrow> 'a sifdma_scheme" where
  "sif_dma_transfer src dest sz attr id0 s =
     (let qwc = (sz + 16 - 1) div 16;
          s = set_next_dmatag s;
          dtag = cur_tag s;
          (qwc, s) =
            (if attr AND TGE_SIFDMA_ATTR_DMATAG \<noteq> 0 then
               (qwc - 1,
                upd_tag (\<lambda>t. t\<lparr>id_qwc := EE_DMATAG_ID_QWC id0 qwc OR dma_irq attr,
                                tag_addr := PHYSADDR (iop_dmatag_addr s dtag)\<rparr>) s)
             else
               let (data_qwc, s) =
                 (if qwc \<ge> 8 then
                    let s = upd_tag (\<lambda>t. t\<lparr>id_qwc := EE_DMATAG_ID_QWC EE_DMATAG_ID_REF 8,
                                            tag_addr := PHYSADDR (iop_dmatag_addr s dtag)\<rparr>) s;
                        s = set_next_dmatag s
                    in (7, upd_tag (\<lambda>t. t\<lparr>id_qwc := EE_DMATAG_ID_QWC id0 (qwc - 7) OR dma_irq attr,
                                            tag_addr := PHYSADDR (src + 7 * 16)\<rparr>) s)
                  else
                    (unat qwc,
                     upd_tag (\<lambda>t. t\<lparr>id_qwc := EE_DMATAG_ID_QWC id0 (qwc + 1) OR dma_irq attr,
                                     tag_addr := PHYSADDR (iop_dmatag_addr s dtag)\<rparr>) s))
               in (qwc, upd_dtag dtag
                          (\<lambda>d. d\<lparr>iop_data := copy_quads 0 data_qwc (KSEG1ADDR src) s (iop_data d)\<rparr>) s))
      in upd_dtag dtag
           (\<lambda>d. d\<lparr>iop_size := qwc * 4,
                   iop_addr := (dest AND 0x00ffffff)
                     OR (if attr AND TGE_SIFDMA_ATTR_INT_O \<noteq> 0 then 0x40000000 else 0)
                     OR (if attr AND TGE_SIFDMA_ATTR_ERT \<noteq> 0 then 0x80000000 else 0)\<rparr>) s)"

definition sif_dma_get_hw_index :: "'a sifdma_scheme \<Rightarrow> u32" where
  "sif_dma_get_hw_index s =
     (let index = (reg_lw EE_DMAC_SIF1_TADR s - PHYSADDR (a_sif1_dmatags s)) div 16
      in if index > 0 then index - 1 else 30)"

definition sif_dma_get_sw_index :: "'a sifdma_scheme \<Rightarrow> u32" where
  "sif_dma_get_sw_index s = ucast (sif1_dmatag_index s)"

definition sif_get_number_of_free_dma_tags :: "'a sifdma_scheme \<Rightarrow> u32" where
  "sif_get_number_of_free_dma_tags s =
     (let hw_index = (reg_lw EE_DMAC_SIF1_TADR s - PHYSADDR (a_sif1_dmatags s)) div 16;
          hw_index = (if hw_index > 0 then hw_index - 1 else 30);
          sw_index = ucast (sif1_dmatag_index s)
      in if hw_index = sw_index then (if reg_lw EE_DMAC_SIF1_QWC s \<noteq> 0 then 30 else 31)
         else if hw_index < sw_index then hw_index - sw_index + 30
         else hw_index - sw_index - 1)"

definition sif_dma_setup_tag :: "u32 \<Rightarrow> 'a sifdma_scheme \<Rightarrow> 'a sifdma_scheme" where
  "sif_dma_setup_tag freetags s =
     (if freetags = 31 then s
      else if freetags = 30 then
        let s = upd_tag (\<lambda>t. t\<lparr>id_qwc := id_qwc t AND 0x8c000000\<rparr>) s;
            s = upd_tag (\<lambda>t. t\<lparr>id_qwc := id_qwc t OR EE_DMATAG_ID EE_DMATAG_ID_REF\<rparr>) s;
            s = upd_tag (\<lambda>t. t\<lparr>id_qwc := id_qwc t OR reg_lw EE_DMAC_SIF1_QWC s\<rparr>) s;
            s = upd_tag (\<lambda>t. t\<lparr>tag_addr := reg_lw EE_DMAC_SIF1_MADR s\<rparr>) s;
            s = reg_sw 0 EE_DMAC_SIF1_QWC s
        in reg_sw (PHYSADDR (dmatag_addr s (cur_tag s))) EE_DMAC_SIF1_TADR s
      else upd_tag (\<lambda>t. t\<lparr>id_qwc := id_qwc t OR EE_DMATAG_ID EE_DMATAG_ID_REF\<rparr>) s)"

text \<open>The tag-counting loop and the loop that queues the transfers.\<close>

definition transfer_tags :: "tge_sifdma_transfer \<Rightarrow> u32" where
  "transfer_tags t =
     (if xf_attr t AND TGE_SIFDMA_ATTR_DMATAG \<noteq> 0 \<or> xf_size t \<le> 7 * 16 then 1 else 2)"

fun count_tags :: "tge_sifdma_transfer list \<Rightarrow> u32 \<Rightarrow> u32" where
  "count_tags [] ntags = ntags"
| "count_tags (t # ts) ntags = count_tags ts (ntags + transfer_tags t)"

fun queue_transfers :: "tge_sifdma_transfer list \<Rightarrow> 'a sifdma_scheme \<Rightarrow> 'a sifdma_scheme option" where
  "queue_transfers [] s = None"
| "queue_transfers [t] s =
     Some (sif_dma_transfer (xf_src t) (xf_dest t) (xf_size t) (xf_attr t) EE_DMATAG_ID_REFE s)"
| "queue_transfers (t # ts) s =
     queue_transfers ts
       (sif_dma_transfer (xf_src t) (xf_dest t) (xf_size t) (xf_attr t) EE_DMATAG_ID_REF s)"

definition sif1_stop :: "'a sifdma_scheme \<Rightarrow> 'a sifdma_scheme" where
  "sif1_stop s =
     (let s = reg_sw (reg_lw EE_DMAC_ENABLER s OR EE_DMAC_CPND) EE_DMAC_ENABLEW s;
          s = reg_sw 0 EE_DMAC_SIF1_CHCR s
      in reg_sw (reg_lw EE_DMAC_ENABLER s AND NOT EE_DMAC_CPND) EE_DMAC_ENABLEW s)"

definition sif1_start :: "'a sifdma_scheme \<Rightarrow> 'a sifdma_scheme" where
  "sif1_start s = reg_sw (reg_lw EE_DMAC_SIF1_CHCR s OR 0x184) EE_DMAC_SIF1_CHCR s"

definition dma_id :: "u32 \<Rightarrow> 'a sifdma_scheme \<Rightarrow> u32" where
  "dma_id ntags s =
     (let start = of_nat ((unat (sif1_dmatag_index s) + 1) mod 31) AND 0xff;
          count = (if start \<noteq> 0 then ucast (sif1_dma_count s) else ucast (sif1_dma_count s) + 1)
      in push_bit 16 count OR push_bit 8 start OR (ntags AND 0xff))"

definition SifSetDma ::
  "tge_sifdma_transfer list \<Rightarrow> 'a sifdma_scheme \<Rightarrow> (u32 \<times> 'a sifdma_scheme) option" where
  "SifSetDma transfer s =
     (let (status, s) = core_save_disable s;
          s = sif1_stop s;
          freetags = sif_get_number_of_free_dma_tags s;
          ntags = count_tags transfer 0;
          r = (if ntags \<le> freetags then
                 let id0 = dma_id ntags s
                 in (case queue_transfers transfer (sif_dma_setup_tag freetags s) of
                       None \<Rightarrow> None
                     | Some s \<Rightarrow> Some (id0, s))
               else Some (0, s))
      in (case r of None \<Rightarrow> None
          | Some (id0, s) \<Rightarrow> Some (id0, core_restore status (sif1_start s))))"

definition sif_dma_stat :: "u32 \<Rightarrow> 'a sifdma_scheme \<Rightarrow> u32 \<times> 'a sifdma_scheme" where
  "sif_dma_stat id0 s =
     (if reg_lw EE_DMAC_SIF1_CHCR s AND 0x100 = 0 then (- 1, s)
      else
        let (status, s) = core_save_disable s;
            ntags = id0 AND 0xff;
            starttag = drop_bit 8 id0 AND 0xff;
            lasttag = (starttag + ntags - 1) mod 31;
            count = (if lasttag \<noteq> 0 then signed_drop_bit 16 id0 else signed_drop_bit 16 id0 + 1);
            index = sif_dma_get_hw_index s;
            dma_count = (if ucast (sif1_dmatag_index s) < index
                         then ucast (sif1_dma_count s) - 1 else ucast (sif1_dma_count s))
        in if (dma_count = drop_bit 16 id0 \<or> dma_count = count)
              \<and> starttag \<le> index \<and> index \<le> lasttag
           then (0, s)
           else (- 1, core_restore status s))"

text \<open>
  \<open>sif_get_msflag\<close> and \<open>sif_get_smflag\<close> poll a register the IOP writes until two reads
  in a row agree. The values the hardware delivers are an input sequence; \<open>None\<close> means
  the sequence ended while the loop was still polling.
\<close>

fun sif_get_flag :: "u32 list \<Rightarrow> (u32 \<times> u32 list) option" where
  "sif_get_flag (v # w # rs) = (if v = w then Some (v, rs) else sif_get_flag rs)"
| "sif_get_flag _ = None"

definition sif_set_flag ::
  "u32 \<Rightarrow> u32 \<Rightarrow> u32 list \<Rightarrow> 'a sifdma_scheme \<Rightarrow> (u32 \<times> 'a sifdma_scheme) option" where
  "sif_set_flag flagreg val rs s =
     (let s = reg_sw val flagreg s
      in case sif_get_flag rs of None \<Rightarrow> None | Some (v, _) \<Rightarrow> Some (v, s))"

definition SYSTEM_CMD :: u32 where "SYSTEM_CMD = 0x80000000"

definition SifSetReg ::
  "u32 \<Rightarrow> u32 \<Rightarrow> u32 list \<Rightarrow> 'a sifdma_scheme \<Rightarrow> (u32 \<times> 'a sifdma_scheme) option" where
  "SifSetReg reg val rs s =
     (if reg = 1 then
        let s = reg_sw val EE_SIF_MAINADDR s in Some (reg_lw EE_SIF_MAINADDR s, s)
      else if reg = 3 then sif_set_flag EE_SIF_MSFLAG val rs s
      else if reg = 4 then sif_set_flag EE_SIF_SMFLAG val rs s
      else if reg AND SYSTEM_CMD \<noteq> 0 then
        let reg = reg AND NOT SYSTEM_CMD
        in if reg < 32 then Some (0, s\<lparr>sif_reg_table := (sif_reg_table s)[unat reg := val]\<rparr>)
           else Some (0, s)
      else Some (0, s))"

definition SifGetReg :: "u32 \<Rightarrow> u32 list \<Rightarrow> 'a sifdma_scheme \<Rightarrow> u32 option" where
  "SifGetReg reg rs s =
     (if reg = 1 then Some (reg_lw EE_SIF_MAINADDR s)
      else if reg = 2 then Some (reg_lw EE_SIF_SUBADDR s)
      else if reg = 3 then map_option fst (sif_get_flag rs)
      else if reg = 4 then map_option fst (sif_get_flag rs)
      else if reg AND SYSTEM_CMD \<noteq> 0 then
        let reg = reg AND NOT SYSTEM_CMD
        in if reg < 32 then Some (sif_reg_table s ! unat reg) else Some 0
      else Some 0)"

section \<open>Well-formed rings\<close>

definition ring_inv :: "'a sifdma_scheme \<Rightarrow> bool" where
  "ring_inv s \<longleftrightarrow> length (sif1_dmatags s) = 32 \<and> length (iop_dmatags s) = 32
     \<and> (\<forall>d \<in> set (iop_dmatags s). length (iop_data d) = 7) \<and> cur_tag s \<le> 30"

lemma ring_invD:
  assumes "ring_inv s"
  shows "length (sif1_dmatags s) = 32" "length (iop_dmatags s) = 32" "cur_tag s \<le> 30"
    "k < 32 \<Longrightarrow> length (iop_data (iop_dmatags s ! k)) = 7"
  using assms by (auto simp: ring_inv_def)

subsection \<open>One-field updates\<close>

lemma cur_tag_upd [simp]:
  "cur_tag (upd_tag f s) = cur_tag s" "cur_tag (upd_dtag d g s) = cur_tag s"
  "cur_tag (reg_sw v a s) = cur_tag s" "cur_tag (core_restore st s) = cur_tag s"
  by (simp_all add: cur_tag_def upd_tag_def upd_dtag_def reg_sw_def core_restore_def)

lemma tags_upd [simp]:
  "sif1_dmatags (upd_tag f s) = (sif1_dmatags s)[cur_tag s := f (sif1_dmatags s ! cur_tag s)]"
  "sif1_dmatags (upd_dtag d g s) = sif1_dmatags s"
  "sif1_dmatags (set_next_dmatag s) = sif1_dmatags s"
  "iop_dmatags (upd_tag f s) = iop_dmatags s"
  "iop_dmatags (upd_dtag d g s) = (iop_dmatags s)[d := g (iop_dmatags s ! d)]"
  "iop_dmatags (set_next_dmatag s) = iop_dmatags s"
  by (simp_all add: upd_tag_def upd_dtag_def set_next_dmatag_def Let_def)

lemma ring_frame [simp]:
  "mem (upd_tag f s) = mem s" "mem (upd_dtag d g s) = mem s" "mem (set_next_dmatag s) = mem s"
  "hwreg (upd_tag f s) = hwreg s" "hwreg (upd_dtag d g s) = hwreg s"
  "hwreg (set_next_dmatag s) = hwreg s"
  "cp0_status (upd_tag f s) = cp0_status s" "cp0_status (upd_dtag d g s) = cp0_status s"
  "cp0_status (set_next_dmatag s) = cp0_status s"
  "a_iop_dmatags (upd_tag f s) = a_iop_dmatags s" "a_iop_dmatags (upd_dtag d g s) = a_iop_dmatags s"
  "a_iop_dmatags (set_next_dmatag s) = a_iop_dmatags s"
  "a_sif1_dmatags (upd_tag f s) = a_sif1_dmatags s"
  "a_sif1_dmatags (upd_dtag d g s) = a_sif1_dmatags s"
  "a_sif1_dmatags (set_next_dmatag s) = a_sif1_dmatags s"
  by (simp_all add: upd_tag_def upd_dtag_def set_next_dmatag_def Let_def)

lemma reg_frame [simp]:
  "sif1_dmatags (reg_sw v a s) = sif1_dmatags s" "iop_dmatags (reg_sw v a s) = iop_dmatags s"
  "sif1_dmatags (core_restore st s) = sif1_dmatags s" "iop_dmatags (core_restore st s) = iop_dmatags s"
  "mem (reg_sw v a s) = mem s" "mem (core_restore st s) = mem s"
  "a_iop_dmatags (reg_sw v a s) = a_iop_dmatags s" "a_sif1_dmatags (reg_sw v a s) = a_sif1_dmatags s"
  "cp0_status (reg_sw v a s) = cp0_status s"
  by (simp_all add: reg_sw_def core_restore_def)

lemma cur_tag_next:
  assumes "cur_tag s \<le> 30"
  shows "cur_tag (set_next_dmatag s) = (cur_tag s + 1) mod 31"
proof -
  have u: "unat (sif1_dmatag_index s + 1) = cur_tag s + 1"
    using assms by (simp add: cur_tag_def unat_word_ariths)
  have "sif1_dmatag_index s + 1 = 31 \<longleftrightarrow> cur_tag s + 1 = 31"
    unfolding word_unat_eq_iff u by simp
  then show ?thesis
    using assms u by (auto simp: set_next_dmatag_def cur_tag_def Let_def)
qed

lemma copy_quads_append:
  "i + n \<le> length d \<Longrightarrow> copy_quads i n a s d
     = take i d @ map (\<lambda>j. ldq (a + 16 * of_nat j) s) [i..<i + n] @ drop (i + n) d"
proof (induction n arbitrary: i d)
  case 0
  then show ?case by simp
next
  case (Suc n)
  let ?v = "ldq (a + 16 * of_nat i) s"
  have "take (Suc i) (d[i := ?v]) = take i d @ [?v]"
    using Suc.prems by (simp add: take_Suc_conv_app_nth)
  moreover have "drop (Suc i + n) (d[i := ?v]) = drop (Suc i + n) d"
    by simp
  ultimately show ?case
    using Suc by (simp add: upt_rec [of i])
qed

lemma length_copy_quads [simp]: "length (copy_quads i n a s d) = length d"
  by (induction n arbitrary: i d) simp_all

section \<open>One transfer\<close>

text \<open>The tags one transfer really takes, and the ring slots after the current tag.\<close>

definition xfer_tags :: "u32 \<Rightarrow> u32 \<Rightarrow> nat" where
  "xfer_tags attr sz =
     (if attr AND TGE_SIFDMA_ATTR_DMATAG \<noteq> 0 \<or> \<not> (sz + 16 - 1) div 16 \<ge> 8 then 1 else 2)"

fun next_slots :: "nat \<Rightarrow> nat \<Rightarrow> nat list" where
  "next_slots c 0 = []"
| "next_slots c (Suc n) = ((c + 1) mod 31) # next_slots ((c + 1) mod 31) n"

lemma next_slots_mod: "next_slots (c mod 31) n = next_slots c n"
  by (cases n) (simp_all add: mod_Suc_eq)

lemma next_slots_append:
  "next_slots c (m + n) = next_slots c m @ next_slots ((c + m) mod 31) n"
proof (induction m arbitrary: c)
  case 0
  then show ?case by (simp add: next_slots_mod)
next
  case (Suc m)
  then show ?case by (simp add: mod_simps)
qed

lemma in_next_slots: "k \<in> set (next_slots c n) \<longleftrightarrow> (\<exists>j. 1 \<le> j \<and> j \<le> n \<and> k = (c + j) mod 31)"
proof (induction n arbitrary: c)
  case 0
  then show ?case by simp
next
  case (Suc n)
  have "(\<exists>j. 1 \<le> j \<and> j \<le> Suc n \<and> k = (c + j) mod 31)
      \<longleftrightarrow> k = (c + 1) mod 31 \<or> (\<exists>j. 1 \<le> j \<and> j \<le> n \<and> k = (c + Suc j) mod 31)"
    by (metis Suc_le_mono le_SucE le_add1 not0_implies_Suc not_one_le_zero plus_1_eq_Suc
        One_nat_def Suc_leI le_eq_less_or_eq zero_less_Suc le0)
  also have "\<dots> \<longleftrightarrow> k \<in> set (next_slots c (Suc n))"
    by (simp add: Suc.IH mod_simps)
  finally show ?case by blast
qed

lemma qwc_ge_8: "sz \<le> 0xfffffff0 \<Longrightarrow> 8 \<le> (sz + 16 - 1 :: u32) div 16 \<longleftrightarrow> 112 < sz"
proof -
  assume "sz \<le> 0xfffffff0"
  then have sz: "unat sz \<le> 0xfffffff0" by (simp add: word_le_nat_alt)
  have "unat (15 + sz) = unat sz + 15"
    using sz by (simp add: unat_word_ariths)
  then have "unat ((sz + 16 - 1) div 16) = (unat sz + 15) div 16"
    by (simp add: unat_div)
  moreover have "8 \<le> (unat sz + 15) div 16 \<longleftrightarrow> 112 < unat sz"
    by arith
  ultimately show ?thesis
    unfolding word_le_nat_alt [of 8] word_less_nat_alt by simp
qed

lemma xfer_tags_eq:
  "xf_size t \<le> 0xfffffff0 \<Longrightarrow> unat (transfer_tags t) = xfer_tags (xf_attr t) (xf_size t)"
  using qwc_ge_8 [of "xf_size t"] by (auto simp: transfer_tags_def xfer_tags_def not_less)

lemma cur_tag_transfer:
  "cur_tag s \<le> 30 \<Longrightarrow>
   cur_tag (sif_dma_transfer src dest sz attr id0 s) = (cur_tag s + xfer_tags attr sz) mod 31"
  by (simp add: sif_dma_transfer_def xfer_tags_def Let_def cur_tag_next mod_simps)

lemma ring_inv_transfer:
  assumes "ring_inv s"
  shows "ring_inv (sif_dma_transfer src dest sz attr id0 s)"
proof -
  have "cur_tag (sif_dma_transfer src dest sz attr id0 s) \<le> 30"
    using ring_invD(3) [OF assms] cur_tag_transfer [of s src dest sz attr id0] by simp
  moreover have "(cur_tag s + 1) mod 31 < 32" by (rule order_less_trans [of _ 31]) auto
  ultimately show ?thesis
    using assms ring_invD [OF assms] unfolding ring_inv_def
    by (auto simp: sif_dma_transfer_def Let_def cur_tag_next set_update_memI
        dest!: set_update_subset_insert [THEN subsetD] split: if_splits)
qed

lemma transfer_frame:
  assumes "ring_inv s" "k \<notin> set (next_slots (cur_tag s) (xfer_tags attr sz))"
  shows "sif1_dmatags (sif_dma_transfer src dest sz attr id0 s) ! k = sif1_dmatags s ! k"
    "iop_dmatags (sif_dma_transfer src dest sz attr id0 s) ! k = iop_dmatags s ! k"
  using assms ring_invD [OF assms(1)]
  by (auto simp: sif_dma_transfer_def xfer_tags_def Let_def cur_tag_next numeral_2_eq_2
      nth_list_update split: if_splits)

lemma transfer_mem [simp]:
  "mem (sif_dma_transfer src dest sz attr id0 s) = mem s"
  "hwreg (sif_dma_transfer src dest sz attr id0 s) = hwreg s"
  "a_iop_dmatags (sif_dma_transfer src dest sz attr id0 s) = a_iop_dmatags s"
  "a_sif1_dmatags (sif_dma_transfer src dest sz attr id0 s) = a_sif1_dmatags s"
  "cp0_status (sif_dma_transfer src dest sz attr id0 s) = cp0_status s"
  by (simp_all add: sif_dma_transfer_def Let_def)

section \<open>A list of transfers\<close>

definition total_tags :: "tge_sifdma_transfer list \<Rightarrow> nat" where
  "total_tags ts = (\<Sum>t\<leftarrow>ts. xfer_tags (xf_attr t) (xf_size t))"

text \<open>Sizes for which \<open>size + 15\<close> does not wrap around.\<close>

definition sizes_ok :: "tge_sifdma_transfer list \<Rightarrow> bool" where
  "sizes_ok ts \<longleftrightarrow> list_all (\<lambda>t. xf_size t \<le> 0xfffffff0) ts"

lemma total_tags_simps [simp]:
  "total_tags [] = 0" "total_tags (t # ts) = xfer_tags (xf_attr t) (xf_size t) + total_tags ts"
  by (simp_all add: total_tags_def)

lemma sizes_ok_simps [simp]:
  "sizes_ok []" "sizes_ok (t # ts) \<longleftrightarrow> xf_size t \<le> 0xfffffff0 \<and> sizes_ok ts"
  by (simp_all add: sizes_ok_def)

lemma total_tags_bounds: "length ts \<le> total_tags ts" "total_tags ts \<le> 2 * length ts"
  by (induction ts) (auto simp: xfer_tags_def)

lemma count_tags_total:
  "sizes_ok ts \<Longrightarrow> count_tags ts n = n + of_nat (total_tags ts)"
proof (induction ts arbitrary: n)
  case (Cons t ts)
  have "transfer_tags t = of_nat (xfer_tags (xf_attr t) (xf_size t))"
    using Cons.prems xfer_tags_eq [of t, symmetric] by simp
  with Cons show ?case by simp
qed simp

lemma unat_count_tags:
  assumes "sizes_ok ts" "length ts < 2 ^ 31"
  shows "unat (count_tags ts 0) = total_tags ts"
  using total_tags_bounds(2) [of ts] assms
  by (simp add: count_tags_total unat_of_nat_lt)

text \<open>
  What queueing does to the ring: it moves the current tag by the number of tags used,
  and only writes the slots in between.
\<close>

definition ring_extends :: "nat \<Rightarrow> 'a sifdma_scheme \<Rightarrow> 'a sifdma_scheme \<Rightarrow> bool" where
  "ring_extends n s s' \<longleftrightarrow> ring_inv s' \<and> cur_tag s' = (cur_tag s + n) mod 31
     \<and> (\<forall>k. k \<notin> set (next_slots (cur_tag s) n) \<longrightarrow>
            sif1_dmatags s' ! k = sif1_dmatags s ! k \<and> iop_dmatags s' ! k = iop_dmatags s ! k)
     \<and> mem s' = mem s \<and> hwreg s' = hwreg s \<and> cp0_status s' = cp0_status s
     \<and> a_iop_dmatags s' = a_iop_dmatags s \<and> a_sif1_dmatags s' = a_sif1_dmatags s"

lemma ring_extends_transfer:
  "ring_inv s \<Longrightarrow> ring_extends (xfer_tags attr sz) s (sif_dma_transfer src dest sz attr id0 s)"
  by (simp add: ring_extends_def ring_inv_transfer cur_tag_transfer ring_invD(3) transfer_frame)

lemma ring_extends_trans:
  assumes "ring_extends m s t" "ring_extends n t u"
  shows "ring_extends (m + n) s u"
  using assms by (auto simp: ring_extends_def next_slots_append mod_simps add.assoc)

lemma queue_transfers_extends:
  assumes "ring_inv s" "ts \<noteq> []"
  shows "\<exists>s'. queue_transfers ts s = Some s' \<and> ring_extends (total_tags ts) s s'"
  using assms
proof (induction ts s rule: queue_transfers.induct)
  case (2 t s)
  then show ?case by (simp add: ring_extends_transfer)
next
  case (3 t t' ts s)
  let ?s = "sif_dma_transfer (xf_src t) (xf_dest t) (xf_size t) (xf_attr t) EE_DMATAG_ID_REF s"
  have ext: "ring_extends (xfer_tags (xf_attr t) (xf_size t)) s ?s"
    using 3 by (simp add: ring_extends_transfer)
  moreover obtain s' where "queue_transfers (t' # ts) ?s = Some s'"
      "ring_extends (total_tags (t' # ts)) ?s s'"
    using 3 ext by (auto simp: ring_extends_def)
  ultimately show ?case
    using ring_extends_trans by fastforce
qed simp

section \<open>Free tags\<close>

definition hw_tag :: "'a sifdma_scheme \<Rightarrow> nat" where
  "hw_tag s = unat (sif_dma_get_hw_index s)"

text \<open>The tags the hardware has not finished: from the one it is at up to the current one.\<close>

definition pending :: "'a sifdma_scheme \<Rightarrow> nat \<Rightarrow> bool" where
  "pending s k \<longleftrightarrow>
     \<not> (hw_tag s = cur_tag s \<and> reg_lw EE_DMAC_SIF1_QWC s = 0)
     \<and> (\<exists>j \<le> (cur_tag s + 31 - hw_tag s) mod 31. k = (hw_tag s + j) mod 31)"

lemma free_tags:
  assumes "cur_tag s \<le> 30" "hw_tag s \<le> 30"
  shows "unat (sif_get_number_of_free_dma_tags s) =
    (if hw_tag s = cur_tag s then (if reg_lw EE_DMAC_SIF1_QWC s \<noteq> 0 then 30 else 31)
     else (hw_tag s + 30 - cur_tag s) mod 31)"
proof -
  define h where "h = sif_dma_get_hw_index s"
  define c :: u32 where "c = ucast (sif1_dmatag_index s)"
  have c: "unat c = cur_tag s" by (simp add: c_def cur_tag_def unat_ucast_up)
  have h: "unat h = hw_tag s" by (simp add: h_def hw_tag_def)
  have hc: "h = of_nat (hw_tag s)" "c = of_nat (cur_tag s)"
    by (simp_all flip: h c)
  have free: "sif_get_number_of_free_dma_tags s =
    (if h = c then (if reg_lw EE_DMAC_SIF1_QWC s \<noteq> 0 then 30 else 31)
     else if h < c then h - c + 30 else h - c - 1)"
    by (simp add: sif_get_number_of_free_dma_tags_def h_def c_def sif_dma_get_hw_index_def Let_def)
  show ?thesis
  proof (cases "h = c")
    case True
    then show ?thesis using c h by (simp add: free)
  next
    case ne: False
    then have ne': "hw_tag s \<noteq> cur_tag s" using c h by (metis word_unat_eq_iff)
    show ?thesis
    proof (cases "h < c")
      case True
      then have lt: "hw_tag s < cur_tag s" using c h by (simp add: word_less_nat_alt)
      have "h - c + 30 = of_nat (hw_tag s + 30 - cur_tag s)"
        using lt assms unfolding hc by (simp add: of_nat_diff)
      then have "unat (h - c + 30) = hw_tag s + 30 - cur_tag s"
        using lt assms by (simp only:) (rule unat_of_nat_lt, simp)
      then show ?thesis
        using lt assms ne ne' True by (simp add: free)
    next
      case False
      then have lt: "cur_tag s < hw_tag s" using c h ne' by (simp add: word_less_nat_alt)
      have "h - c - 1 = of_nat (hw_tag s - cur_tag s - 1)"
        using lt assms unfolding hc by (simp add: of_nat_diff)
      then have "unat (h - c - 1) = hw_tag s - cur_tag s - 1"
        using assms by (simp only:) (rule unat_of_nat_lt, simp)
      moreover have "(hw_tag s + 30 - cur_tag s) mod 31 = hw_tag s - cur_tag s - 1"
        using lt assms by (simp add: mod_if)
      ultimately show ?thesis
        using lt assms ne ne' False by (simp add: free)
    qed
  qed
qed

text \<open>As many new slots as there are free tags never reach a pending tag.\<close>

lemma next_slots_not_pending:
  assumes "cur_tag s \<le> 30" "hw_tag s \<le> 30"
    and "n \<le> unat (sif_get_number_of_free_dma_tags s)" "pending s k"
  shows "k \<notin> set (next_slots (cur_tag s) n)"
proof
  assume "k \<in> set (next_slots (cur_tag s) n)"
  then obtain i where i: "1 \<le> i" "i \<le> n" "k = (cur_tag s + i) mod 31"
    by (auto simp: in_next_slots)
  obtain j where j: "j \<le> (cur_tag s + 31 - hw_tag s) mod 31" "k = (hw_tag s + j) mod 31"
    using assms(4) by (auto simp: pending_def)
  have n: "n \<le> (if hw_tag s = cur_tag s then 30 else (hw_tag s + 30 - cur_tag s) mod 31)"
    using assms free_tags [OF assms(1,2)] by (auto simp: pending_def split: if_splits)
  have fold: "x mod 31 = (if x < 31 then x else x - 31)" if "x < 62" for x :: nat
    using that by (simp add: mod_if)
  have "n \<le> 30" using n by (auto split: if_splits simp: less_Suc_eq_le [symmetric])
  then have ki: "k = (if cur_tag s + i < 31 then cur_tag s + i else cur_tag s + i - 31)"
    using i assms fold [of "cur_tag s + i"] by simp
  have d: "(cur_tag s + 31 - hw_tag s) mod 31 =
      (if cur_tag s < hw_tag s then cur_tag s + 31 - hw_tag s else cur_tag s - hw_tag s)"
    using assms fold [of "cur_tag s + 31 - hw_tag s"] by auto
  then have kj: "k = (if hw_tag s + j < 31 then hw_tag s + j else hw_tag s + j - 31)"
    using j assms fold [of "hw_tag s + j"] by (auto split: if_splits)
  have f: "(hw_tag s + 30 - cur_tag s) mod 31 =
      (if hw_tag s \<le> cur_tag s then hw_tag s + 30 - cur_tag s else hw_tag s - cur_tag s - 1)"
    using assms fold [of "hw_tag s + 30 - cur_tag s"] by auto
  show False
    using ki kj d f i j(1) n assms(1,2) by (simp split: if_splits) arith+
qed

section \<open>SifSetDma\<close>

lemma sif1_stop_frame [simp]:
  "ring_inv (sif1_stop s) = ring_inv s" "cur_tag (sif1_stop s) = cur_tag s"
  "sif1_dmatags (sif1_stop s) = sif1_dmatags s" "iop_dmatags (sif1_stop s) = iop_dmatags s"
  "mem (sif1_stop s) = mem s" "hw_tag (sif1_stop s) = hw_tag s"
  "reg_lw EE_DMAC_SIF1_QWC (sif1_stop s) = reg_lw EE_DMAC_SIF1_QWC s"
  "sif_get_number_of_free_dma_tags (sif1_stop s) = sif_get_number_of_free_dma_tags s"
  "cp0_status (sif1_stop s) = cp0_status s" "dma_id n (sif1_stop s) = dma_id n s"
  by (simp_all add: sif1_stop_def ring_inv_def reg_sw_def reg_lw_def cur_tag_def hw_tag_def
      sif_dma_get_hw_index_def sif_get_number_of_free_dma_tags_def reg_simps dma_id_def Let_def)

lemma status_only [simp]:
  "ring_inv (s\<lparr>cp0_status := x\<rparr>) = ring_inv s" "cur_tag (s\<lparr>cp0_status := x\<rparr>) = cur_tag s"
  "hw_tag (s\<lparr>cp0_status := x\<rparr>) = hw_tag s"
  "sif_get_number_of_free_dma_tags (s\<lparr>cp0_status := x\<rparr>) = sif_get_number_of_free_dma_tags s"
  "dma_id n (s\<lparr>cp0_status := x\<rparr>) = dma_id n s"
  by (simp_all add: ring_inv_def cur_tag_def hw_tag_def sif_dma_get_hw_index_def reg_lw_def
      sif_get_number_of_free_dma_tags_def dma_id_def Let_def)

lemma sif1_start_frame [simp]:
  "ring_inv (sif1_start s) = ring_inv s" "cur_tag (sif1_start s) = cur_tag s"
  "sif1_dmatags (sif1_start s) = sif1_dmatags s" "iop_dmatags (sif1_start s) = iop_dmatags s"
  "mem (sif1_start s) = mem s" "cp0_status (sif1_start s) = cp0_status s"
  "a_iop_dmatags (sif1_start s) = a_iop_dmatags s"
  by (simp_all add: sif1_start_def ring_inv_def)

lemma ring_inv_restore [simp]: "ring_inv (core_restore st s) = ring_inv s"
  by (simp add: ring_inv_def)

lemma setup_tag_frame:
  "cur_tag (sif_dma_setup_tag n s) = cur_tag s"
  "iop_dmatags (sif_dma_setup_tag n s) = iop_dmatags s"
  "k \<noteq> cur_tag s \<Longrightarrow> sif1_dmatags (sif_dma_setup_tag n s) ! k = sif1_dmatags s ! k"
  "ring_inv s \<Longrightarrow> ring_inv (sif_dma_setup_tag n s)"
  "mem (sif_dma_setup_tag n s) = mem s" "cp0_status (sif_dma_setup_tag n s) = cp0_status s"
  by (simp_all add: sif_dma_setup_tag_def Let_def ring_inv_def)

text \<open>
  What \<open>sif_dma_setup_tag\<close> does to the current tag: with everything free, nothing; with the
  hardware in the middle of it, the tag becomes the rest of the transfer and the hardware is
  sent back to it; otherwise only its end marker goes.
\<close>

definition continued_tag :: "'a sifdma_scheme \<Rightarrow> ee_dmatag" where
  "continued_tag s = (let t = sif1_dmatags s ! cur_tag s; free = sif_get_number_of_free_dma_tags s in
     if free = 31 then t
     else if free = 30
       then \<lparr>id_qwc = (id_qwc t AND 0x8c000000) OR EE_DMATAG_ID EE_DMATAG_ID_REF
                OR reg_lw EE_DMAC_SIF1_QWC s,
             tag_addr = reg_lw EE_DMAC_SIF1_MADR s\<rparr>
     else t\<lparr>id_qwc := id_qwc t OR EE_DMATAG_ID EE_DMATAG_ID_REF\<rparr>)"

definition chain_regs :: "'a sifdma_scheme \<Rightarrow> u32 \<times> u32 \<times> u32" where
  "chain_regs s = (reg_lw EE_DMAC_SIF1_TADR s, reg_lw EE_DMAC_SIF1_QWC s, reg_lw EE_DMAC_SIF1_MADR s)"

lemma setup_tag_current:
  assumes "ring_inv s" "t = sif_dma_setup_tag (sif_get_number_of_free_dma_tags s) s"
  shows "sif1_dmatags t ! cur_tag s = continued_tag s"
    "chain_regs t = (if sif_get_number_of_free_dma_tags s = 30
       then (PHYSADDR (dmatag_addr s (cur_tag s)), 0, reg_lw EE_DMAC_SIF1_MADR s) else chain_regs s)"
  using assms(2) ring_invD [OF assms(1)]
  by (cases "sif1_dmatags s ! cur_tag s"; simp add: sif_dma_setup_tag_def continued_tag_def chain_regs_def reg_lw_def reg_sw_def
      dmatag_addr_def upd_tag_def cur_tag_def reg_simps or.assoc Let_def)+

lemma chain_regs_frame [simp]:
  "chain_regs (s\<lparr>cp0_status := x\<rparr>) = chain_regs s" "chain_regs (core_restore st s) = chain_regs s"
  "chain_regs (sif1_stop s) = chain_regs s" "chain_regs (sif1_start s) = chain_regs s"
  "continued_tag (s\<lparr>cp0_status := x\<rparr>) = continued_tag s"
  "continued_tag (sif1_stop s) = continued_tag s"
  "dmatag_addr (s\<lparr>cp0_status := x\<rparr>) i = dmatag_addr s i" "dmatag_addr (sif1_stop s) i = dmatag_addr s i"
  by (simp_all add: chain_regs_def sif1_stop_def sif1_start_def core_restore_def reg_lw_def reg_sw_def
      continued_tag_def dmatag_addr_def cur_tag_def sif_get_number_of_free_dma_tags_def reg_simps Let_def)

lemma dma_id_nonzero:
  assumes "1 \<le> n" "n \<le> 31"
  shows "dma_id n s \<noteq> 0"
proof -
  have "n AND 0xff = n"
  proof -
    have "(0xff :: u32) = mask 8" by (simp add: mask_eq_exp_minus_1)
    moreover have "take_bit 8 n = n"
      using assms by (simp only: word_unat_eq_iff unat_take_bit_mod) (simp add: word_le_nat_alt)
    ultimately show ?thesis by (simp only: and_mask_take_bit)
  qed
  then have "n AND 0xff \<noteq> 0" using assms by auto
  then show ?thesis by (auto simp: dma_id_def Let_def or_eq_0_iff)
qed

lemma dma_id_queued:
  fixes s :: "'a sifdma_scheme"
  assumes "ring_inv s" "hw_tag s \<le> 30" "ts \<noteq> []" "sizes_ok ts" "length ts < 2 ^ 31"
    and "count_tags ts 0 \<le> sif_get_number_of_free_dma_tags s"
  shows "dma_id (count_tags ts 0) s \<noteq> 0"
proof -
  have n: "total_tags ts \<le> unat (sif_get_number_of_free_dma_tags s)"
    using assms(6) unat_count_tags [OF assms(4,5)] by (simp add: word_le_nat_alt)
  have free: "unat (sif_get_number_of_free_dma_tags s) \<le> 31"
    using free_tags [OF ring_invD(3) [OF assms(1)] assms(2)] by (simp add: less_imp_le)
  have "1 \<le> length ts" using assms(3) by (cases ts) auto
  then have "1 \<le> total_tags ts" using total_tags_bounds(1) [of ts] by linarith
  then show ?thesis
    using n free unat_count_tags [OF assms(4,5)]
    by (intro dma_id_nonzero) (simp_all add: word_le_nat_alt)
qed

lemma pending_free_tags:
  assumes "cur_tag s \<le> 30" "hw_tag s \<le> 30" "pending s k"
  shows "sif_get_number_of_free_dma_tags s \<noteq> 31"
    "sif_get_number_of_free_dma_tags s = 30 \<longleftrightarrow> hw_tag s = cur_tag s"
proof -
  have "unat (sif_get_number_of_free_dma_tags s) = 30 \<longleftrightarrow> hw_tag s = cur_tag s"
    "unat (sif_get_number_of_free_dma_tags s) \<noteq> 31"
    using assms free_tags [OF assms(1,2)] by (auto simp: pending_def mod_if split: if_splits)
  then show "sif_get_number_of_free_dma_tags s \<noteq> 31"
    "sif_get_number_of_free_dma_tags s = 30 \<longleftrightarrow> hw_tag s = cur_tag s"
    by (simp_all add: word_unat_eq_iff)
qed

text \<open>Every case of \<open>SifSetDma\<close>, with what it does to the ring.\<close>

lemma SifSetDma_cases:
  fixes s :: "'a sifdma_scheme"
  assumes "ring_inv s" "ts \<noteq> []"
  obtains (full) "\<not> count_tags ts 0 \<le> sif_get_number_of_free_dma_tags s"
      and "\<exists>s'. SifSetDma ts s = Some (0, s') \<and> ring_inv s' \<and> cur_tag s' = cur_tag s
        \<and> sif1_dmatags s' = sif1_dmatags s \<and> iop_dmatags s' = iop_dmatags s \<and> mem s' = mem s
        \<and> cp0_status s' = cp0_status s \<and> chain_regs s' = chain_regs s"
  | (queued) t u s' :: "'a sifdma_scheme" where "count_tags ts 0 \<le> sif_get_number_of_free_dma_tags s"
      and "SifSetDma ts s = Some (dma_id (count_tags ts 0) s, s')"
      and "ring_inv t" "cur_tag t = cur_tag s" "iop_dmatags t = iop_dmatags s"
      and "\<And>k. k \<noteq> cur_tag s \<Longrightarrow> sif1_dmatags t ! k = sif1_dmatags s ! k"
      and "ring_extends (total_tags ts) t u"
      and "sif1_dmatags s' = sif1_dmatags u" "iop_dmatags s' = iop_dmatags u"
      and "cur_tag s' = cur_tag u" "ring_inv s'" "mem s' = mem s" "cp0_status s' = cp0_status s"
      and "sif1_dmatags t ! cur_tag s = continued_tag s"
      and "chain_regs s' = (if sif_get_number_of_free_dma_tags s = 30
             then (PHYSADDR (dmatag_addr s (cur_tag s)), 0, reg_lw EE_DMAC_SIF1_MADR s) else chain_regs s)"
proof -
  define s1 where "s1 = sif1_stop (s\<lparr>cp0_status := (cp0_status s OR 1) XOR 1\<rparr>)"
  have s1: "ring_inv s1" "cur_tag s1 = cur_tag s" "sif1_dmatags s1 = sif1_dmatags s"
      "iop_dmatags s1 = iop_dmatags s" "mem s1 = mem s"
      "cp0_status s1 = (cp0_status s OR 1) XOR 1"
      "sif_get_number_of_free_dma_tags s1 = sif_get_number_of_free_dma_tags s"
      "dma_id n s1 = dma_id n s" "chain_regs s1 = chain_regs s" "continued_tag s1 = continued_tag s"
      "dmatag_addr s1 i = dmatag_addr s i" for n i
    using assms(1) by (simp_all add: s1_def)
  show thesis
  proof (cases "count_tags ts 0 \<le> sif_get_number_of_free_dma_tags s")
    case False
    have "SifSetDma ts s = Some (0, core_restore (cp0_status s) (sif1_start s1))"
      using False s1 by (simp add: SifSetDma_def core_save_disable_def s1_def [symmetric] Let_def)
    then show thesis
      using full False s1 by (simp add: core_restore_id)
  next
    case True
    define t where "t = sif_dma_setup_tag (sif_get_number_of_free_dma_tags s) s1"
    have t: "ring_inv t" "cur_tag t = cur_tag s" "iop_dmatags t = iop_dmatags s"
      "k \<noteq> cur_tag s \<Longrightarrow> sif1_dmatags t ! k = sif1_dmatags s ! k"
      "mem t = mem s" "cp0_status t = cp0_status s1" for k
      using s1 by (simp_all add: t_def setup_tag_frame)
    obtain u where u: "queue_transfers ts t = Some u" "ring_extends (total_tags ts) t u"
      using queue_transfers_extends [OF t(1) assms(2)] by blast
    define s' where "s' = core_restore (cp0_status s) (sif1_start u)"
    have eq: "SifSetDma ts s = Some (dma_id (count_tags ts 0) s, s')"
      using True s1 u
      by (simp add: SifSetDma_def core_save_disable_def s1_def [symmetric] t_def [symmetric]
          s'_def Let_def)
    have fin: "sif1_dmatags s' = sif1_dmatags u" "iop_dmatags s' = iop_dmatags u"
        "cur_tag s' = cur_tag u" "ring_inv s'" "mem s' = mem s"
      using u(2) t(5) by (simp_all add: s'_def ring_extends_def)
    have st: "cp0_status s' = cp0_status s"
      using u(2) t(6) s1(6) by (simp add: s'_def core_restore_saved ring_extends_def)
    note cur = setup_tag_current [OF s1(1), of t, unfolded s1(7), OF t_def]
    have ct: "sif1_dmatags t ! cur_tag s = continued_tag s" using cur(1) s1 by simp
    have "hwreg u = hwreg t" using u(2) by (simp add: ring_extends_def)
    then have "chain_regs s' = chain_regs t"
      by (simp add: s'_def) (simp add: chain_regs_def reg_lw_def)
    then have cr: "chain_regs s' = (if sif_get_number_of_free_dma_tags s = 30
        then (PHYSADDR (dmatag_addr s (cur_tag s)), 0, reg_lw EE_DMAC_SIF1_MADR s) else chain_regs s)"
      using cur(2) s1 by (simp add: chain_regs_def)
    show thesis
      by (rule queued [OF True eq t(1-4) u(2) fin st ct cr])
  qed
qed

section \<open>What the DMA controller fetches\<close>

text \<open>
  The receiving side as the documentation of the DMA controller has it: a source-chain tag
  names the quadwords at its address, as many as the low 16 bits of its first word say.
  Quadwords at the address of an IOP tag are that tag (its \<open>pad64\<close> is never written and is
  zero) and the data behind it; all others come from main memory.
\<close>

definition tag_qwc :: "ee_dmatag \<Rightarrow> nat" where
  "tag_qwc t = unat (id_qwc t AND 0xffff)"

definition dtag_quads :: "iop_dmatag \<Rightarrow> quad list" where
  "dtag_quads d = (iop_addr d, iop_size d, 0, 0) # iop_data d"

definition fetch :: "'a sifdma_scheme \<Rightarrow> u32 \<Rightarrow> nat \<Rightarrow> quad list" where
  "fetch s a n =
     (case find (\<lambda>k. PHYSADDR (iop_dmatag_addr s k) = a) [0..<32] of
        Some k \<Rightarrow> take n (dtag_quads (iop_dmatags s ! k))
      | None \<Rightarrow> map (\<lambda>i. ldq (a + 16 * of_nat i) s) [0..<n])"

definition fetch_tags :: "'a sifdma_scheme \<Rightarrow> nat list \<Rightarrow> quad list" where
  "fetch_tags s ks = concat (map (\<lambda>k. fetch s (tag_addr (sif1_dmatags s ! k))
                                          (tag_qwc (sif1_dmatags s ! k))) ks)"

lemma tag_qwc_word:
  assumes "q < 0x10000"
  shows "unat ((EE_DMATAG_ID_QWC i q OR dma_irq attr) AND 0xffff) = unat q"
    "unat (EE_DMATAG_ID_QWC i q AND 0xffff) = unat q"
proof -
  have m: "(0xffff :: u32) = mask 16" by (simp add: mask_eq_exp_minus_1)
  have q: "q AND 0xffff = q"
    using assms
    by (simp only: m and_mask_take_bit word_unat_eq_iff unat_take_bit_mod) (simp add: word_less_nat_alt)
  have i: "EE_DMATAG_ID i AND 0xffff = 0"
    by (simp only: m and_mask_take_bit EE_DMATAG_ID_def) (simp add: take_bit_push_bit)
  have r: "dma_irq attr AND 0xffff = 0"
    by (simp add: dma_irq_def EE_DMATAG_IRQ_def)
  show "unat ((EE_DMATAG_ID_QWC i q OR dma_irq attr) AND 0xffff) = unat q"
    "unat (EE_DMATAG_ID_QWC i q AND 0xffff) = unat q"
    by (simp_all only: EE_DMATAG_ID_QWC_def bit.conj_disj_distrib2 i q r) simp_all
qed

lemma iop_dmatag_addr_inj:
  assumes "i < 32" "j < 32"
  shows "PHYSADDR (iop_dmatag_addr s i) = PHYSADDR (iop_dmatag_addr s j) \<longleftrightarrow> i = j"
  using PHYSADDR_offset_eq_iff [of "128 * i" "128 * j" "a_iop_dmatags s"] assms
  by (simp add: iop_dmatag_addr_def)

lemma find_dtag:
  assumes "k < 32"
  shows "find (\<lambda>j. PHYSADDR (iop_dmatag_addr s j) = PHYSADDR (iop_dmatag_addr s k)) [0..<32] = Some k"
proof -
  have "PHYSADDR (iop_dmatag_addr s j) \<noteq> PHYSADDR (iop_dmatag_addr s k)" if "j < k" for j
    using that assms by (simp add: iop_dmatag_addr_inj)
  then show ?thesis
    using assms by (auto simp: find_Some_iff intro!: exI [of _ k])
qed

lemma fetch_dtag:
  "k < 32 \<Longrightarrow> fetch s (PHYSADDR (iop_dmatag_addr s k)) n = take n (dtag_quads (iop_dmatags s ! k))"
  by (simp add: fetch_def find_dtag)

lemma fetch_mem:
  assumes "\<And>k. k < 32 \<Longrightarrow> PHYSADDR (iop_dmatag_addr s k) \<noteq> a"
  shows "fetch s a n = map (\<lambda>i. ldq (a + 16 * of_nat i) s) [0..<n]"
proof -
  have "find (\<lambda>k. PHYSADDR (iop_dmatag_addr s k) = a) [0..<32] = None"
    using assms by (auto simp: find_None_iff)
  then show ?thesis by (simp add: fetch_def)
qed

lemma ldq_PHYSADDR_offset: "ldq (PHYSADDR a + b) s = ldq (a + b) s"
  by (simp add: ldq_def ldw_def PHYSADDR_add_left add.assoc)

text \<open>The address word the IOP sees for a transfer.\<close>

definition iop_addr_word :: "u32 \<Rightarrow> u32 \<Rightarrow> u32" where
  "iop_addr_word dest attr = (dest AND 0x00ffffff)
     OR (if attr AND TGE_SIFDMA_ATTR_INT_O \<noteq> 0 then 0x40000000 else 0)
     OR (if attr AND TGE_SIFDMA_ATTR_ERT \<noteq> 0 then 0x80000000 else 0)"

lemma ldq_ring [simp]:
  "ldq a (upd_tag f s) = ldq a s" "ldq a (upd_dtag d g s) = ldq a s" "ldq a (set_next_dmatag s) = ldq a s"
  "ldq a (sif_dma_transfer src dest sz attr id0 s) = ldq a s"
  by (simp_all add: ldq_def ldw_def)

lemma iop_dmatag_addr_ring [simp]:
  "iop_dmatag_addr (upd_tag f s) k = iop_dmatag_addr s k"
  "iop_dmatag_addr (upd_dtag d g s) k = iop_dmatag_addr s k"
  "iop_dmatag_addr (set_next_dmatag s) k = iop_dmatag_addr s k"
  "iop_dmatag_addr (sif_dma_transfer src dest sz attr id0 s) k = iop_dmatag_addr s k"
  by (simp_all add: iop_dmatag_addr_def)

lemma copied_data:
  assumes "length d = 7" "n \<le> 7"
  shows "take n (copy_quads 0 n (KSEG1ADDR src) s d) = map (\<lambda>i. ldq (src + 16 * of_nat i) s) [0..<n]"
  using assms by (simp add: copy_quads_append ldq_KSEG1_offset)

lemma copied_data_full:
  assumes "length d = 7"
  shows "copy_quads 0 7 (KSEG1ADDR src) s d = map (\<lambda>i. ldq (src + 16 * of_nat i) s) [0..<7]"
  using copied_data [OF assms, of 7 src s] assms by (simp del: upt_rec_numeral)

text \<open>The ring after a transfer that fits behind the IOP tag, and after one that does not.\<close>

lemma transfer_small:
  assumes "ring_inv s" "attr AND TGE_SIFDMA_ATTR_DMATAG = 0" "\<not> 8 \<le> (sz + 16 - 1) div 16"
    and s': "s' = sif_dma_transfer src dest sz attr id0 s" and c: "c = (cur_tag s + 1) mod 31"
    and q: "q = (sz + 16 - 1) div 16"
  shows "id_qwc (sif1_dmatags s' ! c) = EE_DMATAG_ID_QWC id0 (q + 1) OR dma_irq attr"
    and "tag_addr (sif1_dmatags s' ! c) = PHYSADDR (iop_dmatag_addr s' c)"
    and "take (Suc (unat q)) (dtag_quads (iop_dmatags s' ! c)) =
           (iop_addr_word dest attr, q * 4, 0, 0) # map (\<lambda>i. ldq (src + 16 * of_nat i) s) [0..<unat q]"
proof -
  have c32: "c < 32" and len: "length (iop_data (iop_dmatags s ! c)) = 7"
    using ring_invD(4) [OF assms(1), of c] c by simp_all
  have q7: "unat q \<le> 7" using assms(3) q by (simp add: word_le_nat_alt)
  note defs = s' sif_dma_transfer_def Let_def cur_tag_next ring_invD [OF assms(1)]
  show "id_qwc (sif1_dmatags s' ! c) = EE_DMATAG_ID_QWC id0 (q + 1) OR dma_irq attr"
    using assms(2,3) c32 c q by (simp add: defs)
  show "tag_addr (sif1_dmatags s' ! c) = PHYSADDR (iop_dmatag_addr s' c)"
    using assms(2,3) c32 c q by (simp add: defs)
  show "take (Suc (unat q)) (dtag_quads (iop_dmatags s' ! c)) =
      (iop_addr_word dest attr, q * 4, 0, 0) # map (\<lambda>i. ldq (src + 16 * of_nat i) s) [0..<unat q]"
    using assms(2,3) c32 c q len q7
    by (simp add: defs dtag_quads_def iop_addr_word_def copied_data)
qed

lemma transfer_large:
  assumes "ring_inv s" "attr AND TGE_SIFDMA_ATTR_DMATAG = 0" "8 \<le> (sz + 16 - 1) div 16"
    and s': "s' = sif_dma_transfer src dest sz attr id0 s" and c: "c = (cur_tag s + 1) mod 31"
    and d: "d = (cur_tag s + 2) mod 31" and q: "q = (sz + 16 - 1) div 16"
  shows "id_qwc (sif1_dmatags s' ! c) = EE_DMATAG_ID_QWC EE_DMATAG_ID_REF 8"
    and "tag_addr (sif1_dmatags s' ! c) = PHYSADDR (iop_dmatag_addr s' c)"
    and "id_qwc (sif1_dmatags s' ! d) = EE_DMATAG_ID_QWC id0 (q - 7) OR dma_irq attr"
    and "tag_addr (sif1_dmatags s' ! d) = PHYSADDR (src + 112)"
    and "take 8 (dtag_quads (iop_dmatags s' ! c)) =
           (iop_addr_word dest attr, q * 4, 0, 0) # map (\<lambda>i. ldq (src + 16 * of_nat i) s) [0..<7]"
proof -
  have c32: "c < 32" "d < 32" and len: "length (iop_data (iop_dmatags s ! c)) = 7"
    using ring_invD(4) [OF assms(1), of c] c d by simp_all
  have ne: "c \<noteq> d" using ring_invD(3) [OF assms(1)] c d by (auto simp: mod_if)
  have d': "d = (c + 1) mod 31" using c d by (simp add: mod_simps)
  have c30: "c \<le> 30" using c by simp
  note defs = s' sif_dma_transfer_def Let_def cur_tag_next ring_invD [OF assms(1)]
  have cd: "Suc (cur_tag s) mod 31 = c" "Suc c mod 31 = d" using c d' by simp_all
  show "id_qwc (sif1_dmatags s' ! c) = EE_DMATAG_ID_QWC EE_DMATAG_ID_REF 8"
    using assms(2,3) c32 c30 ne by (simp add: defs cd)
  show "tag_addr (sif1_dmatags s' ! c) = PHYSADDR (iop_dmatag_addr s' c)"
    using assms(2,3) c32 c30 ne by (simp add: defs cd)
  show "id_qwc (sif1_dmatags s' ! d) = EE_DMATAG_ID_QWC id0 (q - 7) OR dma_irq attr"
    using assms(2,3) c32 c30 q by (simp add: defs cd)
  show "tag_addr (sif1_dmatags s' ! d) = PHYSADDR (src + 112)"
    using assms(2,3) c32 c30 by (simp add: defs cd)
  show "take 8 (dtag_quads (iop_dmatags s' ! c)) =
      (iop_addr_word dest attr, q * 4, 0, 0) # map (\<lambda>i. ldq (src + 16 * of_nat i) s) [0..<7]"
    using assms(2,3) c32 c30 q len
    by (simp add: defs cd dtag_quads_def iop_addr_word_def copied_data_full del: upt_rec_numeral)
qed

lemma unat_qwc:
  assumes "sz \<le> 0xfffffff0"
  shows "unat ((sz + 16 - 1 :: u32) div 16) = (unat sz + 15) div 16"
proof -
  have "unat sz \<le> 0xfffffff0" using assms by (simp add: word_le_nat_alt)
  then have "unat (15 + sz) = unat sz + 15" by (simp add: unat_word_ariths)
  then show ?thesis by (simp add: unat_div)
qed

lemma next_slots_one_two [simp]:
  "next_slots c (Suc 0) = [(c + 1) mod 31]" "next_slots c 2 = [(c + 1) mod 31, (c + 2) mod 31]"
  by (simp_all add: numeral_2_eq_2 mod_simps)

subsection \<open>Virtual registers\<close>

lemma bit_SYSTEM_CMD: "bit SYSTEM_CMD n \<longleftrightarrow> n = 31"
proof -
  have *: "SYSTEM_CMD = 2 ^ 31" by (simp add: SYSTEM_CMD_def)
  show ?thesis unfolding * bit_exp_iff by auto
qed

lemma not_bit_31_small: "k < 32 \<Longrightarrow> \<not> bit (k :: u32) 31"
proof -
  assume "k < 32"
  then have "take_bit 5 k = k"
    by (simp only: word_unat_eq_iff unat_take_bit_mod) (simp add: word_less_nat_alt)
  moreover have "\<not> bit (take_bit 5 k) 31" by (simp add: bit_take_bit_iff)
  ultimately show ?thesis by simp
qed

lemma SYSTEM_CMD_index:
  assumes "k < 32"
  shows "(SYSTEM_CMD OR k) AND NOT SYSTEM_CMD = k" "(SYSTEM_CMD OR k) AND SYSTEM_CMD \<noteq> 0"
proof -
  show "(SYSTEM_CMD OR k) AND NOT SYSTEM_CMD = k"
    using not_bit_31_small [OF assms] by (auto intro!: bit_word_eqI simp: bit_simps bit_SYSTEM_CMD)
  have "bit ((SYSTEM_CMD OR k) AND SYSTEM_CMD) 31" by (simp add: bit_simps bit_SYSTEM_CMD)
  then show "(SYSTEM_CMD OR k) AND SYSTEM_CMD \<noteq> 0" by auto
qed

lemma SYSTEM_CMD_special:
  "SYSTEM_CMD OR k \<noteq> 1" "SYSTEM_CMD OR k \<noteq> 2" "SYSTEM_CMD OR k \<noteq> 3" "SYSTEM_CMD OR k \<noteq> 4"
proof -
  have "bit (SYSTEM_CMD OR k) 31" by (simp add: bit_simps bit_SYSTEM_CMD)
  moreover have "\<not> bit (1 :: u32) 31" "\<not> bit (2 :: u32) 31" "\<not> bit (3 :: u32) 31" "\<not> bit (4 :: u32) 31"
    by (simp_all add: not_bit_31_small)
  ultimately show "SYSTEM_CMD OR k \<noteq> 1" "SYSTEM_CMD OR k \<noteq> 2" "SYSTEM_CMD OR k \<noteq> 3"
    "SYSTEM_CMD OR k \<noteq> 4"
    by metis+
qed

lemma unat_less_32: "i < (32 :: u32) \<Longrightarrow> unat i < 32"
  by (simp add: word_less_nat_alt)

text \<open>What the controller delivers, for data that fits behind the IOP tag and for data that does not.\<close>

lemma stream_small:
  fixes s :: "'a sifdma_scheme"
  assumes "ring_inv s" "attr AND TGE_SIFDMA_ATTR_DMATAG = 0"
    and s': "s' = sif_dma_transfer src dest sz attr id0 s"
    and q_def: "q = (sz + 16 - 1) div 16" and False: "\<not> 8 \<le> (sz + 16 - 1) div 16"
  shows "fetch_tags s' (next_slots (cur_tag s) (xfer_tags attr sz)) =
    (iop_addr_word dest attr, q * 4, 0, 0) # map (\<lambda>i. ldq (src + 16 * of_nat i) s) [0..<unat q]"
proof -
  define c where "c = (cur_tag s + 1) mod 31"
  note small = transfer_small [OF assms(1,2) False s' c_def q_def]
  have "unat q \<le> 7" using False by (simp add: q_def word_le_nat_alt)
  then have "q + 1 < 0x10000" and u: "unat (q + 1) = Suc (unat q)"
    by (simp_all add: word_less_nat_alt unat_word_ariths)
  then have "tag_qwc (sif1_dmatags s' ! c) = Suc (unat q)"
    by (simp only: tag_qwc_def small(1) tag_qwc_word)
  moreover have "next_slots (cur_tag s) (xfer_tags attr sz) = [c]"
    using False by (simp add: xfer_tags_def c_def)
  moreover have "c < 32" by (simp add: c_def)
  ultimately show ?thesis
    by (simp only: fetch_tags_def list.map concat.simps append_Nil2 small(2,3) fetch_dtag)
qed

lemma stream_large:
  fixes s :: "'a sifdma_scheme"
  assumes "ring_inv s" "attr AND TGE_SIFDMA_ATTR_DMATAG = 0"
    and sep: "\<And>k. k < 32 \<Longrightarrow> PHYSADDR (iop_dmatag_addr s k) \<noteq> PHYSADDR (src + 112)"
    and s': "s' = sif_dma_transfer src dest sz attr id0 s"
    and q_def: "q = (sz + 16 - 1) div 16" and True: "8 \<le> (sz + 16 - 1) div 16" and qb: "unat q \<le> 0x10000"
  shows "fetch_tags s' (next_slots (cur_tag s) (xfer_tags attr sz)) =
    (iop_addr_word dest attr, q * 4, 0, 0) # map (\<lambda>i. ldq (src + 16 * of_nat i) s) [0..<unat q]"
proof -
  have ldq': "ldq a s' = ldq a s" for a by (simp add: s')
  define c d where "c = (cur_tag s + 1) mod 31" and "d = (cur_tag s + 2) mod 31"
  note large = transfer_large [OF assms(1,2) True s' c_def d_def q_def]
  have q8: "8 \<le> unat q" using True by (simp add: q_def word_le_nat_alt)
  then have u: "unat (q - 7) = unat q - 7" by (simp add: unat_sub word_le_nat_alt)
  then have "q - 7 < 0x10000" using qb by (simp add: word_less_nat_alt)
  then have n2: "tag_qwc (sif1_dmatags s' ! d) = unat q - 7"
    by (simp only: tag_qwc_def large(3) tag_qwc_word u)
  have n1: "tag_qwc (sif1_dmatags s' ! c) = 8"
    by (simp add: tag_qwc_def large(1) tag_qwc_word)
  have sep': "PHYSADDR (iop_dmatag_addr s' k) \<noteq> PHYSADDR (src + 112)" if "k < 32" for k
    using sep [OF that] by (simp add: s')
  have rest: "ldq (PHYSADDR (src + 112) + 16 * of_nat i) s' = ldq (src + 16 * of_nat (7 + i)) s" for i
    by (simp add: ldq' ldq_PHYSADDR_offset distrib_left add.assoc)
  have "map (\<lambda>i. ldq (PHYSADDR (src + 112) + 16 * of_nat i) s') [0..<unat q - 7]
      = map (\<lambda>i. ldq (src + 16 * of_nat i) s) [7..<unat q]"
    using q8 by (intro nth_equalityI) (simp_all only: rest length_map length_upt nth_map nth_upt, simp_all)
  moreover have "[0..<unat q] = [0..<7] @ [7..<unat q]"
    using q8 upt_add_eq_append [of 0 7 "unat q - 7"] by simp
  moreover have "next_slots (cur_tag s) (xfer_tags attr sz) = [c, d]"
    using True assms(2) by (simp add: xfer_tags_def c_def d_def)
  moreover have "c < 32" by (simp add: c_def)
  ultimately show ?thesis
    by (simp only: fetch_tags_def list.map concat.simps append_Nil2 n1 n2 large(2,4,5) fetch_dtag
        fetch_mem [OF sep'] map_append append_Cons)
qed

section \<open>Properties\<close>

text \<open>
  C8. The tags that one transfer appends make the DMA controller deliver, in this order, the
  header quadword for the IOP (destination with its flag bits, size in words) and then the
  source data quadword by quadword, whether the data fits behind the IOP tag or is split
  between the copied seven quadwords and the rest in place.
\<close>

theorem sif_dma_transfer_stream:
  fixes s :: "'a sifdma_scheme"
  assumes "ring_inv s" "attr AND TGE_SIFDMA_ATTR_DMATAG = 0" "sz \<le> 0x100000"
    and sep: "\<And>k. k < 32 \<Longrightarrow> PHYSADDR (iop_dmatag_addr s k) \<noteq> PHYSADDR (src + 112)"
    and s': "s' = sif_dma_transfer src dest sz attr id0 s"
  shows "fetch_tags s' (next_slots (cur_tag s) (xfer_tags attr sz)) =
    (iop_addr_word dest attr, 4 * of_nat ((unat sz + 15) div 16), 0, 0)
      # map (\<lambda>i. ldq (src + 16 * of_nat i) s) [0..<(unat sz + 15) div 16]"
proof -
  define q :: u32 where "q = (sz + 16 - 1) div 16"
  have "sz \<le> 0xfffffff0" by (rule order_trans [OF assms(3)]) simp
  then have uq: "unat q = (unat sz + 15) div 16" by (simp only: q_def unat_qwc)
  then have q4: "q * 4 = 4 * of_nat ((unat sz + 15) div 16)" by (simp flip: uq)
  have "unat sz \<le> 0x100000" using assms(3) by (simp add: word_le_nat_alt)
  then have qb: "unat q \<le> 0x10000" using uq by simp
  show ?thesis
    using stream_small [OF assms(1,2) s' q_def] stream_large [OF assms(1,2) sep s' q_def _ qb] unfolding q4 uq by blast
qed

text \<open>
  C1. Queueing transfers never disturbs a transfer the hardware has not finished. For every
  pending tag the IOP tag with its payload is unchanged, and so is the DMA tag itself unless
  it is the last one queued before, which must be continued. When the hardware has not reached
  that tag yet, it keeps its address and its size and only gets the identifier that goes on to
  the next tag; when the hardware is in the middle of it, it becomes what the hardware has left
  to do (the remaining quadwords at the address reached) and the hardware is sent back to it.
  When the list does not fit nothing changes. The jump-back tag 31 is never written.
\<close>

theorem SifSetDma_spares_pending:
  assumes "ring_inv s" "hw_tag s \<le> 30" "ts \<noteq> []" "sizes_ok ts" "length ts < 2 ^ 31"
    and "SifSetDma ts s = Some (id0, s')"
  shows "(pending s k \<longrightarrow> iop_dmatags s' ! k = iop_dmatags s ! k
            \<and> (k \<noteq> cur_tag s \<or> id0 = 0 \<longrightarrow> sif1_dmatags s' ! k = sif1_dmatags s ! k))
         \<and> (pending s (cur_tag s) \<and> id0 \<noteq> 0 \<longrightarrow>
              (let t = sif1_dmatags s ! cur_tag s; t' = sif1_dmatags s' ! cur_tag s in
                if hw_tag s = cur_tag s
                then t' = \<lparr>id_qwc = (id_qwc t AND 0x8c000000) OR EE_DMATAG_ID EE_DMATAG_ID_REF
                                    OR reg_lw EE_DMAC_SIF1_QWC s,
                           tag_addr = reg_lw EE_DMAC_SIF1_MADR s\<rparr>
                  \<and> reg_lw EE_DMAC_SIF1_TADR s' = PHYSADDR (dmatag_addr s (cur_tag s))
                  \<and> reg_lw EE_DMAC_SIF1_QWC s' = 0
                else t' = t\<lparr>id_qwc := id_qwc t OR EE_DMATAG_ID EE_DMATAG_ID_REF\<rparr>
                  \<and> reg_lw EE_DMAC_SIF1_TADR s' = reg_lw EE_DMAC_SIF1_TADR s
                  \<and> reg_lw EE_DMAC_SIF1_QWC s' = reg_lw EE_DMAC_SIF1_QWC s))
         \<and> sif1_dmatags s' ! 31 = sif1_dmatags s ! 31"
  using assms(1,3)
proof (cases rule: SifSetDma_cases)
  case full
  then show ?thesis using assms(6) by auto
next
  case (queued t u v)
  have v: "v = s'" and id0: "id0 \<noteq> 0"
    using queued(1,2) assms(6) dma_id_queued [OF assms(1-5)] by auto
  have n: "total_tags ts \<le> unat (sif_get_number_of_free_dma_tags s)"
    using queued(1) unat_count_tags [OF assms(4,5)] by (simp add: word_le_nat_alt)
  have "k \<notin> set (next_slots (cur_tag s) (total_tags ts))" if "pending s k" for k
    using next_slots_not_pending [OF _ assms(2) n that] ring_invD(3) [OF assms(1)] .
  note np = this
  have s31: "31 \<notin> set (next_slots (cur_tag s) (total_tags ts))"
    by (auto simp: in_next_slots)
  have c31: "cur_tag s \<noteq> 31" using ring_invD(3) [OF assms(1)] by simp
  have cur: "pending s (cur_tag s) \<Longrightarrow> sif1_dmatags s' ! cur_tag s = continued_tag s"
    using np [of "cur_tag s"] queued v by (simp add: ring_extends_def)
  note free = pending_free_tags [OF ring_invD(3) [OF assms(1)] assms(2)]
  show ?thesis
  proof (intro conjI impI)
    show "sif1_dmatags s' ! 31 = sif1_dmatags s ! 31"
      using queued v s31 c31 by (simp add: ring_extends_def)
  next
    assume "pending s (cur_tag s) \<and> id0 \<noteq> 0"
    then have p: "pending s (cur_tag s)" by simp
    show "let t = sif1_dmatags s ! cur_tag s; t' = sif1_dmatags s' ! cur_tag s in
        if hw_tag s = cur_tag s
        then t' = \<lparr>id_qwc = (id_qwc t AND 0x8c000000) OR EE_DMATAG_ID EE_DMATAG_ID_REF
                            OR reg_lw EE_DMAC_SIF1_QWC s,
                   tag_addr = reg_lw EE_DMAC_SIF1_MADR s\<rparr>
          \<and> reg_lw EE_DMAC_SIF1_TADR s' = PHYSADDR (dmatag_addr s (cur_tag s))
          \<and> reg_lw EE_DMAC_SIF1_QWC s' = 0
        else t' = t\<lparr>id_qwc := id_qwc t OR EE_DMATAG_ID EE_DMATAG_ID_REF\<rparr>
          \<and> reg_lw EE_DMAC_SIF1_TADR s' = reg_lw EE_DMAC_SIF1_TADR s
          \<and> reg_lw EE_DMAC_SIF1_QWC s' = reg_lw EE_DMAC_SIF1_QWC s"
      using cur [OF p] free [OF p] queued(15) v
      by (cases "hw_tag s = cur_tag s") (simp_all add: continued_tag_def chain_regs_def Let_def)
  qed (use queued v np id0 in \<open>simp_all add: ring_extends_def\<close>)
qed

text \<open>
  C6. \<open>SifSetDma\<close> always returns for a nonempty transfer list. It returns 0 exactly when the
  list needs more tags than are free, and then the ring is left as it was; otherwise the
  current tag moves by the number of tags the list needs. Either way the ring stays well
  formed and the interrupt state of the caller is restored.
\<close>

theorem SifSetDma_result:
  assumes "ring_inv s" "hw_tag s \<le> 30" "ts \<noteq> []" "sizes_ok ts" "length ts < 2 ^ 31"
  shows "\<exists>id0 s'. SifSetDma ts s = Some (id0, s') \<and> ring_inv s' \<and> cp0_status s' = cp0_status s
    \<and> (id0 = 0 \<longleftrightarrow> unat (sif_get_number_of_free_dma_tags s) < total_tags ts)
    \<and> cur_tag s' = (if id0 = 0 then cur_tag s else (cur_tag s + total_tags ts) mod 31)
    \<and> (id0 = 0 \<longrightarrow> sif1_dmatags s' = sif1_dmatags s \<and> iop_dmatags s' = iop_dmatags s)"
  using assms(1,3)
proof (cases rule: SifSetDma_cases)
  case full
  then show ?thesis
    using unat_count_tags [OF assms(4,5)] by (auto simp: word_le_nat_alt)
next
  case (queued t u v)
  have n: "total_tags ts \<le> unat (sif_get_number_of_free_dma_tags s)"
    using queued(1) unat_count_tags [OF assms(4,5)] by (simp add: word_le_nat_alt)
  then show ?thesis
    using queued dma_id_queued [OF assms queued(1)] by (auto simp: ring_extends_def)
qed

text \<open>
  \<open>sbcall_sifinit\<close> on the zeroed static tag arrays makes a well-formed ring whose 31
  usable tags are all free, with tag 31 jumping back to tag 0.
\<close>

theorem sifinit_all_free:
  assumes "\<not> sif_initialized s" "length (sif1_dmatags s) = 32" "length (iop_dmatags s) = 32"
    and "\<forall>d \<in> set (iop_dmatags s). length (iop_data d) = 7"
    and s': "s' = sbcall_sifinit s"
  shows "ring_inv s' \<and> sif_get_number_of_free_dma_tags s' = 31 \<and> (\<forall>k. \<not> pending s' k)
    \<and> sif1_dmatags s' ! 31 = \<lparr>id_qwc = 0x20000000, tag_addr = PHYSADDR (a_sif1_dmatags s),
                               \<dots> = ee_dmatag.more (sif1_dmatags s ! 31)\<rparr>
    \<and> cp0_status s' = cp0_status s"
proof -
  have status: "cp0_status s' = cp0_status s"
    using assms(1) core_restore_saved [of "s\<lparr>cp0_status := (cp0_status s OR 1) XOR 1\<rparr>" "cp0_status s"]
    by (simp add: s' sbcall_sifinit_def sbcall_sifsetdchain_def sif_dma_init_def ops)
  have inv: "ring_inv s'" and hw: "hw_tag s' = 30" "cur_tag s' = 30" "reg_lw EE_DMAC_SIF1_QWC s' = 0"
    using assms
    by (simp_all add: sbcall_sifinit_def sbcall_sifsetdchain_def sif_dma_init_def ring_inv_def
        cur_tag_def hw_tag_def sif_dma_get_hw_index_def reg_simps ops)
  have "unat (sif_get_number_of_free_dma_tags s') = 31"
    using free_tags [of s'] hw by simp
  then have free: "sif_get_number_of_free_dma_tags s' = 31"
    by (simp add: word_unat_eq_iff)
  have "sif1_dmatags s' ! 31 = \<lparr>id_qwc = 0x20000000, tag_addr = PHYSADDR (a_sif1_dmatags s),
      \<dots> = ee_dmatag.more (sif1_dmatags s ! 31)\<rparr>"
    using assms by (simp add: sbcall_sifinit_def sbcall_sifsetdchain_def sif_dma_init_def
        EE_DMATAG_ID_def ops)
  with inv free status hw show ?thesis by (simp add: pending_def)
qed

text \<open>
  A virtual SIF register (bit 31 set, index below 32) keeps what was last stored in it,
  and storing into one leaves every other one alone.
\<close>

theorem SifSetReg_SifGetReg:
  assumes "i < 32" "j < 32" "length (sif_reg_table s) = 32"
  shows "\<exists>s'. SifSetReg (SYSTEM_CMD OR i) v rs s = Some (0, s')
    \<and> SifGetReg (SYSTEM_CMD OR j) rs' s'
        = (if i = j then Some v else SifGetReg (SYSTEM_CMD OR j) rs' s)"
proof -
  have "SYSTEM_CMD \<noteq> 0" by (simp add: SYSTEM_CMD_def)
  note idx = this SYSTEM_CMD_index SYSTEM_CMD_special
  show ?thesis
    using assms by (auto simp: SifSetReg_def SifGetReg_def Let_def idx unat_less_32
        simp flip: word_unat_eq_iff)
qed

text \<open>
  \<open>sif_dma_stat\<close> changes nothing but the interrupt-enable bit: when it answers that the
  transfer is still running (0) it returns with interrupts disabled, otherwise with the
  caller's status.
\<close>

theorem sif_dma_stat_status:
  assumes "sif_dma_stat id0 s = (r, s')"
  shows "s' = (if r = 0 then s\<lparr>cp0_status := (cp0_status s OR 1) XOR 1\<rparr> else s)"
  using assms core_restore_id [of "s\<lparr>cp0_status := (cp0_status s OR 1) XOR 1\<rparr>" "cp0_status s"]
  by (auto simp: sif_dma_stat_def core_save_disable_def Let_def split: if_splits)

section \<open>Witnesses\<close>

text \<open>
  A ring in use: software is at tag 5, the hardware still at tag 3 with two quadwords to go,
  so tags 3, 4 and 5 are pending and 28 are free.
\<close>

definition sample_dma :: sifdma where
  "sample_dma = \<lparr>cp0_status = 0x10c01,
     hwreg = (\<lambda>_. 0)(EE_DMAC_SIF1_TADR := 0x100040, EE_DMAC_SIF1_QWC := 2, EE_DMAC_SIF1_CHCR := 0x184),
     mem = (\<lambda>a. a), dcache_wb = [], sif_initialized = False, sif_reg_table = replicate 32 0,
     sif1_dmatag_index = 5, sif1_dma_count = 0,
     sif1_dmatags = replicate 32 \<lparr>id_qwc = 0, tag_addr = 0\<rparr>,
     iop_dmatags = replicate 32 \<lparr>iop_addr = 0, iop_size = 0, iop_data = replicate 7 (0, 0, 0, 0)\<rparr>,
     a_sif1_dmatags = 0x80100000, a_iop_dmatags = 0x80101000\<rparr>"

definition sample_xfer :: tge_sifdma_transfer where
  "sample_xfer = \<lparr>xf_src = 0x80200000, xf_dest = 0x1000, xf_size = 200, xf_attr = 4\<rparr>"

lemma sample_ring [simp]:
  "ring_inv sample_dma" "hw_tag sample_dma = 3" "cur_tag sample_dma = 5" "pending sample_dma 4"
  "unat (sif_get_number_of_free_dma_tags sample_dma) = 28"
  by code_simp+

lemma sample_list [simp]:
  "xf_size sample_xfer \<le> 0xfffffff0" "xfer_tags (xf_attr sample_xfer) (xf_size sample_xfer) = 2"
  by code_simp+

theorem SifSetDma_spares_pending_witness:
  "\<exists>id0 s'. SifSetDma [sample_xfer] sample_dma = Some (id0, s') \<and> pending sample_dma 4
     \<and> iop_dmatags s' ! 4 = iop_dmatags sample_dma ! 4
     \<and> sif1_dmatags s' ! 4 = sif1_dmatags sample_dma ! 4
     \<and> sif1_dmatags s' ! 5 = \<lparr>id_qwc = 0x30000000, tag_addr = 0\<rparr>"
proof -
  have fits: "count_tags [sample_xfer] 0 \<le> sif_get_number_of_free_dma_tags sample_dma"
    by code_simp
  obtain id0 s' where s': "SifSetDma [sample_xfer] sample_dma = Some (id0, s')" "id0 \<noteq> 0"
  proof (rule SifSetDma_cases [of sample_dma "[sample_xfer]"])
    show "ring_inv sample_dma" "[sample_xfer] \<noteq> []" by simp_all
  next
    assume "\<not> count_tags [sample_xfer] 0 \<le> sif_get_number_of_free_dma_tags sample_dma"
    then show ?thesis using fits by blast
  qed (use that fits dma_id_queued [of sample_dma "[sample_xfer]"] in \<open>simp del: count_tags.simps\<close>)
  have "pending sample_dma 5" "sif1_dmatags sample_dma ! 5 = \<lparr>id_qwc = 0, tag_addr = 0\<rparr>"
    "EE_DMATAG_ID EE_DMATAG_ID_REF = 0x30000000"
    by code_simp+
  then show ?thesis
    using s' SifSetDma_spares_pending [of sample_dma "[sample_xfer]" id0 s' 4] by simp
qed

theorem SifSetDma_result_witness:
  "\<exists>id0 s'. SifSetDma [sample_xfer] sample_dma = Some (id0, s') \<and> id0 \<noteq> 0 \<and> cur_tag s' = 7"
  using SifSetDma_result [of sample_dma "[sample_xfer]"] by (auto split: if_split_asm)

theorem sif_dma_transfer_stream_witness:
  "fetch_tags (sif_dma_transfer 0x80200000 0x1000 200 4 EE_DMATAG_ID_REFE sample_dma)
     (next_slots 5 2) = (0x40001000, 52, 0, 0) # map (\<lambda>i. ldq (0x80200000 + 16 * of_nat i) sample_dma) [0..<13]"
proof -
  have "xfer_tags 4 200 = 2" "iop_addr_word 0x1000 4 = 0x40001000" by code_simp+
  moreover have "PHYSADDR (iop_dmatag_addr sample_dma k) \<noteq> PHYSADDR (0x80200000 + 112)" if "k < 32" for k
  proof -
    have "list_all (\<lambda>k. PHYSADDR (iop_dmatag_addr sample_dma k) \<noteq> PHYSADDR (0x80200000 + 112)) [0..<32]"
      by code_simp
    then show ?thesis using that by (simp add: list_all_iff)
  qed
  ultimately show ?thesis
    using sif_dma_transfer_stream [of sample_dma 4 200 "0x80200000" _ "0x1000" EE_DMATAG_ID_REFE]
    by (simp add: reg_simps)
qed

theorem sifinit_all_free_witness:
  "sif_get_number_of_free_dma_tags (sbcall_sifinit sample_dma) = 31"
  using sifinit_all_free [of sample_dma, OF _ _ _ _ refl] by (simp add: sample_dma_def)

theorem SifSetReg_SifGetReg_witness:
  "\<exists>s'. SifSetReg (SYSTEM_CMD OR 3) 7 [] sample_dma = Some (0, s')
     \<and> SifGetReg (SYSTEM_CMD OR 3) [] s' = Some 7"
  using SifSetReg_SifGetReg [of 3 3 sample_dma 7 "[]" "[]"] by (simp add: sample_dma_def)

theorem sif_dma_stat_status_witness:
  "\<exists>s'. sif_dma_stat 0x0304 sample_dma = (0, s') \<and> cp0_status s' = 0x10c00"
proof -
  have r: "fst (sif_dma_stat 0x0304 sample_dma) = 0" by code_simp
  obtain r' s' where eq: "sif_dma_stat 0x0304 sample_dma = (r', s')" by (cases "sif_dma_stat 0x0304 sample_dma")
  show ?thesis
    using r eq sif_dma_stat_status [OF eq] by (simp add: sample_dma_def)
qed

end
