(* ===== verification/SifCmd.thy ===== *)
theory SifCmd
  imports SifDma
begin

text \<open>
  The SIF command layer (\<open>TGE/sbios/sifcmd.c\<close>): sending a command packet to the IOP through
  SIF1, and dispatching the packets the IOP delivers into \<open>pktbuf\<close> to registered handlers.

  Packets and the software registers are words of main memory. The two handler tables are one
  store of cells indexed by address (a cell is 8 bytes), so that a buffer installed by the
  kernel and the built-in table are treated alike. A function pointer is one of the functions
  of this program or the address of another one; what a call does is the parameter \<open>call\<close> of
  the dispatcher, \<open>None\<close> standing for a call that does not return.
\<close>

section \<open>State\<close>

datatype cmd_fn = Fn_null | Fn_change_addr | Fn_set_sreg | Fn_request_end | Fn_request_bind
  | Fn_request_call | Fn_request_rdata | Fn_ext u32

text \<open>
  \<open>cd_\<close> fields are \<open>_sif_cmd_data\<close>; \<open>a_\<close> fields are link-time addresses of static objects
  and \<open>a_irq_packet\<close> the aligned stack buffer of the interrupt handler.
\<close>

record sifcmd = sifdma +
  sbios_iopaddr :: u32
  cmd_initialized :: bool
  cd_pktbuf :: u32
  cd_cmdbuf :: u32
  cd_iopbuf :: u32
  cd_sys_cmd_handlers :: u32
  cd_nr_sys_handlers :: u32
  cd_usr_cmd_handlers :: u32
  cd_nr_usr_handlers :: u32
  cd_sregs :: u32
  cmd_cells :: "u32 \<Rightarrow> cmd_fn \<times> u32"
  a_pktbuf :: u32
  a_cmdbuf :: u32
  a_sifCmdInitPkt :: u32
  a_sif_cmd_data :: u32
  a_sifCmdSysBuffer :: u32
  a_sregs :: u32
  a_irq_packet :: u32

definition CMD_PACKET_DATA_MAX :: u32 where "CMD_PACKET_DATA_MAX = 112"
definition CMD_HANDLER_MAX :: nat where "CMD_HANDLER_MAX = 32"
definition SIF_CMD_CHANGE_SADDR :: u32 where "SIF_CMD_CHANGE_SADDR = SYSTEM_CMD OR 0x00"
definition E_LIB_INVALID_ARG :: u32 where "E_LIB_INVALID_ARG = 0xd606"

text \<open>Words of a \<open>tge_sifcmd_header_t\<close>.\<close>

definition h_size :: "u32 \<Rightarrow> u32" where "h_size p = p"
definition h_dest :: "u32 \<Rightarrow> u32" where "h_dest p = p + 4"
definition h_fid :: "u32 \<Rightarrow> u32" where "h_fid p = p + 8"
definition h_option :: "u32 \<Rightarrow> u32" where "h_option p = p + 12"

lemmas hdr_fields = h_size_def h_dest_def h_fid_def h_option_def

section \<open>Sending\<close>

definition sif_cmd_send ::
  "u32 \<Rightarrow> u32 \<Rightarrow> u32 \<Rightarrow> u32 \<Rightarrow> u32 \<Rightarrow> u32 \<Rightarrow> u32 \<Rightarrow> 'a sifcmd_scheme \<Rightarrow> (u32 \<times> 'a sifcmd_scheme) option" where
  "sif_cmd_send fid flags packet packet_size src dest sz s =
     (if packet_size > CMD_PACKET_DATA_MAX then Some (- E_LIB_INVALID_ARG, s)
      else
        let s = stw fid (h_fid packet) s;
            s = stw packet_size (h_size packet) s;
            s = stw 0 (h_dest packet) s;
            (transfer, s) =
              (if sz > 0 then
                 let s = stw dest (h_dest packet) s;
                     s = stw (packet_size OR push_bit 8 sz) (h_size packet) s;
                     s = (if flags AND 4 \<noteq> 0 then SifWriteBackDCache src sz s else s)
                 in ([\<lparr>xf_src = src, xf_dest = dest, xf_size = sz, xf_attr = 0\<rparr>], s)
               else ([], stw 0 (h_option packet) s));
            transfer = transfer @ [\<lparr>xf_src = packet, xf_dest = cd_iopbuf s, xf_size = packet_size,
                                    xf_attr = TGE_SIFDMA_ATTR_ERT OR TGE_SIFDMA_ATTR_INT_O\<rparr>];
            s = SifWriteBackDCache packet packet_size s
        in SifSetDma transfer s)"

definition SifSendCmd ::
  "u32 \<Rightarrow> u32 \<Rightarrow> u32 \<Rightarrow> u32 \<Rightarrow> u32 \<Rightarrow> u32 \<Rightarrow> 'a sifcmd_scheme \<Rightarrow> (u32 \<times> 'a sifcmd_scheme) option" where
  "SifSendCmd fid packet packet_size src dest sz s =
     sif_cmd_send fid 0 packet packet_size src dest sz s"

definition iSifSendCmd ::
  "u32 \<Rightarrow> u32 \<Rightarrow> u32 \<Rightarrow> u32 \<Rightarrow> u32 \<Rightarrow> u32 \<Rightarrow> 'a sifcmd_scheme \<Rightarrow> (u32 \<times> 'a sifcmd_scheme) option" where
  "iSifSendCmd fid packet packet_size src dest sz s =
     sif_cmd_send fid 0 packet packet_size src dest sz s"

section \<open>Handlers\<close>

text \<open>Element \<open>i\<close> of a handler table.\<close>

definition cell :: "u32 \<Rightarrow> u32 \<Rightarrow> u32" where
  "cell base i = base + 8 * i"

definition upd_cell :: "u32 \<Rightarrow> (cmd_fn \<times> u32 \<Rightarrow> cmd_fn \<times> u32) \<Rightarrow> 'a sifcmd_scheme \<Rightarrow> 'a sifcmd_scheme" where
  "upd_cell a f s = s\<lparr>cmd_cells := (cmd_cells s)(a := f (cmd_cells s a))\<rparr>"

definition SifAddCmdHandler :: "u32 \<Rightarrow> cmd_fn \<Rightarrow> u32 \<Rightarrow> 'a sifcmd_scheme \<Rightarrow> 'a sifcmd_scheme" where
  "SifAddCmdHandler fid handler harg s =
     (if fid AND SYSTEM_CMD \<noteq> 0 then
        (if cd_sys_cmd_handlers s \<noteq> 0
         then upd_cell (cell (cd_sys_cmd_handlers s) (fid AND 0x7FFFFFFF)) (\<lambda>_. (handler, harg)) s
         else s)
      else
        (if cd_usr_cmd_handlers s \<noteq> 0
         then upd_cell (cell (cd_usr_cmd_handlers s) fid) (\<lambda>_. (handler, harg)) s
         else s))"

definition sif_cmd_del_handler :: "u32 \<Rightarrow> 'a sifcmd_scheme \<Rightarrow> 'a sifcmd_scheme" where
  "sif_cmd_del_handler fid s =
     (if fid AND SYSTEM_CMD \<noteq> 0 then
        (if cd_sys_cmd_handlers s \<noteq> 0
         then upd_cell (cell (cd_sys_cmd_handlers s) (fid AND 0x7FFFFFFF)) (\<lambda>(_, h). (Fn_null, h)) s
         else s)
      else
        (if cd_usr_cmd_handlers s \<noteq> 0
         then upd_cell (cell (cd_usr_cmd_handlers s) fid) (\<lambda>(_, h). (Fn_null, h)) s
         else s))"

definition sif_cmd_set_buffer :: "u32 \<Rightarrow> u32 \<Rightarrow> 'a sifcmd_scheme \<Rightarrow> u32 \<times> 'a sifcmd_scheme" where
  "sif_cmd_set_buffer buf sz s =
     (let old = cd_usr_cmd_handlers s
      in (old, s\<lparr>cd_usr_cmd_handlers := buf, cd_nr_usr_handlers := sz\<rparr>))"

definition sif_cmd_set_sys_buffer :: "u32 \<Rightarrow> u32 \<Rightarrow> 'a sifcmd_scheme \<Rightarrow> u32 \<times> 'a sifcmd_scheme" where
  "sif_cmd_set_sys_buffer buf sz s =
     (let old = cd_sys_cmd_handlers s
      in (old, s\<lparr>cd_sys_cmd_handlers := buf, cd_nr_sys_handlers := sz\<rparr>))"

definition SifSetSreg :: "u32 \<Rightarrow> u32 \<Rightarrow> 'a sifcmd_scheme \<Rightarrow> u32 \<times> 'a sifcmd_scheme" where
  "SifSetSreg reg val s = (0, stw val (cd_sregs s + 4 * reg) s)"

definition SifGetSreg :: "u32 \<Rightarrow> 'a sifcmd_scheme \<Rightarrow> u32" where
  "SifGetSreg reg s = ldw (cd_sregs s + 4 * reg) s"

definition sif_cmd_data_table :: "'a sifcmd_scheme \<Rightarrow> u32" where
  "sif_cmd_data_table s = 0"

text \<open>The two handlers of this file; \<open>harg\<close> is always the address of \<open>_sif_cmd_data\<close>.\<close>

definition set_sreg :: "u32 \<Rightarrow> u32 \<Rightarrow> 'a sifcmd_scheme \<Rightarrow> 'a sifcmd_scheme" where
  "set_sreg packet harg s = stw (ldw (packet + 20) s) (cd_sregs s + 4 * ldw (packet + 16) s) s"

definition change_addr :: "u32 \<Rightarrow> u32 \<Rightarrow> 'a sifcmd_scheme \<Rightarrow> 'a sifcmd_scheme" where
  "change_addr packet harg s = s\<lparr>cd_iopbuf := ldw (packet + 16) s\<rparr>"

section \<open>Interrupt\<close>

definition copy_quad :: "u32 \<Rightarrow> u32 \<Rightarrow> 'a sifcmd_scheme \<Rightarrow> nat \<Rightarrow> 'a sifcmd_scheme" where
  "copy_quad pktbuf packet s i = stq (ldq (pktbuf + 16 * of_nat i) s) (packet + 16 * of_nat i) s"

text \<open>The handler an incoming command is for: the choice of the table and the entry in it.\<close>

definition target :: "u32 \<Rightarrow> 'a sifcmd_scheme \<Rightarrow> (cmd_fn \<times> u32) option" where
  "target fid s =
     (let id0 = fid AND NOT SYSTEM_CMD;
          base = (if fid AND SYSTEM_CMD \<noteq> 0
                  then (if id0 < cd_nr_sys_handlers s then cd_sys_cmd_handlers s else 0)
                  else (if id0 < cd_nr_usr_handlers s then cd_usr_cmd_handlers s else 0));
          (handler, harg) = cmd_cells s (cell base id0)
      in if base \<noteq> 0 \<and> handler \<noteq> Fn_null then Some (handler, harg) else None)"

definition sif_cmd_interrupt ::
  "(cmd_fn \<Rightarrow> u32 \<Rightarrow> u32 \<Rightarrow> 'a sifcmd_scheme \<Rightarrow> 'a sifcmd_scheme option)
     \<Rightarrow> 'a sifcmd_scheme \<Rightarrow> 'a sifcmd_scheme option" where
  "sif_cmd_interrupt call s =
     (if reg_lw EE_DMAC_SIF0_CHCR s AND 0x0100 \<noteq> 0 then Some s
      else
        let packet = a_irq_packet s;
            header = cd_pktbuf s;
            sz = ldw (h_size header) s AND 0xff
        in if sz = 0 then Some s
           else
             let pktquads = drop_bit 4 (sz + 30);
                 s = stw 0 (h_size header) s;
                 s = foldl (copy_quad (cd_pktbuf s) packet) s [0..<unat pktquads];
                 s = sbcall_sifsetdchain s;
                 fid = ldw (h_fid packet) s
             in case target fid s of
                  Some (handler, harg) \<Rightarrow> call handler packet harg s
                | None \<Rightarrow> Some s)"

section \<open>Initialisation\<close>

definition cmd_data_init :: "'a sifcmd_scheme \<Rightarrow> 'a sifcmd_scheme" where
  "cmd_data_init s = s\<lparr>cd_pktbuf := KSEG1ADDR (a_pktbuf s), cd_cmdbuf := KSEG1ADDR (a_cmdbuf s),
     cd_iopbuf := 0, cd_sys_cmd_handlers := a_sifCmdSysBuffer s, cd_nr_sys_handlers := 32,
     cd_usr_cmd_handlers := 0, cd_nr_usr_handlers := 0, cd_sregs := a_sregs s\<rparr>"

definition cmd_tables_init :: "'a sifcmd_scheme \<Rightarrow> 'a sifcmd_scheme" where
  "cmd_tables_init s =
     (let s = foldl (\<lambda>s i. upd_cell (cell (a_sifCmdSysBuffer s) (of_nat i)) (\<lambda>_. (Fn_null, 0)) s)
                s [0..<CMD_HANDLER_MAX];
          s = foldl (\<lambda>s i. stw 0 (a_sregs s + 4 * of_nat i) s) s [0..<32];
          s = upd_cell (cell (a_sifCmdSysBuffer s) 0) (\<lambda>_. (Fn_change_addr, a_sif_cmd_data s)) s
      in upd_cell (cell (a_sifCmdSysBuffer s) 1) (\<lambda>_. (Fn_set_sreg, a_sif_cmd_data s)) s)"

definition SifInitCmd :: "'a sifcmd_scheme \<Rightarrow> 'a sifcmd_scheme option" where
  "SifInitCmd s =
     (let (status, s) = core_save_disable s
      in if cmd_initialized s then Some (core_restore status s)
         else
           let s = s\<lparr>cmd_initialized := True\<rparr>;
               s = cmd_data_init s;
               s = cmd_tables_init s;
               s = core_restore status s;
               s = s\<lparr>cd_iopbuf := sbios_iopaddr s\<rparr>;
               s = stw (PHYSADDR (cd_pktbuf s)) (a_sifCmdInitPkt s + 16) s
           in case SifSendCmd SIF_CMD_CHANGE_SADDR (a_sifCmdInitPkt s) 20 0 0 0 s of
                None \<Rightarrow> None
              | Some (_, s) \<Rightarrow>
                  (case SifSetReg SIF_CMD_CHANGE_SADDR (cd_iopbuf s) [] s of
                     None \<Rightarrow> None
                   | Some (_, s) \<Rightarrow> map_option snd (SifSetReg 0x80000001 (a_sif_cmd_data s) [] s)))"

definition SifExitCmd :: "'a sifcmd_scheme \<Rightarrow> 'a sifcmd_scheme" where
  "SifExitCmd s = s\<lparr>cmd_initialized := False\<rparr>"

section \<open>What the layers below leave alone\<close>

lemma sifcmd_more:
  assumes "sifdma.more s' = sifdma.more s"
  shows "cd_pktbuf s' = cd_pktbuf s" "cd_cmdbuf s' = cd_cmdbuf s" "cd_iopbuf s' = cd_iopbuf s"
    "cd_sys_cmd_handlers s' = cd_sys_cmd_handlers s" "cd_nr_sys_handlers s' = cd_nr_sys_handlers s"
    "cd_usr_cmd_handlers s' = cd_usr_cmd_handlers s" "cd_nr_usr_handlers s' = cd_nr_usr_handlers s"
    "cd_sregs s' = cd_sregs s" "cmd_cells s' = cmd_cells s" "cmd_initialized s' = cmd_initialized s"
    "a_irq_packet s' = a_irq_packet s" "sifcmd.more s' = sifcmd.more s"
  using assms by (cases s; cases s'; simp)+

lemma dma_more [simp]:
  "sifdma.more (upd_tag f s) = sifdma.more s" "sifdma.more (upd_dtag d g s) = sifdma.more s"
  "sifdma.more (set_next_dmatag s) = sifdma.more s" "sifdma.more (reg_sw v a s) = sifdma.more s"
  "sifdma.more (core_restore st s) = sifdma.more s" "sifdma.more (stw v a s) = sifdma.more s"
  "sifdma.more (SifWriteBackDCache p n s) = sifdma.more s"
  "sifdma.more (sif1_stop s) = sifdma.more s" "sifdma.more (sif1_start s) = sifdma.more s"
  by (simp_all add: upd_tag_def upd_dtag_def set_next_dmatag_def reg_sw_def core_restore_def stw_def
      SifWriteBackDCache_def sif1_stop_def sif1_start_def Let_def)

lemma transfer_more [simp]:
  "sifdma.more (sif_dma_transfer src dest sz attr id0 s) = sifdma.more s"
  by (simp add: sif_dma_transfer_def Let_def)

lemma setup_more [simp]: "sifdma.more (sif_dma_setup_tag n s) = sifdma.more s"
  by (simp add: sif_dma_setup_tag_def Let_def)

lemma queue_more: "queue_transfers ts s = Some s' \<Longrightarrow> sifdma.more s' = sifdma.more s"
  by (induction ts s rule: queue_transfers.induct) auto

lemma SifSetDma_more: "SifSetDma ts s = Some (id0, s') \<Longrightarrow> sifdma.more s' = sifdma.more s"
  by (auto simp: SifSetDma_def core_save_disable_def Let_def dest!: queue_more split: if_splits option.splits)

section \<open>Sending a packet\<close>

lemma dma_frame_stw [simp]:
  "ring_inv (stw v a s) = ring_inv s" "hw_tag (stw v a s) = hw_tag s"
  "ring_inv (SifWriteBackDCache p n s) = ring_inv s" "hw_tag (SifWriteBackDCache p n s) = hw_tag s"
  "sif_get_number_of_free_dma_tags (stw v a s) = sif_get_number_of_free_dma_tags s"
  "sif_get_number_of_free_dma_tags (SifWriteBackDCache p n s) = sif_get_number_of_free_dma_tags s"
  "mem (SifWriteBackDCache p n s) = mem s" "cp0_status (SifWriteBackDCache p n s) = cp0_status s"
  by (simp_all add: stw_def SifWriteBackDCache_def ring_inv_def cur_tag_def hw_tag_def
      sif_dma_get_hw_index_def sif_get_number_of_free_dma_tags_def reg_lw_def)

text \<open>Result and effects of a DMA request below, as the layers above rely on them.\<close>

lemma SifSetDma_effect:
  assumes "ring_inv s" "hw_tag s \<le> 30" "ts \<noteq> []" "sizes_ok ts" "length ts < 2 ^ 31"
  obtains id0 s' where "SifSetDma ts s = Some (id0, s')" "ring_inv s'" "mem s' = mem s"
    "cp0_status s' = cp0_status s" "sifdma.more s' = sifdma.more s"
    "id0 = 0 \<longleftrightarrow> unat (sif_get_number_of_free_dma_tags s) < total_tags ts"
  using assms(1,3)
proof (cases rule: SifSetDma_cases)
  case full
  then obtain s' where s': "SifSetDma ts s = Some (0, s')" "ring_inv s'" "mem s' = mem s"
      "cp0_status s' = cp0_status s" by blast
  show thesis
    using that [OF s'] full(1) SifSetDma_more [OF s'(1)] unat_count_tags [OF assms(4,5)]
    by (simp add: word_le_nat_alt)
next
  case (queued t u s')
  have n: "total_tags ts \<le> unat (sif_get_number_of_free_dma_tags s)"
    using queued(1) unat_count_tags [OF assms(4,5)] by (simp add: word_le_nat_alt)
  have "dma_id (count_tags ts 0) s \<noteq> 0" using dma_id_queued [OF assms queued(1)] .
  then show thesis
    using that [OF queued(2)] queued n SifSetDma_more [OF queued(2)] by simp
qed

lemma cmd_fields_stw [simp]:
  "cd_iopbuf (stw v a s) = cd_iopbuf s" "cd_iopbuf (SifWriteBackDCache p n s) = cd_iopbuf s"
  "cd_sregs (stw v a s) = cd_sregs s" "cd_pktbuf (stw v a s) = cd_pktbuf s"
  "a_sifCmdInitPkt (stw v a s) = a_sifCmdInitPkt s"
  "a_irq_packet (stw v a s) = a_irq_packet s" "cmd_cells (stw v a s) = cmd_cells s"
  by (simp_all add: stw_def SifWriteBackDCache_def)

lemma PHYSADDR_field:
  assumes "i < 64" "j < 64"
  shows "PHYSADDR (p + of_nat (4 * i)) = PHYSADDR (p + of_nat (4 * j)) \<longleftrightarrow> i = j"
  using PHYSADDR_offset_eq_iff [of "4 * i" "4 * j" p] assms by simp

lemma hdr_distinct [simp]:
  "PHYSADDR (h_size p) \<noteq> PHYSADDR (h_dest p)" "PHYSADDR (h_size p) \<noteq> PHYSADDR (h_fid p)"
  "PHYSADDR (h_size p) \<noteq> PHYSADDR (h_option p)" "PHYSADDR (h_dest p) \<noteq> PHYSADDR (h_fid p)"
  "PHYSADDR (h_dest p) \<noteq> PHYSADDR (h_option p)" "PHYSADDR (h_fid p) \<noteq> PHYSADDR (h_option p)"
  using PHYSADDR_field [of 0 1 p] PHYSADDR_field [of 0 2 p] PHYSADDR_field [of 0 3 p]
    PHYSADDR_field [of 1 2 p] PHYSADDR_field [of 1 3 p] PHYSADDR_field [of 2 3 p]
  by (simp_all add: hdr_fields)

lemma hdr_distinct_sym [simp]:
  "PHYSADDR (h_dest p) \<noteq> PHYSADDR (h_size p)" "PHYSADDR (h_fid p) \<noteq> PHYSADDR (h_size p)"
  "PHYSADDR (h_option p) \<noteq> PHYSADDR (h_size p)" "PHYSADDR (h_fid p) \<noteq> PHYSADDR (h_dest p)"
  "PHYSADDR (h_option p) \<noteq> PHYSADDR (h_dest p)" "PHYSADDR (h_option p) \<noteq> PHYSADDR (h_fid p)"
  using hdr_distinct [of p] by metis+

definition cmd_tags :: "u32 \<Rightarrow> nat" where
  "cmd_tags sz = (if sz = 0 then 1 else xfer_tags 0 sz + 1)"

definition in_header :: "u32 \<Rightarrow> u32 \<Rightarrow> bool" where
  "in_header p a \<longleftrightarrow> PHYSADDR a \<in> {PHYSADDR (h_size p), PHYSADDR (h_dest p), PHYSADDR (h_fid p), PHYSADDR (h_option p)}"

lemma packet_tags: "ps \<le> 112 \<Longrightarrow> xfer_tags (TGE_SIFDMA_ATTR_ERT OR TGE_SIFDMA_ATTR_INT_O) ps = 1"
proof -
  assume "ps \<le> 112"
  moreover then have "ps \<le> 0xfffffff0" by (rule order_trans) simp
  ultimately show ?thesis using qwc_ge_8 [of ps] by (simp add: xfer_tags_def not_less)
qed

text \<open>
  The transfers of a command: its data, if any, and then the packet, for which the IOP is
  interrupted; and the state in which a list of transfers has just been appended to the ring.
\<close>

definition command_transfers :: "u32 \<Rightarrow> u32 \<Rightarrow> u32 \<Rightarrow> u32 \<Rightarrow> u32 \<Rightarrow> 'a sifcmd_scheme \<Rightarrow> tge_sifdma_transfer list" where
  "command_transfers packet packet_size src dest sz s =
     (if sz = 0 then [] else [\<lparr>xf_src = src, xf_dest = dest, xf_size = sz, xf_attr = 0\<rparr>])
     @ [\<lparr>xf_src = packet, xf_dest = cd_iopbuf s, xf_size = packet_size,
         xf_attr = TGE_SIFDMA_ATTR_ERT OR TGE_SIFDMA_ATTR_INT_O\<rparr>]"

definition queued :: "tge_sifdma_transfer list \<Rightarrow> 'a sifcmd_scheme \<Rightarrow> bool" where
  "queued ts s' \<longleftrightarrow> (\<exists>s id0. ring_inv s \<and> hw_tag s \<le> 30 \<and> SifSetDma ts s = Some (id0, s') \<and> id0 \<noteq> 0 \<and> mem s' = mem s)"

lemma sif_cmd_send_effect:
  fixes s :: "'a sifcmd_scheme"
  assumes "ring_inv s" "hw_tag s \<le> 30" "packet_size \<le> 112" "sz \<le> 0xfffffff0"
  obtains id0 s' where "sif_cmd_send fid flags packet packet_size src dest sz s = Some (id0, s')"
    "ring_inv s'" "cp0_status s' = cp0_status s" "sifdma.more s' = sifdma.more s"
    "id0 = 0 \<longleftrightarrow> unat (sif_get_number_of_free_dma_tags s) < cmd_tags sz"
    "ldw (h_size packet) s' = (if sz = 0 then packet_size else packet_size OR push_bit 8 sz)"
    "ldw (h_dest packet) s' = (if sz = 0 then 0 else dest)" "ldw (h_fid packet) s' = fid"
    "\<And>a. \<not> in_header packet a \<Longrightarrow> ldw a s' = ldw a s"
    "id0 = 0 \<or> queued (command_transfers packet packet_size src dest sz s') s'"
proof -
  define pkt where "pkt = \<lparr>xf_src = packet, xf_dest = cd_iopbuf s, xf_size = packet_size,
      xf_attr = TGE_SIFDMA_ATTR_ERT OR TGE_SIFDMA_ATTR_INT_O\<rparr>"
  define dat where "dat = \<lparr>xf_src = src, xf_dest = dest, xf_size = sz, xf_attr = 0\<rparr>"
  define ts where "ts = (if sz = 0 then [pkt] else [dat, pkt])"
  define t where "t = stw 0 (h_dest packet) (stw packet_size (h_size packet) (stw fid (h_fid packet) s))"
  define u where "u = SifWriteBackDCache packet packet_size
     (if sz = 0 then stw 0 (h_option packet) t
      else let v = stw (packet_size OR push_bit 8 sz) (h_size packet) (stw dest (h_dest packet) t)
           in if flags AND 4 \<noteq> 0 then SifWriteBackDCache src sz v else v)"
  have more: "sifdma.more u = sifdma.more s" by (simp add: u_def t_def Let_def)
  have "\<not> packet_size > CMD_PACKET_DATA_MAX" using assms(3) by (simp add: CMD_PACKET_DATA_MAX_def)
  moreover have "cd_iopbuf t = cd_iopbuf s" by (rule sifcmd_more) (simp add: t_def)
  ultimately have eq: "sif_cmd_send fid flags packet packet_size src dest sz s = SifSetDma ts u"
    unfolding sif_cmd_send_def ts_def u_def pkt_def dat_def Let_def word_gt_0 t_def [symmetric]
    by (cases "sz = 0"; cases "flags AND 4 = 0"; simp)
  have "packet_size \<le> 0xfffffff0" by (rule order_trans [OF assms(3)]) simp
  then have ok: "ts \<noteq> []" "sizes_ok ts" "length ts < 2 ^ 31" "total_tags ts = cmd_tags sz"
    using assms(4) packet_tags [OF assms(3)]
    by (simp_all add: ts_def pkt_def dat_def cmd_tags_def)
  have ring: "ring_inv u" "hw_tag u \<le> 30"
      "sif_get_number_of_free_dma_tags u = sif_get_number_of_free_dma_tags s" "cp0_status u = cp0_status s"
    using assms(1,2) by (simp_all add: u_def t_def Let_def)
  obtain id0 s' where s': "SifSetDma ts u = Some (id0, s')" "ring_inv s'" "mem s' = mem u"
      "cp0_status s' = cp0_status u" "sifdma.more s' = sifdma.more u"
      "id0 = 0 \<longleftrightarrow> unat (sif_get_number_of_free_dma_tags u) < total_tags ts"
    using SifSetDma_effect [OF ring(1,2) ok(1-3)] by blast
  have ld: "ldw a s' = ldw a u" for a using s'(3) by (rule ldw_cong)
  have "cd_iopbuf s' = cd_iopbuf s" by (rule sifcmd_more) (simp add: s'(5) more)
  then have "ts = command_transfers packet packet_size src dest sz s'"
    by (simp add: ts_def pkt_def dat_def command_transfers_def)
  then have q: "id0 = 0 \<or> queued (command_transfers packet packet_size src dest sz s') s'"
    using s'(1,3) ring(1,2) unfolding queued_def by metis
  have wb: "ldw a (SifWriteBackDCache p n v) = ldw a v" for a p n and v :: "'a sifcmd_scheme"
    by (simp add: ldw_def)
  have "ldw (h_size packet) u = (if sz = 0 then packet_size else packet_size OR push_bit 8 sz)"
    "ldw (h_dest packet) u = (if sz = 0 then 0 else dest)" "ldw (h_fid packet) u = fid"
    "\<And>a. \<not> in_header packet a \<Longrightarrow> ldw a u = ldw a s"
    by (simp_all add: u_def t_def Let_def wb in_header_def)
  then show thesis
    using that [of id0 s'] s' eq more ring ok(4) ld q by simp
qed

section \<open>Receiving a packet\<close>

text \<open>The receive buffer and the handler's copy are 32 words each and do not overlap.\<close>

definition buffers_apart :: "u32 \<Rightarrow> u32 \<Rightarrow> bool" where
  "buffers_apart p q \<longleftrightarrow>
     (\<forall>i < 32. \<forall>j < 32. PHYSADDR (p + of_nat (4 * i)) \<noteq> PHYSADDR (q + of_nat (4 * j)))"

lemma ldw_stq_other:
  assumes "\<forall>j < 4. PHYSADDR a \<noteq> PHYSADDR (b + of_nat (4 * j))"
  shows "ldw a (stq q b s) = ldw a s"
proof -
  have "PHYSADDR a \<noteq> PHYSADDR b" "PHYSADDR a \<noteq> PHYSADDR (b + 4)" "PHYSADDR a \<noteq> PHYSADDR (b + 8)"
    "PHYSADDR a \<noteq> PHYSADDR (b + 12)"
    using assms [rule_format, of 0] assms [rule_format, of 1] assms [rule_format, of 2]
      assms [rule_format, of 3] by simp_all
  then show ?thesis by (simp add: stq_def split_beta Let_def)
qed

lemma ldw_stq_ldq:
  assumes "j < 4"
  shows "ldw (b + of_nat (4 * j)) (stq (ldq c s) b s) = ldw (c + of_nat (4 * j)) s"
proof -
  have ne: "PHYSADDR (b + of_nat (4 * i)) \<noteq> PHYSADDR (b + of_nat (4 * k))" if "i < 4" "k < 4" "i \<noteq> k" for i k
    using PHYSADDR_field [of i k b] that by simp
  have "j = 0 \<or> j = 1 \<or> j = 2 \<or> j = 3" using assms by auto
  then show ?thesis
    using ne [of 0 1] ne [of 0 2] ne [of 0 3] ne [of 1 2] ne [of 1 3] ne [of 2 3]
    by (auto simp: stq_def ldq_def Let_def)
qed

lemma word_of_quad: "(b :: u32) + 16 * of_nat i + of_nat (4 * j) = b + of_nat (4 * (4 * i + j))"
  by (simp add: algebra_simps)

lemma copy_quads_words:
  fixes s :: "'a sifcmd_scheme"
  assumes "buffers_apart p q" "n \<le> 8"
  defines "s' \<equiv> foldl (copy_quad p q) s [0..<n]"
  shows "(\<forall>k < 32. ldw (p + of_nat (4 * k)) s' = ldw (p + of_nat (4 * k)) s)
    \<and> (\<forall>k < 4 * n. ldw (q + of_nat (4 * k)) s' = ldw (p + of_nat (4 * k)) s)
    \<and> sifdma.more s' = sifdma.more s \<and> cp0_status s' = cp0_status s \<and> hwreg s' = hwreg s"
  using assms(2) unfolding s'_def
proof (induction n)
  case (Suc n)
  let ?t = "foldl (copy_quad p q) s [0..<n]"
  have t: "ldw (p + of_nat (4 * k)) ?t = ldw (p + of_nat (4 * k)) s" if "k < 32" for k
    using Suc that by simp
  have keep_p: "ldw (p + of_nat (4 * k)) (copy_quad p q ?t n) = ldw (p + of_nat (4 * k)) ?t" if "k < 32" for k
    unfolding copy_quad_def
  proof (intro ldw_stq_other allI impI)
    fix j :: nat assume "j < 4"
    then have "4 * n + j < 32" using Suc.prems by simp
    then show "PHYSADDR (p + of_nat (4 * k)) \<noteq> PHYSADDR (q + 16 * of_nat n + of_nat (4 * j))"
      using assms(1) that unfolding buffers_apart_def word_of_quad by blast
  qed
  have old: "ldw (q + of_nat (4 * k)) (copy_quad p q ?t n) = ldw (q + of_nat (4 * k)) ?t" if "k < 4 * n" for k
    unfolding copy_quad_def
  proof (intro ldw_stq_other allI impI)
    fix j :: nat assume "j < 4"
    then show "PHYSADDR (q + of_nat (4 * k)) \<noteq> PHYSADDR (q + 16 * of_nat n + of_nat (4 * j))"
      using that Suc.prems PHYSADDR_field [of k "4 * n + j" q] unfolding word_of_quad by simp
  qed
  have new: "ldw (q + of_nat (4 * (4 * n + j))) (copy_quad p q ?t n) = ldw (p + of_nat (4 * (4 * n + j))) ?t"
    if "j < 4" for j
    using ldw_stq_ldq [OF that, of "q + 16 * of_nat n" "p + 16 * of_nat n" ?t]
    by (simp only: copy_quad_def word_of_quad)
  have "ldw (q + of_nat (4 * k)) (copy_quad p q ?t n) = ldw (p + of_nat (4 * k)) s" if "k < 4 * Suc n" for k
  proof (cases "k < 4 * n")
    case True
    then show ?thesis using old Suc by simp
  next
    case False
    then have k: "k = 4 * n + (k - 4 * n)" "k - 4 * n < 4" using that by auto
    then show ?thesis using new [of "k - 4 * n"] t [of k] Suc.prems by simp
  qed
  moreover have "sifdma.more (copy_quad p q ?t n) = sifdma.more ?t \<and> cp0_status (copy_quad p q ?t n) = cp0_status ?t
      \<and> hwreg (copy_quad p q ?t n) = hwreg ?t"
    by (simp add: copy_quad_def stq_def split_beta Let_def)
  ultimately show ?case using Suc keep_p t by simp
qed simp

text \<open>Nothing but the receive buffer's size word and the copy is written.\<close>

definition off_irq :: "'a sifcmd_scheme \<Rightarrow> u32 \<Rightarrow> bool" where
  "off_irq s a \<longleftrightarrow> PHYSADDR a \<noteq> PHYSADDR (cd_pktbuf s)
     \<and> list_all (\<lambda>k. PHYSADDR a \<noteq> PHYSADDR (a_irq_packet s + of_nat (4 * k))) [0..<32]"

lemma copy_quads_frame:
  assumes "\<forall>k < 4 * n. PHYSADDR a \<noteq> PHYSADDR (q + of_nat (4 * k))"
  shows "ldw a (foldl (copy_quad p q) s [0..<n]) = ldw a s"
  using assms
proof (induction n)
  case (Suc n)
  have "ldw a (copy_quad p q u n) = ldw a u" for u :: "'a sifcmd_scheme"
    unfolding copy_quad_def
  proof (intro ldw_stq_other allI impI)
    fix j :: nat assume "j < 4"
    then have "4 * n + j < 4 * Suc n" by simp
    then show "PHYSADDR a \<noteq> PHYSADDR (q + 16 * of_nat n + of_nat (4 * j))"
      unfolding word_of_quad using Suc.prems by blast
  qed
  then show ?case using Suc by simp
qed simp

lemma target_more: "sifdma.more s' = sifdma.more s \<Longrightarrow> target fid s' = target fid s"
  using sifcmd_more [of s' s] by (simp add: target_def Let_def)

lemma setdchain_frame [simp]:
  "ldw a (sbcall_sifsetdchain s) = ldw a s" "sifdma.more (sbcall_sifsetdchain s) = sifdma.more s"
  "cp0_status (sbcall_sifsetdchain s) = cp0_status s"
  "reg_lw EE_DMAC_SIF0_CHCR (sbcall_sifsetdchain s) = 0x184"
proof -
  have "cp0_status (core_restore (cp0_status s) (s\<lparr>cp0_status := (cp0_status s OR 1) XOR 1, hwreg := h\<rparr>)) = cp0_status s" for h
    by (rule core_restore_saved) simp
  then show "cp0_status (sbcall_sifsetdchain s) = cp0_status s"
    by (simp add: sbcall_sifsetdchain_def core_save_disable_def reg_sw_def Let_def)
  show "ldw a (sbcall_sifsetdchain s) = ldw a s" "sifdma.more (sbcall_sifsetdchain s) = sifdma.more s"
    "reg_lw EE_DMAC_SIF0_CHCR (sbcall_sifsetdchain s) = 0x184"
    by (simp_all add: sbcall_sifsetdchain_def ops ldw_def)
qed

lemma unat_pktquads:
  assumes "sz \<le> 112"
  shows "unat (drop_bit 4 (sz + 30 :: u32)) = (unat sz + 30) div 16"
proof -
  have "unat (sz + 30) = unat sz + 30"
    using assms by (simp add: word_le_nat_alt unat_word_ariths)
  then show ?thesis by (simp add: drop_bit_eq_div unat_div)
qed

lemma sif_cmd_interrupt_effect:
  fixes s :: "'a sifcmd_scheme"
  assumes "reg_lw EE_DMAC_SIF0_CHCR s AND 0x0100 = 0" "buffers_apart (cd_pktbuf s) (a_irq_packet s)"
    and "ldw (cd_pktbuf s) s AND 0xff = sz" "sz \<noteq> 0" "sz \<le> 112"
  shows "\<exists>t. sif_cmd_interrupt call s = (case target (ldw (h_fid (cd_pktbuf s)) s) s of
        Some (handler, harg) \<Rightarrow> call handler (a_irq_packet s) harg t | None \<Rightarrow> Some t)
    \<and> (\<forall>k. 0 < k \<and> 4 * k < unat sz \<longrightarrow>
          ldw (a_irq_packet s + of_nat (4 * k)) t = ldw (cd_pktbuf s + of_nat (4 * k)) s)
    \<and> reg_lw EE_DMAC_SIF0_CHCR t = 0x184 \<and> cp0_status t = cp0_status s \<and> sifdma.more t = sifdma.more s
    \<and> (\<forall>a. off_irq s a \<longrightarrow> ldw a t = ldw a s)"
proof -
  let ?p = "cd_pktbuf s" and ?q = "a_irq_packet s"
  define n where "n = unat (drop_bit 4 (sz + 30))"
  have n: "n = (unat sz + 30) div 16" using unat_pktquads [OF assms(5)] by (simp add: n_def)
  have sz: "unat sz \<le> 112" "0 < unat sz" using assms(4,5) by (auto simp: word_le_nat_alt unat_gt_0)
  have n8: "n \<le> 8" and n1: "unat sz \<le> 16 * n" and n2: "2 < 4 * n" using sz by (simp_all add: n)
  define u where "u = stw 0 (h_size ?p) s"
  define v where "v = foldl (copy_quad ?p ?q) u [0..<n]"
  define t where "t = sbcall_sifsetdchain v"
  have v: "\<forall>k < 4 * n. ldw (?q + of_nat (4 * k)) v = ldw (?p + of_nat (4 * k)) u"
      "sifdma.more v = sifdma.more u" "cp0_status v = cp0_status u"
    using copy_quads_words [OF assms(2) n8, of u] by (simp_all add: v_def)
  have words: "ldw (?q + of_nat (4 * k)) t = ldw (?p + of_nat (4 * k)) s" if "0 < k" "k < 4 * n" for k
  proof -
    have "PHYSADDR (?p + of_nat (4 * k)) \<noteq> PHYSADDR (h_size ?p)"
      using that n8 PHYSADDR_field [of k 0 ?p] by (simp add: hdr_fields)
    then show ?thesis using that v(1) by (simp add: t_def u_def)
  qed
  have more: "sifdma.more t = sifdma.more s" using v(2) by (simp add: t_def u_def)
  have fid: "ldw (h_fid ?q) t = ldw (h_fid ?p) s" using words [of 2] n2 by (simp add: hdr_fields)
  have "sif_cmd_interrupt call s = (case target (ldw (h_fid ?q) t) t of
      Some (handler, harg) \<Rightarrow> call handler ?q harg t | None \<Rightarrow> Some t)"
  proof -
    show ?thesis
      using assms(1,3,4) unfolding sif_cmd_interrupt_def Let_def t_def v_def n_def u_def
      by (simp add: hdr_fields(1) split: option.split)
  qed
  then have "sif_cmd_interrupt call s = (case target (ldw (h_fid ?p) s) s of
      Some (handler, harg) \<Rightarrow> call handler ?q harg t | None \<Rightarrow> Some t)"
    by (simp only: fid target_more [OF more])
  moreover have "reg_lw EE_DMAC_SIF0_CHCR t = 0x184" "cp0_status t = cp0_status s"
    using v(3) by (simp_all add: t_def u_def)
  moreover have "ldw a t = ldw a s" if "off_irq s a" for a
  proof -
    have "\<forall>k < 4 * n. PHYSADDR a \<noteq> PHYSADDR (?q + of_nat (4 * k))" "PHYSADDR a \<noteq> PHYSADDR ?p"
      using that n8 by (simp_all add: off_irq_def list_all_iff)
    then show ?thesis using copy_quads_frame [of n a ?q ?p u] by (simp add: t_def v_def u_def hdr_fields)
  qed
  ultimately show ?thesis
    using words more n1 by (intro exI [of _ t]) auto
qed

section \<open>Handler tables\<close>

text \<open>
  A table of handlers under keys: what was registered last is found, other keys are not
  disturbed, a removed handler is gone. Clients register a list of handlers at start-up.
\<close>

locale handler_table =
  fixes ok :: "'s \<Rightarrow> bool" and key :: "'k \<Rightarrow> bool"
    and lookup :: "'k \<Rightarrow> 's \<Rightarrow> 'h option" and add :: "'k \<Rightarrow> 'h \<Rightarrow> 's \<Rightarrow> 's" and del :: "'k \<Rightarrow> 's \<Rightarrow> 's"
    and valid :: "'h \<Rightarrow> bool"
  assumes ok_add: "ok s \<Longrightarrow> key k \<Longrightarrow> ok (add k h s)"
    and ok_del: "ok s \<Longrightarrow> key k \<Longrightarrow> ok (del k s)"
    and lookup_add: "ok s \<Longrightarrow> key k \<Longrightarrow> key k' \<Longrightarrow> valid h \<Longrightarrow>
      lookup k' (add k h s) = (if k' = k then Some h else lookup k' s)"
    and lookup_del: "ok s \<Longrightarrow> key k \<Longrightarrow> key k' \<Longrightarrow>
      lookup k' (del k s) = (if k' = k then None else lookup k' s)"
begin

lemma lookup_adds:
  assumes "ok s" "key k'" "\<forall>(k, h) \<in> set khs. key k \<and> valid h"
  shows "lookup k' (foldl (\<lambda>s (k, h). add k h s) s khs)
    = (case map_of (rev khs) k' of None \<Rightarrow> lookup k' s | Some h \<Rightarrow> Some h)"
  using assms
proof (induction khs arbitrary: s)
  case (Cons kh khs)
  obtain k h where kh: "kh = (k, h)" by (cases kh)
  have "lookup k' (foldl (\<lambda>s (k, h). add k h s) (add k h s) khs)
      = (case map_of (rev khs) k' of None \<Rightarrow> lookup k' (add k h s) | Some h \<Rightarrow> Some h)"
    using Cons ok_add by (simp add: kh)
  then show ?case
    using Cons.prems lookup_add [of s k k' h] by (auto simp: kh map_add_def split: option.splits)
qed simp

lemma lookup_changes:
  assumes "ok s" "key k'" "\<forall>(k, r) \<in> set ops. key k \<and> (\<forall>h. r = Some h \<longrightarrow> valid h)"
  shows "lookup k' (foldl (\<lambda>s (k, r). case r of None \<Rightarrow> del k s | Some h \<Rightarrow> add k h s) s ops)
    = (case map_of (rev ops) k' of None \<Rightarrow> lookup k' s | Some r \<Rightarrow> r)"
  using assms
proof (induction ops arbitrary: s)
  case (Cons op ops)
  obtain k r where op: "op = (k, r)" by (cases op)
  let ?t = "case r of None \<Rightarrow> del k s | Some h \<Rightarrow> add k h s"
  have k: "key k" "\<forall>h. r = Some h \<longrightarrow> valid h" using Cons.prems(3) by (auto simp: op)
  have t: "ok ?t" "lookup k' ?t = (if k' = k then r else lookup k' s)"
    using Cons.prems k ok_add ok_del lookup_add lookup_del by (auto split: option.split)
  show ?case
    using Cons.IH [OF t(1) Cons.prems(2)] Cons.prems(3) t(2) by (auto simp: op map_add_def split: option.splits)
qed simp

lemma add_del:
  assumes "ok s" "key k" "key k'" "valid h" "lookup k s = None"
  shows "lookup k' (del k (add k h s)) = lookup k' s"
  using assms ok_add lookup_add lookup_del by auto

end

text \<open>
  The table a command belongs to, by its top bit, and the entry for it. Both tables lie within
  the address space and do not overlap; the user table is absent (address and size 0) until it is set.
\<close>

definition sys_table :: "'a sifcmd_scheme \<Rightarrow> bool" where
  "sys_table s \<longleftrightarrow> cd_sys_cmd_handlers s \<noteq> 0 \<and> cd_nr_sys_handlers s = 32"

definition sys_key :: "u32 \<Rightarrow> bool" where
  "sys_key fid \<longleftrightarrow> fid AND SYSTEM_CMD \<noteq> 0 \<and> fid AND NOT SYSTEM_CMD < 32"

definition cmd_tables :: "u32 \<Rightarrow> u32 \<Rightarrow> 'a sifcmd_scheme \<Rightarrow> bool" where
  "cmd_tables u n s \<longleftrightarrow> sys_table s \<and> cd_usr_cmd_handlers s = u \<and> cd_nr_usr_handlers s = n \<and> (u \<noteq> 0 \<or> n = 0)
     \<and> (let sys = unat (cd_sys_cmd_handlers s) in
          sys + 256 \<le> 2 ^ 32 \<and> unat u + 8 * unat n \<le> 2 ^ 32 \<and> (sys + 256 \<le> unat u \<or> unat u + 8 * unat n \<le> sys))"

definition cmd_key :: "u32 \<Rightarrow> u32 \<Rightarrow> bool" where
  "cmd_key n fid \<longleftrightarrow> fid AND NOT SYSTEM_CMD < (if fid AND SYSTEM_CMD \<noteq> 0 then 32 else n)"

definition handler_slot :: "u32 \<Rightarrow> 'a sifcmd_scheme \<Rightarrow> u32" where
  "handler_slot fid s = cell (if fid AND SYSTEM_CMD \<noteq> 0 then cd_sys_cmd_handlers s else cd_usr_cmd_handlers s)
     (fid AND NOT SYSTEM_CMD)"

lemma NOT_SYSTEM_CMD: "0x7FFFFFFF = NOT SYSTEM_CMD"
  by (simp add: SYSTEM_CMD_def)

lemma cell_inj:
  assumes "i < 32" "j < 32"
  shows "cell base i = cell base j \<longleftrightarrow> i = j"
proof
  assume "cell base i = cell base j"
  then have "8 * i = 8 * j" by (simp add: cell_def)
  then have "unat (8 * i) = unat (8 * j)" by simp
  moreover have "unat (8 * i) = 8 * unat i" "unat (8 * j) = 8 * unat j"
    using assms by (simp_all add: word_less_nat_alt unat_word_ariths)
  ultimately show "i = j" by (simp add: word_unat_eq_iff)
qed simp

lemma and_SYSTEM_CMD: "x AND SYSTEM_CMD \<noteq> 0 \<longleftrightarrow> bit x 31"
proof -
  have "SYSTEM_CMD = push_bit 31 1" by (simp add: SYSTEM_CMD_def)
  then show ?thesis using bit_iff_and_push_bit_not_eq_0 [of x 31] by simp
qed

lemma usr_index: "fid AND SYSTEM_CMD = 0 \<Longrightarrow> fid AND NOT SYSTEM_CMD = fid"
proof (rule bit_word_eqI)
  fix n
  assume "fid AND SYSTEM_CMD = 0"
  then have "\<not> bit fid 31" using and_SYSTEM_CMD [of fid] by simp
  then show "bit (fid AND NOT SYSTEM_CMD) n = bit fid n"
    by (cases "n = 31") (auto simp: bit_simps bit_SYSTEM_CMD dest: bit_imp_le_length)
qed

lemma top_index_eq:
  assumes "k AND SYSTEM_CMD \<noteq> 0 \<longleftrightarrow> k' AND SYSTEM_CMD \<noteq> 0"
  shows "k AND NOT SYSTEM_CMD = k' AND NOT SYSTEM_CMD \<longleftrightarrow> k = k'"
proof
  assume eq: "k AND NOT SYSTEM_CMD = k' AND NOT SYSTEM_CMD"
  have top: "bit k 31 = bit k' 31" using assms by (simp only: and_SYSTEM_CMD)
  show "k = k'"
  proof (rule bit_word_eqI)
    fix n
    have "bit (k AND NOT SYSTEM_CMD) n = bit (k' AND NOT SYSTEM_CMD) n" using eq by simp
    then show "bit k n = bit k' n"
      using top by (cases "n = 31") (auto simp: bit_simps bit_SYSTEM_CMD dest: bit_imp_le_length)
  qed
qed simp

lemma sys_key_eq:
  assumes "sys_key k" "sys_key k'"
  shows "k AND NOT SYSTEM_CMD = k' AND NOT SYSTEM_CMD \<longleftrightarrow> k = k'"
  using assms by (intro top_index_eq) (simp add: sys_key_def)

text \<open>The operations on a command that has an entry.\<close>

definition has_entry :: "u32 \<Rightarrow> 'a sifcmd_scheme \<Rightarrow> bool" where
  "has_entry fid s \<longleftrightarrow> (if fid AND SYSTEM_CMD \<noteq> 0
     then cd_sys_cmd_handlers s \<noteq> 0 \<and> fid AND NOT SYSTEM_CMD < cd_nr_sys_handlers s
     else cd_usr_cmd_handlers s \<noteq> 0 \<and> fid < cd_nr_usr_handlers s)"

definition cmd_add :: "u32 \<Rightarrow> cmd_fn \<times> u32 \<Rightarrow> 'a sifcmd_scheme \<Rightarrow> 'a sifcmd_scheme" where
  "cmd_add k ha s = SifAddCmdHandler k (fst ha) (snd ha) s"

lemma target_entry:
  "has_entry k s \<Longrightarrow> target k s = (let (h, a) = cmd_cells s (handler_slot k s) in if h \<noteq> Fn_null then Some (h, a) else None)"
  by (auto simp: target_def has_entry_def handler_slot_def usr_index Let_def split_beta split: if_splits)

lemma change_entry:
  assumes "has_entry k s"
  shows "cmd_add k ha s = upd_cell (handler_slot k s) (\<lambda>_. ha) s"
    "sif_cmd_del_handler k s = upd_cell (handler_slot k s) (\<lambda>(_, h). (Fn_null, h)) s"
  using assms by (simp_all add: cmd_add_def SifAddCmdHandler_def sif_cmd_del_handler_def has_entry_def handler_slot_def
      NOT_SYSTEM_CMD usr_index split: if_splits)

lemma upd_cell_frame [simp]:
  "has_entry k (upd_cell c f s) = has_entry k s" "handler_slot k (upd_cell c f s) = handler_slot k s"
  "sys_table (upd_cell c f s) = sys_table s" "cmd_tables u n (upd_cell c f s) = cmd_tables u n s"
  "cmd_cells (upd_cell c f s) = (cmd_cells s)(c := f (cmd_cells s c))"
  by (simp_all add: has_entry_def handler_slot_def sys_table_def cmd_tables_def upd_cell_def)

lemma target_changed:
  assumes "has_entry k s" "has_entry k' s" "handler_slot k' s = handler_slot k s \<longleftrightarrow> k' = k"
  shows "target k' (sif_cmd_del_handler k s) = (if k' = k then None else target k' s)"
    "fst ha \<noteq> Fn_null \<Longrightarrow> target k' (cmd_add k ha s) = (if k' = k then Some ha else target k' s)"
  using assms unfolding change_entry [OF assms(1)] by (simp_all add: target_entry split_beta)

lemma target_sys:
  assumes "sys_table s" "sys_key k"
  shows "target k s = (let (h, a) = cmd_cells s (cell (cd_sys_cmd_handlers s) (k AND NOT SYSTEM_CMD))
    in if h \<noteq> Fn_null then Some (h, a) else None)"
  using assms target_entry [of k s] by (simp add: has_entry_def handler_slot_def sys_table_def sys_key_def)

interpretation sys: handler_table sys_table sys_key target cmd_add sif_cmd_del_handler "\<lambda>ha. fst ha \<noteq> Fn_null"
proof
  fix s :: "'a sifcmd_scheme" and k k' :: u32 and ha :: "cmd_fn \<times> u32"
  assume ok: "sys_table s" and k: "sys_key k"
  have e: "has_entry k s" if "sys_key k" for k
    using ok that by (simp add: has_entry_def sys_table_def sys_key_def)
  show "sys_table (cmd_add k ha s)" "sys_table (sif_cmd_del_handler k s)"
    using ok by (simp_all add: change_entry [OF e [OF k]])
  assume k': "sys_key k'"
  have "handler_slot k' s = handler_slot k s \<longleftrightarrow> k' = k"
    using cell_inj sys_key_eq [OF k' k] k k' by (simp add: handler_slot_def sys_key_def)
  note target_changed [OF e [OF k] e [OF k'] this]
  then show "target k' (sif_cmd_del_handler k s) = (if k' = k then None else target k' s)"
    "fst ha \<noteq> Fn_null \<Longrightarrow> target k' (cmd_add k ha s) = (if k' = k then Some ha else target k' s)" by blast+
qed

text \<open>Both tables together: commands of either kind.\<close>

lemma unat_cell:
  assumes "unat base + 8 * unat n \<le> 2 ^ 32" "i < n"
  shows "unat (cell base i) = unat base + 8 * unat i"
proof -
  have "unat i < unat n" using assms(2) by (simp add: word_less_nat_alt)
  then have lt: "unat base + 8 * unat i < 2 ^ 32" using assms(1) by linarith
  have "cell base i = of_nat (unat base + 8 * unat i)" by (simp add: cell_def)
  then show ?thesis using lt by (simp only:) (rule unat_of_nat_lt, simp)
qed

lemma cmd_key_entry: "cmd_tables u n s \<Longrightarrow> cmd_key n k \<longleftrightarrow> has_entry k s"
  by (auto simp: cmd_tables_def sys_table_def cmd_key_def has_entry_def usr_index Let_def split: if_splits)

lemma handler_slot_inj:
  assumes t: "cmd_tables u n s" and k: "cmd_key n k" "cmd_key n k'"
  shows "handler_slot k' s = handler_slot k s \<longleftrightarrow> k' = k"
proof
  assume "handler_slot k' s = handler_slot k s"
  then have eq: "unat (handler_slot k' s) = unat (handler_slot k s)" by simp
  let ?sys = "unat (cd_sys_cmd_handlers s)"
  have tab: "?sys + 256 \<le> 2 ^ 32" "unat u + 8 * unat n \<le> 2 ^ 32" "cd_usr_cmd_handlers s = u"
    "?sys + 256 \<le> unat u \<or> unat u + 8 * unat n \<le> ?sys"
    using t by (simp_all add: cmd_tables_def Let_def)
  have u: "unat (handler_slot k s) = (if k AND SYSTEM_CMD \<noteq> 0 then ?sys else unat u) + 8 * unat (k AND NOT SYSTEM_CMD)"
    "unat (k AND NOT SYSTEM_CMD) < (if k AND SYSTEM_CMD \<noteq> 0 then 32 else unat n)" if "cmd_key n k" for k
    using that unat_cell [of _ 32 "k AND NOT SYSTEM_CMD"] unat_cell [of _ n "k AND NOT SYSTEM_CMD"] tab
    by (auto simp: handler_slot_def cmd_key_def word_less_nat_alt split: if_splits)
  have top: "k AND SYSTEM_CMD \<noteq> 0 \<longleftrightarrow> k' AND SYSTEM_CMD \<noteq> 0"
    using u [OF k(1)] u [OF k(2)] eq tab(4) by (auto split: if_splits)
  then have "unat (k AND NOT SYSTEM_CMD) = unat (k' AND NOT SYSTEM_CMD)"
    using u(1) [OF k(1)] u(1) [OF k(2)] eq by (auto split: if_splits)
  then show "k' = k" using top_index_eq [OF top] by (simp add: word_unat_eq_iff)
qed simp

interpretation cmds: handler_table "cmd_tables u n" "cmd_key n" target cmd_add sif_cmd_del_handler
  "\<lambda>ha. fst ha \<noteq> Fn_null" for u n :: u32
proof
  fix s :: "'a sifcmd_scheme" and k k' :: u32 and ha :: "cmd_fn \<times> u32"
  assume ok: "cmd_tables u n s" and k: "cmd_key n k"
  note e = cmd_key_entry [OF ok, THEN iffD1]
  show "cmd_tables u n (cmd_add k ha s)" "cmd_tables u n (sif_cmd_del_handler k s)"
    using ok by (simp_all add: change_entry [OF e [OF k]])
  assume k': "cmd_key n k'"
  note target_changed [OF e [OF k] e [OF k'] handler_slot_inj [OF ok k k']]
  then show "target k' (sif_cmd_del_handler k s) = (if k' = k then None else target k' s)"
    "fst ha \<noteq> Fn_null \<Longrightarrow> target k' (cmd_add k ha s) = (if k' = k then Some ha else target k' s)" by blast+
qed

text \<open>Tables in which no entry has a handler, and what is found in them after some changes.\<close>

definition no_handlers :: "'a sifcmd_scheme \<Rightarrow> bool" where
  "no_handlers s \<longleftrightarrow> (\<forall>i < 32. fst (cmd_cells s (cell (cd_sys_cmd_handlers s) i)) = Fn_null)
     \<and> (\<forall>i < cd_nr_usr_handlers s. fst (cmd_cells s (cell (cd_usr_cmd_handlers s) i)) = Fn_null)"

lemma target_none: "\<not> has_entry k s \<Longrightarrow> target k s = None"
  by (auto simp: target_def has_entry_def usr_index Let_def split_beta)

lemma target_registered:
  assumes tables: "cmd_tables (cd_usr_cmd_handlers s) n s" "no_handlers s"
    and ops: "\<forall>(k, r) \<in> set ops. cmd_key n k \<and> (\<forall>ha. r = Some ha \<longrightarrow> fst ha \<noteq> Fn_null)"
  shows "target k (foldl (\<lambda>s (k, r). case r of None \<Rightarrow> sif_cmd_del_handler k s | Some ha \<Rightarrow> cmd_add k ha s) s ops)
    = (case map_of (rev ops) k of Some (Some ha) \<Rightarrow> Some ha | _ \<Rightarrow> None)"
proof (cases "cmd_key n k")
  case True
  have "has_entry k s" using True cmd_key_entry [OF tables(1)] by simp
  moreover have "fst (cmd_cells s (handler_slot k s)) = Fn_null"
    using tables True by (auto simp: no_handlers_def cmd_tables_def handler_slot_def cmd_key_def)
  ultimately have "target k s = None" by (simp add: target_entry split_beta)
  then show ?thesis
    using cmds.lookup_changes [OF tables(1) True ops] by (auto split: option.splits)
next
  case False
  have step: "has_entry k (cmd_add k' ha t) = has_entry k t" "has_entry k (sif_cmd_del_handler k' t) = has_entry k t"
    for k' ha and t :: "'a sifcmd_scheme"
    by (simp_all add: cmd_add_def SifAddCmdHandler_def sif_cmd_del_handler_def)
  have frame: "has_entry k (foldl (\<lambda>s (k, r). case r of None \<Rightarrow> sif_cmd_del_handler k s | Some ha \<Rightarrow> cmd_add k ha s) t ops)
      = has_entry k t" for t :: "'a sifcmd_scheme"
    by (induction ops arbitrary: t) (simp_all add: step split_beta split: option.split)
  have "k \<notin> fst ` set ops" using ops False by auto
  then have "map_of (rev ops) k = None" by (simp add: map_of_eq_None_iff)
  then show ?thesis
    using False cmd_key_entry [OF tables(1), of k] frame [of s]
      target_none [of k "foldl (\<lambda>s (k, r). case r of None \<Rightarrow> sif_cmd_del_handler k s | Some ha \<Rightarrow> cmd_add k ha s) s ops"]
    by simp
qed

section \<open>Initialisation installs the system handlers\<close>

lemma foldl_fun_upd: "foldl (\<lambda>m i. m(f i := z)) m is x = (if x \<in> f ` set is then z else m x)"
  by (induction "is" arbitrary: m) auto

lemma clear_cells:
  "foldl (\<lambda>s i. upd_cell (cell (a_sifCmdSysBuffer s) (of_nat i)) (\<lambda>_. z) s) s is
    = s\<lparr>cmd_cells := foldl (\<lambda>m i. m(cell (a_sifCmdSysBuffer s) (of_nat i) := z)) (cmd_cells s) is\<rparr>"
  by (induction "is" arbitrary: s) (simp_all add: upd_cell_def)

lemma clear_sregs:
  "foldl (\<lambda>s i. stw 0 (a_sregs s + 4 * of_nat i) s) s is
    = s\<lparr>mem := foldl (\<lambda>m i. m(PHYSADDR (a_sregs s + 4 * of_nat i) := 0)) (mem s) is\<rparr>"
  by (induction "is" arbitrary: s) (simp_all add: stw_def)

definition sys_cells :: "'a sifcmd_scheme \<Rightarrow> u32 \<Rightarrow> cmd_fn \<times> u32" where
  "sys_cells s i = (if i = 0 then (Fn_change_addr, a_sif_cmd_data s)
     else if i = 1 then (Fn_set_sreg, a_sif_cmd_data s) else (Fn_null, 0))"

lemma cmd_tables_init_cells:
  assumes "i < 32"
  shows "cmd_cells (cmd_tables_init s) (cell (a_sifCmdSysBuffer s) i) = sys_cells s i"
proof -
  have "\<exists>n < 32. i = of_nat n" using assms by (intro exI [of _ "unat i"]) (simp add: word_less_nat_alt)
  then have "cell (a_sifCmdSysBuffer s) i \<in> (\<lambda>n. cell (a_sifCmdSysBuffer s) (of_nat n)) ` {0..<32}" by auto
  then show ?thesis
    using cell_inj [OF assms, of 0] cell_inj [OF assms, of 1]
    unfolding cmd_tables_init_def Let_def clear_cells clear_sregs unfolding upd_cell_def
    by (simp add: CMD_HANDLER_MAX_def sys_cells_def foldl_fun_upd del: upt_rec_numeral)
qed

lemma cmd_tables_init_frame:
  obtains m c where "cmd_tables_init s = s\<lparr>mem := m, cmd_cells := c\<rparr>"
  unfolding cmd_tables_init_def Let_def clear_cells clear_sregs unfolding upd_cell_def by simp

lemma cmd_init_cp0 [simp]:
  "cmd_tables_init (s\<lparr>cp0_status := x\<rparr>) = (cmd_tables_init s)\<lparr>cp0_status := x\<rparr>"
  "cmd_data_init ((s\<lparr>cp0_status := x\<rparr>)\<lparr>cmd_initialized := b\<rparr>) = (cmd_data_init (s\<lparr>cmd_initialized := b\<rparr>))\<lparr>cp0_status := x\<rparr>"
  unfolding cmd_tables_init_def Let_def clear_cells clear_sregs cmd_data_init_def unfolding upd_cell_def by simp_all

lemma SifSetReg_virtual:
  assumes "reg AND SYSTEM_CMD \<noteq> 0" "reg AND NOT SYSTEM_CMD < 32"
  obtains t where "SifSetReg reg v [] s = Some (0, s\<lparr>sif_reg_table := t\<rparr>)"
proof -
  have "reg \<noteq> 1" "reg \<noteq> 3" "reg \<noteq> 4" using assms(1) by (auto simp: SYSTEM_CMD_def)
  then show thesis using assms that by (simp add: SifSetReg_def Let_def)
qed

lemma reg_table_frame [simp]:
  "sifdma.more (s\<lparr>sif_reg_table := t\<rparr>) = sifdma.more s" "ring_inv (s\<lparr>sif_reg_table := t\<rparr>) = ring_inv s"
  by (simp_all add: ring_inv_def cur_tag_def)

text \<open>The state in which the address packet is sent.\<close>

definition cmd_ready :: "'a sifcmd_scheme \<Rightarrow> 'a sifcmd_scheme" where
  "cmd_ready s = (let t = cmd_tables_init (cmd_data_init (s\<lparr>cmd_initialized := True\<rparr>))\<lparr>cd_iopbuf := sbios_iopaddr s\<rparr>
     in stw (PHYSADDR (cd_pktbuf t)) (a_sifCmdInitPkt s + 16) t)"

lemma SifInitCmd_effect:
  fixes s :: "'a sifcmd_scheme"
  assumes "\<not> cmd_initialized s" "ring_inv s" "hw_tag s \<le> 30" "a_sifCmdSysBuffer s \<noteq> 0"
  obtains s' where "SifInitCmd s = Some s'" "ring_inv s'" "cp0_status s' = cp0_status s" "sys_table s'"
    "\<And>k. sys_key k \<Longrightarrow> target k s' = (let (h, a) = sys_cells s (k AND NOT SYSTEM_CMD)
       in if h \<noteq> Fn_null then Some (h, a) else None)"
    "cmd_initialized s'" "sifcmd.more s' = sifcmd.more s"
proof -
  let ?s = "s\<lparr>cmd_initialized := True\<rparr>"
  let ?d = "cmd_data_init ?s"
  obtain m c where f: "cmd_tables_init ?d = ?d\<lparr>mem := m, cmd_cells := c\<rparr>" by (rule cmd_tables_init_frame)
  have c: "c (cell (a_sifCmdSysBuffer s) i) = sys_cells s i" if "i < 32" for i
    using cmd_tables_init_cells [OF that, of ?d] unfolding f by (simp add: cmd_data_init_def sys_cells_def)
  have r: "cmd_ready s = ?d\<lparr>cmd_cells := c, cd_iopbuf := sbios_iopaddr s,
      mem := m(PHYSADDR (a_sifCmdInitPkt s + 16) := PHYSADDR (cd_pktbuf ?d))\<rparr>"
    by (simp add: cmd_ready_def f Let_def stw_def)
  have ready: "ring_inv (cmd_ready s)" "hw_tag (cmd_ready s) \<le> 30" "cp0_status (cmd_ready s) = cp0_status s"
    "cd_sys_cmd_handlers (cmd_ready s) = a_sifCmdSysBuffer s" "cd_nr_sys_handlers (cmd_ready s) = 32"
    "cmd_cells (cmd_ready s) = c" "cmd_initialized (cmd_ready s)" "sifcmd.more (cmd_ready s) = sifcmd.more s"
    using assms(2,3) by (simp_all add: r cmd_data_init_def ring_inv_def cur_tag_def hw_tag_def
        sif_dma_get_hw_index_def reg_lw_def)
  obtain id0 u where u: "SifSendCmd SIF_CMD_CHANGE_SADDR (a_sifCmdInitPkt s) 20 0 0 0 (cmd_ready s) = Some (id0, u)"
    "ring_inv u" "cp0_status u = cp0_status (cmd_ready s)" "sifdma.more u = sifdma.more (cmd_ready s)"
    using sif_cmd_send_effect [OF ready(1,2), of 20 0] unfolding SifSendCmd_def by simp metis
  obtain t1 where t1: "SifSetReg SIF_CMD_CHANGE_SADDR (cd_iopbuf u) [] u = Some (0, u\<lparr>sif_reg_table := t1\<rparr>)"
    by (rule SifSetReg_virtual [of SIF_CMD_CHANGE_SADDR "cd_iopbuf u" u])
      (simp_all add: SIF_CMD_CHANGE_SADDR_def SYSTEM_CMD_def)
  define v where "v = u\<lparr>sif_reg_table := t1\<rparr>"
  obtain t2 where t2: "SifSetReg 0x80000001 (a_sif_cmd_data v) [] v = Some (0, v\<lparr>sif_reg_table := t2\<rparr>)"
    by (rule SifSetReg_virtual [of "0x80000001" "a_sif_cmd_data v" v]) (simp_all add: SYSTEM_CMD_def)
  define s' where "s' = v\<lparr>sif_reg_table := t2\<rparr>"
  have more: "sifdma.more s' = sifdma.more (cmd_ready s)" using u(4) by (simp add: s'_def v_def)
  have "cp0_status (cmd_tables_init ?d) = cp0_status s" "a_sifCmdInitPkt (cmd_tables_init ?d) = a_sifCmdInitPkt s"
    "sbios_iopaddr (cmd_tables_init ?d) = sbios_iopaddr s"
    unfolding f by (simp_all add: cmd_data_init_def)
  then have eq: "SifInitCmd s = Some s'"
    using u(1) t1 t2 assms(1)
    by (simp add: SifInitCmd_def core_save_disable_def Let_def cmd_ready_def v_def s'_def)
  have st: "sys_table s'" using sifcmd_more [OF more] ready assms(4) by (simp add: sys_table_def)
  show thesis
  proof (rule that [OF eq])
    show "ring_inv s'" "cp0_status s' = cp0_status s" using u(2,3) ready(3) by (simp_all add: s'_def v_def)
    show "sys_table s'" by (rule st)
    show "cmd_initialized s'" "sifcmd.more s' = sifcmd.more s" using sifcmd_more [OF more] ready by simp_all
    show "target k s' = (let (h, a) = sys_cells s (k AND NOT SYSTEM_CMD) in if h \<noteq> Fn_null then Some (h, a) else None)"
      if "sys_key k" for k
      using target_sys [OF st that] sifcmd_more [OF more] ready c that by (simp add: sys_key_def)
  qed
qed

section \<open>Properties\<close>

text \<open>
  Sending a command of at most 112 bytes always returns. It writes the packet header
  (size, size of the extra data, its destination, command number) and nothing else in memory,
  returns 0 exactly when the DMA ring lacks the tags for the packet and its data, and leaves
  interrupts and the command state as they were.
\<close>

theorem sif_cmd_send_packet:
  fixes s :: "'a sifcmd_scheme"
  assumes "ring_inv s" "hw_tag s \<le> 30" "packet_size \<le> 112" "sz \<le> 0xfffffff0"
  shows "\<exists>id0 s'. sif_cmd_send fid flags packet packet_size src dest sz s = Some (id0, s')
    \<and> (id0 = 0 \<longleftrightarrow> unat (sif_get_number_of_free_dma_tags s) < cmd_tags sz)
    \<and> ldw (h_size packet) s' = (if sz = 0 then packet_size else packet_size OR push_bit 8 sz)
    \<and> ldw (h_dest packet) s' = (if sz = 0 then 0 else dest) \<and> ldw (h_fid packet) s' = fid
    \<and> (\<forall>a. in_header packet a \<or> ldw a s' = ldw a s)
    \<and> ring_inv s' \<and> cp0_status s' = cp0_status s \<and> sifdma.more s' = sifdma.more s"
  by (rule sif_cmd_send_effect [OF assms, of fid flags packet src dest]) auto

text \<open>
  C10. Starting from empty handler tables (one for the commands with the top bit set, one for
  all others), handlers are registered and removed in any order. When the IOP then delivers a
  packet of at most 112 bytes, the interrupt handler calls exactly the handler registered last for
  the command number of the packet, with the argument it was registered with and a copy of every
  word of the packet (the size word cleared), after the receive channel has been restarted. A
  packet whose command was never registered, was removed since, or has no entry in its table is
  dropped.
\<close>

theorem sif_cmd_interrupt_dispatch:
  fixes s0 s :: "'a sifcmd_scheme"
  assumes tables: "cmd_tables (cd_usr_cmd_handlers s0) (cd_nr_usr_handlers s0) s0" "no_handlers s0"
    and ops: "\<forall>(k, r) \<in> set ops. cmd_key (cd_nr_usr_handlers s0) k \<and> (\<forall>ha. r = Some ha \<longrightarrow> fst ha \<noteq> Fn_null)"
    and s: "s = foldl (\<lambda>s (k, r). case r of None \<Rightarrow> sif_cmd_del_handler k s
                 | Some ha \<Rightarrow> SifAddCmdHandler k (fst ha) (snd ha) s) s0 ops"
    and packet: "reg_lw EE_DMAC_SIF0_CHCR s AND 0x0100 = 0" "buffers_apart (cd_pktbuf s) (a_irq_packet s)"
      "ldw (cd_pktbuf s) s AND 0xff = sz" "sz \<noteq> 0" "sz \<le> 112"
  shows "\<exists>t. sif_cmd_interrupt call s = (case map_of (rev ops) (ldw (h_fid (cd_pktbuf s)) s) of
        Some (Some (handler, harg)) \<Rightarrow> call handler (a_irq_packet s) harg t | _ \<Rightarrow> Some t)
    \<and> (\<forall>k. 0 < k \<and> 4 * k < unat sz \<longrightarrow>
          ldw (a_irq_packet s + of_nat (4 * k)) t = ldw (cd_pktbuf s + of_nat (4 * k)) s)
    \<and> reg_lw EE_DMAC_SIF0_CHCR t = 0x184 \<and> cp0_status t = cp0_status s \<and> sifdma.more t = sifdma.more s"
proof -
  let ?fid = "ldw (h_fid (cd_pktbuf s)) s"
  obtain t where t: "sif_cmd_interrupt call s = (case target ?fid s of
        Some (handler, harg) \<Rightarrow> call handler (a_irq_packet s) harg t | None \<Rightarrow> Some t)"
    "\<forall>k. 0 < k \<and> 4 * k < unat sz \<longrightarrow>
          ldw (a_irq_packet s + of_nat (4 * k)) t = ldw (cd_pktbuf s + of_nat (4 * k)) s"
    "reg_lw EE_DMAC_SIF0_CHCR t = 0x184" "cp0_status t = cp0_status s" "sifdma.more t = sifdma.more s"
    using sif_cmd_interrupt_effect [OF packet, of call] by blast
  have "target ?fid s = (case map_of (rev ops) ?fid of Some (Some ha) \<Rightarrow> Some ha | _ \<Rightarrow> None)"
    using target_registered [OF tables ops, of ?fid] by (simp only: s cmd_add_def)
  then show ?thesis
    using t by (intro exI [of _ t]) (auto split: option.splits)
qed

text \<open>
  After any list of registrations of system commands the dispatcher finds, for each
  command, the handler registered last for it, and the previous one for commands not in the
  list.
\<close>

theorem registered_handlers_found:
  fixes s :: "'a sifcmd_scheme"
  assumes "sys_table s" "sys_key k'" "\<forall>(k, h, a) \<in> set regs. sys_key k \<and> h \<noteq> Fn_null"
  shows "target k' (foldl (\<lambda>s (k, h, a). SifAddCmdHandler k h a s) s regs)
    = (case map_of (rev regs) k' of None \<Rightarrow> target k' s | Some ha \<Rightarrow> Some ha)"
proof -
  have eq: "foldl (\<lambda>s (k, h, a). SifAddCmdHandler k h a s) s regs = foldl (\<lambda>s (k, ha). cmd_add k ha s) s regs"
    by (rule foldl_cong) (auto simp: cmd_add_def)
  have "\<forall>(k, ha) \<in> set regs. sys_key k \<and> fst ha \<noteq> Fn_null" using assms(3) by auto
  from sys.lookup_adds [OF assms(1,2) this] show ?thesis unfolding eq .
qed

section \<open>Witnesses\<close>

text \<open>A packet of 24 bytes carrying \<open>SET_SREG\<close> (register 5, value \<open>0x77\<close>) has been delivered.\<close>

definition sample_cmd :: sifcmd where
  "sample_cmd = \<lparr>cp0_status = 0x10c01,
     hwreg = (\<lambda>_. 0)(EE_DMAC_SIF1_TADR := 0x100040, EE_DMAC_SIF1_QWC := 2, EE_DMAC_SIF1_CHCR := 0x184),
     mem = (\<lambda>a. a)(0x300000 := 24, 0x300008 := 0x80000001, 0x300010 := 5, 0x300014 := 0x77),
     dcache_wb = [], sif_initialized = False, sif_reg_table = replicate 32 0,
     sif1_dmatag_index = 5, sif1_dma_count = 0,
     sif1_dmatags = replicate 32 \<lparr>id_qwc = 0, tag_addr = 0\<rparr>,
     iop_dmatags = replicate 32 \<lparr>iop_addr = 0, iop_size = 0, iop_data = replicate 7 (0, 0, 0, 0)\<rparr>,
     a_sif1_dmatags = 0x80100000, a_iop_dmatags = 0x80101000,
     sbios_iopaddr = 0x2000, cmd_initialized = True, cd_pktbuf = 0xa0300000, cd_cmdbuf = 0xa0300080,
     cd_iopbuf = 0x2000, cd_sys_cmd_handlers = 0x80500000, cd_nr_sys_handlers = 32,
     cd_usr_cmd_handlers = 0, cd_nr_usr_handlers = 0, cd_sregs = 0x80501000,
     cmd_cells = (\<lambda>_. (Fn_null, 0))(0x80500000 := (Fn_change_addr, 0x80502000),
                                  0x80500008 := (Fn_set_sreg, 0x80502000)),
     a_pktbuf = 0x80300000, a_cmdbuf = 0x80300080, a_sifCmdInitPkt = 0x80300100,
     a_sif_cmd_data = 0x80502000, a_sifCmdSysBuffer = 0x80500000, a_sregs = 0x80501000,
     a_irq_packet = 0x80400000\<rparr>"

lemma sample_cmd_ring [simp]:
  "ring_inv sample_cmd" "hw_tag sample_cmd = 3" "unat (sif_get_number_of_free_dma_tags sample_cmd) = 28"
  by code_simp+

lemma sample_cmd_apart: "buffers_apart 0xa0300000 0x80400000"
proof -
  have "PHYSADDR (0xa0300000 + of_nat (4 * i)) = 0x300000 + of_nat (4 * i)
      \<and> PHYSADDR (0x80400000 + of_nat (4 * i)) = 0x400000 + of_nat (4 * i)" if "i < 32" for i
  proof -
    have "list_all (\<lambda>i. PHYSADDR (0xa0300000 + of_nat (4 * i)) = 0x300000 + of_nat (4 * i)
      \<and> PHYSADDR (0x80400000 + of_nat (4 * i)) = 0x400000 + of_nat (4 * i)) [0..<32]" by code_simp
    then show ?thesis using that by (simp add: list_all_iff)
  qed
  moreover have "(0x300000 :: u32) + of_nat (4 * i) \<noteq> 0x400000 + of_nat (4 * j)" if "i < 32" "j < 32" for i j :: nat
  proof
    assume "(0x300000 :: u32) + of_nat (4 * i) = 0x400000 + of_nat (4 * j)"
    then have "of_nat (0x300000 + 4 * i) = (of_nat (0x400000 + 4 * j) :: u32)" by simp
    then have "unat (of_nat (0x300000 + 4 * i) :: u32) = unat (of_nat (0x400000 + 4 * j) :: u32)" by (simp only:)
    moreover have "unat (of_nat (0x300000 + 4 * i) :: u32) = 0x300000 + 4 * i"
      "unat (of_nat (0x400000 + 4 * j) :: u32) = 0x400000 + 4 * j"
      using that by (intro unat_of_nat_lt, simp)+
    ultimately show False using that by linarith
  qed
  ultimately show ?thesis unfolding buffers_apart_def by metis
qed

theorem sif_cmd_send_packet_witness:
  "\<exists>id0 s'. sif_cmd_send 0x8000000a 4 0x80600000 64 0x80200000 0x9000 200 sample_cmd = Some (id0, s')
     \<and> id0 \<noteq> 0 \<and> ldw 0x80600008 s' = 0x8000000a \<and> ldw 0x80600010 s' = ldw 0x80600010 sample_cmd"
proof -
  have f: "h_fid 0x80600000 = 0x80600008" "cmd_tags 200 = 3" by code_simp+
  have nh: "\<not> in_header 0x80600000 0x80600010" by code_simp
  obtain id0 s' where s': "sif_cmd_send 0x8000000a 4 0x80600000 64 0x80200000 0x9000 200 sample_cmd = Some (id0, s')"
    "id0 = 0 \<longleftrightarrow> unat (sif_get_number_of_free_dma_tags sample_cmd) < cmd_tags 200"
    "ldw (h_fid 0x80600000) s' = 0x8000000a" "\<forall>a. in_header 0x80600000 a \<or> ldw a s' = ldw a sample_cmd"
    using sif_cmd_send_packet [of sample_cmd 64 200 "0x8000000a" 4 "0x80600000" "0x80200000" "0x9000"] by auto
  then show ?thesis using f nh by auto
qed

text \<open>
  The same state before any registration, with a user table of four entries, and some
  registrations: a user command that is removed again, \<open>CHANGE_SADDR\<close>, and \<open>SET_SREG\<close> twice.
\<close>

definition sample_empty :: sifcmd where
  "sample_empty = sample_cmd\<lparr>cmd_cells := (\<lambda>_. (Fn_null, 0)),
     cd_usr_cmd_handlers := 0x80503000, cd_nr_usr_handlers := 4\<rparr>"

definition sample_regs :: "(u32 \<times> (cmd_fn \<times> u32) option) list" where
  "sample_regs = [(1, Some (Fn_ext 7, 9)), (0x80000001, Some (Fn_change_addr, 1)),
     (0x80000000, Some (Fn_change_addr, 0x80502000)), (1, None), (0x80000001, Some (Fn_set_sreg, 0x80502000))]"

definition sample_registered :: sifcmd where
  "sample_registered = foldl (\<lambda>s (k, r). case r of None \<Rightarrow> sif_cmd_del_handler k s
     | Some ha \<Rightarrow> SifAddCmdHandler k (fst ha) (snd ha) s) sample_empty sample_regs"

theorem sif_cmd_interrupt_dispatch_witness:
  "\<exists>t. sif_cmd_interrupt (\<lambda>h p a s. if h = Fn_set_sreg then Some (set_sreg p a s) else None) sample_registered
       = Some (set_sreg 0x80400000 0x80502000 t) \<and> ldw 0x80400014 t = 0x77"
proof -
  have c: "ldw (cd_pktbuf sample_registered) sample_registered AND 0xff = 24"
    "reg_lw EE_DMAC_SIF0_CHCR sample_registered AND 0x0100 = 0"
    "ldw (h_fid (cd_pktbuf sample_registered)) sample_registered = 0x80000001"
    "ldw 0xa0300014 sample_registered = 0x77" "cd_pktbuf sample_registered = 0xa0300000"
    "a_irq_packet sample_registered = 0x80400000"
    "map_of (rev sample_regs) 0x80000001 = Some (Some (Fn_set_sreg, 0x80502000))"
    "list_all (\<lambda>(k, r). cmd_key (cd_nr_usr_handlers sample_empty) k \<and> map_option fst r \<noteq> Some Fn_null) sample_regs"
    by code_simp+
  have tab: "cmd_tables (cd_usr_cmd_handlers sample_empty) (cd_nr_usr_handlers sample_empty) sample_empty"
    by (simp add: cmd_tables_def sys_table_def sample_empty_def sample_cmd_def)
  have n: "no_handlers sample_empty" by (simp add: no_handlers_def sample_empty_def)
  have ops: "\<forall>(k, r) \<in> set sample_regs. cmd_key (cd_nr_usr_handlers sample_empty) k
      \<and> (\<forall>ha. r = Some ha \<longrightarrow> fst ha \<noteq> Fn_null)"
    using c(8) by (auto simp: list_all_iff)
  have ap: "buffers_apart (cd_pktbuf sample_registered) (a_irq_packet sample_registered)"
    using sample_cmd_apart c by simp
  obtain t where t: "sif_cmd_interrupt (\<lambda>h p a s. if h = Fn_set_sreg then Some (set_sreg p a s) else None) sample_registered
      = Some (set_sreg 0x80400000 0x80502000 t)"
    "\<forall>k. 0 < k \<and> 4 * k < unat (24 :: u32) \<longrightarrow>
       ldw (0x80400000 + of_nat (4 * k)) t = ldw (0xa0300000 + of_nat (4 * k)) sample_registered"
    using sif_cmd_interrupt_dispatch [OF tab n ops sample_registered_def c(2) ap c(1),
        where call = "\<lambda>h p a s. if h = Fn_set_sreg then Some (set_sreg p a s) else None"] c(3,5,6,7)
    by auto
  show ?thesis using t(1) t(2) [rule_format, of 5] c(4) by auto
qed

theorem registered_handlers_found_witness:
  "target 0x8000000a (foldl (\<lambda>s (k, h, a). SifAddCmdHandler k h a s) sample_cmd
      [(0x80000008, Fn_request_end, 0), (0x8000000a, Fn_request_call, 7)]) = Some (Fn_request_call, 7)"
proof -
  have "sys_table sample_cmd" "sys_key 0x8000000a" "sys_key 0x80000008" by code_simp+
  then show ?thesis
    using registered_handlers_found [of sample_cmd "0x8000000a"
        "[(0x80000008, Fn_request_end, 0), (0x8000000a, Fn_request_call, 7)]"] by simp
qed

end
