(* ===== verification/SifRpc.thy ===== *)
theory SifRpc
  imports SifCmd
begin

text \<open>
  Remote procedure calls over the SIF (\<open>TGE/sbios/sifrpc.c\<close>). As a client the EE takes a
  packet from a table of 32, marks the client structure busy with it and sends it; the IOP's
  answer arrives as command \<open>0x80000008\<close>, frees the client, runs the end function and frees
  the packet. As a server it keeps queues of registered servers and answers from a ring of
  packets.

  Packets are words of main memory. Client, server and queue structures are typed stores
  indexed by address, address 0 being \<open>NULL\<close>; an access through \<open>NULL\<close> is the value \<open>None\<close>.
  What an end function or a server function does is a parameter (they belong to the callers),
  and so is what interrupts do while a blocking call polls. Console messages are not modelled.
\<close>

section \<open>State\<close>

record client_data =
  cl_pkt_addr :: u32
  cl_rpc_id :: u32
  cl_sema_id :: u32
  cl_command :: u32
  cl_buff :: u32
  cl_cbuff :: u32
  cl_end_function :: u32
  cl_end_param :: u32
  cl_server :: u32

record server_data =
  sv_sid :: u32
  sv_func :: u32
  sv_buff :: u32
  sv_size :: u32
  sv_cfunc :: u32
  sv_cbuff :: u32
  sv_client :: u32
  sv_pkt_addr :: u32
  sv_rpc_number :: u32
  sv_receive :: u32
  sv_rsize :: u32
  sv_rmode :: u32
  sv_rid :: u32
  sv_link :: u32
  sv_next :: u32
  sv_base :: u32

record data_queue =
  q_active :: u32
  q_link :: u32
  q_start :: u32
  q_end :: u32
  q_next :: u32

text \<open>\<open>rd_\<close> fields are \<open>_sif_rpc_data\<close>; the table lengths are set at link time.\<close>

record sifrpc = sifcmd +
  rd_pid :: u32
  rd_pkt_table :: u32
  rd_pkt_table_len :: nat
  rd_rdata_table :: u32
  rd_rdata_table_len :: nat
  rd_client_table :: u32
  rd_client_table_len :: nat
  rd_rdata_table_idx :: nat
  rd_active_queue :: u32
  rpc_init :: bool
  clients :: "u32 \<Rightarrow> client_data"
  servers :: "u32 \<Rightarrow> server_data"
  queues :: "u32 \<Rightarrow> data_queue"
  a_sif_rpc_data :: u32

definition RPC_PACKET_SIZE :: u32 where "RPC_PACKET_SIZE = 64"
definition PACKET_F_ALLOC :: u32 where "PACKET_F_ALLOC = 1"
definition SIF_RPC_M_NOWAIT :: u32 where "SIF_RPC_M_NOWAIT = 1"
definition SIF_RPC_M_NOWBDC :: u32 where "SIF_RPC_M_NOWBDC = 2"
definition E_SIF_PKT_ALLOC :: u32 where "E_SIF_PKT_ALLOC = 0xd610"
definition E_SIF_PKT_SEND :: u32 where "E_SIF_PKT_SEND = 0xd611"

lemmas rpc_consts = RPC_PACKET_SIZE_def PACKET_F_ALLOC_def SIF_RPC_M_NOWAIT_def SIF_RPC_M_NOWBDC_def
  E_SIF_PKT_ALLOC_def E_SIF_PKT_SEND_def E_LIB_INVALID_ARG_def

text \<open>Word \<open>k\<close> of a packet, numbered as in the comments of \<open>sifrpc.h\<close>.\<close>

definition fld :: "u32 \<Rightarrow> nat \<Rightarrow> u32" where
  "fld p k = p + of_nat (4 * k)"

abbreviation "f_rec_id \<equiv> 4 :: nat"
abbreviation "f_pkt_addr \<equiv> 5 :: nat"
abbreviation "f_rpc_id \<equiv> 6 :: nat"
abbreviation "f_client \<equiv> 7 :: nat"
abbreviation "f_sid \<equiv> 8 :: nat"
abbreviation "f_cid \<equiv> 8 :: nat"
abbreviation "f_rpc_number \<equiv> 8 :: nat"
abbreviation "f_rserver \<equiv> 9 :: nat"
abbreviation "f_send_size \<equiv> 9 :: nat"
abbreviation "f_buff \<equiv> 10 :: nat"
abbreviation "f_receive \<equiv> 10 :: nat"
abbreviation "f_cbuff \<equiv> 11 :: nat"
abbreviation "f_recv_size \<equiv> 11 :: nat"
abbreviation "f_rmode \<equiv> 12 :: nat"
abbreviation "f_server \<equiv> 13 :: nat"

definition getf :: "u32 \<Rightarrow> nat \<Rightarrow> 'a sifrpc_scheme \<Rightarrow> u32" where
  "getf p k s = ldw (fld p k) s"

definition setf :: "u32 \<Rightarrow> nat \<Rightarrow> u32 \<Rightarrow> 'a sifrpc_scheme \<Rightarrow> 'a sifrpc_scheme" where
  "setf p k v s = stw v (fld p k) s"

definition upd_client :: "u32 \<Rightarrow> (client_data \<Rightarrow> client_data) \<Rightarrow> 'a sifrpc_scheme \<Rightarrow> 'a sifrpc_scheme" where
  "upd_client a f s = s\<lparr>clients := (clients s)(a := f (clients s a))\<rparr>"

definition upd_server :: "u32 \<Rightarrow> (server_data \<Rightarrow> server_data) \<Rightarrow> 'a sifrpc_scheme \<Rightarrow> 'a sifrpc_scheme" where
  "upd_server a f s = s\<lparr>servers := (servers s)(a := f (servers s a))\<rparr>"

definition upd_queue :: "u32 \<Rightarrow> (data_queue \<Rightarrow> data_queue) \<Rightarrow> 'a sifrpc_scheme \<Rightarrow> 'a sifrpc_scheme" where
  "upd_queue a f s = s\<lparr>queues := (queues s)(a := f (queues s a))\<rparr>"

section \<open>Packets\<close>

text \<open>The scan for a packet that is not allocated: index and address where the loop stops.\<close>

fun find_packet :: "nat \<Rightarrow> nat \<Rightarrow> u32 \<Rightarrow> 'a sifrpc_scheme \<Rightarrow> nat \<times> u32" where
  "find_packet rid 0 packet s = (rid, packet)"
| "find_packet rid (Suc n) packet s =
     (if getf packet f_rec_id s AND PACKET_F_ALLOC = 0 then (rid, packet)
      else find_packet (Suc rid) n (packet + 64) s)"

definition rpc_get_packet :: "'a sifrpc_scheme \<Rightarrow> u32 \<times> 'a sifrpc_scheme" where
  "rpc_get_packet s =
     (let (status, s) = core_save_disable s;
          len = rd_pkt_table_len s
      in if len > 0 then
           let (rid, packet) = find_packet 0 len (rd_pkt_table s) s
           in if rid = len then (0, core_restore status s)
              else
                let pid = rd_pid s;
                    (pid, s) = (if pid \<noteq> 0 then (pid + 1, s\<lparr>rd_pid := pid + 1\<rparr>)
                                else (1, s\<lparr>rd_pid := pid + 2\<rparr>));
                    s = setf packet f_rec_id (push_bit 16 (of_nat rid) OR 4 OR PACKET_F_ALLOC) s;
                    s = setf packet f_rpc_id pid s;
                    s = setf packet f_pkt_addr packet s
                in (packet, core_restore status s)
         else (0, core_restore status s))"

definition rpc_get_fpacket :: "'a sifrpc_scheme \<Rightarrow> u32 \<times> 'a sifrpc_scheme" where
  "rpc_get_fpacket s =
     (let index = rd_rdata_table_idx s mod rd_rdata_table_len s;
          s = s\<lparr>rd_rdata_table_idx := index + 1\<rparr>
      in (rd_rdata_table s + of_nat index * RPC_PACKET_SIZE, s))"

definition rpc_get_fpacket2 :: "nat \<Rightarrow> 'a sifrpc_scheme \<Rightarrow> u32 \<times> 'a sifrpc_scheme" where
  "rpc_get_fpacket2 rid s =
     (if rid < rd_client_table_len s then rpc_get_fpacket s
      else (rd_client_table s + of_nat rid * RPC_PACKET_SIZE, s))"

definition rpc_packet_free :: "u32 \<Rightarrow> 'a sifrpc_scheme \<Rightarrow> 'a sifrpc_scheme" where
  "rpc_packet_free packet s =
     (let (status, s) = core_save_disable s;
          s = setf packet f_rpc_id 0 s;
          s = setf packet f_rec_id (getf packet f_rec_id s AND NOT PACKET_F_ALLOC) s
      in core_restore status s)"

section \<open>Client side\<close>

text \<open>
  The polling loop of the blocking calls. What interrupts do at each preemption point is a list
  of state changes; \<open>None\<close> means the loop was still waiting when the list ended.
\<close>

fun wait_sema ::
  "u32 \<Rightarrow> u32 \<Rightarrow> ('a sifrpc_scheme \<Rightarrow> 'a sifrpc_scheme) list \<Rightarrow> 'a sifrpc_scheme \<Rightarrow> (u32 \<times> 'a sifrpc_scheme) option" where
  "wait_sema cd status [] s =
     (if cl_sema_id (clients s cd) = 0 then None else Some (status, s))"
| "wait_sema cd status (intr # intrs) s =
     (if cl_sema_id (clients s cd) = 0 then
        let s = core_restore status s;
            (status, s) = core_save_disable (intr s)
        in wait_sema cd status intrs s
      else Some (status, s))"

definition wait_end ::
  "u32 \<Rightarrow> ('a sifrpc_scheme \<Rightarrow> 'a sifrpc_scheme) list \<Rightarrow> 'a sifrpc_scheme \<Rightarrow> (u32 \<times> 'a sifrpc_scheme) option" where
  "wait_end cd intrs s =
     (let (status, s) = core_save_disable s
      in case wait_sema cd status intrs s of
           None \<Rightarrow> None
         | Some (status, s) \<Rightarrow>
             Some (0, core_restore status (upd_client cd (\<lambda>c. c\<lparr>cl_sema_id := cl_sema_id c - 1\<rparr>) s)))"

definition SifBindRpc ::
  "('a sifrpc_scheme \<Rightarrow> 'a sifrpc_scheme) list \<Rightarrow> u32 \<Rightarrow> u32 \<Rightarrow> u32 \<Rightarrow> u32 \<Rightarrow> u32
     \<Rightarrow> 'a sifrpc_scheme \<Rightarrow> (u32 \<times> 'a sifrpc_scheme) option" where
  "SifBindRpc intrs cd sid mode endfunc efarg s =
     (let (bind, s) = rpc_get_packet s
      in if bind = 0 then Some (- E_SIF_PKT_ALLOC, s)
         else
           let (status, s) = core_save_disable s
           in if cl_pkt_addr (clients s cd) \<noteq> 0 then
                Some (- E_SIF_PKT_ALLOC, rpc_packet_free bind (core_restore status s))
              else
                let s = upd_client cd (\<lambda>c. c\<lparr>cl_end_function := endfunc, cl_end_param := efarg,
                          cl_command := 0, cl_server := 0, cl_pkt_addr := bind,
                          cl_rpc_id := getf bind f_rpc_id s, cl_sema_id := 0\<rparr>) s;
                    s = core_restore status s;
                    s = setf bind f_sid sid s;
                    s = setf bind f_pkt_addr bind s;
                    s = setf bind f_client cd s
                in case SifSendCmd 0x80000009 bind RPC_PACKET_SIZE 0 0 0 s of
                     None \<Rightarrow> None
                   | Some (r, s) \<Rightarrow>
                       (if r = 0 then Some (- E_SIF_PKT_SEND, rpc_packet_free bind s)
                        else if mode AND SIF_RPC_M_NOWAIT \<noteq> 0 then Some (0, s)
                        else wait_end cd intrs s))"

definition call_writeback :: "u32 \<Rightarrow> u32 \<Rightarrow> u32 \<Rightarrow> u32 \<Rightarrow> u32 \<Rightarrow> 'a sifrpc_scheme \<Rightarrow> 'a sifrpc_scheme" where
  "call_writeback mode sendbuf ssize recvbuf rsize s =
     (if mode AND SIF_RPC_M_NOWBDC = 0 then
        let s = (if sint ssize > 0 then SifWriteBackDCache sendbuf ssize s else s)
        in if sint rsize > 0 then SifWriteBackDCache recvbuf rsize s else s
      else s)"

definition SifCallRpc ::
  "('a sifrpc_scheme \<Rightarrow> 'a sifrpc_scheme) list \<Rightarrow> u32 \<Rightarrow> u32 \<Rightarrow> u32 \<Rightarrow> u32 \<Rightarrow> u32 \<Rightarrow> u32 \<Rightarrow> u32 \<Rightarrow> u32 \<Rightarrow> u32
     \<Rightarrow> 'a sifrpc_scheme \<Rightarrow> (u32 \<times> 'a sifrpc_scheme) option" where
  "SifCallRpc intrs cd rpc_number mode sendbuf ssize recvbuf rsize endfunc efarg s =
     (if recvbuf AND 0x0f \<noteq> 0 then Some (- E_LIB_INVALID_ARG, s)
      else
        let (call, s) = rpc_get_packet s
        in if call = 0 then Some (- E_SIF_PKT_ALLOC, s)
           else
             let (status, s) = core_save_disable s
             in if cl_pkt_addr (clients s cd) \<noteq> 0 then
                  Some (- E_SIF_PKT_ALLOC, rpc_packet_free call (core_restore status s))
                else
                  let s = upd_client cd (\<lambda>c. c\<lparr>cl_end_function := endfunc, cl_end_param := efarg,
                            cl_pkt_addr := call, cl_rpc_id := getf call f_rpc_id s, cl_sema_id := 0\<rparr>) s;
                      s = core_restore status s;
                      s = setf call f_rpc_number rpc_number s;
                      s = setf call f_send_size ssize s;
                      s = setf call f_receive recvbuf s;
                      s = setf call f_recv_size rsize s;
                      s = setf call f_rmode 1 s;
                      s = setf call f_pkt_addr call s;
                      s = setf call f_client cd s;
                      s = setf call f_server (cl_server (clients s cd)) s;
                      s = call_writeback mode sendbuf ssize recvbuf rsize s;
                      s = (if mode AND SIF_RPC_M_NOWAIT \<noteq> 0 \<and> endfunc = 0 then setf call f_rmode 0 s else s)
                  in case SifSendCmd 0x8000000a call RPC_PACKET_SIZE sendbuf (cl_buff (clients s cd)) ssize s of
                       None \<Rightarrow> None
                     | Some (r, s) \<Rightarrow>
                         (if r = 0 then Some (- E_SIF_PKT_SEND, rpc_packet_free call s)
                          else if mode AND SIF_RPC_M_NOWAIT \<noteq> 0 then Some (0, s)
                          else wait_end cd intrs s))"

definition SifCheckStatRpc :: "u32 \<Rightarrow> 'a sifrpc_scheme \<Rightarrow> u32" where
  "SifCheckStatRpc cd s =
     (let packet = cl_pkt_addr (clients s cd)
      in if packet = 0 then 0
         else if cl_rpc_id (clients s cd) \<noteq> getf packet f_rpc_id s then 0
         else if getf packet f_rec_id s AND PACKET_F_ALLOC = 0 then 0
         else 1)"

text \<open>Command \<open>0x80000008\<close>. \<open>callback\<close> is what calling an end function with its parameter does.\<close>

definition request_end ::
  "(u32 \<Rightarrow> u32 \<Rightarrow> 'a sifrpc_scheme \<Rightarrow> 'a sifrpc_scheme option) \<Rightarrow> u32 \<Rightarrow> u32
     \<Rightarrow> 'a sifrpc_scheme \<Rightarrow> 'a sifrpc_scheme option" where
  "request_end callback request data s =
     (let client = getf request f_client s;
          (status, s) = core_save_disable s;
          pkt_addr = cl_pkt_addr (clients s client);
          s = upd_client client (\<lambda>c. c\<lparr>cl_sema_id := cl_sema_id c + 1\<rparr>) s;
          cid = getf request f_cid s;
          (end_function, end_param, s) =
            (if cid = 0x8000000a then
               (cl_end_function (clients s client), cl_end_param (clients s client), s)
             else if cid = 0x80000009 then
               let s = upd_client client (\<lambda>c. c\<lparr>cl_server := getf request f_rserver s,
                         cl_buff := getf request f_buff s, cl_cbuff := getf request f_cbuff s\<rparr>) s
               in (cl_end_function (clients s client), cl_end_param (clients s client), s)
             else (0, 0, s));
          s = upd_client client (\<lambda>c. c\<lparr>cl_pkt_addr := 0\<rparr>) s;
          s = core_restore status s
      in case (if end_function \<noteq> 0 then callback end_function end_param s else Some s) of
           None \<Rightarrow> None
         | Some s \<Rightarrow> Some (rpc_packet_free pkt_addr s))"

section \<open>Server side\<close>

partial_function (option) search_servers :: "u32 \<Rightarrow> u32 \<Rightarrow> 'a sifrpc_scheme \<Rightarrow> u32 option" where
  "search_servers sid server s =
     (if server = 0 then Some 0
      else if sv_sid (servers s server) = sid then Some server
      else search_servers sid (sv_link (servers s server)) s)"

partial_function (option) search_queues :: "u32 \<Rightarrow> u32 \<Rightarrow> 'a sifrpc_scheme \<Rightarrow> u32 option" where
  "search_queues sid queue s =
     (if queue = 0 then Some 0
      else case search_servers sid (q_link (queues s queue)) s of
             None \<Rightarrow> None
           | Some server \<Rightarrow>
               (if server \<noteq> 0 then Some server else search_queues sid (q_next (queues s queue)) s))"

definition search_svdata :: "u32 \<Rightarrow> 'a sifrpc_scheme \<Rightarrow> u32 option" where
  "search_svdata sid s = search_queues sid (rd_active_queue s) s"

definition request_bind :: "u32 \<Rightarrow> u32 \<Rightarrow> 'a sifrpc_scheme \<Rightarrow> 'a sifrpc_scheme option" where
  "request_bind bind data s =
     (let (rend, s) = rpc_get_fpacket s;
          s = setf rend f_pkt_addr (getf bind f_pkt_addr s) s;
          s = setf rend f_client (getf bind f_client s) s;
          s = setf rend f_cid 0x80000009 s
      in case search_svdata (getf bind f_sid s) s of
           None \<Rightarrow> None
         | Some server \<Rightarrow>
             let s = (if server = 0
                      then setf rend f_cbuff 0 (setf rend f_buff 0 (setf rend f_rserver 0 s))
                      else setf rend f_cbuff (sv_cbuff (servers s server))
                             (setf rend f_buff (sv_buff (servers s server)) (setf rend f_rserver server s)))
             in map_option snd (iSifSendCmd 0x80000008 rend 64 0 0 0 s))"

definition SifGetNextRequest :: "u32 \<Rightarrow> 'a sifrpc_scheme \<Rightarrow> u32 \<times> 'a sifrpc_scheme" where
  "SifGetNextRequest qd s =
     (let (status, s) = core_save_disable s;
          server = q_start (queues s qd);
          s = upd_queue qd (\<lambda>q. q\<lparr>q_active := 1\<rparr>) s;
          s = (if server \<noteq> 0
               then upd_queue qd (\<lambda>q. q\<lparr>q_active := 0, q_start := sv_next (servers s server)\<rparr>) s
               else s)
      in (server, core_restore status s))"

text \<open>
  The loop that retries until the DMA ring has a free entry; what the hardware does between two
  attempts is a list of state changes, \<open>None\<close> meaning that the list ended first.
\<close>

fun retry_dma ::
  "('a sifrpc_scheme \<Rightarrow> 'a sifrpc_scheme) list \<Rightarrow> tge_sifdma_transfer \<Rightarrow> 'a sifrpc_scheme \<Rightarrow> 'a sifrpc_scheme option" where
  "retry_dma hw dmat s =
     (case SifSetDma [dmat] s of
        None \<Rightarrow> None
      | Some (r, s) \<Rightarrow>
          (if r \<noteq> 0 then Some s
           else (case hw of [] \<Rightarrow> None | h # hw \<Rightarrow> retry_dma hw dmat (h s))))"

definition SifExecRequest ::
  "(u32 \<Rightarrow> u32 \<Rightarrow> u32 \<Rightarrow> u32 \<Rightarrow> 'a sifrpc_scheme \<Rightarrow> (u32 \<times> 'a sifrpc_scheme) option)
     \<Rightarrow> ('a sifrpc_scheme \<Rightarrow> 'a sifrpc_scheme) list \<Rightarrow> u32 \<Rightarrow> 'a sifrpc_scheme \<Rightarrow> 'a sifrpc_scheme option" where
  "SifExecRequest func hw sd s =
     (case func (sv_func (servers s sd)) (sv_rpc_number (servers s sd)) (sv_buff (servers s sd))
             (sv_size (servers s sd)) s of
        None \<Rightarrow> None
      | Some (rec, s) \<Rightarrow>
          let v = servers s sd;
              s = (if sv_size v \<noteq> 0 then SifWriteBackDCache (sv_buff v) (sv_size v) s else s);
              s = (if sv_rsize v \<noteq> 0 then SifWriteBackDCache rec (sv_rsize v) s else s);
              (status, s) = core_save_disable s;
              (rend, s) = (if sv_rid v AND 4 \<noteq> 0
                           then rpc_get_fpacket2 (unat (drop_bit 16 (sv_rid v) AND 0xffff)) s
                           else rpc_get_fpacket s);
              s = core_restore status s;
              s = setf rend f_client (sv_client v) s;
              s = setf rend f_cid 0x8000000a s;
              s = setf rend f_rpc_id 0 s;
              dmat = (if sv_rsize v \<noteq> 0
                      then \<lparr>xf_src = rec, xf_dest = sv_receive v, xf_size = sv_rsize v, xf_attr = 0\<rparr>
                      else \<lparr>xf_src = rend, xf_dest = sv_pkt_addr v, xf_size = 64, xf_attr = 0\<rparr>)
          in if sv_rmode v \<noteq> 0 then
               (case SifSendCmd 0x80000008 rend RPC_PACKET_SIZE rec (sv_receive v) (sv_rsize v) s of
                  None \<Rightarrow> None
                | Some (r, s) \<Rightarrow>
                    (if r = 0 then Some s else retry_dma hw dmat (setf rend f_rec_id 0 s)))
             else retry_dma hw dmat (setf rend f_rec_id 0 s))"

text \<open>Command \<open>0x8000000a\<close>: queue the server of the request, then run what the queue has first.\<close>

definition request_call ::
  "(u32 \<Rightarrow> u32 \<Rightarrow> u32 \<Rightarrow> u32 \<Rightarrow> 'a sifrpc_scheme \<Rightarrow> (u32 \<times> 'a sifrpc_scheme) option)
     \<Rightarrow> ('a sifrpc_scheme \<Rightarrow> 'a sifrpc_scheme) list \<Rightarrow> u32 \<Rightarrow> u32 \<Rightarrow> 'a sifrpc_scheme \<Rightarrow> 'a sifrpc_scheme option" where
  "request_call func hw request data s =
     (let server = getf request f_server s
      in if server = 0 then None
         else
           let base = sv_base (servers s server)
           in if base = 0 \<or> q_start (queues s base) \<noteq> 0 \<and> q_end (queues s base) = 0 then None
              else
                let s = (if q_start (queues s base) \<noteq> 0
                         then upd_server (q_end (queues s base)) (\<lambda>v. v\<lparr>sv_link := server\<rparr>) s
                         else upd_queue base (\<lambda>q. q\<lparr>q_start := server\<rparr>) s);
                    s = upd_queue base (\<lambda>q. q\<lparr>q_end := server\<rparr>) s;
                    s = upd_server server (\<lambda>v. v\<lparr>sv_pkt_addr := getf request f_pkt_addr s,
                          sv_client := getf request f_client s,
                          sv_rpc_number := getf request f_rpc_number s,
                          sv_size := getf request f_send_size s,
                          sv_receive := getf request f_receive s,
                          sv_rsize := getf request f_recv_size s,
                          sv_rmode := getf request f_rmode s,
                          sv_rid := getf request f_rec_id s\<rparr>) s;
                    (server, s) = SifGetNextRequest base s
                in if server \<noteq> 0 then SifExecRequest func hw server s else Some s)"

text \<open>Command \<open>0x8000000c\<close>; the words of the request are \<open>receive\<close>, \<open>src\<close>, \<open>dest\<close>, \<open>size\<close>.\<close>

definition request_rdata :: "u32 \<Rightarrow> u32 \<Rightarrow> 'a sifrpc_scheme \<Rightarrow> 'a sifrpc_scheme option" where
  "request_rdata rdata data s =
     (let (rend, s) = rpc_get_fpacket s;
          s = setf rend f_pkt_addr (getf rdata f_pkt_addr s) s;
          s = setf rend f_client (getf rdata 7 s) s;
          s = setf rend f_cid 0x8000000c s
      in map_option snd
           (iSifSendCmd 0x80000008 rend 64 (getf rdata 8 s) (getf rdata 9 s) (getf rdata 10 s) s))"

text \<open>\<open>while ((server = server->next)) ;\<close> and the same loop over queues.\<close>

partial_function (option) skip_servers :: "u32 \<Rightarrow> 'a sifrpc_scheme \<Rightarrow> u32 option" where
  "skip_servers server s =
     (let server = sv_next (servers s server)
      in if server \<noteq> 0 then skip_servers server s else Some server)"

partial_function (option) skip_queues :: "u32 \<Rightarrow> 'a sifrpc_scheme \<Rightarrow> u32 option" where
  "skip_queues queue s =
     (let queue = q_next (queues s queue)
      in if queue \<noteq> 0 then skip_queues queue s else Some queue)"

definition SifRegisterRpc ::
  "u32 \<Rightarrow> u32 \<Rightarrow> u32 \<Rightarrow> u32 \<Rightarrow> u32 \<Rightarrow> u32 \<Rightarrow> u32 \<Rightarrow> 'a sifrpc_scheme \<Rightarrow> (u32 \<times> 'a sifrpc_scheme) option" where
  "SifRegisterRpc sd sid func buff cfunc cbuff qd s =
     (let (status, s) = core_save_disable s;
          s = upd_server sd (\<lambda>v. v\<lparr>sv_link := 0, sv_next := 0, sv_sid := sid, sv_func := func,
                sv_buff := buff, sv_cfunc := cfunc, sv_cbuff := cbuff, sv_base := qd\<rparr>) s;
          server = q_link (queues s qd)
      in if server = 0 then
           Some (server, core_restore status (upd_queue qd (\<lambda>q. q\<lparr>q_link := sd\<rparr>) s))
         else (case skip_servers server s of
                 None \<Rightarrow> None
               | Some server \<Rightarrow>
                   (if server = 0 then None
                    else Some (server, core_restore status (upd_server server (\<lambda>v. v\<lparr>sv_next := sd\<rparr>) s)))))"

definition SifSetRpcQueue :: "u32 \<Rightarrow> 'a sifrpc_scheme \<Rightarrow> (u32 \<times> 'a sifrpc_scheme) option" where
  "SifSetRpcQueue qd s =
     (let (status, s) = core_save_disable s;
          s = upd_queue qd (\<lambda>q. q\<lparr>q_active := 0, q_link := 0, q_start := 0, q_end := 0, q_next := 0\<rparr>) s
      in if rd_active_queue s = 0 then Some (0, core_restore status (s\<lparr>rd_active_queue := qd\<rparr>))
         else (case skip_queues (rd_active_queue s) s of
                 None \<Rightarrow> None
               | Some queue \<Rightarrow>
                   (if queue = 0 then None
                    else Some (queue, core_restore status (upd_queue queue (\<lambda>q. q\<lparr>q_next := qd\<rparr>) s)))))"

section \<open>Initialisation and entry points\<close>

definition SifInitRpc :: "'a sifrpc_scheme \<Rightarrow> 'a sifrpc_scheme option" where
  "SifInitRpc s =
     (let (status, s) = core_save_disable s
      in if rpc_init s then Some (core_restore status s)
         else
           case SifInitCmd (s\<lparr>rpc_init := True\<rparr>) of
             None \<Rightarrow> None
           | Some s \<Rightarrow>
               let s = s\<lparr>rd_pkt_table := KSEG1ADDR (rd_pkt_table s),
                         rd_rdata_table := KSEG1ADDR (rd_rdata_table s),
                         rd_client_table := KSEG1ADDR (rd_client_table s)\<rparr>;
                   s = SifAddCmdHandler 0x80000008 Fn_request_end (a_sif_rpc_data s) s;
                   s = SifAddCmdHandler 0x80000009 Fn_request_bind (a_sif_rpc_data s) s;
                   s = SifAddCmdHandler 0x8000000a Fn_request_call (a_sif_rpc_data s) s;
                   s = SifAddCmdHandler 0x8000000c Fn_request_rdata (a_sif_rpc_data s) s
               in map_option (\<lambda>(_, s). core_restore status s) (SifSetReg 0x80000002 1 [] s))"

definition SifExitRpc :: "'a sifrpc_scheme \<Rightarrow> 'a sifrpc_scheme" where
  "SifExitRpc s = (SifExitCmd s)\<lparr>rpc_init := False\<rparr>"

definition sbcall_sifinitrpc :: "'a sifrpc_scheme \<Rightarrow> (u32 \<times> 'a sifrpc_scheme) option" where
  "sbcall_sifinitrpc s = map_option (Pair 0) (SifInitRpc s)"

record tge_sbcall_sifbindrpc_arg =
  ba_cd :: u32
  ba_sid :: u32
  ba_mode :: u32
  ba_endfunc :: u32
  ba_efarg :: u32

record tge_sbcall_sifcallrpc_arg =
  ca_cd :: u32
  ca_func :: u32
  ca_mode :: u32
  ca_send :: u32
  ca_send_size :: u32
  ca_recv :: u32
  ca_recv_size :: u32
  ca_endfunc :: u32
  ca_efarg :: u32

definition sbcall_sifbindrpc ::
  "('a sifrpc_scheme \<Rightarrow> 'a sifrpc_scheme) list \<Rightarrow> tge_sbcall_sifbindrpc_arg
     \<Rightarrow> 'a sifrpc_scheme \<Rightarrow> (u32 \<times> 'a sifrpc_scheme) option" where
  "sbcall_sifbindrpc intrs arg = SifBindRpc intrs (ba_cd arg) (ba_sid arg) (ba_mode arg) (ba_endfunc arg) (ba_efarg arg)"

definition sbcall_sifcallrpc ::
  "('a sifrpc_scheme \<Rightarrow> 'a sifrpc_scheme) list \<Rightarrow> tge_sbcall_sifcallrpc_arg
     \<Rightarrow> 'a sifrpc_scheme \<Rightarrow> (u32 \<times> 'a sifrpc_scheme) option" where
  "sbcall_sifcallrpc intrs arg = SifCallRpc intrs (ca_cd arg) (ca_func arg) (ca_mode arg) (ca_send arg)
     (ca_send_size arg) (ca_recv arg) (ca_recv_size arg) (ca_endfunc arg) (ca_efarg arg)"

text \<open>
  The functions of this program that the command dispatcher can call: what the parameter of
  \<open>sif_cmd_interrupt\<close> is once this layer is installed.
\<close>

definition call_cmd ::
  "(u32 \<Rightarrow> u32 \<Rightarrow> 'a sifrpc_scheme \<Rightarrow> 'a sifrpc_scheme option)
     \<Rightarrow> (u32 \<Rightarrow> u32 \<Rightarrow> u32 \<Rightarrow> u32 \<Rightarrow> 'a sifrpc_scheme \<Rightarrow> (u32 \<times> 'a sifrpc_scheme) option)
     \<Rightarrow> ('a sifrpc_scheme \<Rightarrow> 'a sifrpc_scheme) list
     \<Rightarrow> (u32 \<Rightarrow> u32 \<Rightarrow> u32 \<Rightarrow> 'a sifrpc_scheme \<Rightarrow> 'a sifrpc_scheme option)
     \<Rightarrow> cmd_fn \<Rightarrow> u32 \<Rightarrow> u32 \<Rightarrow> 'a sifrpc_scheme \<Rightarrow> 'a sifrpc_scheme option" where
  "call_cmd callback func hw ext fn packet harg s =
     (case fn of
        Fn_null \<Rightarrow> None
      | Fn_change_addr \<Rightarrow> Some (change_addr packet harg s)
      | Fn_set_sreg \<Rightarrow> Some (set_sreg packet harg s)
      | Fn_request_end \<Rightarrow> request_end callback packet harg s
      | Fn_request_bind \<Rightarrow> request_bind packet harg s
      | Fn_request_call \<Rightarrow> request_call func hw packet harg s
      | Fn_request_rdata \<Rightarrow> request_rdata packet harg s
      | Fn_ext a \<Rightarrow> ext a packet harg s)"

section \<open>The operations without their interrupt masking\<close>

lemma setf_cp0 [simp]:
  "setf p k v (s\<lparr>cp0_status := x\<rparr>) = (setf p k v s)\<lparr>cp0_status := x\<rparr>"
  "upd_client a f (s\<lparr>cp0_status := x\<rparr>) = (upd_client a f s)\<lparr>cp0_status := x\<rparr>"
  "upd_server a g (s\<lparr>cp0_status := x\<rparr>) = (upd_server a g s)\<lparr>cp0_status := x\<rparr>"
  "upd_queue a h (s\<lparr>cp0_status := x\<rparr>) = (upd_queue a h s)\<lparr>cp0_status := x\<rparr>"
  "getf p k (s\<lparr>cp0_status := x\<rparr>) = getf p k s"
  "(s\<lparr>cp0_status := x\<rparr>)\<lparr>rd_pid := y\<rparr> = (s\<lparr>rd_pid := y\<rparr>)\<lparr>cp0_status := x\<rparr>"
  "(s\<lparr>cp0_status := x\<rparr>)\<lparr>rd_active_queue := z\<rparr> = (s\<lparr>rd_active_queue := z\<rparr>)\<lparr>cp0_status := x\<rparr>"
  by (simp_all add: setf_def upd_client_def upd_server_def upd_queue_def getf_def stw_def ldw_def)

lemma setf_fields [simp]:
  "cp0_status (setf p k v s) = cp0_status s" "clients (setf p k v s) = clients s"
  "servers (setf p k v s) = servers s" "queues (setf p k v s) = queues s"
  "rd_pkt_table (setf p k v s) = rd_pkt_table s" "rd_pkt_table_len (setf p k v s) = rd_pkt_table_len s"
  "rd_active_queue (setf p k v s) = rd_active_queue s"
  "ring_inv (setf p k v s) = ring_inv s" "hw_tag (setf p k v s) = hw_tag s"
  "sif_get_number_of_free_dma_tags (setf p k v s) = sif_get_number_of_free_dma_tags s"
  by (simp_all add: setf_def) (simp_all add: stw_def)

lemma upd_client_fields [simp]:
  "cp0_status (upd_client a f s) = cp0_status s" "getf p k (upd_client a f s) = getf p k s"
  "clients (upd_client a f s) = (clients s)(a := f (clients s a))"
  "rd_pkt_table (upd_client a f s) = rd_pkt_table s" "rd_pkt_table_len (upd_client a f s) = rd_pkt_table_len s"
  "ring_inv (upd_client a f s) = ring_inv s" "hw_tag (upd_client a f s) = hw_tag s"
  "sif_get_number_of_free_dma_tags (upd_client a f s) = sif_get_number_of_free_dma_tags s"
  by (simp_all add: upd_client_def getf_def ldw_def ring_inv_def cur_tag_def hw_tag_def
      sif_dma_get_hw_index_def sif_get_number_of_free_dma_tags_def reg_lw_def)

lemma upd_pid_fields [simp]:
  "getf p k (s\<lparr>rd_pid := y\<rparr>) = getf p k s" "ring_inv (s\<lparr>rd_pid := y\<rparr>) = ring_inv s"
  "hw_tag (s\<lparr>rd_pid := y\<rparr>) = hw_tag s"
  "sif_get_number_of_free_dma_tags (s\<lparr>rd_pid := y\<rparr>) = sif_get_number_of_free_dma_tags s"
  by (simp_all add: getf_def ldw_def ring_inv_def cur_tag_def hw_tag_def
      sif_dma_get_hw_index_def sif_get_number_of_free_dma_tags_def reg_lw_def)

lemma writeback_fields [simp]:
  "getf p k (call_writeback m a x b y s) = getf p k s" "clients (call_writeback m a x b y s) = clients s"
  "cp0_status (call_writeback m a x b y s) = cp0_status s" "ring_inv (call_writeback m a x b y s) = ring_inv s"
  "hw_tag (call_writeback m a x b y s) = hw_tag s"
  "rd_pkt_table (call_writeback m a x b y s) = rd_pkt_table s"
  "rd_pkt_table_len (call_writeback m a x b y s) = rd_pkt_table_len s"
  "sif_get_number_of_free_dma_tags (call_writeback m a x b y s) = sif_get_number_of_free_dma_tags s"
  by (simp_all add: call_writeback_def Let_def getf_def ldw_def) (simp_all add: SifWriteBackDCache_def)

lemma find_packet_cp0 [simp]: "find_packet rid n p (s\<lparr>cp0_status := x\<rparr>) = find_packet rid n p s"
  by (induction rid n p s rule: find_packet.induct) auto

definition claim :: "u32 \<Rightarrow> nat \<Rightarrow> 'a sifrpc_scheme \<Rightarrow> 'a sifrpc_scheme" where
  "claim packet rid s =
     (let pid = (if rd_pid s = 0 then 1 else rd_pid s + 1);
          s = s\<lparr>rd_pid := (if rd_pid s = 0 then 2 else rd_pid s + 1)\<rparr>
      in setf packet f_pkt_addr packet (setf packet f_rpc_id pid
           (setf packet f_rec_id (push_bit 16 (of_nat rid) OR 4 OR PACKET_F_ALLOC) s)))"

lemma rpc_get_packet_eq:
  "rpc_get_packet s =
     (if rd_pkt_table_len s = 0 then (0, s)
      else let (rid, packet) = find_packet 0 (rd_pkt_table_len s) (rd_pkt_table s) s
           in if rid = rd_pkt_table_len s then (0, s) else (packet, claim packet rid s))"
  by (simp add: rpc_get_packet_def core_save_disable_def claim_def Let_def split_beta)

lemma rpc_packet_free_eq:
  "rpc_packet_free p s = (let s = setf p f_rpc_id 0 s in setf p f_rec_id (getf p f_rec_id s AND NOT PACKET_F_ALLOC) s)"
  by (simp add: rpc_packet_free_def core_save_disable_def Let_def)

section \<open>The packet table\<close>

definition pkt_at :: "u32 \<Rightarrow> nat \<Rightarrow> u32" where
  "pkt_at b i = b + of_nat (64 * i)"

definition pkt_allocated :: "'a sifrpc_scheme \<Rightarrow> nat \<Rightarrow> bool" where
  "pkt_allocated s i \<longleftrightarrow> getf (pkt_at (rd_pkt_table s) i) f_rec_id s AND PACKET_F_ALLOC \<noteq> 0"

definition pkts_used :: "'a sifrpc_scheme \<Rightarrow> nat set" where
  "pkts_used s = {i. i < 32 \<and> pkt_allocated s i}"

text \<open>The table has its 32 entries and lies in mapped memory (no entry is at address 0).\<close>

definition pkt_inv :: "'a sifrpc_scheme \<Rightarrow> bool" where
  "pkt_inv s \<longleftrightarrow> rd_pkt_table_len s = 32 \<and> list_all (\<lambda>i. pkt_at (rd_pkt_table s) i \<noteq> 0) [0..<32]"

lemma pkt_at_nonzero: "pkt_inv s \<Longrightarrow> i < 32 \<Longrightarrow> pkt_at (rd_pkt_table s) i \<noteq> 0"
  by (simp add: pkt_inv_def list_all_iff)

lemma fld_pkt_eq:
  assumes "i < 32" "j < 32" "k < 16" "l < 16"
  shows "PHYSADDR (fld (pkt_at b i) k) = PHYSADDR (fld (pkt_at b j) l) \<longleftrightarrow> i = j \<and> k = l"
proof -
  have "fld (pkt_at b i) k = b + of_nat (64 * i + 4 * k)" "fld (pkt_at b j) l = b + of_nat (64 * j + 4 * l)"
    by (simp_all add: fld_def pkt_at_def)
  then have "PHYSADDR (fld (pkt_at b i) k) = PHYSADDR (fld (pkt_at b j) l) \<longleftrightarrow> 64 * i + 4 * k = 64 * j + 4 * l"
    using PHYSADDR_offset_eq_iff [of "64 * i + 4 * k" "64 * j + 4 * l" b] assms by simp
  moreover have "(64 * a + 4 * c) div 64 = a \<and> (64 * a + 4 * c) mod 64 div 4 = c" if "c < 16" for a c :: nat
    using that by simp
  ultimately show ?thesis using assms(3,4) by metis
qed

lemma getf_setf:
  assumes "k < 16" "l < 16"
  shows "getf p k (setf p l v s) = (if k = l then v else getf p k s)"
  using PHYSADDR_field [of k l p] assms by (simp add: getf_def setf_def fld_def)

lemma getf_setf_pkt:
  assumes "i < 32" "j < 32" "k < 16" "l < 16"
  shows "getf (pkt_at b i) k (setf (pkt_at b j) l v s) = (if i = j \<and> k = l then v else getf (pkt_at b i) k s)"
  using fld_pkt_eq [OF assms] by (simp add: getf_def setf_def)

lemma find_packet_result:
  assumes "find_packet rid n (pkt_at (rd_pkt_table s) rid) s = (r, p)"
  shows "p = pkt_at (rd_pkt_table s) r \<and> rid \<le> r \<and> r \<le> rid + n \<and> (\<forall>i. rid \<le> i \<and> i < r \<longrightarrow> pkt_allocated s i)
    \<and> (r < rid + n \<longrightarrow> \<not> pkt_allocated s r)"
  using assms
proof (induction n arbitrary: rid)
  case (Suc n)
  have next_pkt: "pkt_at b rid + 64 = pkt_at b (Suc rid)" for b by (simp add: pkt_at_def algebra_simps)
  show ?case
  proof (cases "pkt_allocated s rid")
    case False
    then show ?thesis using Suc.prems by (auto simp: pkt_allocated_def)
  next
    case True
    then have "find_packet (Suc rid) n (pkt_at (rd_pkt_table s) (Suc rid)) s = (r, p)"
      using Suc.prems by (simp add: pkt_allocated_def next_pkt)
    from Suc.IH [OF this] have IH: "p = pkt_at (rd_pkt_table s) r" "Suc rid \<le> r" "r \<le> Suc rid + n"
      "\<forall>i. Suc rid \<le> i \<and> i < r \<longrightarrow> pkt_allocated s i" "r < Suc rid + n \<longrightarrow> \<not> pkt_allocated s r" by auto
    have "pkt_allocated s i" if "rid \<le> i" "i < r" for i
      using that True IH(4) by (cases "i = rid") auto
    then show ?thesis using IH by simp
  qed
qed auto

lemma claim_fields [simp]:
  "cp0_status (claim p r s) = cp0_status s" "clients (claim p r s) = clients s"
  "rd_pkt_table (claim p r s) = rd_pkt_table s" "rd_pkt_table_len (claim p r s) = rd_pkt_table_len s"
  "ring_inv (claim p r s) = ring_inv s" "hw_tag (claim p r s) = hw_tag s"
  "sif_get_number_of_free_dma_tags (claim p r s) = sif_get_number_of_free_dma_tags s"
  by (simp_all add: claim_def Let_def)

lemma free_fields [simp]:
  "cp0_status (rpc_packet_free p s) = cp0_status s" "clients (rpc_packet_free p s) = clients s"
  "rd_pkt_table (rpc_packet_free p s) = rd_pkt_table s" "rd_pkt_table_len (rpc_packet_free p s) = rd_pkt_table_len s"
  "ring_inv (rpc_packet_free p s) = ring_inv s"
  by (simp_all add: rpc_packet_free_eq Let_def)

lemma rec_id_allocated: "(x OR 4 OR 1 :: u32) AND 1 \<noteq> 0"
proof -
  have "bit ((x OR 4 OR 1 :: u32) AND 1) 0" by (simp add: bit_simps)
  then show ?thesis by (metis bit_0_eq bot_apply bot_bool_def)
qed

lemma used_claim:
  assumes "r < 32"
  shows "pkts_used (claim (pkt_at (rd_pkt_table s) r) r s) = insert r (pkts_used s)"
proof -
  have "pkt_allocated (claim (pkt_at (rd_pkt_table s) r) r s) i \<longleftrightarrow> i = r \<or> pkt_allocated s i" if "i < 32" for i
    using that assms rec_id_allocated [of "push_bit 16 (of_nat r)"]
    by (simp add: pkt_allocated_def claim_def Let_def getf_setf_pkt rpc_consts)
  then show ?thesis using assms by (auto simp: pkts_used_def)
qed

lemma used_free:
  assumes "r < 32"
  shows "pkts_used (rpc_packet_free (pkt_at (rd_pkt_table s) r) s) = pkts_used s - {r}"
proof -
  have "(x AND NOT 1) AND 1 = (0 :: u32)" for x by (simp add: and.assoc)
  then have "pkt_allocated (rpc_packet_free (pkt_at (rd_pkt_table s) r) s) i \<longleftrightarrow> i \<noteq> r \<and> pkt_allocated s i"
    if "i < 32" for i
    using that assms by (simp add: pkt_allocated_def rpc_packet_free_eq Let_def getf_setf_pkt rpc_consts)
  then show ?thesis by (auto simp: pkts_used_def)
qed

lemma rpc_get_packet_cases:
  assumes "pkt_inv s"
  obtains (full) "pkts_used s = {..<32}" "rpc_get_packet s = (0, s)"
    | (claimed) r where "r < 32" "r \<notin> pkts_used s" "pkt_at (rd_pkt_table s) r \<noteq> 0"
        "rpc_get_packet s = (pkt_at (rd_pkt_table s) r, claim (pkt_at (rd_pkt_table s) r) r s)"
proof -
  have len: "rd_pkt_table_len s = 32" using assms by (simp add: pkt_inv_def)
  have b0: "rd_pkt_table s = pkt_at (rd_pkt_table s) 0" by (simp add: pkt_at_def)
  obtain r p where rp: "find_packet 0 32 (rd_pkt_table s) s = (r, p)" by fastforce
  then have f: "p = pkt_at (rd_pkt_table s) r" "r \<le> 32" "\<forall>i < r. pkt_allocated s i" "r < 32 \<longrightarrow> \<not> pkt_allocated s r"
    using find_packet_result [of 0 32 s r p] b0 by simp_all
  show thesis
  proof (cases "r = 32")
    case True
    then show thesis using f rp len by (intro full) (auto simp: pkts_used_def rpc_get_packet_eq)
  next
    case False
    then have "r < 32" using f by simp
    then show thesis
      using f rp len pkt_at_nonzero [OF assms] by (intro claimed [of r]) (auto simp: pkts_used_def rpc_get_packet_eq)
  qed
qed

lemma pkt_inv_cong:
  "rd_pkt_table s' = rd_pkt_table s \<Longrightarrow> rd_pkt_table_len s' = rd_pkt_table_len s \<Longrightarrow> pkt_inv s' = pkt_inv s"
  by (simp add: pkt_inv_def)

text \<open>The table as a pool of numbered slots.\<close>

definition pool_get :: "unit \<Rightarrow> 'a sifrpc_scheme \<Rightarrow> nat option \<times> 'a sifrpc_scheme" where
  "pool_get u s = (let (p, s') = rpc_get_packet s
     in if p = 0 then (None, s') else (Some (unat (p - rd_pkt_table s) div 64), s'))"

definition pool_free :: "nat \<Rightarrow> 'a sifrpc_scheme \<Rightarrow> 'a sifrpc_scheme" where
  "pool_free i s = rpc_packet_free (pkt_at (rd_pkt_table s) i) s"

lemma pkt_index: "i < 32 \<Longrightarrow> unat (pkt_at b i - b) div 64 = i"
  using unat_of_nat_lt [where 'a = 32, of "64 * i"] by (simp add: pkt_at_def)

interpretation pkts: slot_pool pkt_inv pkts_used 32 pool_get pool_free
proof
  fix s s' :: "'a sifrpc_scheme" and q i
  assume inv: "pkt_inv s"
  show "pkts_used s \<subseteq> {..<32}" by (auto simp: pkts_used_def)
  show "pkt_inv s' \<and> i < 32 \<and> i \<notin> pkts_used s \<and> pkts_used s' = insert i (pkts_used s)"
    if "pool_get q s = (Some i, s')"
    using inv
  proof (cases rule: rpc_get_packet_cases)
    case full
    then show ?thesis using that by (simp add: pool_get_def)
  next
    case (claimed r)
    then have "i = r" "s' = claim (pkt_at (rd_pkt_table s) r) r s"
      using that pkt_index [of r] by (auto simp: pool_get_def)
    then show ?thesis using claimed used_claim inv by (simp add: pkt_inv_def)
  qed
  show "pkt_inv s' \<and> pkts_used s' = pkts_used s" if "pool_get q s = (None, s')"
    using inv
  proof (cases rule: rpc_get_packet_cases)
    case full
    then show ?thesis using that inv by (simp add: pool_get_def)
  next
    case (claimed r)
    then show ?thesis using that by (simp add: pool_get_def)
  qed
  show "pkt_inv (pool_free i s) \<and> pkts_used (pool_free i s) = pkts_used s - {i}" if "i \<in> pkts_used s"
    using that inv used_free [of i s] by (simp add: pool_free_def pkt_inv_def pkts_used_def)
qed

section \<open>Calls\<close>

lemma sifrpc_more:
  assumes "sifdma.more s' = sifdma.more s"
  shows "clients s' = clients s" "servers s' = servers s" "queues s' = queues s"
    "rd_pkt_table s' = rd_pkt_table s" "rd_pkt_table_len s' = rd_pkt_table_len s"
    "rd_active_queue s' = rd_active_queue s" "rd_rdata_table s' = rd_rdata_table s"
  using assms by (cases s; cases s'; simp)+

lemma payload_not_header:
  assumes "i < 32" "j < 32" "4 \<le> k" "k < 16"
  shows "\<not> in_header (pkt_at b j) (fld (pkt_at b i) k)"
proof -
  have "h_size p = fld p 0" "h_dest p = fld p 1" "h_fid p = fld p 2" "h_option p = fld p 3" for p
    by (simp_all add: hdr_fields fld_def)
  then show ?thesis using fld_pkt_eq [OF assms(1,2,4)] assms(3) by (simp add: in_header_def)
qed

text \<open>Sending packet \<open>j\<close> of the table: header written, payload of every packet untouched.\<close>

lemma SifSendCmd_packet:
  fixes t :: "'a sifrpc_scheme"
  assumes "ring_inv t" "hw_tag t \<le> 30" "sz \<le> 0xfffffff0" "j < 32"
  defines "b \<equiv> rd_pkt_table t"
  obtains id0 t' where "SifSendCmd fid (pkt_at b j) RPC_PACKET_SIZE src dest sz t = Some (id0, t')"
    "ring_inv t'" "cp0_status t' = cp0_status t" "clients t' = clients t"
    "rd_pkt_table t' = b" "rd_pkt_table_len t' = rd_pkt_table_len t"
    "id0 = 0 \<longleftrightarrow> unat (sif_get_number_of_free_dma_tags t) < cmd_tags sz"
    "\<And>i k. i < 32 \<Longrightarrow> 4 \<le> k \<Longrightarrow> k < 16 \<Longrightarrow> getf (pkt_at b i) k t' = getf (pkt_at b i) k t"
    "ldw (h_fid (pkt_at b j)) t' = fid" "pkts_used t' = pkts_used t"
    "id0 = 0 \<or> queued (command_transfers (pkt_at b j) RPC_PACKET_SIZE src dest sz t') t'"
proof (rule sif_cmd_send_effect [OF assms(1,2) _ assms(3), of RPC_PACKET_SIZE fid 0 "pkt_at b j" src dest])
  show "RPC_PACKET_SIZE \<le> 112" by (simp add: RPC_PACKET_SIZE_def)
next
  fix id0 t'
  assume s: "sif_cmd_send fid 0 (pkt_at b j) RPC_PACKET_SIZE src dest sz t = Some (id0, t')"
    "ring_inv t'" "cp0_status t' = cp0_status t" "sifdma.more t' = sifdma.more t"
    "(id0 = 0) = (unat (sif_get_number_of_free_dma_tags t) < cmd_tags sz)"
    "ldw (h_fid (pkt_at b j)) t' = fid" "\<And>a. \<not> in_header (pkt_at b j) a \<Longrightarrow> ldw a t' = ldw a t"
    "id0 = 0 \<or> queued (command_transfers (pkt_at b j) RPC_PACKET_SIZE src dest sz t') t'"
  note m = sifrpc_more [OF s(4)]
  have g: "getf (pkt_at b i) k t' = getf (pkt_at b i) k t" if "i < 32" "4 \<le> k" "k < 16" for i k
    using s(7) [OF payload_not_header [OF that(1) assms(4) that(2,3)]] by (simp add: getf_def)
  then have "pkts_used t' = pkts_used t" using m by (auto simp: pkts_used_def pkt_allocated_def b_def)
  then show thesis using that [of id0 t'] s m g by (simp add: SifSendCmd_def b_def)
qed

text \<open>The packet and the client structure as the two calls prepare them before sending.\<close>

definition prepare_call ::
  "u32 \<Rightarrow> u32 \<Rightarrow> u32 \<Rightarrow> u32 \<Rightarrow> u32 \<Rightarrow> u32 \<Rightarrow> u32 \<Rightarrow> u32 \<Rightarrow> u32 \<Rightarrow> u32 \<Rightarrow> 'a sifrpc_scheme \<Rightarrow> 'a sifrpc_scheme" where
  "prepare_call call cd rpc_number mode sendbuf ssize recvbuf rsize endfunc efarg s =
     (let s = upd_client cd (\<lambda>c. c\<lparr>cl_end_function := endfunc, cl_end_param := efarg,
                cl_pkt_addr := call, cl_rpc_id := getf call f_rpc_id s, cl_sema_id := 0\<rparr>) s;
          s = setf call f_rpc_number rpc_number s;
          s = setf call f_send_size ssize s;
          s = setf call f_receive recvbuf s;
          s = setf call f_recv_size rsize s;
          s = setf call f_rmode 1 s;
          s = setf call f_pkt_addr call s;
          s = setf call f_client cd s;
          s = setf call f_server (cl_server (clients s cd)) s;
          s = call_writeback mode sendbuf ssize recvbuf rsize s
      in if mode AND SIF_RPC_M_NOWAIT \<noteq> 0 \<and> endfunc = 0 then setf call f_rmode 0 s else s)"

definition prepare_bind :: "u32 \<Rightarrow> u32 \<Rightarrow> u32 \<Rightarrow> u32 \<Rightarrow> u32 \<Rightarrow> 'a sifrpc_scheme \<Rightarrow> 'a sifrpc_scheme" where
  "prepare_bind bind cd sid endfunc efarg s =
     (let s = upd_client cd (\<lambda>c. c\<lparr>cl_end_function := endfunc, cl_end_param := efarg,
                cl_command := 0, cl_server := 0, cl_pkt_addr := bind,
                cl_rpc_id := getf bind f_rpc_id s, cl_sema_id := 0\<rparr>) s;
          s = setf bind f_sid sid s;
          s = setf bind f_pkt_addr bind s
      in setf bind f_client cd s)"

text \<open>What both calls do once they have a packet \<open>p\<close> and know the state \<open>prep\<close> they send from.\<close>

definition send_request ::
  "('a sifrpc_scheme \<Rightarrow> 'a sifrpc_scheme) list \<Rightarrow> u32 \<Rightarrow> u32 \<Rightarrow> u32 \<Rightarrow> u32 \<Rightarrow> u32 \<Rightarrow> u32 \<Rightarrow> u32 \<Rightarrow> 'a sifrpc_scheme
     \<Rightarrow> (u32 \<times> 'a sifrpc_scheme) option" where
  "send_request intrs mode cd fid p src dest sz t =
     (case SifSendCmd fid p RPC_PACKET_SIZE src dest sz t of
        None \<Rightarrow> None
      | Some (r, t) \<Rightarrow>
          (if r = 0 then Some (- E_SIF_PKT_SEND, rpc_packet_free p t)
           else if mode AND SIF_RPC_M_NOWAIT \<noteq> 0 then Some (0, t) else wait_end cd intrs t))"

lemma SifBindRpc_eq:
  "SifBindRpc intrs cd sid mode endfunc efarg s =
     (let (p, s) = rpc_get_packet s
      in if p = 0 then Some (- E_SIF_PKT_ALLOC, s)
         else if cl_pkt_addr (clients s cd) \<noteq> 0 then Some (- E_SIF_PKT_ALLOC, rpc_packet_free p s)
         else send_request intrs mode cd 0x80000009 p 0 0 0 (prepare_bind p cd sid endfunc efarg s))"
  by (simp add: SifBindRpc_def core_save_disable_def prepare_bind_def send_request_def Let_def split_beta
      cong: option.case_cong)

lemma SifCallRpc_eq:
  "SifCallRpc intrs cd rpc_number mode sendbuf ssize recvbuf rsize endfunc efarg s =
     (if recvbuf AND 0x0f \<noteq> 0 then Some (- E_LIB_INVALID_ARG, s)
      else let (p, s) = rpc_get_packet s
      in if p = 0 then Some (- E_SIF_PKT_ALLOC, s)
         else if cl_pkt_addr (clients s cd) \<noteq> 0 then Some (- E_SIF_PKT_ALLOC, rpc_packet_free p s)
         else send_request intrs mode cd 0x8000000a p sendbuf (cl_buff (clients s cd)) ssize
                (prepare_call p cd rpc_number mode sendbuf ssize recvbuf rsize endfunc efarg s))"
  by (simp add: SifCallRpc_def core_save_disable_def prepare_call_def send_request_def Let_def split_beta
      cong: option.case_cong)

lemma send_request_nowait:
  fixes t :: "'a sifrpc_scheme"
  assumes "ring_inv t" "hw_tag t \<le> 30" "sz \<le> 0xfffffff0" "j < 32" "mode AND SIF_RPC_M_NOWAIT \<noteq> 0"
  defines "b \<equiv> rd_pkt_table t"
  defines "full \<equiv> unat (sif_get_number_of_free_dma_tags t) < cmd_tags sz"
  obtains t' where
    "send_request intrs mode cd fid (pkt_at b j) src dest sz t = Some (if full then - E_SIF_PKT_SEND else 0, t')"
    "ring_inv t'" "cp0_status t' = cp0_status t" "clients t' = clients t"
    "rd_pkt_table t' = b" "rd_pkt_table_len t' = rd_pkt_table_len t"
    "pkts_used t' = (if full then pkts_used t - {j} else pkts_used t)"
    "full \<or> (ldw (h_fid (pkt_at b j)) t' = fid
       \<and> queued (command_transfers (pkt_at b j) RPC_PACKET_SIZE src dest sz t') t'
       \<and> (\<forall>k. 4 \<le> k \<and> k < 16 \<longrightarrow> getf (pkt_at b j) k t' = getf (pkt_at b j) k t))"
proof -
  obtain id0 u where u: "SifSendCmd fid (pkt_at b j) RPC_PACKET_SIZE src dest sz t = Some (id0, u)"
    "ring_inv u" "cp0_status u = cp0_status t" "clients u = clients t"
    "rd_pkt_table u = b" "rd_pkt_table_len u = rd_pkt_table_len t" "id0 = 0 \<longleftrightarrow> full"
    "\<And>i k. i < 32 \<Longrightarrow> 4 \<le> k \<Longrightarrow> k < 16 \<Longrightarrow> getf (pkt_at b i) k u = getf (pkt_at b i) k t"
    "ldw (h_fid (pkt_at b j)) u = fid" "pkts_used u = pkts_used t"
    "id0 = 0 \<or> queued (command_transfers (pkt_at b j) RPC_PACKET_SIZE src dest sz u) u"
    using SifSendCmd_packet [OF assms(1-4)] unfolding b_def full_def by metis
  define t' where "t' = (if full then rpc_packet_free (pkt_at b j) u else u)"
  show thesis
  proof (rule that [of t'])
    show "send_request intrs mode cd fid (pkt_at b j) src dest sz t = Some (if full then - E_SIF_PKT_SEND else 0, t')"
      using u(1,7) assms(5) by (simp add: send_request_def t'_def)
    show "pkts_used t' = (if full then pkts_used t - {j} else pkts_used t)"
      using used_free [OF assms(4), of u] u(5,10) by (simp add: t'_def)
    show "full \<or> (ldw (h_fid (pkt_at b j)) t' = fid
       \<and> queued (command_transfers (pkt_at b j) RPC_PACKET_SIZE src dest sz t') t'
       \<and> (\<forall>k. 4 \<le> k \<and> k < 16 \<longrightarrow> getf (pkt_at b j) k t' = getf (pkt_at b j) k t))"
      using u(7-9,11) assms(4) by (auto simp: t'_def)
  qed (use u in \<open>simp_all add: t'_def\<close>)
qed

lemma prepare_fields [simp]:
  "ring_inv (prepare_call p cd n m sb ss rb rs ef ea s) = ring_inv s"
  "hw_tag (prepare_call p cd n m sb ss rb rs ef ea s) = hw_tag s"
  "sif_get_number_of_free_dma_tags (prepare_call p cd n m sb ss rb rs ef ea s) = sif_get_number_of_free_dma_tags s"
  "cp0_status (prepare_call p cd n m sb ss rb rs ef ea s) = cp0_status s"
  "rd_pkt_table (prepare_call p cd n m sb ss rb rs ef ea s) = rd_pkt_table s"
  "rd_pkt_table_len (prepare_call p cd n m sb ss rb rs ef ea s) = rd_pkt_table_len s"
  "clients (prepare_call p cd n m sb ss rb rs ef ea s) = (clients s)(cd := (clients s cd)\<lparr>cl_end_function := ef,
     cl_end_param := ea, cl_pkt_addr := p, cl_rpc_id := getf p f_rpc_id s, cl_sema_id := 0\<rparr>)"
  "ring_inv (prepare_bind p cd sid ef ea s) = ring_inv s"
  "hw_tag (prepare_bind p cd sid ef ea s) = hw_tag s"
  "sif_get_number_of_free_dma_tags (prepare_bind p cd sid ef ea s) = sif_get_number_of_free_dma_tags s"
  "cp0_status (prepare_bind p cd sid ef ea s) = cp0_status s"
  "rd_pkt_table (prepare_bind p cd sid ef ea s) = rd_pkt_table s"
  "rd_pkt_table_len (prepare_bind p cd sid ef ea s) = rd_pkt_table_len s"
  "clients (prepare_bind p cd sid ef ea s) = (clients s)(cd := (clients s cd)\<lparr>cl_end_function := ef,
     cl_end_param := ea, cl_command := 0, cl_server := 0, cl_pkt_addr := p,
     cl_rpc_id := getf p f_rpc_id s, cl_sema_id := 0\<rparr>)"
  by (simp_all add: prepare_call_def prepare_bind_def Let_def)

lemma used_prepare [simp]:
  assumes "j < 32"
  shows "pkts_used (prepare_call (pkt_at (rd_pkt_table s) j) cd n m sb ss rb rs ef ea s) = pkts_used s"
    "pkts_used (prepare_bind (pkt_at (rd_pkt_table s) j) cd sid ef ea s) = pkts_used s"
  using assms by (auto simp: pkts_used_def pkt_allocated_def prepare_call_def prepare_bind_def Let_def getf_setf_pkt)

lemma prepare_call_words:
  assumes "mode AND SIF_RPC_M_NOWAIT \<noteq> 0"
  shows "getf p f_client (prepare_call p cd n mode sb ss rb rs ef ea s) = cd"
    "getf p f_rpc_number (prepare_call p cd n mode sb ss rb rs ef ea s) = n"
    "getf p f_send_size (prepare_call p cd n mode sb ss rb rs ef ea s) = ss"
    "getf p f_receive (prepare_call p cd n mode sb ss rb rs ef ea s) = rb"
    "getf p f_recv_size (prepare_call p cd n mode sb ss rb rs ef ea s) = rs"
    "getf p f_rmode (prepare_call p cd n mode sb ss rb rs ef ea s) = (if ef = 0 then 0 else 1)"
    "getf p f_server (prepare_call p cd n mode sb ss rb rs ef ea s) = cl_server (clients s cd)"
    "getf p f_pkt_addr (prepare_call p cd n mode sb ss rb rs ef ea s) = p"
  using assms by (simp_all add: prepare_call_def Let_def getf_setf)

text \<open>The request a call packet carries, and the outcomes of a non-blocking call.\<close>

definition call_packet :: "u32 \<Rightarrow> u32 \<Rightarrow> u32 \<Rightarrow> u32 \<Rightarrow> u32 \<Rightarrow> u32 \<Rightarrow> u32 \<Rightarrow> u32 \<Rightarrow> 'a sifrpc_scheme \<Rightarrow> bool" where
  "call_packet p cd n ss rb rs ef server s \<longleftrightarrow>
     ldw (h_fid p) s = 0x8000000a \<and> getf p f_pkt_addr s = p \<and> getf p f_client s = cd \<and> getf p f_rpc_number s = n
     \<and> getf p f_send_size s = ss \<and> getf p f_receive s = rb \<and> getf p f_recv_size s = rs
     \<and> getf p f_rmode s = (if ef = 0 then 0 else 1) \<and> getf p f_server s = server"

lemma prepare_bind_words:
  "getf p f_client (prepare_bind p cd sid ef ea s) = cd" "getf p f_sid (prepare_bind p cd sid ef ea s) = sid"
  "getf p f_pkt_addr (prepare_bind p cd sid ef ea s) = p"
  by (simp_all add: prepare_bind_def Let_def getf_setf)

definition bind_packet :: "u32 \<Rightarrow> u32 \<Rightarrow> u32 \<Rightarrow> 'a sifrpc_scheme \<Rightarrow> bool" where
  "bind_packet p cd sid s \<longleftrightarrow> ldw (h_fid p) s = 0x80000009 \<and> getf p f_pkt_addr s = p
     \<and> getf p f_client s = cd \<and> getf p f_sid s = sid"

definition busy_with :: "u32 \<Rightarrow> u32 \<Rightarrow> u32 \<Rightarrow> u32 \<Rightarrow> 'a sifrpc_scheme \<Rightarrow> bool" where
  "busy_with cd p ef ea s \<longleftrightarrow> cl_pkt_addr (clients s cd) = p
     \<and> cl_end_function (clients s cd) = ef \<and> cl_end_param (clients s cd) = ea"

lemma SifCallRpc_effect:
  fixes s :: "'a sifrpc_scheme"
  assumes "pkt_inv s" "ring_inv s" "hw_tag s \<le> 30" "ssize \<le> 0xfffffff0" "mode AND SIF_RPC_M_NOWAIT \<noteq> 0"
  shows "\<exists>r s'. SifCallRpc intrs cd n mode sendbuf ssize recvbuf rsize ef ea s = Some (r, s')
    \<and> pkt_inv s' \<and> ring_inv s' \<and> cp0_status s' = cp0_status s \<and> rd_pkt_table s' = rd_pkt_table s
    \<and> (\<forall>c. c = cd \<or> clients s' c = clients s c)
    \<and> (if recvbuf AND 0x0f \<noteq> 0 then r = - E_LIB_INVALID_ARG \<and> s' = s
       else if pkts_used s = {..<32} then r = - E_SIF_PKT_ALLOC \<and> s' = s
       else if cl_pkt_addr (clients s cd) \<noteq> 0
       then r = - E_SIF_PKT_ALLOC \<and> pkts_used s' = pkts_used s \<and> clients s' = clients s
       else \<exists>i < 32. i \<notin> pkts_used s \<and> busy_with cd (pkt_at (rd_pkt_table s) i) ef ea s'
         \<and> (if unat (sif_get_number_of_free_dma_tags s) < cmd_tags ssize
            then r = - E_SIF_PKT_SEND \<and> pkts_used s' = pkts_used s
            else r = 0 \<and> pkts_used s' = insert i (pkts_used s)
              \<and> call_packet (pkt_at (rd_pkt_table s) i) cd n ssize recvbuf rsize ef (cl_server (clients s cd)) s'
              \<and> queued (command_transfers (pkt_at (rd_pkt_table s) i) RPC_PACKET_SIZE sendbuf (cl_buff (clients s cd)) ssize s') s'))"
proof (cases "recvbuf AND 0x0f = 0")
  case aligned: True
  from assms(1) show ?thesis
  proof (cases rule: rpc_get_packet_cases)
    case full
    then show ?thesis using aligned assms(1,2) by (simp add: SifCallRpc_eq)
  next
    case (claimed i)
    let ?p = "pkt_at (rd_pkt_table s) i" and ?s = "claim (pkt_at (rd_pkt_table s) i) i s"
    have nf: "pkts_used s \<noteq> {..<32}" using claimed by auto
    show ?thesis
    proof (cases "cl_pkt_addr (clients s cd) = 0")
      case False
      have "pkts_used (rpc_packet_free ?p ?s) = pkts_used s"
        using claimed used_claim [OF claimed(1), of s] used_free [OF claimed(1), of ?s] by simp
      then show ?thesis
        using False claimed aligned nf assms(1,2) pkt_inv_cong [of "rpc_packet_free ?p ?s" s]
        by (simp add: SifCallRpc_eq)
    next
      case idle: True
      let ?t = "prepare_call ?p cd n mode sendbuf ssize recvbuf rsize ef ea ?s"
      let ?full = "unat (sif_get_number_of_free_dma_tags s) < cmd_tags ssize"
      obtain t' where t': "send_request intrs mode cd 0x8000000a ?p sendbuf (cl_buff (clients s cd)) ssize ?t
          = Some (if ?full then - E_SIF_PKT_SEND else 0, t')"
        "ring_inv t'" "cp0_status t' = cp0_status s" "clients t' = clients ?t"
        "rd_pkt_table t' = rd_pkt_table s" "rd_pkt_table_len t' = rd_pkt_table_len s"
        "pkts_used t' = (if ?full then pkts_used ?t - {i} else pkts_used ?t)"
        "?full \<or> (ldw (h_fid ?p) t' = 0x8000000a
           \<and> queued (command_transfers ?p RPC_PACKET_SIZE sendbuf (cl_buff (clients s cd)) ssize t') t' \<and> (\<forall>k. 4 \<le> k \<and> k < 16 \<longrightarrow> getf ?p k t' = getf ?p k ?t))"
        using send_request_nowait [of ?t ssize i mode intrs cd "0x8000000a" sendbuf "cl_buff (clients s cd)"]
          assms(2-5) claimed(1) by auto
      have u: "pkts_used ?t = insert i (pkts_used s)"
        using used_prepare(1) [OF claimed(1), of ?s] used_claim [OF claimed(1), of s] by simp
      have eq: "SifCallRpc intrs cd n mode sendbuf ssize recvbuf rsize ef ea s
          = Some (if ?full then - E_SIF_PKT_SEND else 0, t')"
        using aligned idle claimed(3,4) t'(1) by (simp add: SifCallRpc_eq)
      have pk: "call_packet ?p cd n ssize recvbuf rsize ef (cl_server (clients s cd)) t'" if "\<not> ?full"
        using t'(8) that prepare_call_words [OF assms(5), of ?p cd n sendbuf ssize recvbuf rsize ef ea ?s]
        by (simp add: call_packet_def)
      have sent: "queued (command_transfers ?p RPC_PACKET_SIZE sendbuf (cl_buff (clients s cd)) ssize t') t'" if "\<not> ?full"
        using t'(8) that by blast
      have "busy_with cd ?p ef ea t'" "pkt_inv t'"
        using t'(4-6) assms(1) by (simp_all add: busy_with_def pkt_inv_def)
      then show ?thesis
        using aligned idle nf eq t'(2-5,7) u claimed(1,2) pk sent by auto
    qed
  qed
qed (use assms in \<open>simp add: SifCallRpc_eq\<close>)

text \<open>
  C7. A non-blocking call always returns. A misaligned receive buffer is refused and an exhausted
  packet table reported with nothing changed; a busy client is refused with no packet lost. Otherwise
  the client holds a packet that was free; if the DMA ring has room the packet stays allocated and carries the
  request, the send buffer (when there is one, to the buffer of the server) and the packet have been queued
  for the IOP in this order, and the result is 0; else the packet is returned to the table.
\<close>

theorem SifCallRpc_outcome:
  fixes s :: "'a sifrpc_scheme"
  assumes "pkt_inv s" "ring_inv s" "hw_tag s \<le> 30" "ssize \<le> 0xfffffff0" "mode AND SIF_RPC_M_NOWAIT \<noteq> 0"
  shows "\<exists>r s'. SifCallRpc intrs cd n mode sendbuf ssize recvbuf rsize ef ea s = Some (r, s')
    \<and> pkt_inv s' \<and> ring_inv s' \<and> cp0_status s' = cp0_status s \<and> rd_pkt_table s' = rd_pkt_table s
    \<and> (\<forall>c. c = cd \<or> clients s' c = clients s c)
    \<and> (if recvbuf AND 0x0f \<noteq> 0 then r = - E_LIB_INVALID_ARG \<and> s' = s
       else if pkts_used s = {..<32} then r = - E_SIF_PKT_ALLOC \<and> s' = s
       else if cl_pkt_addr (clients s cd) \<noteq> 0
       then r = - E_SIF_PKT_ALLOC \<and> pkts_used s' = pkts_used s \<and> clients s' = clients s
       else \<exists>i < 32. i \<notin> pkts_used s \<and> busy_with cd (pkt_at (rd_pkt_table s) i) ef ea s'
         \<and> (if unat (sif_get_number_of_free_dma_tags s) < cmd_tags ssize
            then r = - E_SIF_PKT_SEND \<and> pkts_used s' = pkts_used s
            else r = 0 \<and> pkts_used s' = insert i (pkts_used s)
              \<and> call_packet (pkt_at (rd_pkt_table s) i) cd n ssize recvbuf rsize ef (cl_server (clients s cd)) s'
              \<and> queued (command_transfers (pkt_at (rd_pkt_table s) i) RPC_PACKET_SIZE sendbuf (cl_buff (clients s cd)) ssize s') s'))"
  using SifCallRpc_effect [OF assms] .

section \<open>Completion\<close>

text \<open>What \<open>request_end\<close> does to the client structure before it runs the end function.\<close>

definition finish_client :: "u32 \<Rightarrow> u32 \<Rightarrow> 'a sifrpc_scheme \<Rightarrow> client_data \<Rightarrow> client_data" where
  "finish_client request cid s c =
     (let c = c\<lparr>cl_sema_id := cl_sema_id c + 1\<rparr>;
          c = (if cid = 0x80000009 then c\<lparr>cl_server := getf request f_rserver s,
                 cl_buff := getf request f_buff s, cl_cbuff := getf request f_cbuff s\<rparr> else c)
      in c\<lparr>cl_pkt_addr := 0\<rparr>)"

lemma upd_client_twice: "upd_client a f (upd_client a g s) = upd_client a (\<lambda>c. f (g c)) s"
  by (simp add: upd_client_def)

lemma finish_bind:
  "finish_client request 0x80000009 s = (\<lambda>c. c\<lparr>cl_sema_id := cl_sema_id c + 1, cl_server := getf request f_rserver s,
     cl_buff := getf request f_buff s, cl_cbuff := getf request f_cbuff s, cl_pkt_addr := 0\<rparr>)"
  by (simp add: fun_eq_iff finish_client_def Let_def)

lemma finish_call:
  "cid \<noteq> 0x80000009 \<Longrightarrow> finish_client request cid s = (\<lambda>c. c\<lparr>cl_sema_id := cl_sema_id c + 1, cl_pkt_addr := 0\<rparr>)"
  by (simp add: fun_eq_iff finish_client_def Let_def)

lemma request_end_eq:
  assumes "getf request f_client s = cd" "getf request f_cid s = cid"
  shows "request_end callback request data s =
    (let c = clients s cd; t = upd_client cd (finish_client request cid s) s;
         ef = (if cid = 0x8000000a \<or> cid = 0x80000009 then cl_end_function c else 0)
     in map_option (rpc_packet_free (cl_pkt_addr c)) (if ef \<noteq> 0 then callback ef (cl_end_param c) t else Some t))"
proof (cases "cid = 0x80000009")
  case True
  then show ?thesis
    using assms
    by (simp add: request_end_def core_save_disable_def Let_def finish_bind upd_client_twice split: option.split)
next
  case False
  then show ?thesis
    using assms
    by (cases "cid = 0x8000000a")
      (simp_all add: request_end_def core_save_disable_def Let_def finish_call upd_client_twice split: option.split)
qed

text \<open>An answer packet has been delivered for client \<open>cd\<close>.\<close>

definition answer_for :: "u32 \<Rightarrow> u32 \<Rightarrow> 'a sifrpc_scheme \<Rightarrow> bool" where
  "answer_for cd cid s \<longleftrightarrow> ldw (h_fid (cd_pktbuf s)) s = 0x80000008
     \<and> getf (cd_pktbuf s) f_client s = cd \<and> getf (cd_pktbuf s) f_cid s = cid
     \<and> ldw (cd_pktbuf s) s AND 0xff = RPC_PACKET_SIZE \<and> reg_lw EE_DMAC_SIF0_CHCR s AND 0x0100 = 0"

lemma answer_dispatched:
  fixes s :: "'a sifrpc_scheme"
  assumes "answer_for cd cid s" "buffers_apart (cd_pktbuf s) (a_irq_packet s)"
    and "target 0x80000008 s = Some (Fn_request_end, harg)"
  obtains t where "sif_cmd_interrupt (call_cmd callback func hw ext) s = request_end callback (a_irq_packet s) harg t"
    "getf (a_irq_packet s) f_client t = cd" "getf (a_irq_packet s) f_cid t = cid" "clients t = clients s"
    "\<And>k. 0 < k \<Longrightarrow> k < 16 \<Longrightarrow> getf (a_irq_packet s) k t = getf (cd_pktbuf s) k s"
    "reg_lw EE_DMAC_SIF0_CHCR t = 0x184" "cp0_status t = cp0_status s"
    "sifdma.more t = sifdma.more s" "\<And>a. off_irq s a \<Longrightarrow> ldw a t = ldw a s"
proof -
  have "ldw (cd_pktbuf s) s AND 0xff = 64" using assms(1) by (simp add: answer_for_def rpc_consts)
  then obtain t where t: "sif_cmd_interrupt (call_cmd callback func hw ext) s
        = (case target (ldw (h_fid (cd_pktbuf s)) s) s of
             Some (handler, harg) \<Rightarrow> call_cmd callback func hw ext handler (a_irq_packet s) harg t | None \<Rightarrow> Some t)"
      "\<forall>k. 0 < k \<and> 4 * k < unat (64 :: u32) \<longrightarrow>
          ldw (a_irq_packet s + of_nat (4 * k)) t = ldw (cd_pktbuf s + of_nat (4 * k)) s"
      "reg_lw EE_DMAC_SIF0_CHCR t = 0x184" "cp0_status t = cp0_status s" "sifdma.more t = sifdma.more s"
      "\<forall>a. off_irq s a \<longrightarrow> ldw a t = ldw a s"
    using sif_cmd_interrupt_effect [of s 64 "call_cmd callback func hw ext"] assms(1,2)
    by (auto simp: answer_for_def)
  have w: "getf (a_irq_packet s) k t = getf (cd_pktbuf s) k s" if "0 < k" "k < 16" for k
    using t(2) [rule_format, of k] that by (simp add: getf_def fld_def)
  have "sif_cmd_interrupt (call_cmd callback func hw ext) s = request_end callback (a_irq_packet s) harg t"
    using t(1) assms(1,3) by (simp add: answer_for_def call_cmd_def)
  then show thesis
    using that [of t] w w [of f_client] w [of f_cid] t(3-6) assms(1) sifrpc_more [OF t(5)]
    by (simp add: answer_for_def)
qed

text \<open>
  C2. When the answer to a call or a bind arrives, the interrupt handler runs the end function
  the caller gave, with the caller's parameter, and then frees the packet of the request. The end
  function runs after the receive channel was restarted and finds the client free again, its
  count of answers raised, and after a bind with the server and buffers of the answer.
\<close>

theorem answer_completes_request:
  fixes s :: "'a sifrpc_scheme"
  assumes "answer_for cd cid s" "buffers_apart (cd_pktbuf s) (a_irq_packet s)"
    and "target 0x80000008 s = Some (Fn_request_end, harg)"
    and "cid = 0x8000000a \<or> cid = 0x80000009" "busy_with cd p ef ea s" "ef \<noteq> 0"
  shows "\<exists>t. sif_cmd_interrupt (call_cmd callback func hw ext) s
      = map_option (rpc_packet_free p) (callback ef ea t)
    \<and> cl_pkt_addr (clients t cd) = 0 \<and> cl_sema_id (clients t cd) = cl_sema_id (clients s cd) + 1
    \<and> (\<forall>c. c = cd \<or> clients t c = clients s c)
    \<and> (cid = 0x8000000a \<or> cl_server (clients t cd) = getf (cd_pktbuf s) f_rserver s
         \<and> cl_buff (clients t cd) = getf (cd_pktbuf s) f_buff s \<and> cl_cbuff (clients t cd) = getf (cd_pktbuf s) f_cbuff s)
    \<and> reg_lw EE_DMAC_SIF0_CHCR t = 0x184 \<and> cp0_status t = cp0_status s"
proof -
  obtain u where u: "sif_cmd_interrupt (call_cmd callback func hw ext) s = request_end callback (a_irq_packet s) harg u"
    "getf (a_irq_packet s) f_client u = cd" "getf (a_irq_packet s) f_cid u = cid" "clients u = clients s"
    "\<And>k. 0 < k \<Longrightarrow> k < 16 \<Longrightarrow> getf (a_irq_packet s) k u = getf (cd_pktbuf s) k s"
    "reg_lw EE_DMAC_SIF0_CHCR u = 0x184" "cp0_status u = cp0_status s"
    using answer_dispatched [OF assms(1-3), where callback = callback and func = func and hw = hw and ext = ext] by blast
  let ?t = "upd_client cd (finish_client (a_irq_packet s) cid u) u"
  have "sif_cmd_interrupt (call_cmd callback func hw ext) s = map_option (rpc_packet_free p) (callback ef ea ?t)"
    using u(1,4) request_end_eq [OF u(2,3)] assms(4-6) by (auto simp: busy_with_def Let_def)
  moreover have "reg_lw EE_DMAC_SIF0_CHCR ?t = 0x184" using u(6) by (simp add: upd_client_def reg_lw_def)
  ultimately show ?thesis
    using assms(4) u(4,5,7) by (intro exI [of _ ?t]) (auto simp: finish_client_def Let_def)
qed

lemma busy_refused:
  assumes "pkt_inv s" "cl_pkt_addr (clients s cd) \<noteq> 0"
  shows "rb AND 0x0f = 0 \<Longrightarrow> map_option fst (SifCallRpc intrs cd n mode sb ss rb rs ef ea s) = Some (- E_SIF_PKT_ALLOC)"
    "map_option fst (SifBindRpc intrs cd sid mode ef ea s) = Some (- E_SIF_PKT_ALLOC)"
  using assms(1) by (cases rule: rpc_get_packet_cases; simp add: assms(2) SifCallRpc_eq SifBindRpc_eq)+

text \<open>
  When the DMA ring has no room, a call to an idle client reports \<open>-E_SIF_PKT_SEND\<close> and
  leaves the client marked busy although its packet was returned: the status function says the
  client is idle, yet every later call and bind on it is refused.
\<close>

theorem failed_send_wedges_client:
  fixes s :: "'a sifrpc_scheme"
  assumes "pkt_inv s" "ring_inv s" "hw_tag s \<le> 30" "ssize \<le> 0xfffffff0" "mode AND SIF_RPC_M_NOWAIT \<noteq> 0"
    and "recvbuf AND 0x0f = 0" "pkts_used s \<noteq> {..<32}" "cl_pkt_addr (clients s cd) = 0"
    and "unat (sif_get_number_of_free_dma_tags s) < cmd_tags ssize"
  shows "\<exists>s'. SifCallRpc intrs cd n mode sendbuf ssize recvbuf rsize ef ea s = Some (- E_SIF_PKT_SEND, s')
    \<and> SifCheckStatRpc cd s' = 0
    \<and> (\<forall>intrs n mode sb ss rb rs ef ea. rb AND 0x0f = 0 \<longrightarrow>
         map_option fst (SifCallRpc intrs cd n mode sb ss rb rs ef ea s') = Some (- E_SIF_PKT_ALLOC))
    \<and> (\<forall>intrs sid mode ef ea. map_option fst (SifBindRpc intrs cd sid mode ef ea s') = Some (- E_SIF_PKT_ALLOC))"
proof -
  obtain s' i where s': "SifCallRpc intrs cd n mode sendbuf ssize recvbuf rsize ef ea s = Some (- E_SIF_PKT_SEND, s')"
    "pkt_inv s'" "i < 32" "i \<notin> pkts_used s'" "busy_with cd (pkt_at (rd_pkt_table s) i) ef ea s'"
    "rd_pkt_table s' = rd_pkt_table s"
    using SifCallRpc_effect [OF assms(1-5), of intrs cd n sendbuf recvbuf rsize ef ea] assms(6-9) by auto
  then have "\<not> pkt_allocated s' i" by (simp add: pkts_used_def)
  moreover have "cl_pkt_addr (clients s' cd) = pkt_at (rd_pkt_table s') i"
    using s'(5,6) by (simp add: busy_with_def)
  ultimately show ?thesis
    using s'(1,3) pkt_at_nonzero [OF s'(2,3)] busy_refused [OF s'(2), of cd]
    by (auto simp: SifCheckStatRpc_def Let_def pkt_allocated_def)
qed

text \<open>
  C26. Through any sequence of allocations and releases of request packets the packets held are
  distinct and at most 32: a packet is never handed out while a request still owns it.
\<close>

theorem rpc_packets_exclusive:
  fixes s :: "'a sifrpc_scheme"
  assumes "pkt_inv s" "pkts_used s = {}" "pool_run pool_get pool_free ops ([], s) = (held, s')"
  shows "distinct held \<and> length held \<le> 32 \<and> set held = pkts_used s'"
  using pkts.run_held [OF assms(1) _ _ assms(3)] pkts.run_bounded [OF assms(1) _ _ assms(3)] assms(2) by simp

section \<open>Servers\<close>

lemma upd_queue_fields [simp]:
  "queues (upd_queue a f s) = (queues s)(a := f (queues s a))" "servers (upd_queue a f s) = servers s"
  "rd_active_queue (upd_queue a f s) = rd_active_queue s" "cp0_status (upd_queue a f s) = cp0_status s"
  "servers (upd_server a g s) = (servers s)(a := g (servers s a))" "queues (upd_server a g s) = queues s"
  "rd_active_queue (upd_server a g s) = rd_active_queue s" "cp0_status (upd_server a g s) = cp0_status s"
  by (simp_all add: upd_queue_def upd_server_def)

lemma search_servers_next:
  "search_servers sid 0 s = Some 0"
  "server \<noteq> 0 \<Longrightarrow> search_servers sid server s =
     (if sv_sid (servers s server) = sid then Some server else search_servers sid (sv_link (servers s server)) s)"
  by (subst search_servers.simps, simp)+

lemma search_queues_next:
  "search_queues sid 0 s = Some 0"
  "queue \<noteq> 0 \<Longrightarrow> search_queues sid queue s =
     (case search_servers sid (q_link (queues s queue)) s of None \<Rightarrow> None
      | Some server \<Rightarrow> (if server \<noteq> 0 then Some server else search_queues sid (q_next (queues s queue)) s))"
  by (subst search_queues.simps, simp)+

lemma skip_servers_null: "skip_servers server s = Some r \<Longrightarrow> r = 0"
  by (erule skip_servers.raw_induct [where P = "\<lambda>server s r. r = 0", rotated]) (auto simp: Let_def split: if_splits)

lemma skip_queues_null: "skip_queues queue s = Some r \<Longrightarrow> r = 0"
  by (erule skip_queues.raw_induct [where P = "\<lambda>queue s r. r = 0", rotated]) (auto simp: Let_def split: if_splits)

text \<open>
  On a system without queues, setting up a queue and registering a server in it succeeds, and
  a bind request finds exactly that server under its identifier. Registering a second server in the
  same queue, or a second queue, dereferences \<open>NULL\<close> or does not return.
\<close>

theorem one_server_only:
  fixes s :: "'a sifrpc_scheme"
  assumes "rd_active_queue s = 0" "qd \<noteq> 0" "sd \<noteq> 0"
  shows "\<exists>s1 s2. SifSetRpcQueue qd s = Some (0, s1) \<and> SifRegisterRpc sd sid func buff cfunc cbuff qd s1 = Some (0, s2)
    \<and> (\<forall>x. search_svdata x s2 = Some (if x = sid then sd else 0))
    \<and> (\<forall>sd' sid' f' b' cf' cb'. SifRegisterRpc sd' sid' f' b' cf' cb' qd s2 = None)
    \<and> (\<forall>qd'. SifSetRpcQueue qd' s2 = None)"
proof -
  define s1 where "s1 = (upd_queue qd (\<lambda>q. q\<lparr>q_active := 0, q_link := 0, q_start := 0, q_end := 0, q_next := 0\<rparr>) s)
      \<lparr>rd_active_queue := qd\<rparr>"
  define s2 where "s2 = upd_queue qd (\<lambda>q. q\<lparr>q_link := sd\<rparr>) (upd_server sd (\<lambda>v. v\<lparr>sv_link := 0, sv_next := 0,
      sv_sid := sid, sv_func := func, sv_buff := buff, sv_cfunc := cfunc, sv_cbuff := cbuff, sv_base := qd\<rparr>) s1)"

  have 1: "SifSetRpcQueue qd s = Some (0, s1)"
    using assms(1) by (simp add: SifSetRpcQueue_def core_save_disable_def Let_def s1_def)
  have 2: "SifRegisterRpc sd sid func buff cfunc cbuff qd s1 = Some (0, s2)"
    by (simp add: SifRegisterRpc_def core_save_disable_def Let_def s2_def) (simp add: s1_def)
  have 3: "search_svdata x s2 = Some (if x = sid then sd else 0)" for x
    using assms(2,3) by (simp add: search_svdata_def search_queues_next search_servers_next s2_def s1_def)
  have 4: "SifRegisterRpc sd' sid' f' b' cf' cb' qd s2 = None" for sd' sid' f' b' cf' cb'
    using assms(3) by (auto simp: SifRegisterRpc_def core_save_disable_def Let_def s2_def
        split: option.splits dest: skip_servers_null)
  have 5: "SifSetRpcQueue qd' s2 = None" for qd'
    using assms(2) by (auto simp: SifSetRpcQueue_def core_save_disable_def Let_def s2_def s1_def
        split: option.splits dest: skip_queues_null)
  show ?thesis using 1 2 3 4 5 by blast
qed

section \<open>Initialisation\<close>

definition system_handlers :: "'a sifrpc_scheme \<Rightarrow> u32 \<Rightarrow> (cmd_fn \<times> u32) option" where
  "system_handlers s = map_of
     [(0x80000000, Fn_change_addr, a_sif_cmd_data s), (0x80000001, Fn_set_sreg, a_sif_cmd_data s),
      (0x80000008, Fn_request_end, a_sif_rpc_data s), (0x80000009, Fn_request_bind, a_sif_rpc_data s),
      (0x8000000a, Fn_request_call, a_sif_rpc_data s), (0x8000000c, Fn_request_rdata, a_sif_rpc_data s)]"

text \<open>
  Initialising the RPC layer on a fresh system always returns and installs the six system
  handlers, and only those: address change, register write, end, bind, call and other-data
  requests. Interrupts are as before; a second initialisation changes nothing.
\<close>

theorem SifInitRpc_handlers:
  fixes s :: "'a sifrpc_scheme"
  assumes "\<not> rpc_init s" "\<not> cmd_initialized s" "ring_inv s" "hw_tag s \<le> 30" "a_sifCmdSysBuffer s \<noteq> 0"
  shows "\<exists>s'. SifInitRpc s = Some s' \<and> (\<forall>k. sys_key k \<longrightarrow> target k s' = system_handlers s k)
    \<and> cp0_status s' = cp0_status s \<and> rd_pkt_table s' = KSEG1ADDR (rd_pkt_table s) \<and> SifInitRpc s' = Some s'"
proof -
  let ?s = "s\<lparr>cp0_status := (cp0_status s OR 1) XOR 1, rpc_init := True\<rparr>"
  have pre: "\<not> cmd_initialized ?s" "ring_inv ?s" "hw_tag ?s \<le> 30" "a_sifCmdSysBuffer ?s \<noteq> 0"
    using assms by (simp_all add: ring_inv_def cur_tag_def hw_tag_def sif_dma_get_hw_index_def reg_lw_def)
  obtain t where t: "SifInitCmd ?s = Some t" "ring_inv t" "cp0_status t = cp0_status ?s" "sys_table t"
    "\<And>k. sys_key k \<Longrightarrow> target k t = (let (h, a) = sys_cells ?s (k AND NOT SYSTEM_CMD)
       in if h \<noteq> Fn_null then Some (h, a) else None)" "sifcmd.more t = sifcmd.more ?s"
    by (rule SifInitCmd_effect [OF pre]) blast
  let ?d = "a_sif_rpc_data s"
  let ?regs = "[(0x80000008, Fn_request_end, ?d), (0x80000009, Fn_request_bind, ?d),
      (0x8000000a, Fn_request_call, ?d), (0x8000000c, Fn_request_rdata, ?d)] :: (u32 \<times> cmd_fn \<times> u32) list"
  define v where "v = t\<lparr>rd_pkt_table := KSEG1ADDR (rd_pkt_table t), rd_rdata_table := KSEG1ADDR (rd_rdata_table t),
      rd_client_table := KSEG1ADDR (rd_client_table t)\<rparr>"
  define w where "w = foldl (\<lambda>s (k, ha). cmd_add k ha s) v ?regs"
  have fields: "rd_pkt_table t = rd_pkt_table s" "a_sif_rpc_data t = ?d" "rpc_init t"
    using t(6) by (cases t; cases s; simp)+
  have keys: "\<forall>(k, ha) \<in> set ?regs. sys_key k \<and> fst ha \<noteq> Fn_null" "sys_key 0x80000000" "sys_key 0x80000001"
    by (simp_all add: sys_key_def SYSTEM_CMD_def)
  have sv: "sys_table v" "target k v = target k t" for k
    using t(4) by (simp_all add: v_def sys_table_def target_def Let_def)
  obtain r where r: "SifSetReg 0x80000002 1 [] w = Some (0, w\<lparr>sif_reg_table := r\<rparr>)"
    by (rule SifSetReg_virtual [of "0x80000002" 1 w]) (simp_all add: SYSTEM_CMD_def)
  define s' where "s' = core_restore (cp0_status s) (w\<lparr>sif_reg_table := r\<rparr>)"
  have frame: "a_sif_rpc_data (SifAddCmdHandler k h a x) = a_sif_rpc_data x" "cp0_status (SifAddCmdHandler k h a x) = cp0_status x"
    "rd_pkt_table (SifAddCmdHandler k h a x) = rd_pkt_table x" "rpc_init (SifAddCmdHandler k h a x) = rpc_init x"
    for k h a and x :: "'a sifrpc_scheme"
    by (simp_all add: SifAddCmdHandler_def upd_cell_def)
  have vd: "a_sif_rpc_data v = ?d" using fields by (simp add: v_def)
  have eq: "SifInitRpc s = Some s'"
    using t(1) r assms(1) vd
    by (simp add: SifInitRpc_def core_save_disable_def Let_def v_def [symmetric] frame s'_def w_def cmd_add_def)
  have tg: "target k s' = system_handlers s k" if k: "sys_key k" for k
  proof -
    have more: "sifdma.more s' = sifdma.more w" by (simp add: s'_def)
    have i: "k AND NOT SYSTEM_CMD = 0 \<longleftrightarrow> k = 0x80000000" "k AND NOT SYSTEM_CMD = 1 \<longleftrightarrow> k = 0x80000001"
      using sys_key_eq [OF k keys(2)] sys_key_eq [OF k keys(3)] by (simp_all add: SYSTEM_CMD_def)
    have "target k s' = (case map_of (rev ?regs) k of None \<Rightarrow> target k t | Some ha \<Rightarrow> Some ha)"
      unfolding target_more [OF more] w_def sys.lookup_adds [OF sv(1) k keys(1)] sv(2) ..
    moreover have "target k t = (if k = 0x80000000 then Some (Fn_change_addr, a_sif_cmd_data s)
        else if k = 0x80000001 then Some (Fn_set_sreg, a_sif_cmd_data s) else None)"
      using t(5) [OF k] i by (cases "k = 0x80000000"; cases "k = 0x80000001") (simp_all add: sys_cells_def)
    ultimately show ?thesis by (auto simp: system_handlers_def)
  qed
  have w: "cp0_status w = cp0_status ?s" "rd_pkt_table w = KSEG1ADDR (rd_pkt_table s)" "rpc_init w"
    using t(3) fields by (simp_all add: w_def cmd_add_def frame) (simp_all add: v_def)
  have "cp0_status s' = cp0_status s"
    unfolding s'_def by (rule core_restore_saved) (simp add: w)
  moreover have "rd_pkt_table s' = KSEG1ADDR (rd_pkt_table s)" "rpc_init s'"
    using w by (simp_all add: s'_def core_restore_def)
  moreover have "SifInitRpc s' = Some s'" if "rpc_init s'"
    using that by (simp add: SifInitRpc_def core_save_disable_def Let_def)
  ultimately show ?thesis using eq tg by blast
qed

section \<open>Witnesses\<close>

text \<open>
  Packet 0 of the table belongs to client \<open>0x80610000\<close>, whose answer has just been delivered;
  client \<open>0x80611000\<close> is idle.
\<close>

definition sample_client :: client_data where
  "sample_client = \<lparr>cl_pkt_addr = 0, cl_rpc_id = 0, cl_sema_id = 0, cl_command = 0, cl_buff = 0x3000, cl_cbuff = 0,
     cl_end_function = 0, cl_end_param = 0, cl_server = 0x4000\<rparr>"

definition sample_rpc :: sifrpc where
  "sample_rpc = sifcmd.extend
     (sample_cmd\<lparr>mem := (\<lambda>_. 0)(0x300000 := 64, 0x300008 := 0x80000008, 0x30001c := 0x80610000,
         0x300020 := 0x8000000a, 0x700010 := 5),
       cmd_cells := (\<lambda>_. (Fn_null, 0))(0x80500040 := (Fn_request_end, 0x80720000))\<rparr>)
     (sifrpc.fields 1 0xa0700000 32 0xa0701000 32 0xa0702000 32 0 0 False
       ((\<lambda>_. sample_client)(0x80610000 := sample_client\<lparr>cl_pkt_addr := 0xa0700000, cl_end_function := 0x80011000, cl_end_param := 9\<rparr>))
       (\<lambda>_. \<lparr>sv_sid = 0, sv_func = 0, sv_buff = 0, sv_size = 0, sv_cfunc = 0, sv_cbuff = 0, sv_client = 0, sv_pkt_addr = 0,
             sv_rpc_number = 0, sv_receive = 0, sv_rsize = 0, sv_rmode = 0, sv_rid = 0, sv_link = 0, sv_next = 0, sv_base = 0\<rparr>)
       (\<lambda>_. \<lparr>q_active = 0, q_link = 0, q_start = 0, q_end = 0, q_next = 0\<rparr>) 0x80720000)"

lemma pkts_used_code: "pkts_used s = set (filter (pkt_allocated s) [0..<32])"
  by (auto simp: pkts_used_def)

lemma one_slot: "{0} \<noteq> {..<32 :: nat}"
proof -
  have "1 \<in> {..<32 :: nat}" "1 \<notin> {0 :: nat}" by simp_all
  then show ?thesis by blast
qed

lemma sample_rpc_facts:
  "pkt_inv sample_rpc" "ring_inv sample_rpc" "hw_tag sample_rpc \<le> 30"
  "unat (sif_get_number_of_free_dma_tags sample_rpc) = 28" "filter (pkt_allocated sample_rpc) [0..<32] = [0]"
  "cl_pkt_addr (clients sample_rpc 0x80611000) = 0" "answer_for 0x80610000 0x8000000a sample_rpc"
  "busy_with 0x80610000 0xa0700000 0x80011000 9 sample_rpc" "rd_pkt_table sample_rpc = 0xa0700000"
  "cd_pktbuf sample_rpc = 0xa0300000" "a_irq_packet sample_rpc = 0x80400000"
  "target 0x80000008 sample_rpc = Some (Fn_request_end, 0x80720000)" "rd_active_queue sample_rpc = 0"
  "cmd_tags 200 = 3" "pkt_inv (sample_rpc\<lparr>hwreg := (hwreg sample_rpc)(EE_DMAC_SIF1_TADR := 0x100080)\<rparr>)"
  by code_simp+

theorem SifCallRpc_outcome_witness:
  "\<exists>s' i. SifCallRpc [] 0x80611000 3 1 0x80200000 200 0x80210000 64 0x80012000 5 sample_rpc = Some (0, s')
     \<and> i \<noteq> 0 \<and> i \<in> pkts_used s' \<and> busy_with 0x80611000 (pkt_at 0xa0700000 i) 0x80012000 5 s'"
proof -
  have u: "pkts_used sample_rpc = {0}" using sample_rpc_facts(5) by (simp add: pkts_used_code del: filter.simps upt_rec_numeral)
  then have "pkts_used sample_rpc \<noteq> {..<32}" using one_slot by simp
  then obtain s' i where "SifCallRpc [] 0x80611000 3 1 0x80200000 200 0x80210000 64 0x80012000 5 sample_rpc = Some (0, s')"
    "i \<notin> pkts_used sample_rpc" "pkts_used s' = insert i (pkts_used sample_rpc)"
    "busy_with 0x80611000 (pkt_at 0xa0700000 i) 0x80012000 5 s'"
    using SifCallRpc_outcome [OF sample_rpc_facts(1-3), of 200 1 "[]" "0x80611000" 3 "0x80200000" "0x80210000" 64 "0x80012000" 5]
      sample_rpc_facts(4,6,9,14) by (auto simp: rpc_consts)
  then show ?thesis using u by (intro exI [of _ s'] exI [of _ i]) simp
qed

theorem answer_completes_request_witness:
  "\<exists>t. sif_cmd_interrupt (call_cmd (\<lambda>f a s. Some s) (\<lambda>f n b z s. None) [] (\<lambda>f p a s. None)) sample_rpc
      = Some (rpc_packet_free 0xa0700000 t) \<and> cl_pkt_addr (clients t 0x80610000) = 0"
proof -
  have ap: "buffers_apart (cd_pktbuf sample_rpc) (a_irq_packet sample_rpc)"
    using sample_cmd_apart sample_rpc_facts(10,11) by simp
  show ?thesis
    using answer_completes_request [OF sample_rpc_facts(7) ap sample_rpc_facts(12) _ sample_rpc_facts(8),
        of "\<lambda>f a s. Some s" "\<lambda>f n b z s. None" "[]" "\<lambda>f p a s. None"] by auto
qed

text \<open>The same state with the ring full: the next tag of the hardware is right behind the last one queued.\<close>

definition sample_full :: sifrpc where
  "sample_full = sample_rpc\<lparr>hwreg := (hwreg sample_rpc)(EE_DMAC_SIF1_TADR := 0x100080)\<rparr>"

lemma sample_full_facts:
  "pkt_inv sample_full" "ring_inv sample_full" "hw_tag sample_full \<le> 30"
  "unat (sif_get_number_of_free_dma_tags sample_full) < cmd_tags 200" "filter (pkt_allocated sample_full) [0..<32] = [0]"
  "cl_pkt_addr (clients sample_full 0x80611000) = 0"
  by code_simp+

theorem failed_send_wedges_client_witness:
  "\<exists>s'. SifCallRpc [] 0x80611000 3 1 0x80200000 200 0x80210000 64 0x80012000 5 sample_full = Some (- E_SIF_PKT_SEND, s')
     \<and> SifCheckStatRpc 0x80611000 s' = 0
     \<and> map_option fst (SifCallRpc [] 0x80611000 3 1 0 0 0 0 0 0 s') = Some (- E_SIF_PKT_ALLOC)"
proof -
  have "pkts_used sample_full = {0}" using sample_full_facts(5) by (simp add: pkts_used_code del: filter.simps upt_rec_numeral)
  then have "pkts_used sample_full \<noteq> {..<32}" using one_slot by simp
  then show ?thesis
    using failed_send_wedges_client [OF sample_full_facts(1-3), of 200 1 "0x80210000" "0x80611000" "[]" 3 "0x80200000" 64 "0x80012000" 5]
      sample_full_facts(4,6) by (auto simp: SIF_RPC_M_NOWAIT_def)
qed

text \<open>An all-free table: the third packet asked for differs from the second, still held.\<close>

theorem rpc_packets_exclusive_witness:
  "\<exists>held s'. pool_run pool_get pool_free [Alloc (), Alloc (), Release 0, Alloc ()]
      ([], sample_rpc\<lparr>mem := \<lambda>_. 0\<rparr>) = (held, s') \<and> distinct held \<and> length held \<le> 32"
proof -
  have "pkt_inv (sample_rpc\<lparr>mem := \<lambda>_. 0\<rparr>)" "filter (pkt_allocated (sample_rpc\<lparr>mem := \<lambda>_. 0\<rparr>)) [0..<32] = []"
    by code_simp+
  moreover from this have "pkts_used (sample_rpc\<lparr>mem := \<lambda>_. 0\<rparr>) = {}"
    by (simp add: pkts_used_code del: filter.simps upt_rec_numeral)
  ultimately show ?thesis
    using rpc_packets_exclusive [of "sample_rpc\<lparr>mem := \<lambda>_. 0\<rparr>"] by (metis surj_pair)
qed

theorem one_server_only_witness:
  "\<exists>s1 s2. SifSetRpcQueue 0x80620000 sample_rpc = Some (0, s1)
     \<and> SifRegisterRpc 0x80630000 7 0x80011000 0x5000 0 0 0x80620000 s1 = Some (0, s2)
     \<and> search_svdata 7 s2 = Some 0x80630000 \<and> search_svdata 8 s2 = Some 0 \<and> SifSetRpcQueue 0x80621000 s2 = None"
  using one_server_only [OF sample_rpc_facts(13), of "0x80620000" "0x80630000" 7 "0x80011000" "0x5000" 0 0] by force

theorem SifInitRpc_handlers_witness:
  "\<exists>s'. SifInitRpc (sample_rpc\<lparr>cmd_initialized := False\<rparr>) = Some s'
     \<and> target 0x8000000a s' = Some (Fn_request_call, 0x80720000) \<and> target 0x80000002 s' = None"
proof -
  let ?s = "sample_rpc\<lparr>cmd_initialized := False\<rparr>"
  have "\<not> rpc_init ?s" "\<not> cmd_initialized ?s" "ring_inv ?s" "hw_tag ?s \<le> 30" "a_sifCmdSysBuffer ?s \<noteq> 0"
    "sys_key 0x8000000a" "sys_key 0x80000002" "system_handlers ?s 0x8000000a = Some (Fn_request_call, 0x80720000)"
    "system_handlers ?s 0x80000002 = None"
    by code_simp+
  then show ?thesis using SifInitRpc_handlers [of ?s] by auto
qed

end
