(* ===== verification/Services.thy ===== *)
theory Services
  imports SifRpc
begin

text \<open>
  What the RPC services of the SBIOS share: the lock that admits one request at a time
  (\<open>TGE/sbios/mutex.c\<close>), the argument block through which a call reports its result
  (\<open>tge_sbcall_rpc_arg_t\<close>), and the facts about an RPC call that every service relies on.

  Mutexes and argument blocks are typed stores indexed by address, address 0 being \<open>NULL\<close>. The
  end function of an argument block belongs to the kernel; what it does is a parameter \<open>notify\<close>.
\<close>

section \<open>State\<close>

record rpc_arg =
  ra_result :: u32
  ra_sbarg :: u32
  ra_endfunc :: u32
  ra_efarg :: u32

record services = sifrpc +
  mutexes :: "u32 \<Rightarrow> u32"
  rpc_args :: "u32 \<Rightarrow> rpc_arg"

definition SIF_RPCE_GETP :: u32 where "SIF_RPCE_GETP = 1"
definition SIF_RPCE_SENDP :: u32 where "SIF_RPCE_SENDP = 2"

definition set_mutex :: "u32 \<Rightarrow> u32 \<Rightarrow> 'a services_scheme \<Rightarrow> 'a services_scheme" where
  "set_mutex m v s = s\<lparr>mutexes := (mutexes s)(m := v)\<rparr>"

definition sbios_tryLock :: "u32 \<Rightarrow> 'a services_scheme \<Rightarrow> u32 \<times> 'a services_scheme" where
  "sbios_tryLock mutex s =
     (if mutex = 0 then (- 1, s)
      else
        let (status, s) = core_save_disable s
        in if mutexes s mutex \<noteq> 0 then (- 2, core_restore status s)
           else (0, core_restore status (set_mutex mutex (- 1) s)))"

definition sbios_unlock :: "u32 \<Rightarrow> 'a services_scheme \<Rightarrow> 'a services_scheme" where
  "sbios_unlock mutex s =
     (if mutex = 0 then s
      else
        let (status, s) = core_save_disable s
        in if mutexes s mutex \<noteq> 0 then core_restore status (set_mutex mutex 0 s)
           else core_restore status s)"

text \<open>\<open>carg->result = r\<close> and \<open>carg->endfunc(carg->efarg, carg->result)\<close>.\<close>

definition set_result :: "u32 \<Rightarrow> u32 \<Rightarrow> 'a services_scheme \<Rightarrow> 'a services_scheme" where
  "set_result carg r s = s\<lparr>rpc_args := (rpc_args s)(carg := (rpc_args s carg)\<lparr>ra_result := r\<rparr>)\<rparr>"

definition deliver ::
  "(u32 \<Rightarrow> u32 \<Rightarrow> u32 \<Rightarrow> 'a services_scheme \<Rightarrow> 'a services_scheme option) \<Rightarrow> u32
     \<Rightarrow> 'a services_scheme \<Rightarrow> 'a services_scheme option" where
  "deliver notify carg s =
     notify (ra_endfunc (rpc_args s carg)) (ra_efarg (rpc_args s carg)) (ra_result (rpc_args s carg)) s"

section \<open>The lock\<close>

lemma set_mutex_cp0 [simp]:
  "set_mutex m v (s\<lparr>cp0_status := x\<rparr>) = (set_mutex m v s)\<lparr>cp0_status := x\<rparr>"
  by (simp add: set_mutex_def)

lemma set_mutex_fields [simp]:
  "cp0_status (set_mutex m v s) = cp0_status s" "mutexes (set_mutex m v s) = (mutexes s)(m := v)"
  "clients (set_mutex m v s) = clients s" "mem (set_mutex m v s) = mem s" "rpc_args (set_mutex m v s) = rpc_args s"
  "rd_pkt_table (set_mutex m v s) = rd_pkt_table s" "pkt_inv (set_mutex m v s) = pkt_inv s"
  "ring_inv (set_mutex m v s) = ring_inv s" "hw_tag (set_mutex m v s) = hw_tag s"
  "getf p k (set_mutex m v s) = getf p k s" "services.more (set_mutex m v s) = services.more s"
  "sif_get_number_of_free_dma_tags (set_mutex m v s) = sif_get_number_of_free_dma_tags s"
  by (simp_all add: set_mutex_def pkt_inv_def ring_inv_def cur_tag_def hw_tag_def getf_def ldw_def
      sif_dma_get_hw_index_def sif_get_number_of_free_dma_tags_def reg_lw_def)

lemma used_set_mutex [simp]: "pkts_used (set_mutex m v s) = pkts_used s"
  by (simp add: pkts_used_def pkt_allocated_def)

lemma set_mutex_id [simp]: "mutexes s m = v \<Longrightarrow> set_mutex m v s = s"
  by (cases s) (auto simp: set_mutex_def)

lemma set_mutex_twice [simp]: "set_mutex m v (set_mutex m w s) = set_mutex m v s"
  by (simp add: set_mutex_def)

lemma sbios_tryLock_eq:
  "mutex \<noteq> 0 \<Longrightarrow> sbios_tryLock mutex s =
     (if mutexes s mutex \<noteq> 0 then (- 2, s) else (0, set_mutex mutex (- 1) s))"
  by (simp add: sbios_tryLock_def core_save_disable_def Let_def)

lemma sbios_unlock_eq: "mutex \<noteq> 0 \<Longrightarrow> sbios_unlock mutex s = set_mutex mutex 0 s"
  by (simp add: sbios_unlock_def core_save_disable_def Let_def)

section \<open>RPC calls as the services see them\<close>

text \<open>The tables and the ring are in order; every service operation is entered in such a state.\<close>

definition rpc_ready :: "'a sifrpc_scheme \<Rightarrow> bool" where
  "rpc_ready s \<longleftrightarrow> pkt_inv s \<and> ring_inv s \<and> hw_tag s \<le> 30"

text \<open>A word outside the packet table.\<close>

definition off_table :: "u32 \<Rightarrow> u32 \<Rightarrow> bool" where
  "off_table b a \<longleftrightarrow> list_all (\<lambda>i. list_all (\<lambda>k. PHYSADDR a \<noteq> PHYSADDR (fld (pkt_at b i) k)) [0..<16]) [0..<32]"

lemma off_tableD: "off_table b a \<Longrightarrow> i < 32 \<Longrightarrow> k < 16 \<Longrightarrow> PHYSADDR a \<noteq> PHYSADDR (fld (pkt_at b i) k)"
  by (simp add: off_table_def list_all_iff)

lemma off_tableI:
  assumes "2048 \<le> unat (PHYSADDR (a - b))"
  shows "off_table b a"
proof -
  let ?d = "unat (PHYSADDR (a - b))"
  have lt: "?d < 2 ^ 29" using unat_take_bit_mod [of 29 "a - b"] by (simp only: PHYSADDR_take_bit) simp
  have "PHYSADDR a = PHYSADDR (PHYSADDR (a - b) + b)" using PHYSADDR_add_left [of "a - b" b] by simp
  then have a: "PHYSADDR a = PHYSADDR (b + of_nat ?d)" by (simp add: add.commute)
  have "PHYSADDR a \<noteq> PHYSADDR (fld (pkt_at b i) k)" if "i < 32" "k < 16" for i k
  proof -
    have "fld (pkt_at b i) k = b + of_nat (64 * i + 4 * k)" by (simp add: fld_def pkt_at_def)
    then show ?thesis
      unfolding a using PHYSADDR_offset_eq_iff [OF lt, of "64 * i + 4 * k" b] assms that by simp
  qed
  then show ?thesis by (simp add: off_table_def list_all_iff)
qed

text \<open>Two blocks of words with no word in common.\<close>

definition words_apart :: "nat \<Rightarrow> u32 \<Rightarrow> nat \<Rightarrow> u32 \<Rightarrow> bool" where
  "words_apart m p n q \<longleftrightarrow>
     (\<forall>i < m. \<forall>j < n. PHYSADDR (p + of_nat (4 * i)) \<noteq> PHYSADDR (q + of_nat (4 * j)))"

lemma words_apartI:
  assumes "m \<le> 1024" "n \<le> 1024" "4 * m \<le> unat (q - p)" "unat (q - p) + 4 * n < 2 ^ 29"
  shows "words_apart m p n q" "words_apart n q m p"
proof -
  have "PHYSADDR (p + of_nat (4 * i)) \<noteq> PHYSADDR (q + of_nat (4 * j))" if "i < m" "j < n" for i j
  proof -
    have q: "q + of_nat (4 * j) = p + of_nat (unat (q - p) + 4 * j)" by simp
    show ?thesis unfolding q
      using PHYSADDR_offset_eq_iff [of "4 * i" "unat (q - p) + 4 * j" p] assms that by simp
  qed
  then show "words_apart m p n q" "words_apart n q m p" unfolding words_apart_def by metis+
qed

definition same_services :: "u32 \<Rightarrow> 'a sifrpc_scheme \<Rightarrow> 'a sifrpc_scheme \<Rightarrow> bool" where
  "same_services b s s' \<longleftrightarrow> sifrpc.more s' = sifrpc.more s \<and> (\<forall>a. off_table b a \<longrightarrow> ldw a s' = ldw a s)"

lemma same_services_trans: "same_services b s t \<Longrightarrow> same_services b t u \<Longrightarrow> same_services b s u"
  by (simp add: same_services_def)

lemma more_setf [simp]:
  "sifrpc.more (setf p k v s) = sifrpc.more s" "sifrpc.more (upd_client a f s) = sifrpc.more s"
  "sifrpc.more (call_writeback m x y z w s) = sifrpc.more s"
  by (simp_all add: setf_def upd_client_def stw_def call_writeback_def SifWriteBackDCache_def Let_def)

lemma ldw_off [simp]: "ldw a (upd_client c f s) = ldw a s" "ldw a (call_writeback m x y z w s) = ldw a s"
  by (simp_all add: ldw_def upd_client_def call_writeback_def SifWriteBackDCache_def Let_def)

lemma same_setf: "i < 32 \<Longrightarrow> k < 16 \<Longrightarrow> same_services b s (setf (pkt_at b i) k v s)"
  by (auto simp: same_services_def setf_def stw_def ldw_def dest: off_tableD)

lemma ldw_setf_off [simp]:
  "off_table b a \<Longrightarrow> i < 32 \<Longrightarrow> k < 16 \<Longrightarrow> ldw a (setf (pkt_at b i) k v s) = ldw a s"
  by (simp add: setf_def off_tableD)

lemma same_prepare:
  assumes "i < 32"
  shows "same_services b s (claim (pkt_at b i) i s)" "same_services b s (rpc_packet_free (pkt_at b i) s)"
    "same_services b s (prepare_call (pkt_at b i) cd n m sb ss rb rs ef ea s)"
    "same_services b s (prepare_bind (pkt_at b i) cd sid ef ea s)"
proof -
  have "ldw a (s\<lparr>rd_pid := y\<rparr>) = ldw a s" for a y by (simp add: ldw_def)
  then show "same_services b s (claim (pkt_at b i) i s)" "same_services b s (rpc_packet_free (pkt_at b i) s)"
    "same_services b s (prepare_call (pkt_at b i) cd n m sb ss rb rs ef ea s)"
    "same_services b s (prepare_bind (pkt_at b i) cd sid ef ea s)"
    using assms by (simp_all add: same_services_def claim_def rpc_packet_free_eq prepare_call_def prepare_bind_def Let_def)
qed

lemma same_send:
  assumes "ring_inv t" "hw_tag t \<le> 30" "sz \<le> 0xfffffff0" "j < 32"
    and "SifSendCmd fid (pkt_at b j) RPC_PACKET_SIZE src dest sz t = Some (r, t')"
  shows "same_services b t t'"
proof -
  have fl: "h_size p = fld p 0" "h_dest p = fld p 1" "h_fid p = fld p 2" "h_option p = fld p 3" for p
    by (simp_all add: hdr_fields fld_def)
  have off: "\<not> in_header (pkt_at b j) a" if "off_table b a" for a
    using off_tableD [OF that assms(4)] by (simp add: in_header_def fl)
  have "RPC_PACKET_SIZE \<le> 112" by (simp add: RPC_PACKET_SIZE_def)
  then obtain m: "sifdma.more t' = sifdma.more t" "\<And>a. \<not> in_header (pkt_at b j) a \<Longrightarrow> ldw a t' = ldw a t"
    by (rule sif_cmd_send_effect [OF assms(1,2) _ assms(3), of _ fid 0 "pkt_at b j" src dest])
      (use assms(5) in \<open>auto simp: SifSendCmd_def\<close>)
  have "sifrpc.more t' = sifrpc.more t" using m(1) by (cases t; cases t'; simp)
  then show ?thesis using m(2) off by (simp add: same_services_def)
qed

lemma same_send_request:
  fixes t :: "'a sifrpc_scheme"
  assumes "ring_inv t" "hw_tag t \<le> 30" "sz \<le> 0xfffffff0" "j < 32" "mode AND SIF_RPC_M_NOWAIT \<noteq> 0"
    and "send_request intrs mode cd fid (pkt_at b j) src dest sz t = Some (r, t')"
  shows "same_services b t t'"
proof -
  obtain q u where u: "SifSendCmd fid (pkt_at b j) RPC_PACKET_SIZE src dest sz t = Some (q, u)"
    using assms(6) by (auto simp: send_request_def split: option.splits)
  have "same_services b t u" using same_send [OF assms(1-4) u] .
  moreover have "t' = u \<or> t' = rpc_packet_free (pkt_at b j) u"
    using assms(5,6) u by (auto simp: send_request_def split: if_splits)
  ultimately show ?thesis using same_prepare(2) [OF assms(4)] same_services_trans by blast
qed

lemma SifCallRpc_same:
  fixes s :: "'a sifrpc_scheme"
  assumes "rpc_ready s" "ssize \<le> 0xfffffff0" "mode AND SIF_RPC_M_NOWAIT \<noteq> 0"
    and "SifCallRpc intrs cd n mode sendbuf ssize recvbuf rsize ef ea s = Some (r, s')"
  shows "same_services (rd_pkt_table s) s s'"
proof (cases "recvbuf AND 0x0f = 0")
  case False
  then show ?thesis using assms(4) by (simp add: SifCallRpc_eq same_services_def)
next
  case al: True
  have inv: "pkt_inv s" "ring_inv s" "hw_tag s \<le> 30" using assms(1) by (simp_all add: rpc_ready_def)
  from inv(1) show ?thesis
  proof (cases rule: rpc_get_packet_cases)
    case full
    then show ?thesis using al assms(4) by (simp add: SifCallRpc_eq same_services_def)
  next
    case (claimed i)
    let ?b = "rd_pkt_table s"
    let ?c = "claim (pkt_at ?b i) i s"
    note c = same_prepare(1) [OF claimed(1), of ?b s]
    show ?thesis
    proof (cases "cl_pkt_addr (clients s cd) = 0")
      case False
      then have "s' = rpc_packet_free (pkt_at ?b i) ?c" using al claimed assms(4) by (simp add: SifCallRpc_eq)
      then show ?thesis using c same_prepare(2) [OF claimed(1)] same_services_trans by blast
    next
      case True
      let ?t = "prepare_call (pkt_at ?b i) cd n mode sendbuf ssize recvbuf rsize ef ea ?c"
      have "send_request intrs mode cd 0x8000000a (pkt_at ?b i) sendbuf (cl_buff (clients s cd)) ssize ?t = Some (r, s')"
        using True al claimed assms(4) by (simp add: SifCallRpc_eq)
      then have t: "same_services ?b ?t s'"
        using inv assms(2,3) claimed(1) by (intro same_send_request) simp_all
      show ?thesis
        by (rule same_services_trans [OF same_services_trans [OF c same_prepare(3) [OF claimed(1)]] t])
    qed
  qed
qed

text \<open>Whatever the state, a non-blocking call leaves the services above it alone.\<close>

lemma sifrpc_more_dma: "sifdma.more t = sifdma.more s \<Longrightarrow> sifrpc.more t = sifrpc.more s"
  by (cases s; cases t; simp)

lemma sif_cmd_send_more:
  "sif_cmd_send fid flags p ps src dest sz s = Some (r, s') \<Longrightarrow> sifdma.more s' = sifdma.more s"
  by (auto simp: sif_cmd_send_def Let_def split: if_splits dest!: SifSetDma_more)

lemma free_more [simp]: "sifrpc.more (rpc_packet_free p s) = sifrpc.more s" "sifrpc.more (claim p i s) = sifrpc.more s"
  by (simp_all add: rpc_packet_free_eq claim_def Let_def)

lemma prepare_more [simp]:
  "sifrpc.more (prepare_call p cd n m sb ss rb rs ef ea s) = sifrpc.more s"
  "sifrpc.more (prepare_bind p cd sid ef ea s) = sifrpc.more s"
  by (simp_all add: prepare_call_def prepare_bind_def Let_def)

lemma get_packet_more: "rpc_get_packet s = (p, s') \<Longrightarrow> sifrpc.more s' = sifrpc.more s"
  by (auto simp: rpc_get_packet_eq Let_def split: if_splits prod.splits)

lemma send_request_more:
  "send_request intrs mode cd fid p src dest sz t = Some (r, t') \<Longrightarrow> mode AND SIF_RPC_M_NOWAIT \<noteq> 0
    \<Longrightarrow> sifrpc.more t' = sifrpc.more t"
  by (auto simp: send_request_def SifSendCmd_def split: if_splits option.splits
      dest!: sif_cmd_send_more sifrpc_more_dma)

lemma nowait_more:
  assumes "mode AND SIF_RPC_M_NOWAIT \<noteq> 0"
  shows "SifCallRpc intrs cd n mode sb ss rb rs ef ea s = Some (r, s') \<Longrightarrow> sifrpc.more s' = sifrpc.more s"
    "SifBindRpc intrs cd sid mode ef ea s = Some (r, s') \<Longrightarrow> sifrpc.more s' = sifrpc.more s"
  using assms
  by (auto simp: SifCallRpc_eq SifBindRpc_eq Let_def split: if_splits prod.splits
      dest!: send_request_more get_packet_more)

text \<open>The server a client is bound to changes only when this client is bound anew.\<close>

lemma send_request_clients:
  "send_request intrs mode cd fid p src dest sz t = Some (r, t') \<Longrightarrow> mode AND SIF_RPC_M_NOWAIT \<noteq> 0
    \<Longrightarrow> clients t' = clients t"
  by (auto simp: send_request_def SifSendCmd_def split: if_splits option.splits
      dest!: sif_cmd_send_more sifrpc_more(1))

lemma get_packet_clients: "rpc_get_packet s = (p, s') \<Longrightarrow> clients s' = clients s"
  by (auto simp: rpc_get_packet_eq Let_def split: if_splits prod.splits)

lemma nowait_servers:
  assumes "mode AND SIF_RPC_M_NOWAIT \<noteq> 0"
  shows "SifCallRpc intrs cd n mode sb ss rb rs ef ea s = Some (r, s') \<Longrightarrow> cl_server (clients s' c) = cl_server (clients s c)"
    "SifBindRpc intrs cd sid mode ef ea s = Some (r, s') \<Longrightarrow> c \<noteq> cd \<Longrightarrow> cl_server (clients s' c) = cl_server (clients s c)"
  using assms
  by (auto simp: SifCallRpc_eq SifBindRpc_eq Let_def split: if_splits prod.splits
      dest!: send_request_clients get_packet_clients)

lemma services_more:
  assumes "sifrpc.more s' = sifrpc.more s"
  shows "mutexes s' = mutexes s" "rpc_args s' = rpc_args s" "services.more s' = services.more s"
  using assms by (cases s; cases s'; simp)+

text \<open>The result a service sees: an error, or its request on the way.\<close>

definition rpc_busy :: "u32 \<Rightarrow> u32 \<Rightarrow> 'a sifrpc_scheme \<Rightarrow> bool" where
  "rpc_busy cd sz s \<longleftrightarrow> pkts_used s = {..<32} \<or> cl_pkt_addr (clients s cd) \<noteq> 0
     \<or> unat (sif_get_number_of_free_dma_tags s) < cmd_tags sz"

text \<open>
  A call on its way: a packet that was free belongs to the client and carries the request, and the
  send buffer and the packet have been queued for the IOP. The same for a bind.
\<close>

definition requested ::
  "u32 \<Rightarrow> u32 \<Rightarrow> u32 \<Rightarrow> u32 \<Rightarrow> u32 \<Rightarrow> u32 \<Rightarrow> u32 \<Rightarrow> u32 \<Rightarrow> 'a sifrpc_scheme \<Rightarrow> 'a sifrpc_scheme \<Rightarrow> bool" where
  "requested cd n sendbuf ssize recvbuf rsize ef ea s s' \<longleftrightarrow>
     (\<exists>i < 32. i \<notin> pkts_used s \<and> busy_with cd (pkt_at (rd_pkt_table s) i) ef ea s'
       \<and> call_packet (pkt_at (rd_pkt_table s) i) cd n ssize recvbuf rsize ef (cl_server (clients s cd)) s'
       \<and> queued (command_transfers (pkt_at (rd_pkt_table s) i) RPC_PACKET_SIZE sendbuf (cl_buff (clients s cd)) ssize s') s')"

definition bind_requested :: "u32 \<Rightarrow> u32 \<Rightarrow> u32 \<Rightarrow> u32 \<Rightarrow> 'a sifrpc_scheme \<Rightarrow> 'a sifrpc_scheme \<Rightarrow> bool" where
  "bind_requested cd sid ef ea s s' \<longleftrightarrow>
     (\<exists>i < 32. i \<notin> pkts_used s \<and> busy_with cd (pkt_at (rd_pkt_table s) i) ef ea s'
       \<and> bind_packet (pkt_at (rd_pkt_table s) i) cd sid s'
       \<and> queued (command_transfers (pkt_at (rd_pkt_table s) i) RPC_PACKET_SIZE 0 0 0 s') s')"

lemma errors_negative [simp]:
  "sint (- E_SIF_PKT_ALLOC) < 0" "sint (- E_SIF_PKT_SEND) < 0"
  by (simp_all add: rpc_consts)

lemma nowait_1 [simp]: "SIF_RPC_M_NOWAIT AND SIF_RPC_M_NOWAIT \<noteq> 0" "SIF_RPC_M_NOWAIT \<noteq> 0"
  by (simp_all add: SIF_RPC_M_NOWAIT_def)

lemma service_call:
  fixes s :: "'a sifrpc_scheme"
  assumes "rpc_ready s" "ssize \<le> 0xfffffff0" "recvbuf AND 0x0f = 0"
  obtains r s' where "SifCallRpc [] cd n SIF_RPC_M_NOWAIT sendbuf ssize recvbuf rsize ef ea s = Some (r, s')"
    "same_services (rd_pkt_table s) s s'" "rpc_busy cd ssize s \<longleftrightarrow> sint r < 0"
    "rpc_busy cd ssize s \<or> r = 0 \<and> requested cd n sendbuf ssize recvbuf rsize ef ea s s'"
proof -
  have inv: "pkt_inv s" "ring_inv s" "hw_tag s \<le> 30" using assms(1) by (simp_all add: rpc_ready_def)
  obtain r s' where s': "SifCallRpc [] cd n SIF_RPC_M_NOWAIT sendbuf ssize recvbuf rsize ef ea s = Some (r, s')"
    and out: "if pkts_used s = {..<32} then r = - E_SIF_PKT_ALLOC \<and> s' = s
       else if cl_pkt_addr (clients s cd) \<noteq> 0
       then r = - E_SIF_PKT_ALLOC \<and> pkts_used s' = pkts_used s \<and> clients s' = clients s
       else \<exists>i < 32. i \<notin> pkts_used s \<and> busy_with cd (pkt_at (rd_pkt_table s) i) ef ea s'
         \<and> (if unat (sif_get_number_of_free_dma_tags s) < cmd_tags ssize
            then r = - E_SIF_PKT_SEND \<and> pkts_used s' = pkts_used s
            else r = 0 \<and> pkts_used s' = insert i (pkts_used s)
              \<and> call_packet (pkt_at (rd_pkt_table s) i) cd n ssize recvbuf rsize ef (cl_server (clients s cd)) s'
              \<and> queued (command_transfers (pkt_at (rd_pkt_table s) i) RPC_PACKET_SIZE sendbuf (cl_buff (clients s cd)) ssize s') s')"
    using SifCallRpc_effect [OF inv assms(2) nowait_1(1), of "[]" cd n sendbuf recvbuf rsize ef ea] assms(3) by auto
  define F where "F \<longleftrightarrow> pkts_used s = {..<32}"
  define B where "B \<longleftrightarrow> cl_pkt_addr (clients s cd) \<noteq> 0"
  define D where "D \<longleftrightarrow> unat (sif_get_number_of_free_dma_tags s) < cmd_tags ssize"
  have busy: "rpc_busy cd ssize s \<longleftrightarrow> F \<or> B \<or> D" by (simp only: rpc_busy_def F_def B_def D_def)
  have cases: "F \<or> B \<Longrightarrow> r = - E_SIF_PKT_ALLOC" "\<not> F \<Longrightarrow> \<not> B \<Longrightarrow> D \<Longrightarrow> r = - E_SIF_PKT_SEND"
    "\<not> F \<Longrightarrow> \<not> B \<Longrightarrow> \<not> D \<Longrightarrow> r = 0 \<and> requested cd n sendbuf ssize recvbuf rsize ef ea s s'"
    using out unfolding requested_def F_def [symmetric] B_def [symmetric] D_def [symmetric]
    by (cases F; cases B; cases D; auto)+
  show thesis
  proof (rule that [OF s' SifCallRpc_same [OF assms(1,2) nowait_1(1) s']])
    show "rpc_busy cd ssize s \<longleftrightarrow> sint r < 0"
      unfolding busy using cases errors_negative by (cases "F \<or> B"; cases D; simp)
    show "rpc_busy cd ssize s \<or> r = 0 \<and> requested cd n sendbuf ssize recvbuf rsize ef ea s s'"
      unfolding busy using cases(3) by blast
  qed
qed

lemma stw_rpc [simp]:
  "rd_pkt_table (stw v a s) = rd_pkt_table s" "clients (stw v a s) = clients s" "rpc_ready (stw v a s) = rpc_ready s"
  by (simp_all add: rpc_ready_def) (simp_all add: stw_def pkt_inv_def)

lemma ready_frame [simp]: "rpc_ready (set_mutex m v s) = rpc_ready s" "rpc_args (stw v a s) = rpc_args s"
  "mutexes (stw v a s) = mutexes s"
  by (simp_all add: rpc_ready_def) (simp_all add: stw_def)

lemma busy_frame [simp]: "rpc_busy cd sz (set_mutex m v s) = rpc_busy cd sz s"
  by (simp add: rpc_busy_def)

lemma used_stw_off [simp]:
  assumes "off_table (rd_pkt_table s) a"
  shows "pkts_used (stw v a s) = pkts_used s"
proof -
  have "pkt_allocated (stw v a s) i = pkt_allocated s i" if "i < 32" for i
    using off_tableD [OF assms that, of f_rec_id] by (simp add: pkt_allocated_def getf_def)
  then show ?thesis by (auto simp: pkts_used_def)
qed

lemma busy_stw_off [simp]: "off_table (rd_pkt_table s) a \<Longrightarrow> rpc_busy cd sz (stw v a s) = rpc_busy cd sz s"
  by (simp add: rpc_busy_def)

lemma requested_stw_off [simp]:
  "off_table (rd_pkt_table s) a \<Longrightarrow> requested cd n sb ss rb rs ef ea (stw v a s) s' = requested cd n sb ss rb rs ef ea s s'"
  "requested cd n sb ss rb rs ef ea (set_mutex m w t) s' = requested cd n sb ss rb rs ef ea t s'"
  by (simp_all add: requested_def)

section \<open>Services that admit one request at a time\<close>

text \<open>
  A service takes its lock for a request and the completion releases it. Requests, completions and
  other changes of the state (hardware, other services) come in any order; the count is that of
  requests accepted and not yet completed, and a completion needs one. A completion ends in a
  notification of the caller; a request the notified caller issues is the next event.
\<close>

datatype ('q, 'n, 's) service_event = Request 'q | Finish 'n | Move "'s \<Rightarrow> 's"

fun service_run ::
  "('q \<Rightarrow> 's \<Rightarrow> (u32 \<times> 's) option) \<Rightarrow> ('n \<Rightarrow> 's \<Rightarrow> 's option) \<Rightarrow> ('q, 'n, 's) service_event list \<Rightarrow> nat \<times> 's \<Rightarrow> (nat \<times> 's) option" where
  "service_run request finish [] (n, s) = Some (n, s)"
| "service_run request finish (Request q # es) (n, s) =
     (case request q s of None \<Rightarrow> None
      | Some (r, t) \<Rightarrow> service_run request finish es (if r = 0 then Suc n else n, t))"
| "service_run request finish (Finish k # es) (n, s) =
     (if n = 0 then None
      else case finish k s of None \<Rightarrow> None | Some t \<Rightarrow> service_run request finish es (n - 1, t))"
| "service_run request finish (Move f # es) (n, s) = service_run request finish es (n, f s)"

locale locked_service =
  fixes inv :: "'s \<Rightarrow> bool" and locked :: "'s \<Rightarrow> bool"
    and request :: "'q \<Rightarrow> 's \<Rightarrow> (u32 \<times> 's) option" and finish :: "'n \<Rightarrow> 's \<Rightarrow> 's option"
    and quiet :: "'n \<Rightarrow> bool"
  assumes accepted: "inv s \<Longrightarrow> request q s = Some (0, s') \<Longrightarrow> \<not> locked s \<and> locked s' \<and> inv s'"
    and refused: "inv s \<Longrightarrow> request q s = Some (r, s') \<Longrightarrow> r \<noteq> 0 \<Longrightarrow> locked s' = locked s \<and> inv s'"
    and finished: "inv s \<Longrightarrow> locked s \<Longrightarrow> quiet k \<Longrightarrow> finish k s = Some s' \<Longrightarrow> \<not> locked s' \<and> inv s'"
begin

lemma one_at_a_time:
  assumes "inv s" "n = (if locked s then 1 else 0)"
    and "\<forall>f s. Move f \<in> set es \<and> inv s \<longrightarrow> inv (f s) \<and> locked (f s) = locked s"
    and "\<forall>k. Finish k \<in> set es \<longrightarrow> quiet k"
    and "service_run request finish es (n, s) = Some (m, t)"
  shows "inv t \<and> m = (if locked t then 1 else 0)"
  using assms
proof (induction es arbitrary: n s)
  case (Cons e es)
  show ?case
  proof (cases e)
    case (Request q)
    obtain r u where u: "request q s = Some (r, u)"
        "service_run request finish es (if r = 0 then Suc n else n, u) = Some (m, t)"
      using Cons.prems(5) by (auto simp: Request split: option.splits)
    show ?thesis
    proof (cases "r = 0")
      case True
      then have "\<not> locked s" "locked u" "inv u" using accepted [OF Cons.prems(1)] u(1) by blast+
      then show ?thesis using Cons.IH [of u "Suc n"] Cons.prems u(2) True by auto
    next
      case False
      then have "locked u = locked s" "inv u" using refused [OF Cons.prems(1) u(1)] by blast+
      then show ?thesis using Cons.IH [of u n] Cons.prems u(2) False by auto
    qed
  next
    case (Finish k)
    then obtain u where u: "locked s" "finish k s = Some u" "service_run request finish es (n - 1, u) = Some (m, t)"
      using Cons.prems by (auto split: if_splits option.splits)
    moreover have "quiet k" using Cons.prems(4) Finish by simp
    ultimately have "\<not> locked u" "inv u" using finished [OF Cons.prems(1)] by blast+
    then show ?thesis using Cons.IH [of u "n - 1"] Cons.prems u by (auto split: if_splits)
  next
    case (Move f)
    then have "inv (f s)" "locked (f s) = locked s" using Cons.prems by auto
    then show ?thesis using Cons.IH [of "f s" n] Cons.prems Move by auto
  qed
qed simp

end

section \<open>Starting a request\<close>

text \<open>What a module keeps above the services does not concern the RPC layer.\<close>

lemma truncate_frame:
  assumes "services.truncate t = services.truncate s"
  shows "rpc_ready t = rpc_ready s" "rd_pkt_table t = rd_pkt_table s" "clients t = clients s"
    "pkts_used t = pkts_used s" "mutexes t = mutexes s" "rpc_args t = rpc_args s"
    "sif_get_number_of_free_dma_tags t = sif_get_number_of_free_dma_tags s" "ldw a t = ldw a s"
  using assms
  by (cases s; cases t; simp add: services.defs rpc_ready_def pkt_inv_def ring_inv_def cur_tag_def hw_tag_def
      pkts_used_def pkt_allocated_def getf_def ldw_def sif_dma_get_hw_index_def sif_get_number_of_free_dma_tags_def reg_lw_def)+

text \<open>Binding a client to a server, as the modules see it.\<close>

lemma service_bind:
  fixes s :: "'a sifrpc_scheme"
  assumes "rpc_ready s"
  obtains r s' where "SifBindRpc [] cd sid SIF_RPC_M_NOWAIT ef ea s = Some (r, s')" "sifrpc.more s' = sifrpc.more s"
    "rpc_busy cd 0 s \<longleftrightarrow> sint r < 0" "rpc_busy cd 0 s \<or> r = 0 \<and> bind_requested cd sid ef ea s s'"
proof -
  have inv: "pkt_inv s" "ring_inv s" "hw_tag s \<le> 30" using assms by (simp_all add: rpc_ready_def)
  from inv(1) show thesis
  proof (cases rule: rpc_get_packet_cases)
    case full
    then have eq: "SifBindRpc [] cd sid SIF_RPC_M_NOWAIT ef ea s = Some (- E_SIF_PKT_ALLOC, s)" by (simp add: SifBindRpc_eq)
    have "rpc_busy cd 0 s" using full unfolding rpc_busy_def by (intro disjI1)
    then show thesis using that [OF eq] errors_negative(1) by blast
  next
    case (claimed i)
    let ?p = "pkt_at (rd_pkt_table s) i" and ?s = "claim (pkt_at (rd_pkt_table s) i) i s"
    have nf: "pkts_used s \<noteq> {..<32}" using claimed by auto
    show thesis
    proof (cases "cl_pkt_addr (clients s cd) = 0")
      case False
      then have "SifBindRpc [] cd sid SIF_RPC_M_NOWAIT ef ea s = Some (- E_SIF_PKT_ALLOC, rpc_packet_free ?p ?s)"
        using claimed by (simp add: SifBindRpc_eq)
      moreover have "rpc_busy cd 0 s" using False unfolding rpc_busy_def by blast
      ultimately show thesis using that [of "- E_SIF_PKT_ALLOC" "rpc_packet_free ?p ?s"] errors_negative(1) by simp
    next
      case True
      let ?t = "prepare_bind ?p cd sid ef ea ?s"
      let ?full = "unat (sif_get_number_of_free_dma_tags s) < cmd_tags 0"
      obtain t' where t': "send_request [] SIF_RPC_M_NOWAIT cd 0x80000009 ?p 0 0 0 ?t
          = Some (if ?full then - E_SIF_PKT_SEND else 0, t')" "clients t' = clients ?t"
        "?full \<or> (ldw (h_fid ?p) t' = 0x80000009 \<and> queued (command_transfers ?p RPC_PACKET_SIZE 0 0 0 t') t'
           \<and> (\<forall>k. 4 \<le> k \<and> k < 16 \<longrightarrow> getf ?p k t' = getf ?p k ?t))"
        by (rule send_request_nowait [of ?t 0 i SIF_RPC_M_NOWAIT "[]" cd "0x80000009" 0 0]) (use inv claimed(1) in auto)
      then have eq: "SifBindRpc [] cd sid SIF_RPC_M_NOWAIT ef ea s = Some (if ?full then - E_SIF_PKT_SEND else 0, t')"
        using True claimed(3,4) by (simp add: SifBindRpc_eq)
      have "rpc_busy cd 0 s = ?full" using True nf unfolding rpc_busy_def by blast
      moreover have "busy_with cd ?p ef ea t'" using t'(2) by (simp add: busy_with_def)
      moreover have "?full \<or> bind_packet ?p cd sid t'"
        using t'(3) prepare_bind_words [of ?p cd sid ef ea ?s] by (auto simp: bind_packet_def)
      ultimately show thesis
        by (intro that [OF eq nowait_more(2) [OF nowait_1(1) eq]]) (use errors_negative(2) t'(3) claimed(1,2) in \<open>auto simp: bind_requested_def\<close>)
    qed
  qed
qed

text \<open>What a module keeps is not touched by a request, and not by a notification that keeps to the interface.\<close>

lemmas call_more = services_more(3) [OF nowait_more(1) [OF nowait_1(1)]] services_more(3) [OF nowait_more(2) [OF nowait_1(1)]]

definition good_notify :: "(u32 \<Rightarrow> u32 \<Rightarrow> u32 \<Rightarrow> 'a services_scheme \<Rightarrow> 'a services_scheme option) \<Rightarrow> bool" where
  "good_notify notify \<longleftrightarrow> (\<forall>f a r s t. notify f a r s = Some t \<longrightarrow> services.more t = services.more s)"

lemma deliver_more: "good_notify notify \<Longrightarrow> deliver notify carg s = Some t \<Longrightarrow> services.more t = services.more s"
  by (simp add: deliver_def good_notify_def)

section \<open>Command sets behind one lock\<close>

text \<open>Preparing buffers outside the packet table disturbs nothing the RPC layer looks at.\<close>

definition calm :: "'a services_scheme \<Rightarrow> 'a services_scheme \<Rightarrow> bool" where
  "calm s t \<longleftrightarrow> rpc_ready t = rpc_ready s \<and> rd_pkt_table t = rd_pkt_table s \<and> clients t = clients s
     \<and> pkts_used t = pkts_used s \<and> sif_get_number_of_free_dma_tags t = sif_get_number_of_free_dma_tags s
     \<and> mutexes t = mutexes s \<and> services.more t = services.more s \<and> rpc_args t = rpc_args s"

lemma calm_refl: "calm s s"
  by (simp add: calm_def)

lemma calm_trans: "calm s t \<Longrightarrow> calm t u \<Longrightarrow> calm s u"
  by (simp add: calm_def)

lemma calm_stw: "off_table (rd_pkt_table s) a \<Longrightarrow> calm s (stw v a s)"
  by (simp add: calm_def) (simp add: stw_def)

lemma calm_writeback: "calm s (SifWriteBackDCache a n s)"
  by (simp add: calm_def rpc_ready_def pkt_inv_def pkts_used_def pkt_allocated_def getf_def ldw_def)
    (simp add: SifWriteBackDCache_def)

lemma calm_stw_last: "calm s t \<Longrightarrow> off_table (rd_pkt_table t) a \<Longrightarrow> calm s (stw v a t)"
  by (rule calm_trans [OF _ calm_stw])

lemma calm_writeback_last: "calm s t \<Longrightarrow> calm s (SifWriteBackDCache a n t)"
  by (rule calm_trans [OF _ calm_writeback])

lemmas calm_intros = calm_refl calm_writeback_last calm_stw_last

text \<open>
  A set of commands shares a lock and an RPC client. \<open>check\<close> takes the lock when no request is out and the
  server is bound, recording the command by \<open>mark\<close>; \<open>send\<close> issues the request and releases the lock
  when that fails.
\<close>

locale command_set =
  fixes lock client :: "'a services_scheme \<Rightarrow> u32" and bound :: "'a services_scheme \<Rightarrow> bool"
    and mark :: "u32 \<Rightarrow> 'a services_scheme \<Rightarrow> 'a services_scheme"
    and check :: "u32 \<Rightarrow> 'a services_scheme \<Rightarrow> u32 \<times> 'a services_scheme"
    and send :: "u32 \<Rightarrow> u32 \<Rightarrow> u32 \<Rightarrow> u32 \<Rightarrow> u32 \<Rightarrow> u32 \<Rightarrow> u32 \<Rightarrow> 'a services_scheme \<Rightarrow> (u32 \<times> 'a services_scheme) option"
  assumes addresses: "services.more t = services.more s \<Longrightarrow> lock t = lock s \<and> client t = client s"
    and marking: "lock (mark cmd s) = lock s" "client (mark cmd s) = client s" "services.truncate (mark cmd s) = services.truncate s"
    and check_law: "lock s \<noteq> 0 \<Longrightarrow> check cmd s =
      (if mutexes s (lock s) \<noteq> 0 \<or> SifCheckStatRpc (client s) s \<noteq> 0 then (0, s)
       else if \<not> bound s then (0, mark cmd s) else (1, mark cmd (set_mutex (lock s) (- 1) s)))"
    and send_law: "send cmd sendbuf ssize recvbuf rsize stage2 carg s =
      (case SifCallRpc [] (client s) cmd SIF_RPC_M_NOWAIT sendbuf ssize recvbuf rsize stage2 carg s of
         None \<Rightarrow> None
       | Some (r, s) \<Rightarrow> (if sint r < 0 then Some (- SIF_RPCE_SENDP, sbios_unlock (lock s) s) else Some (0, s)))"
begin

definition ready :: "'a services_scheme \<Rightarrow> bool" where
  "ready s \<longleftrightarrow> mutexes s (lock s) = 0 \<and> SifCheckStatRpc (client s) s = 0 \<and> bound s"

definition granted :: "u32 \<Rightarrow> 'a services_scheme \<Rightarrow> 'a services_scheme" where
  "granted cmd s = mark cmd (set_mutex (lock s) (- 1) s)"

definition outcome ::
  "u32 \<Rightarrow> u32 \<Rightarrow> u32 \<Rightarrow> u32 \<Rightarrow> u32 \<Rightarrow> u32 \<Rightarrow> u32 \<Rightarrow> 'a services_scheme \<Rightarrow> u32 \<Rightarrow> 'a services_scheme \<Rightarrow> bool" where
  "outcome cmd sendbuf ssize recvbuf rsize stage2 carg s r s' \<longleftrightarrow>
     (if rpc_busy (client s) ssize s then r = - SIF_RPCE_SENDP \<and> mutexes s' = mutexes s
      else r = 0 \<and> mutexes s' = (mutexes s)(lock s := - 1)
        \<and> requested (client s) cmd sendbuf ssize recvbuf rsize stage2 carg s s')"

lemma mark_frame:
  "rpc_ready (mark cmd s) = rpc_ready s" "rd_pkt_table (mark cmd s) = rd_pkt_table s" "clients (mark cmd s) = clients s"
  "pkts_used (mark cmd s) = pkts_used s" "mutexes (mark cmd s) = mutexes s" "rpc_args (mark cmd s) = rpc_args s"
  "sif_get_number_of_free_dma_tags (mark cmd s) = sif_get_number_of_free_dma_tags s"
  using truncate_frame [OF marking(3) [of cmd s]] by simp_all

lemma granted_frame:
  "rpc_ready (granted cmd s) = rpc_ready s" "rd_pkt_table (granted cmd s) = rd_pkt_table s" "clients (granted cmd s) = clients s"
  "pkts_used (granted cmd s) = pkts_used s" "rpc_args (granted cmd s) = rpc_args s"
  "sif_get_number_of_free_dma_tags (granted cmd s) = sif_get_number_of_free_dma_tags s"
  "mutexes (granted cmd s) = (mutexes s)(lock s := - 1)" "lock (granted cmd s) = lock s" "client (granted cmd s) = client s"
  using addresses [of "set_mutex (lock s) (- 1) s" s] by (simp_all add: granted_def mark_frame marking)

lemma check_cases:
  assumes "lock s \<noteq> 0"
  obtains (refused) "\<not> ready s" "check cmd s = (0, s) \<or> check cmd s = (0, mark cmd s)"
    | (admitted) "ready s" "check cmd s = (1, granted cmd s)"
  using check_law [OF assms, of cmd] that by (auto simp: ready_def granted_def split: if_splits)

lemma send_effect:
  assumes "rpc_ready s" "lock s \<noteq> 0" "ready s" "ssize \<le> 0xfffffff0" "recvbuf AND 0x0f = 0" "calm (granted cmd s) t"
  shows "\<exists>r s'. send cmd sendbuf ssize recvbuf rsize stage2 carg t = Some (r, s')
    \<and> outcome cmd sendbuf ssize recvbuf rsize stage2 carg s r s'
    \<and> (\<forall>a. off_table (rd_pkt_table s) a \<longrightarrow> ldw a s' = ldw a t)"
proof -
  have t: "rpc_ready t" "rd_pkt_table t = rd_pkt_table s" "clients t = clients s" "pkts_used t = pkts_used s"
      "sif_get_number_of_free_dma_tags t = sif_get_number_of_free_dma_tags s"
      "mutexes t = (mutexes s)(lock s := - 1)" "lock t = lock s" "client t = client s"
    using assms(1,6) granted_frame [of cmd s] addresses [of t "granted cmd s"] by (simp_all add: calm_def)
  obtain r u where u: "SifCallRpc [] (client t) cmd SIF_RPC_M_NOWAIT sendbuf ssize recvbuf rsize stage2 carg t = Some (r, u)"
      "same_services (rd_pkt_table t) t u" "rpc_busy (client t) ssize t \<longleftrightarrow> sint r < 0"
      "rpc_busy (client t) ssize t \<or> r = 0 \<and> requested (client t) cmd sendbuf ssize recvbuf rsize stage2 carg t u"
    by (rule service_call [OF t(1) assms(4,5)]) auto
  have m: "mutexes u = mutexes t" "lock u = lock s"
    using u(2) services_more [of u t] addresses [of u t] t(7) by (simp_all add: same_services_def)
  have eq: "send cmd sendbuf ssize recvbuf rsize stage2 carg t
      = Some (if sint r < 0 then (- SIF_RPCE_SENDP, set_mutex (lock s) 0 u) else (0, u))"
    using u(1) m(2) assms(2) by (simp add: send_law sbios_unlock_eq)
  have undo: "mutexes (set_mutex (lock s) 0 u) = mutexes s"
    using assms(3) m(1) t(6) by (auto simp: fun_eq_iff ready_def)
  have mem: "ldw a u = ldw a t" "ldw a (set_mutex (lock s) 0 u) = ldw a t" if "off_table (rd_pkt_table s) a" for a
    using u(2) t(2) that by (simp_all add: same_services_def set_mutex_def) (simp add: ldw_def)
  have "rpc_busy (client s) ssize s = (sint r < 0)"
    "rpc_busy (client s) ssize s \<or> r = 0 \<and> requested (client s) cmd sendbuf ssize recvbuf rsize stage2 carg s u"
    using u(3,4) t by (simp_all add: rpc_busy_def requested_def)
  then show ?thesis
    using eq undo mem m(1) t(6) by (cases "rpc_busy (client s) ssize s") (auto simp: outcome_def)
qed

text \<open>A command checks, prepares its buffers and sends.\<close>

lemma command_effect:
  assumes "rpc_ready s" "lock s \<noteq> 0" "ssize \<le> 0xfffffff0" "recvbuf AND 0x0f = 0"
    and "op = (let (ok, s) = check cmd s in if ok = 0 then Some (again s, s)
      else let s = prep s in send cmd (sb s) ssize (rb s) rsize (st s) carg s)"
    and "calm (granted cmd s) (prep (granted cmd s))"
    and "sb (prep (granted cmd s)) = sendbuf" "rb (prep (granted cmd s)) = recvbuf" "st (prep (granted cmd s)) = stage2"
    and "again (mark cmd s) = again s"
  shows "\<exists>r s'. op = Some (r, s') \<and>
    (if ready s then outcome cmd sendbuf ssize recvbuf rsize stage2 carg s r s'
       \<and> (\<forall>a. off_table (rd_pkt_table s) a \<longrightarrow> ldw a s' = ldw a (prep (granted cmd s)))
     else r = again s \<and> (s' = s \<or> s' = mark cmd s))"
  using assms(2)
proof (cases rule: check_cases [of s cmd])
  case refused
  then show ?thesis using assms(5,10) by auto
next
  case admitted
  then show ?thesis
    using send_effect [OF assms(1,2) admitted(1) assms(3,4,6), of sendbuf rsize stage2 carg] assms(5,7-9)
    by (simp add: Let_def)
qed

end

end
