(* ===== verification/IopHeap.thy ===== *)
theory IopHeap
  imports Services
begin

text \<open>
  The IOP heap service (\<open>TGE/sbios/iopheap.c\<close>): binding to the heap server of the IOP, and
  asking it to allocate and free IOP memory. One buffer serves request and answer, so a lock
  admits one request at a time; it is released by the end function of the RPC call.

  The addresses of the module's static objects and functions are fields of the state.
\<close>

section \<open>Model\<close>

record iopheap = services +
  ih_caps :: u32
  iopheap_pkt :: u32
  a_ih_cd :: u32
  a_iopHeapMutex :: u32
  a_iopheap_buffer :: u32
  a_iopHeapInitCallback :: u32
  a_iopHeapCallback :: u32

definition IH_C_BOUND :: u32 where "IH_C_BOUND = 1"

definition iopHeapInitCallback ::
  "(u32 \<Rightarrow> u32 \<Rightarrow> u32 \<Rightarrow> 'a iopheap_scheme \<Rightarrow> 'a iopheap_scheme option) \<Rightarrow> u32
     \<Rightarrow> 'a iopheap_scheme \<Rightarrow> 'a iopheap_scheme option" where
  "iopHeapInitCallback notify carg s =
     (let s = (if cl_server (clients s (a_ih_cd s)) \<noteq> 0
               then (set_result carg 0 s)\<lparr>iopheap_pkt := a_iopheap_buffer s, ih_caps := ih_caps s OR IH_C_BOUND\<rparr>
               else set_result carg (- 1) s);
          s = sbios_unlock (a_iopHeapMutex s) s
      in deliver notify carg s)"

definition sbcall_iopheapinit ::
  "(u32 \<Rightarrow> u32 \<Rightarrow> u32 \<Rightarrow> 'a iopheap_scheme \<Rightarrow> 'a iopheap_scheme option) \<Rightarrow> u32
     \<Rightarrow> 'a iopheap_scheme \<Rightarrow> (u32 \<times> 'a iopheap_scheme) option" where
  "sbcall_iopheapinit notify carg s =
     (if ih_caps s \<noteq> 0 then map_option (Pair 0) (deliver notify carg (set_result carg 0 s))
      else
        case SifInitRpc s of
          None \<Rightarrow> None
        | Some s \<Rightarrow>
            let (r, s) = sbios_tryLock (a_iopHeapMutex s) s
            in if r \<noteq> 0 then Some (- 2, s)
               else (case SifBindRpc [] (a_ih_cd s) 0x80000003 SIF_RPC_M_NOWAIT (a_iopHeapInitCallback s) carg s of
                       None \<Rightarrow> None
                     | Some (res, s) \<Rightarrow>
                         (if res \<noteq> 0 then Some (- SIF_RPCE_SENDP, sbios_unlock (a_iopHeapMutex s) s)
                          else Some (0, s))))"

definition iopHeapCallback ::
  "(u32 \<Rightarrow> u32 \<Rightarrow> u32 \<Rightarrow> 'a iopheap_scheme \<Rightarrow> 'a iopheap_scheme option) \<Rightarrow> u32
     \<Rightarrow> 'a iopheap_scheme \<Rightarrow> 'a iopheap_scheme option" where
  "iopHeapCallback notify carg s =
     (let s = set_result carg (ldw (iopheap_pkt s) s) s;
          s = sbios_unlock (a_iopHeapMutex s) s
      in deliver notify carg s)"

definition sbcall_iopaheapalloc :: "u32 \<Rightarrow> 'a iopheap_scheme \<Rightarrow> (u32 \<times> 'a iopheap_scheme) option" where
  "sbcall_iopaheapalloc carg s =
     (let arg = ra_sbarg (rpc_args s carg)
      in if ih_caps s AND IH_C_BOUND = 0 then Some (- 1, s)
         else
           let (r, s) = sbios_tryLock (a_iopHeapMutex s) s
           in if r \<noteq> 0 then Some (- 2, s)
              else
                let s = stw (ldw arg s) (iopheap_pkt s) s
                in case SifCallRpc [] (a_ih_cd s) 1 SIF_RPC_M_NOWAIT (iopheap_pkt s) 4 (iopheap_pkt s) 4
                          (a_iopHeapCallback s) carg s of
                     None \<Rightarrow> None
                   | Some (res, s) \<Rightarrow>
                       (if sint res < 0 then Some (- SIF_RPCE_SENDP, sbios_unlock (a_iopHeapMutex s) s)
                        else Some (0, s)))"

definition sbcall_iopheapfree :: "u32 \<Rightarrow> 'a iopheap_scheme \<Rightarrow> (u32 \<times> 'a iopheap_scheme) option" where
  "sbcall_iopheapfree carg s =
     (let arg = ra_sbarg (rpc_args s carg)
      in if ih_caps s AND IH_C_BOUND = 0 then Some (- 1, s)
         else
           let (r, s) = sbios_tryLock (a_iopHeapMutex s) s
           in if r \<noteq> 0 then Some (- 2, s)
              else
                let s = stw (ldw arg s) (iopheap_pkt s) s
                in case SifCallRpc [] (a_ih_cd s) 2 SIF_RPC_M_NOWAIT (iopheap_pkt s) 4 (iopheap_pkt s) 4
                          (a_iopHeapCallback s) carg s of
                     None \<Rightarrow> None
                   | Some (res, s) \<Rightarrow>
                       (if sint res < 0 then Some (- SIF_RPCE_SENDP, sbios_unlock (a_iopHeapMutex s) s)
                        else Some (0, s)))"

text \<open>The end functions of this module, as the RPC layer calls them.\<close>

definition call_iopheap ::
  "(u32 \<Rightarrow> u32 \<Rightarrow> u32 \<Rightarrow> 'a iopheap_scheme \<Rightarrow> 'a iopheap_scheme option)
     \<Rightarrow> (u32 \<Rightarrow> u32 \<Rightarrow> 'a iopheap_scheme \<Rightarrow> 'a iopheap_scheme option)
     \<Rightarrow> u32 \<Rightarrow> u32 \<Rightarrow> 'a iopheap_scheme \<Rightarrow> 'a iopheap_scheme option" where
  "call_iopheap notify others ef ea s =
     (if ef = a_iopHeapInitCallback s then iopHeapInitCallback notify ea s
      else if ef = a_iopHeapCallback s then iopHeapCallback notify ea s
      else others ef ea s)"

section \<open>Allocation and release differ in the RPC number only\<close>

definition heap_request :: "u32 \<Rightarrow> u32 \<Rightarrow> 'a iopheap_scheme \<Rightarrow> (u32 \<times> 'a iopheap_scheme) option" where
  "heap_request n carg s =
     (let m = a_iopHeapMutex s; p = iopheap_pkt s
      in if ih_caps s AND IH_C_BOUND = 0 then Some (- 1, s)
         else if mutexes s m \<noteq> 0 then Some (- 2, s)
         else map_option (\<lambda>(res, t). if sint res < 0 then (- SIF_RPCE_SENDP, set_mutex m 0 t) else (0, t))
           (SifCallRpc [] (a_ih_cd s) n SIF_RPC_M_NOWAIT p 4 p 4 (a_iopHeapCallback s) carg
              (stw (ldw (ra_sbarg (rpc_args s carg)) s) p (set_mutex m (- 1) s))))"

lemma iopheap_more:
  assumes "services.more s' = services.more s"
  shows "a_iopHeapMutex s' = a_iopHeapMutex s" "iopheap_pkt s' = iopheap_pkt s" "ih_caps s' = ih_caps s"
    "a_ih_cd s' = a_ih_cd s" "a_iopHeapCallback s' = a_iopHeapCallback s"
    "a_iopHeapInitCallback s' = a_iopHeapInitCallback s" "a_iopheap_buffer s' = a_iopheap_buffer s"
  using assms by (cases s; cases s'; simp)+

lemma set_mutex_iopheap [simp]:
  "a_iopHeapMutex (set_mutex m v s) = a_iopHeapMutex s" "iopheap_pkt (set_mutex m v s) = iopheap_pkt s"
  "ih_caps (set_mutex m v s) = ih_caps s" "a_ih_cd (set_mutex m v s) = a_ih_cd s"
  "a_iopHeapCallback (set_mutex m v s) = a_iopHeapCallback s" "ldw a (set_mutex m v s) = ldw a s"
  by (simp_all add: set_mutex_def ldw_def)

lemma stw_iopheap [simp]:
  "a_iopHeapMutex (stw v a s) = a_iopHeapMutex s" "iopheap_pkt (stw v a s) = iopheap_pkt s"
  "a_ih_cd (stw v a s) = a_ih_cd s" "a_iopHeapCallback (stw v a s) = a_iopHeapCallback s"
  "sifrpc.more (stw v a s) = sifrpc.more s"
  by (simp_all add: stw_def)

lemma heap_call_cong:
  assumes "SifCallRpc [] cd n SIF_RPC_M_NOWAIT p 4 p 4 ef ea t = Some (r, t')" "sifrpc.more t = sifrpc.more u"
  shows "services.more t' = services.more u" "mutexes t' = mutexes u" "a_iopHeapMutex t' = a_iopHeapMutex u"
  using services_more [of t' u] nowait_more(1) [OF nowait_1(1) assms(1)] assms(2) iopheap_more [of t' u] by simp_all

lemma heap_request_eqs:
  assumes "a_iopHeapMutex s \<noteq> 0"
  shows "sbcall_iopaheapalloc carg s = heap_request 1 carg s" "sbcall_iopheapfree carg s = heap_request 2 carg s"
proof -
  let ?t = "stw (ldw (ra_sbarg (rpc_args s carg)) s) (iopheap_pkt s) (set_mutex (a_iopHeapMutex s) (- 1) s)"
  have "sbcall_iopaheapalloc carg s = heap_request 1 carg s \<and> sbcall_iopheapfree carg s = heap_request 2 carg s"
  proof (cases "ih_caps s AND IH_C_BOUND = 0 \<or> mutexes s (a_iopHeapMutex s) \<noteq> 0")
    case True
    then show ?thesis
      using assms by (auto simp: sbcall_iopaheapalloc_def sbcall_iopheapfree_def heap_request_def Let_def sbios_tryLock_eq)
  next
    case False
    have "(case SifCallRpc [] (a_ih_cd s) n SIF_RPC_M_NOWAIT (iopheap_pkt s) 4 (iopheap_pkt s) 4 (a_iopHeapCallback s) carg ?t of
         None \<Rightarrow> None
       | Some (res, s) \<Rightarrow> (if sint res < 0 then Some (- SIF_RPCE_SENDP, sbios_unlock (a_iopHeapMutex s) s) else Some (0, s)))
      = heap_request n carg s" for n
    proof (cases "SifCallRpc [] (a_ih_cd s) n SIF_RPC_M_NOWAIT (iopheap_pkt s) 4 (iopheap_pkt s) 4 (a_iopHeapCallback s) carg ?t")
      case None
      then show ?thesis using False by (simp add: heap_request_def Let_def)
    next
      case (Some x)
      obtain r u where x: "x = (r, u)" by (cases x)
      have "a_iopHeapMutex u = a_iopHeapMutex s"
        using heap_call_cong(3) [OF Some [unfolded x], of ?t] by simp
      then show ?thesis using False Some x assms by (simp add: heap_request_def Let_def sbios_unlock_eq)
    qed
    from this [of 1] this [of 2] show ?thesis
      using False assms by (simp add: sbcall_iopaheapalloc_def sbcall_iopheapfree_def Let_def sbios_tryLock_eq)
  qed
  then show "sbcall_iopaheapalloc carg s = heap_request 1 carg s" "sbcall_iopheapfree carg s = heap_request 2 carg s"
    by blast+
qed

section \<open>Outcomes of a request\<close>

lemma heap_request_effect:
  fixes s :: "'a iopheap_scheme"
  assumes "rpc_ready s" "a_iopHeapMutex s \<noteq> 0" "iopheap_pkt s AND 0x0f = 0"
    and "off_table (rd_pkt_table s) (iopheap_pkt s)"
  shows "\<exists>r s'. heap_request n carg s = Some (r, s')
    \<and> (if ih_caps s AND IH_C_BOUND = 0 then r = - 1 \<and> s' = s
       else if mutexes s (a_iopHeapMutex s) \<noteq> 0 then r = - 2 \<and> s' = s
       else if rpc_busy (a_ih_cd s) 4 s then r = - SIF_RPCE_SENDP \<and> mutexes s' = mutexes s
       else r = 0 \<and> mutexes s' = (mutexes s)(a_iopHeapMutex s := - 1)
         \<and> ldw (iopheap_pkt s) s' = ldw (ra_sbarg (rpc_args s carg)) s
         \<and> requested (a_ih_cd s) n (iopheap_pkt s) 4 (iopheap_pkt s) 4 (a_iopHeapCallback s) carg s s')"
proof (cases "ih_caps s AND IH_C_BOUND = 0 \<or> mutexes s (a_iopHeapMutex s) \<noteq> 0")
  case True
  then show ?thesis by (auto simp: heap_request_def)
next
  case False
  define t where "t = stw (ldw (ra_sbarg (rpc_args s carg)) s) (iopheap_pkt s) (set_mutex (a_iopHeapMutex s) (- 1) s)"
  have t: "rpc_ready t" "rd_pkt_table t = rd_pkt_table s" "mutexes t = (mutexes s)(a_iopHeapMutex s := - 1)"
    "ldw (iopheap_pkt s) t = ldw (ra_sbarg (rpc_args s carg)) s" "rpc_busy (a_ih_cd s) 4 t = rpc_busy (a_ih_cd s) 4 s"
    "requested cd n sb ss rb rs ef ea t s' = requested cd n sb ss rb rs ef ea s s'" for cd n sb ss rb rs ef ea s'
    using assms(1,4) by (simp_all add: t_def)
  obtain r u where u: "SifCallRpc [] (a_ih_cd s) n SIF_RPC_M_NOWAIT (iopheap_pkt s) 4 (iopheap_pkt s) 4 (a_iopHeapCallback s) carg t
        = Some (r, u)" "same_services (rd_pkt_table t) t u" "rpc_busy (a_ih_cd s) 4 t \<longleftrightarrow> sint r < 0"
      "rpc_busy (a_ih_cd s) 4 t \<or> r = 0 \<and> requested (a_ih_cd s) n (iopheap_pkt s) 4 (iopheap_pkt s) 4 (a_iopHeapCallback s) carg t u"
    by (rule service_call [OF t(1) _ assms(3), of 4]) auto
  have same: "mutexes u = mutexes t" "ldw (iopheap_pkt s) u = ldw (iopheap_pkt s) t"
    using u(2) services_more [of u t] assms(4) t(2) by (simp_all add: same_services_def)
  have eq: "heap_request n carg s
      = Some (if sint r < 0 then (- SIF_RPCE_SENDP, set_mutex (a_iopHeapMutex s) 0 u) else (0, u))"
    using False u(1) by (simp add: heap_request_def Let_def t_def)
  have undo: "mutexes (set_mutex (a_iopHeapMutex s) 0 u) = mutexes s"
    using False same(1) t(3) by (auto simp: fun_eq_iff)
  show ?thesis
    using False eq undo u(3,4) same t by (cases "rpc_busy (a_ih_cd s) 4 s") auto
qed

text \<open>
  C9. A request to allocate or free IOP memory always returns. Before the service is bound the
  result is -1 and while another request is out it is -2, both without any effect; when no packet,
  no room in the DMA ring or no idle client is left the result is \<open>-SIF_RPCE_SENDP\<close> and the lock is
  free again. Otherwise the result is 0, the lock is held, and the packet on its way asks the heap server
  with the caller's argument in the shared buffer and names this service's end function.
\<close>

theorem iopheap_request_outcome:
  fixes s :: "'a iopheap_scheme"
  assumes "rpc_ready s" "a_iopHeapMutex s \<noteq> 0" "iopheap_pkt s AND 0x0f = 0"
    and "off_table (rd_pkt_table s) (iopheap_pkt s)"
    and "(op, n) \<in> {(sbcall_iopaheapalloc, 1), (sbcall_iopheapfree, 2)}"
  shows "\<exists>r s'. op carg s = Some (r, s')
    \<and> (if ih_caps s AND IH_C_BOUND = 0 then r = - 1 \<and> s' = s
       else if mutexes s (a_iopHeapMutex s) \<noteq> 0 then r = - 2 \<and> s' = s
       else if rpc_busy (a_ih_cd s) 4 s then r = - SIF_RPCE_SENDP \<and> mutexes s' = mutexes s
       else r = 0 \<and> mutexes s' = (mutexes s)(a_iopHeapMutex s := - 1)
         \<and> ldw (iopheap_pkt s) s' = ldw (ra_sbarg (rpc_args s carg)) s
         \<and> requested (a_ih_cd s) n (iopheap_pkt s) 4 (iopheap_pkt s) 4 (a_iopHeapCallback s) carg s s')"
proof -
  have "op carg s = heap_request n carg s" using assms(5) heap_request_eqs [OF assms(2)] by auto
  then show ?thesis using heap_request_effect [OF assms(1-4), of n carg] by (simp only:)
qed

section \<open>Completion\<close>

definition heap_finish :: "u32 \<Rightarrow> 'a iopheap_scheme \<Rightarrow> 'a iopheap_scheme" where
  "heap_finish carg s = set_mutex (a_iopHeapMutex s) 0 (set_result carg (ldw (iopheap_pkt s) s) s)"

lemma set_result_fields [simp]:
  "a_iopHeapMutex (set_result c r s) = a_iopHeapMutex s" "mutexes (set_result c r s) = mutexes s"
  "clients (set_result c r s) = clients s"
  "rpc_args (set_result c r s) = (rpc_args s)(c := (rpc_args s c)\<lparr>ra_result := r\<rparr>)"
  by (simp_all add: set_result_def)

lemma iopHeapCallback_eq:
  "a_iopHeapMutex s \<noteq> 0 \<Longrightarrow> iopHeapCallback notify carg s =
     notify (ra_endfunc (rpc_args s carg)) (ra_efarg (rpc_args s carg)) (ldw (iopheap_pkt s) s) (heap_finish carg s)"
  by (simp add: iopHeapCallback_def heap_finish_def deliver_def Let_def sbios_unlock_eq)

text \<open>
  C27. When the IOP answers a heap request, the interrupt handler hands the word the IOP put into the
  shared buffer to the end function the kernel passed with the request, exactly once, as result and
  in the argument block. At that moment the lock is free and the client idle, so the end function
  may issue the next request; afterwards the packet is freed.
\<close>

theorem iopheap_answer_delivered:
  fixes s :: "'a iopheap_scheme"
  assumes "answer_for (a_ih_cd s) 0x8000000a s" "buffers_apart (cd_pktbuf s) (a_irq_packet s)"
    and "target 0x80000008 s = Some (Fn_request_end, harg)"
    and "busy_with (a_ih_cd s) p (a_iopHeapCallback s) carg s"
    and "a_iopHeapCallback s \<noteq> 0" "a_iopHeapCallback s \<noteq> a_iopHeapInitCallback s" "a_iopHeapMutex s \<noteq> 0"
    and "off_irq s (iopheap_pkt s)"
  shows "\<exists>t. sif_cmd_interrupt (call_cmd (call_iopheap notify others) func hw ext) s
      = map_option (rpc_packet_free p)
          (notify (ra_endfunc (rpc_args s carg)) (ra_efarg (rpc_args s carg)) (ldw (iopheap_pkt s) s) t)
    \<and> ra_result (rpc_args t carg) = ldw (iopheap_pkt s) s \<and> mutexes t = (mutexes s)(a_iopHeapMutex s := 0)
    \<and> cl_pkt_addr (clients t (a_ih_cd s)) = 0"
proof -
  let ?cd = "a_ih_cd s" and ?cb = "call_iopheap notify others"
  obtain u where u: "sif_cmd_interrupt (call_cmd ?cb func hw ext) s = request_end ?cb (a_irq_packet s) harg u"
    "getf (a_irq_packet s) f_client u = ?cd" "getf (a_irq_packet s) f_cid u = 0x8000000a" "clients u = clients s"
    "sifdma.more u = sifdma.more s" "\<And>a. off_irq s a \<Longrightarrow> ldw a u = ldw a s"
    using answer_dispatched [OF assms(1-3), where callback = ?cb and func = func and hw = hw and ext = ext] by blast
  define v where "v = upd_client ?cd (finish_client (a_irq_packet s) 0x8000000a u) u"
  have more: "sifrpc.more v = sifrpc.more s" using sifrpc_more_dma [OF u(5)] by (simp add: v_def)
  note sv = services_more [OF more] iopheap_more [OF services_more(3) [OF more]]
  have "sif_cmd_interrupt (call_cmd ?cb func hw ext) s = map_option (rpc_packet_free p) (?cb (a_iopHeapCallback s) carg v)"
    using u(1,4) request_end_eq [OF u(2,3), of ?cb harg] assms(4,5) by (simp add: busy_with_def Let_def v_def)
  moreover have "?cb (a_iopHeapCallback s) carg v = iopHeapCallback notify carg v"
    using assms(6) sv by (simp add: call_iopheap_def)
  moreover have "ldw (iopheap_pkt s) v = ldw (iopheap_pkt s) s" using u(6) [OF assms(8)] by (simp add: v_def)
  moreover have "cl_pkt_addr (clients v ?cd) = 0" by (simp add: v_def finish_client_def Let_def)
  ultimately show ?thesis
    using assms(7) sv iopHeapCallback_eq [of v notify carg]
    by (intro exI [of _ "heap_finish carg v"]) (simp add: heap_finish_def)
qed

section \<open>One request at a time\<close>

datatype heap_op = Heap_alloc u32 | Heap_free u32

fun heap_step :: "heap_op \<Rightarrow> 'a iopheap_scheme \<Rightarrow> (u32 \<times> 'a iopheap_scheme) option" where
  "heap_step (Heap_alloc carg) s = sbcall_iopaheapalloc carg s"
| "heap_step (Heap_free carg) s = sbcall_iopheapfree carg s"

definition heap_locked :: "'a iopheap_scheme \<Rightarrow> bool" where
  "heap_locked s \<longleftrightarrow> mutexes s (a_iopHeapMutex s) \<noteq> 0"

definition heap_inv :: "'a iopheap_scheme \<Rightarrow> bool" where
  "heap_inv s \<longleftrightarrow> a_iopHeapMutex s \<noteq> 0"

text \<open>A notification that leaves the lock of this module alone.\<close>

definition heap_quiet :: "(u32 \<Rightarrow> u32 \<Rightarrow> u32 \<Rightarrow> 'a iopheap_scheme \<Rightarrow> 'a iopheap_scheme option) \<Rightarrow> bool" where
  "heap_quiet notify \<longleftrightarrow> (\<forall>f a r s t. notify f a r s = Some t \<longrightarrow>
     a_iopHeapMutex t = a_iopHeapMutex s \<and> mutexes t (a_iopHeapMutex s) = mutexes s (a_iopHeapMutex s))"

lemma heap_step_locks:
  assumes "heap_inv s" "heap_step q s = Some (r, s')"
  shows "heap_inv s' \<and> (if r = 0 then \<not> heap_locked s \<and> heap_locked s' else heap_locked s' = heap_locked s)"
proof -
  let ?m = "a_iopHeapMutex s"
  obtain n carg where q: "heap_step q s = heap_request n carg s"
    using heap_request_eqs [of s] assms(1) that by (cases q) (auto simp: heap_inv_def)
  show ?thesis
  proof (cases "ih_caps s AND IH_C_BOUND = 0 \<or> mutexes s ?m \<noteq> 0")
    case True
    then have "s' = s" "r \<noteq> 0" using assms(2) q by (auto simp: heap_request_def Let_def split: if_splits)
    then show ?thesis using assms(1) by simp
  next
    case False
    let ?t = "stw (ldw (ra_sbarg (rpc_args s carg)) s) (iopheap_pkt s) (set_mutex ?m (- 1) s)"
    obtain res u where u: "SifCallRpc [] (a_ih_cd s) n SIF_RPC_M_NOWAIT (iopheap_pkt s) 4 (iopheap_pkt s) 4
          (a_iopHeapCallback s) carg ?t = Some (res, u)"
        "(r, s') = (if sint res < 0 then (- SIF_RPCE_SENDP, set_mutex ?m 0 u) else (0, u))"
      using False assms(2) q by (auto simp: heap_request_def Let_def split: if_splits)
    have "mutexes u = (mutexes s)(?m := - 1)" "a_iopHeapMutex u = ?m"
      using heap_call_cong [OF u(1), of ?t] by simp_all
    then show ?thesis
      using u(2) False assms(1) by (auto simp: heap_inv_def heap_locked_def SIF_RPCE_SENDP_def split: if_splits)
  qed
qed

interpretation heap: locked_service heap_inv heap_locked heap_step
  "\<lambda>notify s. iopHeapCallback notify (cl_end_param (clients s (a_ih_cd s))) s" heap_quiet
proof
  fix s s' :: "'a iopheap_scheme" and q r
    and notify :: "u32 \<Rightarrow> u32 \<Rightarrow> u32 \<Rightarrow> 'a iopheap_scheme \<Rightarrow> 'a iopheap_scheme option"
  assume inv: "heap_inv s"
  show "\<not> heap_locked s \<and> heap_locked s' \<and> heap_inv s'" if "heap_step q s = Some (0, s')"
    using heap_step_locks [OF inv that] by simp
  show "heap_locked s' = heap_locked s \<and> heap_inv s'" if "heap_step q s = Some (r, s')" "r \<noteq> 0"
    using heap_step_locks [OF inv that(1)] that(2) by simp
  show "\<not> heap_locked s' \<and> heap_inv s'"
    if q: "heap_quiet notify" and c: "iopHeapCallback notify (cl_end_param (clients s (a_ih_cd s))) s = Some s'"
  proof -
    let ?carg = "cl_end_param (clients s (a_ih_cd s))"
    let ?t = "heap_finish ?carg s"
    obtain f a r where "notify f a r ?t = Some s'"
      using c iopHeapCallback_eq [of s notify ?carg] inv by (auto simp: heap_inv_def)
    then have "a_iopHeapMutex s' = a_iopHeapMutex ?t" "mutexes s' (a_iopHeapMutex ?t) = mutexes ?t (a_iopHeapMutex ?t)"
      using q unfolding heap_quiet_def by blast+
    then show ?thesis using inv by (simp add: heap_inv_def heap_locked_def heap_finish_def)
  qed
qed

text \<open>
  C33. Through any interleaving of allocation requests, release requests, completions by
  \<open>iopHeapCallback\<close> and changes of the rest of the system, at most one request to the heap server is
  outstanding, and the lock is held exactly while one is. The notification of the kernel that ends a
  completion does not touch the lock itself; a request it leads to is the next event.
\<close>

theorem iopheap_one_outstanding:
  fixes s :: "'a iopheap_scheme"
  assumes "a_iopHeapMutex s \<noteq> 0" "mutexes s (a_iopHeapMutex s) = 0"
    and "\<forall>f s. Move f \<in> set es \<longrightarrow> a_iopHeapMutex (f s) = a_iopHeapMutex s
      \<and> mutexes (f s) (a_iopHeapMutex s) = mutexes s (a_iopHeapMutex s)"
    and "\<forall>notify f a r s t. Finish notify \<in> set es \<and> notify f a r s = Some t \<longrightarrow>
      a_iopHeapMutex t = a_iopHeapMutex s \<and> mutexes t (a_iopHeapMutex s) = mutexes s (a_iopHeapMutex s)"
    and "service_run heap_step (\<lambda>notify s. iopHeapCallback notify (cl_end_param (clients s (a_ih_cd s))) s) es (0, s)
      = Some (n, t)"
  shows "n = (if mutexes t (a_iopHeapMutex t) \<noteq> 0 then 1 else 0)"
proof -
  have "\<forall>f s. Move f \<in> set es \<and> heap_inv s \<longrightarrow> heap_inv (f s) \<and> heap_locked (f s) = heap_locked s"
    using assms(3) by (simp add: heap_inv_def heap_locked_def)
  moreover have "\<forall>notify. Finish notify \<in> set es \<longrightarrow> heap_quiet notify"
    using assms(4) unfolding heap_quiet_def by blast
  ultimately show ?thesis
    using heap.one_at_a_time [of s 0 es n t] assms(1,2,5) by (simp add: heap_inv_def heap_locked_def)
qed

section \<open>Witnesses\<close>

text \<open>The service is bound; its client is the one of \<open>sample_rpc\<close> that has just been answered.\<close>

definition sample_heap :: iopheap where
  "sample_heap = services.extend
     (sifrpc.extend (sample_rpc\<lparr>clients := (clients sample_rpc)(0x80610000 := (clients sample_rpc 0x80610000)
          \<lparr>cl_end_function := 0x80013000, cl_end_param := 0x80640000\<rparr>),
          mem := (mem sample_rpc)(0x650000 := 0x1234)\<rparr>)
       (services.fields ((\<lambda>_. 0)(0x80660000 := - 1))
         (\<lambda>_. \<lparr>ra_result = 0, ra_sbarg = 0x80641000, ra_endfunc = 0x80014000, ra_efarg = 6\<rparr>)))
     (iopheap.fields 1 0x80650000 0x80610000 0x80660000 0x80650000 0x80012f00 0x80013000)"

text \<open>The same state before the request: lock free and client idle.\<close>

definition sample_heap_idle :: iopheap where
  "sample_heap_idle = sample_heap\<lparr>mutexes := \<lambda>_. 0, clients := (\<lambda>_. sample_client)\<rparr>"

lemma sample_heap_idle_facts:
  "rpc_ready sample_heap_idle" "a_iopHeapMutex sample_heap_idle = 0x80660000" "iopheap_pkt sample_heap_idle = 0x80650000"
  "off_table (rd_pkt_table sample_heap_idle) 0x80650000" "ih_caps sample_heap_idle = 1"
  "mutexes sample_heap_idle 0x80660000 = 0" "filter (pkt_allocated sample_heap_idle) [0..<32] = [0]"
  "cl_pkt_addr (clients sample_heap_idle (a_ih_cd sample_heap_idle)) = 0"
  "unat (sif_get_number_of_free_dma_tags sample_heap_idle) = 28" "cmd_tags 4 = 2"
  by code_simp+

lemma sample_heap_not_busy: "\<not> rpc_busy (a_ih_cd sample_heap_idle) 4 sample_heap_idle"
proof -
  have "pkts_used sample_heap_idle = {0}"
    using sample_heap_idle_facts(7) by (simp add: pkts_used_code del: filter.simps upt_rec_numeral)
  then have "pkts_used sample_heap_idle \<noteq> {..<32}" using one_slot by simp
  then show ?thesis unfolding rpc_busy_def using sample_heap_idle_facts(8-10) by simp
qed

theorem iopheap_request_outcome_witness:
  "\<exists>s'. sbcall_iopaheapalloc 0x80640000 sample_heap_idle = Some (0, s') \<and> mutexes s' 0x80660000 = - 1"
  using iopheap_request_outcome [OF sample_heap_idle_facts(1), of sbcall_iopaheapalloc 1 "0x80640000"]
    sample_heap_idle_facts(2-6) sample_heap_not_busy by (auto simp: IH_C_BOUND_def)

lemma sample_heap_facts:
  "answer_for (a_ih_cd sample_heap) 0x8000000a sample_heap" "cd_pktbuf sample_heap = 0xa0300000"
  "a_irq_packet sample_heap = 0x80400000" "target 0x80000008 sample_heap = Some (Fn_request_end, 0x80720000)"
  "busy_with (a_ih_cd sample_heap) 0xa0700000 (a_iopHeapCallback sample_heap) 0x80640000 sample_heap"
  "a_iopHeapCallback sample_heap \<noteq> 0" "a_iopHeapCallback sample_heap \<noteq> a_iopHeapInitCallback sample_heap"
  "a_iopHeapMutex sample_heap \<noteq> 0" "off_irq sample_heap (iopheap_pkt sample_heap)"
  "ldw (iopheap_pkt sample_heap) sample_heap = 0x1234" "a_iopHeapMutex sample_heap = 0x80660000"
  by code_simp+

theorem iopheap_answer_delivered_witness:
  "\<exists>t. sif_cmd_interrupt (call_cmd (call_iopheap (\<lambda>f a r s. Some s) (\<lambda>f a s. None)) (\<lambda>f n b z s. None) [] (\<lambda>f p a s. None)) sample_heap
      = Some (rpc_packet_free 0xa0700000 t) \<and> ra_result (rpc_args t 0x80640000) = 0x1234 \<and> mutexes t 0x80660000 = 0"
proof -
  have ap: "buffers_apart (cd_pktbuf sample_heap) (a_irq_packet sample_heap)"
    using sample_cmd_apart sample_heap_facts(2,3) by simp
  show ?thesis
    using iopheap_answer_delivered [OF sample_heap_facts(1) ap sample_heap_facts(4-9), of "\<lambda>f a r s. Some s" "\<lambda>f a s. None"
        "\<lambda>f n b z s. None" "[]" "\<lambda>f p a s. None"] sample_heap_facts(10,11) by auto
qed

text \<open>An allocation and its completion.\<close>

definition sample_heap_events :: "(heap_op, u32 \<Rightarrow> u32 \<Rightarrow> u32 \<Rightarrow> iopheap \<Rightarrow> iopheap option, iopheap) service_event list" where
  "sample_heap_events = [Request (Heap_alloc 0x80640000), Finish (\<lambda>f a r s. Some s)]"

theorem iopheap_one_outstanding_witness:
  "\<exists>n t. service_run heap_step (\<lambda>notify s. iopHeapCallback notify (cl_end_param (clients s (a_ih_cd s))) s)
       sample_heap_events (0, sample_heap_idle) = Some (n, t)
     \<and> n = (if mutexes t (a_iopHeapMutex t) \<noteq> 0 then 1 else 0)"
proof -
  let ?run = "service_run heap_step (\<lambda>notify s. iopHeapCallback notify (cl_end_param (clients s (a_ih_cd s))) s)"
  obtain s' where s': "sbcall_iopaheapalloc 0x80640000 sample_heap_idle = Some (0, s')"
    using heap_request_effect [OF sample_heap_idle_facts(1), of 1 "0x80640000"] sample_heap_not_busy
      heap_request_eqs [of sample_heap_idle] sample_heap_idle_facts(2-6) by (auto simp: IH_C_BOUND_def)
  obtain n t where run: "?run sample_heap_events (0, sample_heap_idle) = Some (n, t)"
    using s' by (simp add: sample_heap_events_def iopHeapCallback_def deliver_def Let_def)
  have "n = (if mutexes t (a_iopHeapMutex t) \<noteq> 0 then 1 else 0)"
  proof (rule iopheap_one_outstanding [OF _ _ _ _ run])
    show "a_iopHeapMutex sample_heap_idle \<noteq> 0" "mutexes sample_heap_idle (a_iopHeapMutex sample_heap_idle) = 0"
      using sample_heap_idle_facts(2,6) by simp_all
  qed (simp_all add: sample_heap_events_def)
  then show ?thesis using run by blast
qed

end
