(* ===== verification/Scmd.thy ===== *)
theory Scmd
  imports Services
begin

text \<open>
  The synchronous commands of the CD/DVD drive (\<open>TGE/sbios/scmd.c\<close>): clock, disc type, last
  error, tray, media mode and the configuration area. Every command takes the lock, sends one RPC
  request to the drive server and completes in a second stage that the RPC layer calls as end
  function.

  The addresses of the module's objects and functions are fields of the state; \<open>new_rom\<close> is the
  build option \<open>NEW_ROM_MODULE_VERSION\<close>. Argument blocks are word aligned, so copies of whole
  words stand for \<open>memcpy\<close>.
\<close>

section \<open>State\<close>

record scmd = services +
  new_rom :: bool
  bindSCmd :: int
  sCmdNum :: u32
  a_clientSCmd :: u32
  a_cdvdMutexS :: u32
  a_sCmdRecvBuff :: u32
  a_sCmdCfgRecvBuff :: u32
  a_sCmdSendBuff :: u32
  a_cdvdreadrtcStage2 :: u32
  a_SCmdStage2 :: u32
  a_cdvdtrayrequestStage2 :: u32
  a_MmodeStage2 :: u32
  a_cdvdconfigStage2 :: u32
  a_cdvdreadconfigStage2 :: u32

definition CD_SERVER_SCMD :: u32 where "CD_SERVER_SCMD = 0x80000593"
definition CD_SCMD_READCLOCK :: u32 where "CD_SCMD_READCLOCK = 0x01"
definition CD_SCMD_WRITECLOCK :: u32 where "CD_SCMD_WRITECLOCK = 0x02"
definition CD_SCMD_GETDISCTYPE :: u32 where "CD_SCMD_GETDISCTYPE = 0x03"
definition CD_SCMD_GETERROR :: u32 where "CD_SCMD_GETERROR = 0x04"
definition CD_SCMD_TRAYREQ :: u32 where "CD_SCMD_TRAYREQ = 0x05"
definition CD_SCMD_OPENCFG :: u32 where "CD_SCMD_OPENCFG = 0x0E"
definition CD_SCMD_CLOSECFG :: u32 where "CD_SCMD_CLOSECFG = 0x0F"
definition CD_SCMD_READCFG :: u32 where "CD_SCMD_READCFG = 0x10"
definition CD_SCMD_POWEROFF :: u32 where "CD_SCMD_POWEROFF = 0x21"
definition CD_SCMD_MMODE :: u32 where "CD_SCMD_MMODE = 0x22"

definition SCMD_EAGAIN :: "'a scmd_scheme \<Rightarrow> u32" where
  "SCMD_EAGAIN s = (if core_in_interrupt s then - SIF_RPCE_GETP else - SIF_RPCE_SENDP)"

text \<open>\<open>memcpy(dst, src, 4 * n)\<close>.\<close>

definition copy_words :: "nat \<Rightarrow> u32 \<Rightarrow> u32 \<Rightarrow> 'a scmd_scheme \<Rightarrow> 'a scmd_scheme" where
  "copy_words n dst src s =
     foldl (\<lambda>s i. stw (ldw (src + of_nat (4 * i)) s) (dst + of_nat (4 * i)) s) s [0..<n]"

section \<open>Lock\<close>

definition cdvdLockS :: "'a scmd_scheme \<Rightarrow> u32 \<times> 'a scmd_scheme" where
  "cdvdLockS s =
     (let (r, s) = sbios_tryLock (a_cdvdMutexS s) s
      in if r \<noteq> 0 then (1, s)
         else if SifCheckStatRpc (a_clientSCmd s) s \<noteq> 0 then (1, sbios_unlock (a_cdvdMutexS s) s)
         else (0, s))"

definition cdvdUnlockS :: "'a scmd_scheme \<Rightarrow> 'a scmd_scheme" where
  "cdvdUnlockS s = sbios_unlock (a_cdvdMutexS s) s"

definition cdCheckSCmd :: "u32 \<Rightarrow> 'a scmd_scheme \<Rightarrow> u32 \<times> 'a scmd_scheme" where
  "cdCheckSCmd cmd s =
     (let (r, s) = cdvdLockS s
      in if r \<noteq> 0 then (0, s)
         else
           let s = s\<lparr>sCmdNum := cmd\<rparr>
           in if bindSCmd s \<ge> 0 then (1, s) else (0, cdvdUnlockS s))"

text \<open>The tail every command has: send, and on failure unlock.\<close>

definition scmd_send ::
  "u32 \<Rightarrow> u32 \<Rightarrow> u32 \<Rightarrow> u32 \<Rightarrow> u32 \<Rightarrow> u32 \<Rightarrow> u32 \<Rightarrow> 'a scmd_scheme \<Rightarrow> (u32 \<times> 'a scmd_scheme) option" where
  "scmd_send cmd sendbuf ssize recvbuf rsize stage2 carg s =
     (case SifCallRpc [] (a_clientSCmd s) cmd SIF_RPC_M_NOWAIT sendbuf ssize recvbuf rsize stage2 carg s of
        None \<Rightarrow> None
      | Some (r, s) \<Rightarrow>
          (if sint r < 0 then Some (- SIF_RPCE_SENDP, cdvdUnlockS s) else Some (0, s)))"

section \<open>Commands\<close>

definition sbcall_cdvdreadrtc :: "u32 \<Rightarrow> 'a scmd_scheme \<Rightarrow> (u32 \<times> 'a scmd_scheme) option" where
  "sbcall_cdvdreadrtc carg s =
     (let (ok, s) = cdCheckSCmd CD_SCMD_READCLOCK s
      in if ok = 0 then Some (SCMD_EAGAIN s, s)
         else scmd_send CD_SCMD_READCLOCK 0 0 (a_sCmdRecvBuff s) 16 (a_cdvdreadrtcStage2 s) carg s)"

definition sbcall_cdvdwritertc :: "u32 \<Rightarrow> 'a scmd_scheme \<Rightarrow> (u32 \<times> 'a scmd_scheme) option" where
  "sbcall_cdvdwritertc carg s =
     (let arg = ra_sbarg (rpc_args s carg);
          (ok, s) = cdCheckSCmd CD_SCMD_WRITECLOCK s
      in if ok = 0 then Some (SCMD_EAGAIN s, s)
         else
           let s = copy_words 2 (a_sCmdSendBuff s) arg s;
               s = SifWriteBackDCache (a_sCmdSendBuff s) 8 s
           in scmd_send CD_SCMD_WRITECLOCK (a_sCmdSendBuff s) 8 (a_sCmdRecvBuff s) 16 (a_cdvdreadrtcStage2 s) carg s)"

definition sbcall_cdvdgettype :: "u32 \<Rightarrow> 'a scmd_scheme \<Rightarrow> (u32 \<times> 'a scmd_scheme) option" where
  "sbcall_cdvdgettype carg s =
     (let (ok, s) = cdCheckSCmd CD_SCMD_GETDISCTYPE s
      in if ok = 0 then Some (SCMD_EAGAIN s, s)
         else scmd_send CD_SCMD_GETDISCTYPE 0 0 (a_sCmdRecvBuff s) 4 (a_SCmdStage2 s) carg s)"

definition sbcall_cdvdgeterror :: "u32 \<Rightarrow> 'a scmd_scheme \<Rightarrow> (u32 \<times> 'a scmd_scheme) option" where
  "sbcall_cdvdgeterror carg s =
     (let (ok, s) = cdCheckSCmd CD_SCMD_GETERROR s
      in if ok = 0 then Some (SCMD_EAGAIN s, s)
         else scmd_send CD_SCMD_GETERROR 0 0 (a_sCmdRecvBuff s) 4 (a_SCmdStage2 s) carg s)"

definition sbcall_cdvdtrayrequest :: "u32 \<Rightarrow> 'a scmd_scheme \<Rightarrow> (u32 \<times> 'a scmd_scheme) option" where
  "sbcall_cdvdtrayrequest carg s =
     (let arg = ra_sbarg (rpc_args s carg);
          (ok, s) = cdCheckSCmd CD_SCMD_TRAYREQ s
      in if ok = 0 then Some (SCMD_EAGAIN s, s)
         else
           let s = copy_words 1 (a_sCmdSendBuff s) arg s;
               s = SifWriteBackDCache (a_sCmdSendBuff s) 4 s
           in scmd_send CD_SCMD_TRAYREQ (a_sCmdSendBuff s) 4 (a_sCmdRecvBuff s) 8 (a_cdvdtrayrequestStage2 s) carg s)"

text \<open>The word that \<open>sceCdOpenConfig\<close> packs; the argument words are device, mode and block.\<close>

definition config_param :: "u32 \<Rightarrow> 'a scmd_scheme \<Rightarrow> u32" where
  "config_param arg s =
     push_bit 16 (ldw (arg + 8) s AND 0xFF) OR (ldw (arg + 4) s AND 0xFF) OR push_bit 8 (ldw arg s AND 0xFF)"

definition sbcall_cdvdopenconfig :: "u32 \<Rightarrow> 'a scmd_scheme \<Rightarrow> (u32 \<times> 'a scmd_scheme) option" where
  "sbcall_cdvdopenconfig carg s =
     (let arg = ra_sbarg (rpc_args s carg);
          (ok, s) = cdCheckSCmd CD_SCMD_OPENCFG s
      in if ok = 0 then Some (SCMD_EAGAIN s, s)
         else
           let s = stw (config_param arg s) (a_sCmdSendBuff s) s;
               s = SifWriteBackDCache (a_sCmdSendBuff s) 4 s
           in scmd_send CD_SCMD_OPENCFG (a_sCmdSendBuff s) 4 (a_sCmdRecvBuff s) 8 (a_cdvdconfigStage2 s) carg s)"

definition sbcall_cdvdcloseconfig :: "u32 \<Rightarrow> 'a scmd_scheme \<Rightarrow> (u32 \<times> 'a scmd_scheme) option" where
  "sbcall_cdvdcloseconfig carg s =
     (let (ok, s) = cdCheckSCmd CD_SCMD_CLOSECFG s
      in if ok = 0 then Some (SCMD_EAGAIN s, s)
         else scmd_send CD_SCMD_CLOSECFG 0 0 (a_sCmdRecvBuff s) 8 (a_cdvdconfigStage2 s) carg s)"

definition sbcall_cdvdreadconfig :: "u32 \<Rightarrow> 'a scmd_scheme \<Rightarrow> (u32 \<times> 'a scmd_scheme) option" where
  "sbcall_cdvdreadconfig carg s =
     (let (ok, s) = cdCheckSCmd CD_SCMD_READCFG s
      in if ok = 0 then Some (SCMD_EAGAIN s, s)
         else scmd_send CD_SCMD_READCFG 0 0 (a_sCmdCfgRecvBuff s) 0x408 (a_cdvdreadconfigStage2 s) carg s)"

definition sbcall_cdvdmmode ::
  "(u32 \<Rightarrow> u32 \<Rightarrow> u32 \<Rightarrow> 'a scmd_scheme \<Rightarrow> 'a scmd_scheme option) \<Rightarrow> u32
     \<Rightarrow> 'a scmd_scheme \<Rightarrow> (u32 \<times> 'a scmd_scheme) option" where
  "sbcall_cdvdmmode notify carg s =
     (if new_rom s then
        let arg = ra_sbarg (rpc_args s carg);
            (ok, s) = cdCheckSCmd CD_SCMD_MMODE s
        in if ok = 0 then Some (SCMD_EAGAIN s, s)
           else
             let s = copy_words 1 (a_sCmdSendBuff s) arg s;
                 s = SifWriteBackDCache (a_sCmdSendBuff s) 4 s
             in scmd_send CD_SCMD_MMODE (a_sCmdSendBuff s) 4 (a_sCmdRecvBuff s) 4 (a_MmodeStage2 s) carg s
      else if core_in_interrupt s then
        let (ok, s) = cdCheckSCmd CD_SCMD_GETERROR s
        in if ok = 0 then Some (SCMD_EAGAIN s, s)
           else scmd_send CD_SCMD_GETERROR 0 0 (a_sCmdRecvBuff s) 4 (a_MmodeStage2 s) carg s
      else map_option (Pair 0) (deliver notify carg (set_result carg 1 s)))"

text \<open>
  Compiled with \<open>NEW_ROM_MODULE_VERSION\<close> only. The call waits; \<open>intrs\<close> is what interrupts do meanwhile.
\<close>

definition cdPowerOff ::
  "('a scmd_scheme \<Rightarrow> 'a scmd_scheme) list \<Rightarrow> u32 \<Rightarrow> 'a scmd_scheme \<Rightarrow> (u32 \<times> 'a scmd_scheme) option" where
  "cdPowerOff intrs result s =
     (let (ok, s) = cdCheckSCmd CD_SCMD_POWEROFF s
      in if ok = 0 then Some (SCMD_EAGAIN s, s)
         else
           case SifCallRpc intrs (a_clientSCmd s) CD_SCMD_POWEROFF 0 0 0 (a_sCmdRecvBuff s) 8 0 0 s of
             None \<Rightarrow> None
           | Some (r, s) \<Rightarrow>
               (if sint r < 0 then Some (- SIF_RPCE_SENDP, cdvdUnlockS s)
                else
                  let s = stw (ldw (KSEG1ADDR (a_sCmdRecvBuff s + 4)) s) result s;
                      s = cdvdUnlockS s
                  in Some (ldw (KSEG1ADDR (a_sCmdRecvBuff s)) s, s)))"

section \<open>Second stages\<close>

definition cdvdreadrtcStage2 ::
  "(u32 \<Rightarrow> u32 \<Rightarrow> u32 \<Rightarrow> 'a scmd_scheme \<Rightarrow> 'a scmd_scheme option) \<Rightarrow> u32 \<Rightarrow> 'a scmd_scheme \<Rightarrow> 'a scmd_scheme option" where
  "cdvdreadrtcStage2 notify carg s =
     (let arg = ra_sbarg (rpc_args s carg);
          s = copy_words 2 arg (KSEG1ADDR (a_sCmdRecvBuff s + 4)) s;
          s = set_result carg (ldw (KSEG1ADDR (a_sCmdRecvBuff s)) s) s;
          s = cdvdUnlockS s
      in deliver notify carg s)"

definition SCmdStage2 ::
  "(u32 \<Rightarrow> u32 \<Rightarrow> u32 \<Rightarrow> 'a scmd_scheme \<Rightarrow> 'a scmd_scheme option) \<Rightarrow> u32 \<Rightarrow> 'a scmd_scheme \<Rightarrow> 'a scmd_scheme option" where
  "SCmdStage2 notify carg s =
     (let s = set_result carg (ldw (KSEG1ADDR (a_sCmdRecvBuff s)) s) s;
          s = cdvdUnlockS s
      in deliver notify carg s)"

definition cdvdtrayrequestStage2 ::
  "(u32 \<Rightarrow> u32 \<Rightarrow> u32 \<Rightarrow> 'a scmd_scheme \<Rightarrow> 'a scmd_scheme option) \<Rightarrow> u32 \<Rightarrow> 'a scmd_scheme \<Rightarrow> 'a scmd_scheme option" where
  "cdvdtrayrequestStage2 notify carg s =
     (let arg = ra_sbarg (rpc_args s carg);
          s = stw (ldw (KSEG1ADDR (a_sCmdRecvBuff s + 4)) s) (arg + 4) s;
          s = set_result carg (if ldw (KSEG1ADDR (a_sCmdRecvBuff s)) s = 0 then 1 else 0) s;
          s = cdvdUnlockS s
      in deliver notify carg s)"

definition MmodeStage2 ::
  "(u32 \<Rightarrow> u32 \<Rightarrow> u32 \<Rightarrow> 'a scmd_scheme \<Rightarrow> 'a scmd_scheme option) \<Rightarrow> u32 \<Rightarrow> 'a scmd_scheme \<Rightarrow> 'a scmd_scheme option" where
  "MmodeStage2 notify carg s =
     (let s = cdvdUnlockS s;
          s = set_result carg 1 s
      in deliver notify carg s)"

text \<open>Word 4 of the argument is the status, word 3 the address for the data.\<close>

definition cdvdconfigStage2 ::
  "(u32 \<Rightarrow> u32 \<Rightarrow> u32 \<Rightarrow> 'a scmd_scheme \<Rightarrow> 'a scmd_scheme option) \<Rightarrow> u32 \<Rightarrow> 'a scmd_scheme \<Rightarrow> 'a scmd_scheme option" where
  "cdvdconfigStage2 notify carg s =
     (let arg = ra_sbarg (rpc_args s carg);
          s = stw (ldw (KSEG1ADDR (a_sCmdRecvBuff s + 4)) s) (arg + 16) s;
          s = set_result carg (ldw (KSEG1ADDR (a_sCmdRecvBuff s)) s) s;
          s = cdvdUnlockS s
      in deliver notify carg s)"

definition cdvdreadconfigStage2 ::
  "(u32 \<Rightarrow> u32 \<Rightarrow> u32 \<Rightarrow> 'a scmd_scheme \<Rightarrow> 'a scmd_scheme option) \<Rightarrow> u32 \<Rightarrow> 'a scmd_scheme \<Rightarrow> 'a scmd_scheme option" where
  "cdvdreadconfigStage2 notify carg s =
     (let arg = ra_sbarg (rpc_args s carg);
          s = stw (ldw (KSEG1ADDR (a_sCmdCfgRecvBuff s + 4)) s) (arg + 16) s;
          data = ldw (arg + 12) s;
          s = (if data \<noteq> 0 then copy_words 256 data (KSEG1ADDR (a_sCmdCfgRecvBuff s + 8)) s else s);
          s = set_result carg (ldw (KSEG1ADDR (a_sCmdCfgRecvBuff s)) s) s;
          s = cdvdUnlockS s
      in deliver notify carg s)"

section \<open>Binding\<close>

definition cdSCmdInitCallback :: "u32 \<Rightarrow> 'a scmd_scheme \<Rightarrow> u32 \<times> 'a scmd_scheme" where
  "cdSCmdInitCallback carg s =
     (if cl_server (clients s (a_clientSCmd s)) \<noteq> 0 then (0, s\<lparr>bindSCmd := 0\<rparr>) else (- 1, s))"

definition cdSCmdInit :: "u32 \<Rightarrow> u32 \<Rightarrow> 'a scmd_scheme \<Rightarrow> (u32 \<times> 'a scmd_scheme) option" where
  "cdSCmdInit carg endfunc s =
     SifBindRpc [] (a_clientSCmd s) CD_SERVER_SCMD SIF_RPC_M_NOWAIT endfunc carg s"

section \<open>Admission\<close>

lemma scmd_more:
  assumes "services.more s' = services.more s"
  shows "a_cdvdMutexS s' = a_cdvdMutexS s" "a_clientSCmd s' = a_clientSCmd s" "bindSCmd s' = bindSCmd s"
    "a_sCmdRecvBuff s' = a_sCmdRecvBuff s" "a_sCmdCfgRecvBuff s' = a_sCmdCfgRecvBuff s" "a_sCmdSendBuff s' = a_sCmdSendBuff s"
    "a_cdvdreadrtcStage2 s' = a_cdvdreadrtcStage2 s" "a_SCmdStage2 s' = a_SCmdStage2 s"
    "a_cdvdtrayrequestStage2 s' = a_cdvdtrayrequestStage2 s" "a_cdvdconfigStage2 s' = a_cdvdconfigStage2 s"
    "a_cdvdreadconfigStage2 s' = a_cdvdreadconfigStage2 s" "a_MmodeStage2 s' = a_MmodeStage2 s"
  using assms by (cases s; cases s'; simp)+

definition scmd_ready :: "'a scmd_scheme \<Rightarrow> bool" where
  "scmd_ready s \<longleftrightarrow> mutexes s (a_cdvdMutexS s) = 0 \<and> SifCheckStatRpc (a_clientSCmd s) s = 0 \<and> bindSCmd s \<ge> 0"

definition admitted :: "u32 \<Rightarrow> 'a scmd_scheme \<Rightarrow> 'a scmd_scheme" where
  "admitted cmd s = (set_mutex (a_cdvdMutexS s) (- 1) s)\<lparr>sCmdNum := cmd\<rparr>"

lemma set_mutex_scmd [simp]:
  "a_cdvdMutexS (set_mutex m v s) = a_cdvdMutexS s" "a_clientSCmd (set_mutex m v s) = a_clientSCmd s"
  "bindSCmd (set_mutex m v s) = bindSCmd s" "SifCheckStatRpc c (set_mutex m v s) = SifCheckStatRpc c s"
  "set_mutex m v (s\<lparr>sCmdNum := k\<rparr>) = (set_mutex m v s)\<lparr>sCmdNum := k\<rparr>"
  by (simp_all add: SifCheckStatRpc_def Let_def) (simp_all add: set_mutex_def)

lemma SCMD_EAGAIN_num [simp]: "SCMD_EAGAIN (s\<lparr>sCmdNum := k\<rparr>) = SCMD_EAGAIN s"
  by (simp add: SCMD_EAGAIN_def core_in_interrupt_def)

interpretation scmds: command_set a_cdvdMutexS a_clientSCmd "\<lambda>s. bindSCmd s \<ge> 0" "\<lambda>cmd s. s\<lparr>sCmdNum := cmd\<rparr>"
  cdCheckSCmd scmd_send
proof
  show "a_cdvdMutexS t = a_cdvdMutexS s \<and> a_clientSCmd t = a_clientSCmd s" if "services.more t = services.more s"
    for s t :: "'a scmd_scheme"
    using scmd_more [OF that] by simp
  show "cdCheckSCmd cmd s =
      (if mutexes s (a_cdvdMutexS s) \<noteq> 0 \<or> SifCheckStatRpc (a_clientSCmd s) s \<noteq> 0 then (0, s)
       else if \<not> bindSCmd s \<ge> 0 then (0, s\<lparr>sCmdNum := cmd\<rparr>)
       else (1, set_mutex (a_cdvdMutexS s) (- 1) s\<lparr>sCmdNum := cmd\<rparr>))"
    if "a_cdvdMutexS s \<noteq> 0" for cmd and s :: "'a scmd_scheme"
    using that by (auto simp: cdCheckSCmd_def cdvdLockS_def cdvdUnlockS_def sbios_tryLock_eq sbios_unlock_eq)
qed (simp_all add: services.defs scmd_send_def cdvdUnlockS_def split: option.split)

lemma scmds_eq: "scmds.ready s = scmd_ready s" "scmds.granted cmd s = admitted cmd s"
  by (simp_all add: scmds.ready_def scmd_ready_def scmds.granted_def admitted_def)

lemma calm_copy:
  assumes "\<forall>i < n. off_table (rd_pkt_table s) (dst + of_nat (4 * i))"
  shows "calm s (copy_words n dst src s)"
  using assms
proof (induction n)
  case (Suc n)
  let ?t = "copy_words n dst src s"
  have t: "calm s ?t" using Suc by simp
  have "copy_words (Suc n) dst src s = stw (ldw (src + of_nat (4 * n)) ?t) (dst + of_nat (4 * n)) ?t"
    by (simp add: copy_words_def)
  moreover have "off_table (rd_pkt_table ?t) (dst + of_nat (4 * n))"
    using Suc.prems t by (simp add: calm_def)
  ultimately show ?case using t calm_stw calm_trans by metis
qed (simp add: copy_words_def calm_def)

lemma calm_send_buffer:
  assumes "off_table (rd_pkt_table s) (a_sCmdSendBuff s)" "off_table (rd_pkt_table s) (a_sCmdSendBuff s + 4)" "n \<le> 2"
  shows "calm s (SifWriteBackDCache a k (copy_words n (a_sCmdSendBuff s) arg s))"
proof (intro calm_trans [OF calm_copy calm_writeback] allI impI)
  fix i assume "i < n"
  then have "i = 0 \<or> i = 1" using assms(3) by auto
  then show "off_table (rd_pkt_table s) (a_sCmdSendBuff s + of_nat (4 * i))" using assms(1,2) by auto
qed

section \<open>Outcome of a command\<close>

definition scmd_outcome ::
  "u32 \<Rightarrow> u32 \<Rightarrow> u32 \<Rightarrow> u32 \<Rightarrow> u32 \<Rightarrow> u32 \<Rightarrow> u32 \<Rightarrow> 'a scmd_scheme \<Rightarrow> u32 \<Rightarrow> 'a scmd_scheme \<Rightarrow> bool" where
  "scmd_outcome cmd sendbuf ssize recvbuf rsize stage2 carg s r s' \<longleftrightarrow>
     (if \<not> scmd_ready s then r = SCMD_EAGAIN s \<and> (s' = s \<or> s' = s\<lparr>sCmdNum := cmd\<rparr>)
      else if rpc_busy (a_clientSCmd s) ssize s then r = - SIF_RPCE_SENDP \<and> mutexes s' = mutexes s
      else r = 0 \<and> mutexes s' = (mutexes s)(a_cdvdMutexS s := - 1)
        \<and> requested (a_clientSCmd s) cmd sendbuf ssize recvbuf rsize stage2 carg s s')"

lemma admitted_fields [simp]:
  "rpc_args (admitted cmd s) = rpc_args s"
  "rd_pkt_table (admitted cmd s) = rd_pkt_table s" "a_sCmdRecvBuff (admitted cmd s) = a_sCmdRecvBuff s"
  "a_sCmdSendBuff (admitted cmd s) = a_sCmdSendBuff s" "a_sCmdCfgRecvBuff (admitted cmd s) = a_sCmdCfgRecvBuff s"
  "a_cdvdreadrtcStage2 (admitted cmd s) = a_cdvdreadrtcStage2 s" "a_SCmdStage2 (admitted cmd s) = a_SCmdStage2 s"
  "a_cdvdtrayrequestStage2 (admitted cmd s) = a_cdvdtrayrequestStage2 s"
  "a_cdvdconfigStage2 (admitted cmd s) = a_cdvdconfigStage2 s"
  "a_cdvdreadconfigStage2 (admitted cmd s) = a_cdvdreadconfigStage2 s"
  by (simp_all add: admitted_def set_mutex_def)

lemma scmd_op_effect:
  fixes s :: "'a scmd_scheme"
  assumes "rpc_ready s" "a_cdvdMutexS s \<noteq> 0" "ssize \<le> 0xfffffff0" "recvbuf AND 0x0f = 0"
    and "op = (let (ok, s) = cdCheckSCmd cmd s in if ok = 0 then Some (SCMD_EAGAIN s, s)
      else let s = prep s in scmd_send cmd (sb s) ssize (rb s) rsize (st s) carg s)"
    and "calm (admitted cmd s) (prep (admitted cmd s))"
    and "sb (prep (admitted cmd s)) = sendbuf" "rb (prep (admitted cmd s)) = recvbuf" "st (prep (admitted cmd s)) = stage2"
  shows "\<exists>r s'. op = Some (r, s') \<and> scmd_outcome cmd sendbuf ssize recvbuf rsize stage2 carg s r s'"
proof -
  obtain r s' where "op = Some (r, s')" "if scmd_ready s then scmds.outcome cmd sendbuf ssize recvbuf rsize stage2 carg s r s'
      else r = SCMD_EAGAIN s \<and> (s' = s \<or> s' = s\<lparr>sCmdNum := cmd\<rparr>)"
    using scmds.command_effect [OF assms(1-5), of sendbuf stage2] assms(6-9) by (auto simp: scmds_eq split: if_splits)
  then show ?thesis by (auto simp: scmds.outcome_def scmd_outcome_def split: if_splits)
qed

text \<open>The commands: entry point, RPC number, send buffer, receive buffer (with their sizes) and second stage.\<close>

definition scmd_table ::
  "'a scmd_scheme \<Rightarrow> ((u32 \<Rightarrow> 'a scmd_scheme \<Rightarrow> (u32 \<times> 'a scmd_scheme) option) \<times> u32 \<times> u32 \<times> u32 \<times> u32 \<times> u32 \<times> u32) list" where
  "scmd_table s =
     [(sbcall_cdvdreadrtc, CD_SCMD_READCLOCK, 0, 0, a_sCmdRecvBuff s, 16, a_cdvdreadrtcStage2 s),
      (sbcall_cdvdwritertc, CD_SCMD_WRITECLOCK, a_sCmdSendBuff s, 8, a_sCmdRecvBuff s, 16, a_cdvdreadrtcStage2 s),
      (sbcall_cdvdgettype, CD_SCMD_GETDISCTYPE, 0, 0, a_sCmdRecvBuff s, 4, a_SCmdStage2 s),
      (sbcall_cdvdgeterror, CD_SCMD_GETERROR, 0, 0, a_sCmdRecvBuff s, 4, a_SCmdStage2 s),
      (sbcall_cdvdtrayrequest, CD_SCMD_TRAYREQ, a_sCmdSendBuff s, 4, a_sCmdRecvBuff s, 8, a_cdvdtrayrequestStage2 s),
      (sbcall_cdvdopenconfig, CD_SCMD_OPENCFG, a_sCmdSendBuff s, 4, a_sCmdRecvBuff s, 8, a_cdvdconfigStage2 s),
      (sbcall_cdvdcloseconfig, CD_SCMD_CLOSECFG, 0, 0, a_sCmdRecvBuff s, 8, a_cdvdconfigStage2 s),
      (sbcall_cdvdreadconfig, CD_SCMD_READCFG, 0, 0, a_sCmdCfgRecvBuff s, 0x408, a_cdvdreadconfigStage2 s)]"

definition scmd_placed :: "'a scmd_scheme \<Rightarrow> bool" where
  "scmd_placed s \<longleftrightarrow> a_cdvdMutexS s \<noteq> 0 \<and> a_sCmdRecvBuff s AND 0x0f = 0 \<and> a_sCmdCfgRecvBuff s AND 0x0f = 0
     \<and> off_table (rd_pkt_table s) (a_sCmdSendBuff s) \<and> off_table (rd_pkt_table s) (a_sCmdSendBuff s + 4)"

lemma scmd_plain:
  assumes "rpc_ready s" "scmd_placed s"
  shows "\<exists>r s'. sbcall_cdvdreadrtc carg s = Some (r, s')
      \<and> scmd_outcome CD_SCMD_READCLOCK 0 0 (a_sCmdRecvBuff s) 16 (a_cdvdreadrtcStage2 s) carg s r s'"
    "\<exists>r s'. sbcall_cdvdgettype carg s = Some (r, s')
      \<and> scmd_outcome CD_SCMD_GETDISCTYPE 0 0 (a_sCmdRecvBuff s) 4 (a_SCmdStage2 s) carg s r s'"
    "\<exists>r s'. sbcall_cdvdgeterror carg s = Some (r, s')
      \<and> scmd_outcome CD_SCMD_GETERROR 0 0 (a_sCmdRecvBuff s) 4 (a_SCmdStage2 s) carg s r s'"
    "\<exists>r s'. sbcall_cdvdcloseconfig carg s = Some (r, s')
      \<and> scmd_outcome CD_SCMD_CLOSECFG 0 0 (a_sCmdRecvBuff s) 8 (a_cdvdconfigStage2 s) carg s r s'"
    "\<exists>r s'. sbcall_cdvdreadconfig carg s = Some (r, s')
      \<and> scmd_outcome CD_SCMD_READCFG 0 0 (a_sCmdCfgRecvBuff s) 0x408 (a_cdvdreadconfigStage2 s) carg s r s'"
proof -
  note pl = assms(2) [unfolded scmd_placed_def]
  note eff = scmd_op_effect [OF assms(1), of 0 _ _ _ "\<lambda>s. s" "\<lambda>_. 0"]
  show "\<exists>r s'. sbcall_cdvdreadrtc carg s = Some (r, s')
      \<and> scmd_outcome CD_SCMD_READCLOCK 0 0 (a_sCmdRecvBuff s) 16 (a_cdvdreadrtcStage2 s) carg s r s'"
    using pl by (intro eff [of _ _ _ a_sCmdRecvBuff _ a_cdvdreadrtcStage2]) (simp_all add: sbcall_cdvdreadrtc_def calm_refl Let_def cong: if_cong)
  show "\<exists>r s'. sbcall_cdvdgettype carg s = Some (r, s')
      \<and> scmd_outcome CD_SCMD_GETDISCTYPE 0 0 (a_sCmdRecvBuff s) 4 (a_SCmdStage2 s) carg s r s'"
    using pl by (intro eff [of _ _ _ a_sCmdRecvBuff _ a_SCmdStage2]) (simp_all add: sbcall_cdvdgettype_def calm_refl Let_def cong: if_cong)
  show "\<exists>r s'. sbcall_cdvdgeterror carg s = Some (r, s')
      \<and> scmd_outcome CD_SCMD_GETERROR 0 0 (a_sCmdRecvBuff s) 4 (a_SCmdStage2 s) carg s r s'"
    using pl by (intro eff [of _ _ _ a_sCmdRecvBuff _ a_SCmdStage2]) (simp_all add: sbcall_cdvdgeterror_def calm_refl Let_def cong: if_cong)
  show "\<exists>r s'. sbcall_cdvdcloseconfig carg s = Some (r, s')
      \<and> scmd_outcome CD_SCMD_CLOSECFG 0 0 (a_sCmdRecvBuff s) 8 (a_cdvdconfigStage2 s) carg s r s'"
    using pl by (intro eff [of _ _ _ a_sCmdRecvBuff _ a_cdvdconfigStage2]) (simp_all add: sbcall_cdvdcloseconfig_def calm_refl Let_def cong: if_cong)
  show "\<exists>r s'. sbcall_cdvdreadconfig carg s = Some (r, s')
      \<and> scmd_outcome CD_SCMD_READCFG 0 0 (a_sCmdCfgRecvBuff s) 0x408 (a_cdvdreadconfigStage2 s) carg s r s'"
    using pl by (intro eff [of _ _ _ a_sCmdCfgRecvBuff _ a_cdvdreadconfigStage2]) (simp_all add: sbcall_cdvdreadconfig_def calm_refl Let_def cong: if_cong)
qed

lemma send_buff:
  "a_sCmdSendBuff (SifWriteBackDCache a k t) = a_sCmdSendBuff t" "a_sCmdSendBuff (stw v a t) = a_sCmdSendBuff t"
  "a_sCmdSendBuff (copy_words n a b t) = a_sCmdSendBuff t"
proof -
  show "a_sCmdSendBuff (SifWriteBackDCache a k t) = a_sCmdSendBuff t" by (simp add: SifWriteBackDCache_def)
  show stw: "a_sCmdSendBuff (stw v a t) = a_sCmdSendBuff t" for v a and t :: "'a scmd_scheme" by (simp add: stw_def)
  show "a_sCmdSendBuff (copy_words n a b t) = a_sCmdSendBuff t"
    by (induction n) (simp_all add: copy_words_def stw)
qed

lemma scmd_with_data:
  assumes "rpc_ready s" "scmd_placed s"
  shows "\<exists>r s'. sbcall_cdvdwritertc carg s = Some (r, s')
      \<and> scmd_outcome CD_SCMD_WRITECLOCK (a_sCmdSendBuff s) 8 (a_sCmdRecvBuff s) 16 (a_cdvdreadrtcStage2 s) carg s r s'"
    "\<exists>r s'. sbcall_cdvdtrayrequest carg s = Some (r, s')
      \<and> scmd_outcome CD_SCMD_TRAYREQ (a_sCmdSendBuff s) 4 (a_sCmdRecvBuff s) 8 (a_cdvdtrayrequestStage2 s) carg s r s'"
    "\<exists>r s'. sbcall_cdvdopenconfig carg s = Some (r, s')
      \<and> scmd_outcome CD_SCMD_OPENCFG (a_sCmdSendBuff s) 4 (a_sCmdRecvBuff s) 8 (a_cdvdconfigStage2 s) carg s r s'"
proof -
  let ?arg = "ra_sbarg (rpc_args s carg)"
  note pl = assms(2) [unfolded scmd_placed_def]
  define copy where "copy k n t = SifWriteBackDCache (a_sCmdSendBuff t) k (copy_words n (a_sCmdSendBuff t) ?arg t)"
    for k n and t :: "'a scmd_scheme"
  define pack where "pack t = SifWriteBackDCache (a_sCmdSendBuff t) 4 (stw (config_param ?arg t) (a_sCmdSendBuff t) t)"
    for t :: "'a scmd_scheme"
  have copy: "calm (admitted cmd s) (copy k n (admitted cmd s))" if "n \<le> 2" for k n cmd
    unfolding copy_def using calm_send_buffer [of "admitted cmd s" n] pl that by simp
  have pack: "calm (admitted cmd s) (pack (admitted cmd s))" for cmd
    unfolding pack_def using pl by (intro calm_trans [OF calm_stw calm_writeback]) simp
  have keep: "a_sCmdRecvBuff t = a_sCmdRecvBuff s" "a_cdvdreadrtcStage2 t = a_cdvdreadrtcStage2 s"
      "a_cdvdtrayrequestStage2 t = a_cdvdtrayrequestStage2 s" "a_cdvdconfigStage2 t = a_cdvdconfigStage2 s"
      "a_sCmdSendBuff t = a_sCmdSendBuff s"
    if "calm (admitted cmd s) t" for cmd t
    using scmd_more [of t "admitted cmd s"] that by (simp_all add: calm_def)
  have eqs: "sbcall_cdvdwritertc carg s = (let (ok, s) = cdCheckSCmd CD_SCMD_WRITECLOCK s
        in if ok = 0 then Some (SCMD_EAGAIN s, s)
           else let s = copy 8 2 s in scmd_send CD_SCMD_WRITECLOCK (a_sCmdSendBuff s) 8 (a_sCmdRecvBuff s) 16 (a_cdvdreadrtcStage2 s) carg s)"
      "sbcall_cdvdtrayrequest carg s = (let (ok, s) = cdCheckSCmd CD_SCMD_TRAYREQ s
        in if ok = 0 then Some (SCMD_EAGAIN s, s)
           else let s = copy 4 1 s in scmd_send CD_SCMD_TRAYREQ (a_sCmdSendBuff s) 4 (a_sCmdRecvBuff s) 8 (a_cdvdtrayrequestStage2 s) carg s)"
      "sbcall_cdvdopenconfig carg s = (let (ok, s) = cdCheckSCmd CD_SCMD_OPENCFG s
        in if ok = 0 then Some (SCMD_EAGAIN s, s)
           else let s = pack s in scmd_send CD_SCMD_OPENCFG (a_sCmdSendBuff s) 4 (a_sCmdRecvBuff s) 8 (a_cdvdconfigStage2 s) carg s)"
    by (simp_all add: sbcall_cdvdwritertc_def sbcall_cdvdtrayrequest_def sbcall_cdvdopenconfig_def Let_def
        copy_def pack_def send_buff cong: if_cong)
  show "\<exists>r s'. sbcall_cdvdwritertc carg s = Some (r, s')
      \<and> scmd_outcome CD_SCMD_WRITECLOCK (a_sCmdSendBuff s) 8 (a_sCmdRecvBuff s) 16 (a_cdvdreadrtcStage2 s) carg s r s'"
    using pl by (intro scmd_op_effect [OF assms(1) _ _ _ eqs(1)]) (simp_all add: copy keep [OF copy])
  show "\<exists>r s'. sbcall_cdvdtrayrequest carg s = Some (r, s')
      \<and> scmd_outcome CD_SCMD_TRAYREQ (a_sCmdSendBuff s) 4 (a_sCmdRecvBuff s) 8 (a_cdvdtrayrequestStage2 s) carg s r s'"
    using pl by (intro scmd_op_effect [OF assms(1) _ _ _ eqs(2)]) (simp_all add: copy keep [OF copy])
  show "\<exists>r s'. sbcall_cdvdopenconfig carg s = Some (r, s')
      \<and> scmd_outcome CD_SCMD_OPENCFG (a_sCmdSendBuff s) 4 (a_sCmdRecvBuff s) 8 (a_cdvdconfigStage2 s) carg s r s'"
    using pl by (intro scmd_op_effect [OF assms(1) _ _ _ eqs(3)]) (simp_all add: pack keep [OF pack])
qed

text \<open>
  Every S-command always returns. While the lock is held, a request is out or the server is
  not bound it answers \<open>SCMD_EAGAIN\<close> and nothing but the number of the last command changes; when the RPC
  layer has no room the answer is \<open>-SIF_RPCE_SENDP\<close> and the lock is free again; otherwise the
  lock is held and the packet on its way names the command's RPC number, second stage and
  receive buffer and is preceded by the send buffer, with a receive size that fits the buffer (64 bytes, \<open>0x408\<close> for the configuration).
\<close>

theorem scmd_command_outcome:
  fixes s :: "'a scmd_scheme"
  assumes "rpc_ready s" "scmd_placed s" "(op, cmd, sendbuf, ssize, recvbuf, rsize, stage2) \<in> set (scmd_table s)"
  shows "(\<exists>r s'. op carg s = Some (r, s') \<and> scmd_outcome cmd sendbuf ssize recvbuf rsize stage2 carg s r s')
    \<and> (recvbuf = a_sCmdRecvBuff s \<and> rsize \<le> 64 \<or> recvbuf = a_sCmdCfgRecvBuff s \<and> rsize \<le> 0x408)"
  using assms(3) scmd_plain [OF assms(1,2)] scmd_with_data [OF assms(1,2)]
  unfolding scmd_table_def by auto

section \<open>Second stages release the lock and deliver the answer\<close>

lemma copy_words_Suc:
  "copy_words (Suc n) dst src s = stw (ldw (src + of_nat (4 * n)) (copy_words n dst src s)) (dst + of_nat (4 * n)) (copy_words n dst src s)"
  by (simp add: copy_words_def)

lemma copy_words_other:
  "\<forall>i < n. PHYSADDR a \<noteq> PHYSADDR (dst + of_nat (4 * i)) \<Longrightarrow> ldw a (copy_words n dst src s) = ldw a s"
  by (induction n) (simp_all add: copy_words_Suc del: of_nat_mult, simp add: copy_words_def)

lemma copy_words_copied:
  assumes "n \<le> 256" "\<forall>i < n. \<forall>j < n. PHYSADDR (src + of_nat (4 * i)) \<noteq> PHYSADDR (dst + of_nat (4 * j))" "i < n"
  shows "ldw (dst + of_nat (4 * i)) (copy_words n dst src s) = ldw (src + of_nat (4 * i)) s"
  using assms
proof (induction n)
  case (Suc n)
  have ne: "PHYSADDR (dst + of_nat (4 * i)) = PHYSADDR (dst + of_nat (4 * n)) \<longleftrightarrow> i = n"
    using PHYSADDR_offset_eq_iff [of "4 * i" "4 * n" dst] Suc.prems by simp
  show ?case
  proof (cases "i = n")
    case True
    have "\<forall>j < n. PHYSADDR (src + of_nat (4 * n)) \<noteq> PHYSADDR (dst + of_nat (4 * j))" using Suc.prems(2) by auto
    then show ?thesis unfolding True copy_words_Suc using copy_words_other [of n "src + of_nat (4 * n)" dst src s] by simp
  next
    case False
    then show ?thesis unfolding copy_words_Suc using Suc ne by simp
  qed
qed simp

lemma copy_words_fields [simp]:
  "mutexes (copy_words n d a s) = mutexes s" "rpc_args (copy_words n d a s) = rpc_args s"
  "a_cdvdMutexS (copy_words n d a s) = a_cdvdMutexS s" "a_sCmdCfgRecvBuff (copy_words n d a s) = a_sCmdCfgRecvBuff s"
proof -
  have "\<exists>m. copy_words n d a s = s\<lparr>mem := m\<rparr>"
    by (induction n) (auto simp: copy_words_Suc stw_def, simp add: copy_words_def, metis hwst.surjective hwst.update_convs(3))
  then show "mutexes (copy_words n d a s) = mutexes s" "rpc_args (copy_words n d a s) = rpc_args s"
    "a_cdvdMutexS (copy_words n d a s) = a_cdvdMutexS s" "a_sCmdCfgRecvBuff (copy_words n d a s) = a_sCmdCfgRecvBuff s"
    by auto
qed

lemma PHYSADDR_KSEG1_off: "PHYSADDR (KSEG1ADDR a + c) = PHYSADDR (a + c)"
  by (metis PHYSADDR_KSEG1 PHYSADDR_add_left)

lemma stw_scmd [simp]:
  "a_sCmdCfgRecvBuff (stw v a s) = a_sCmdCfgRecvBuff s" "a_cdvdMutexS (stw v a s) = a_cdvdMutexS s"
  by (simp_all add: stw_def)

lemma result_fields [simp]:
  "a_cdvdMutexS (set_result c r s) = a_cdvdMutexS s" "mutexes (set_result c r s) = mutexes s" "ldw a (set_result c r s) = ldw a s"
  "rpc_args (set_result c r s) = (rpc_args s)(c := (rpc_args s c)\<lparr>ra_result := r\<rparr>)" "ldw a (set_mutex m v s) = ldw a s"
  by (simp_all add: set_result_def ldw_def)

text \<open>
  When the answer to a configuration read has arrived, the second stage calls the kernel's end
  function exactly once, with the result word of the answer, which is also in the argument block.
  At that moment the lock is free, the status word is stored, and the caller's buffer holds
  all \<open>0x400\<close> bytes of configuration data.
\<close>

theorem readconfig_delivers:
  fixes s :: "'a scmd_scheme"
  assumes arg_def: "arg = ra_sbarg (rpc_args s carg)" and cfg_def: "cfg = a_sCmdCfgRecvBuff s"
    and data_def: "data = ldw (arg + 12) s"
    and "a_cdvdMutexS s \<noteq> 0" "data \<noteq> 0" "words_apart 256 data 258 cfg"
    and "words_apart 1 (arg + 16) 258 cfg" "words_apart 1 (arg + 16) 256 data"
  shows "\<exists>t. cdvdreadconfigStage2 notify carg s
      = notify (ra_endfunc (rpc_args s carg)) (ra_efarg (rpc_args s carg)) (ldw cfg s) t
    \<and> ra_result (rpc_args t carg) = ldw cfg s \<and> mutexes t = (mutexes s)(a_cdvdMutexS s := 0)
    \<and> ldw (arg + 16) t = ldw (cfg + 4) s
    \<and> (\<forall>i < 256. ldw (data + of_nat (4 * i)) t = ldw (cfg + 8 + of_nat (4 * i)) s)"
proof -
  let ?src = "KSEG1ADDR (cfg + 8)"
  define s1 where "s1 = stw (ldw (cfg + 4) s) (arg + 16) s"
  define s2 where "s2 = copy_words 256 data ?src s1"
  define t where "t = set_mutex (a_cdvdMutexS s) 0 (set_result carg (ldw cfg s) s2)"
  have at16: "PHYSADDR (arg + 16) \<noteq> PHYSADDR (cfg + of_nat (4 * j))" if "j < 258" for j
    using assms(7) that by (simp add: words_apart_def)
  have cfg1: "ldw (cfg + of_nat (4 * j)) s1 = ldw (cfg + of_nat (4 * j)) s" if "j < 258" for j
    using at16 [OF that] by (simp add: s1_def)
  have src: "PHYSADDR (?src + of_nat (4 * i)) = PHYSADDR (cfg + of_nat (4 * (i + 2)))" for i
    unfolding PHYSADDR_KSEG1_off by (simp add: algebra_simps)
  have apart: "PHYSADDR (?src + of_nat (4 * i)) \<noteq> PHYSADDR (data + of_nat (4 * j))" if "i < 256" "j < 256" for i j
  proof -
    have "i + 2 < 258" using that by simp
    then have "PHYSADDR (data + of_nat (4 * j)) \<noteq> PHYSADDR (cfg + of_nat (4 * (i + 2)))"
      using assms(6) that unfolding words_apart_def by blast
    then show ?thesis unfolding src by (rule not_sym)
  qed
  have copied: "ldw (data + of_nat (4 * i)) s2 = ldw (cfg + 8 + of_nat (4 * i)) s" if "i < 256" for i
  proof -
    have "ldw (data + of_nat (4 * i)) s2 = ldw (?src + of_nat (4 * i)) s1"
      unfolding s2_def using apart that by (intro copy_words_copied) simp_all
    also have "\<dots> = ldw (cfg + of_nat (4 * (i + 2))) s1" using src [of i] by (simp add: ldw_def)
    also have "\<dots> = ldw (cfg + of_nat (4 * (i + 2))) s" using that by (intro cfg1) simp
    finally show ?thesis by (simp add: algebra_simps)
  qed
  have "PHYSADDR cfg \<noteq> PHYSADDR (data + of_nat (4 * i))" if "i < 256" for i
    using assms(6) [unfolded words_apart_def, rule_format, of i 0] that by simp
  then have "ldw cfg s2 = ldw cfg s1"
    unfolding s2_def by (intro copy_words_other) simp
  then have cfg2: "ldw cfg s2 = ldw cfg s" using cfg1 [of 0] by simp
  have "ldw (arg + 16) s2 = ldw (arg + 16) s1"
    unfolding s2_def using assms(8) unfolding words_apart_def by (intro copy_words_other) simp
  then have st: "ldw (arg + 16) s2 = ldw (cfg + 4) s" by (simp add: s1_def)
  have d1: "ldw (arg + 12) s1 = data"
    using PHYSADDR_field [of 3 4 arg] by (simp add: s1_def data_def)
  have f1: "rpc_args s1 = rpc_args s" "a_sCmdCfgRecvBuff s1 = cfg" "a_cdvdMutexS s1 = a_cdvdMutexS s"
    "a_sCmdCfgRecvBuff s2 = cfg" "a_cdvdMutexS s2 = a_cdvdMutexS s" "rpc_args s2 = rpc_args s"
    by (simp_all add: s1_def s2_def cfg_def)
  have "cdvdreadconfigStage2 notify carg s
      = notify (ra_endfunc (rpc_args s carg)) (ra_efarg (rpc_args s carg)) (ldw cfg s) t"
    using assms(4,5) d1 cfg2 f1
    by (simp del: ldw_stw add: cdvdreadconfigStage2_def Let_def arg_def [symmetric] cfg_def [symmetric] s1_def [symmetric]
        s2_def [symmetric] t_def deliver_def cdvdUnlockS_def sbios_unlock_eq)
  then show ?thesis using copied st by (intro exI [of _ t]) (simp add: t_def s2_def s1_def)
qed

section \<open>Witnesses\<close>

text \<open>The drive server is bound, its lock free and client \<open>0x80612000\<close> idle.\<close>

definition sample_scmd :: scmd where
  "sample_scmd = services.extend
     (sifrpc.extend (sample_rpc\<lparr>clients := \<lambda>_. sample_client, mem := (\<lambda>a. a)(0x65100c := 0x80655000, 0x700010 := 5)\<rparr>)
       (services.fields (\<lambda>_. 0)
         (\<lambda>_. \<lparr>ra_result = 0, ra_sbarg = 0x80651000, ra_endfunc = 0x80014000, ra_efarg = 6\<rparr>)))
     (scmd.fields True 0 0 0x80612000 0x80661000 0x80652000 0x80653000 0x80654000 1 2 3 4 5 6)"

lemma sample_scmd_facts:
  "rpc_ready sample_scmd" "a_sCmdSendBuff sample_scmd = 0x80654000" "scmd_ready sample_scmd"
  "cl_pkt_addr (clients sample_scmd (a_clientSCmd sample_scmd)) = 0" "a_cdvdMutexS sample_scmd = 0x80661000"
  "unat (sif_get_number_of_free_dma_tags sample_scmd) = 28" "cmd_tags 8 = 2" "\<not> pkt_allocated sample_scmd 1"
  "a_sCmdCfgRecvBuff sample_scmd = 0x80653000" "ra_sbarg (rpc_args sample_scmd 0x80651000) = 0x80651000"
  "ldw 0x8065100c sample_scmd = 0x80655000" "ldw 0x80653000 sample_scmd = 0x653000" "a_sCmdRecvBuff sample_scmd = 0x80652000"
  "a_cdvdreadrtcStage2 sample_scmd = 1" "rd_pkt_table sample_scmd = 0xa0700000"
  by code_simp+

lemma sample_scmd_placed: "scmd_placed sample_scmd"
  unfolding scmd_placed_def sample_scmd_facts(2,5,9,13,15)
  using off_tableI [of "0x80654000" "0xa0700000"] off_tableI [of "0x80654004" "0xa0700000"] by (simp add: PHYSADDR_def)

theorem scmd_command_outcome_witness:
  "\<exists>s'. sbcall_cdvdwritertc 0x80651000 sample_scmd = Some (0, s') \<and> mutexes s' 0x80661000 = - 1"
proof -
  have "1 \<notin> pkts_used sample_scmd" "1 \<in> {..<32 :: nat}" using sample_scmd_facts(8) by (simp_all add: pkts_used_def)
  then have "pkts_used sample_scmd \<noteq> {..<32}" by metis
  then have "\<not> rpc_busy (a_clientSCmd sample_scmd) 8 sample_scmd"
    unfolding rpc_busy_def using sample_scmd_facts(4,6,7) by simp
  moreover have "(sbcall_cdvdwritertc, CD_SCMD_WRITECLOCK, a_sCmdSendBuff sample_scmd, 8, a_sCmdRecvBuff sample_scmd, 16, a_cdvdreadrtcStage2 sample_scmd)
      \<in> set (scmd_table sample_scmd)" by (simp add: scmd_table_def)
  ultimately show ?thesis
    using scmd_command_outcome [OF sample_scmd_facts(1) sample_scmd_placed, of sbcall_cdvdwritertc CD_SCMD_WRITECLOCK "a_sCmdSendBuff sample_scmd" 8
        "a_sCmdRecvBuff sample_scmd" 16 "a_cdvdreadrtcStage2 sample_scmd" "0x80651000"] sample_scmd_facts(3,5)
    by (auto simp: scmd_outcome_def)
qed

theorem readconfig_delivers_witness:
  "\<exists>t. cdvdreadconfigStage2 (\<lambda>f a r s. if r = 0x653000 then Some s else None) 0x80651000 sample_scmd = Some t
     \<and> mutexes t 0x80661000 = 0 \<and> ldw 0x80655004 t = ldw 0x8065300c sample_scmd"
proof -
  have ap: "words_apart 256 0x80655000 258 0x80653000" "words_apart 1 (0x80651000 + 16) 258 0x80653000"
    "words_apart 1 (0x80651000 + 16) 256 0x80655000"
    using words_apartI(2) [of 258 256 "0x80655000" "0x80653000"] words_apartI(1) [of 1 258 "0x80653000" "0x80651010"]
      words_apartI(1) [of 1 256 "0x80655000" "0x80651010"] by simp_all
  obtain t where t: "cdvdreadconfigStage2 (\<lambda>f a r s. if r = 0x653000 then Some s else None) 0x80651000 sample_scmd = Some t"
    "mutexes t = (mutexes sample_scmd)(0x80661000 := 0)"
    "\<forall>i < 256. ldw (0x80655000 + of_nat (4 * i)) t = ldw (0x80653000 + 8 + of_nat (4 * i)) sample_scmd"
    using readconfig_delivers [OF sample_scmd_facts(10) [symmetric] sample_scmd_facts(9) [symmetric] _ _ _ ap(1-3),
        of "\<lambda>f a r s. if r = 0x653000 then Some s else None"] sample_scmd_facts(5,11,12) by auto
  show ?thesis using t(1,2) t(3) [rule_format, of 1] by simp
qed

end
