(* ===== verification/Bytes.thy ===== *)
theory Bytes
  imports Core
begin

text \<open>
  Byte access to main memory and \<open>memcpy\<close>. Memory holds words at addresses divisible by four; the
  processor is little endian, so byte \<open>k\<close> of a word is its bits \<open>8 k\<close> to \<open>8 k + 7\<close>.
\<close>

section \<open>Model\<close>

definition ldb :: "u32 \<Rightarrow> 'a hwst_scheme \<Rightarrow> u8" where
  "ldb a s = ucast (drop_bit (8 * unat (a AND 3)) (ldw (a AND NOT 3) s))"

definition rd16 :: "u32 \<Rightarrow> 'a hwst_scheme \<Rightarrow> u16" where
  "rd16 a s = ucast (ldb a s) OR push_bit 8 (ucast (ldb (a + 1) s))"

definition rd32 :: "u32 \<Rightarrow> 'a hwst_scheme \<Rightarrow> u32" where
  "rd32 a s = ucast (rd16 a s) OR push_bit 16 (ucast (rd16 (a + 2) s))"

definition rd64 :: "u32 \<Rightarrow> 'a hwst_scheme \<Rightarrow> u64" where
  "rd64 a s = ucast (rd32 a s) OR push_bit 32 (ucast (rd32 (a + 4) s))"

definition put_byte :: "nat \<Rightarrow> u8 \<Rightarrow> u32 \<Rightarrow> u32" where
  "put_byte k v w = (w AND NOT (push_bit (8 * k) (mask 8))) OR push_bit (8 * k) (ucast v)"

definition stb :: "u8 \<Rightarrow> u32 \<Rightarrow> 'a hwst_scheme \<Rightarrow> 'a hwst_scheme" where
  "stb v a s = stw (put_byte (unat (a AND 3)) v (ldw (a AND NOT 3) s)) (a AND NOT 3) s"

definition memcpy :: "nat \<Rightarrow> u32 \<Rightarrow> u32 \<Rightarrow> 'a hwst_scheme \<Rightarrow> 'a hwst_scheme" where
  "memcpy n dst src s = foldl (\<lambda>s i. stb (ldb (src + of_nat i) s) (dst + of_nat i) s) s [0..<n]"

section \<open>Bytes are independent\<close>

lemma byte_index: "unat (a AND 3 :: u32) < 4"
proof -
  have "a AND 3 = take_bit 2 a" by (simp add: take_bit_eq_mask mask_eq_exp_minus_1)
  then show ?thesis using unat_take_bit_mod [of 2 a] by simp
qed

lemma get_put_byte:
  assumes "j < 4" "k < 4"
  shows "(ucast (drop_bit (8 * j) (put_byte k v w)) :: u8) = (if j = k then v else ucast (drop_bit (8 * j) w))"
proof (rule bit_word_eqI)
  fix n :: nat
  assume "n < LENGTH(8)"
  then have n: "n < 8" by simp

  have "j = k \<or> n + 8 * j < 8 * k \<or> 8 * k + 8 \<le> n + 8 * j" using n by arith
  then show "bit (ucast (drop_bit (8 * j) (put_byte k v w)) :: u8) n
      = bit (if j = k then v else ucast (drop_bit (8 * j) w)) n"
    using n assms
    by (auto simp: bit_ucast_iff bit_drop_bit_eq put_byte_def bit_or_iff bit_and_iff bit_not_iff bit_push_bit_iff bit_mask_iff
        dest: bit_imp_le_length)
qed

lemma PHYSADDR_split:
  "PHYSADDR a = PHYSADDR b \<longleftrightarrow> PHYSADDR (a AND NOT 3) = PHYSADDR (b AND NOT 3) \<and> a AND 3 = b AND 3"
proof
  assume eq: "PHYSADDR a = PHYSADDR b"
  have "PHYSADDR x AND NOT 3 = PHYSADDR (x AND NOT 3)" "PHYSADDR x AND 3 = x AND 3" for x
    by (simp_all add: PHYSADDR_def ac_simps)
  then show "PHYSADDR (a AND NOT 3) = PHYSADDR (b AND NOT 3) \<and> a AND 3 = b AND 3" using eq by metis
next
  assume eq: "PHYSADDR (a AND NOT 3) = PHYSADDR (b AND NOT 3) \<and> a AND 3 = b AND 3"
  have "PHYSADDR x = PHYSADDR (x AND NOT 3) OR (x AND 3)" for x
  proof -
    have "x AND 3 = PHYSADDR (x AND 3)" by (simp add: PHYSADDR_def and.assoc)
    moreover have "(x AND NOT 3) OR (x AND 3) = x"
      by (rule bit_word_eqI) (auto simp: bit_simps)
    ultimately show ?thesis by (metis PHYSADDR_def bit.conj_disj_distrib2)
  qed
  then show "PHYSADDR a = PHYSADDR b" using eq by metis
qed

lemma ldb_stb: "ldb b (stb v a s) = (if PHYSADDR a = PHYSADDR b then v else ldb b s)"
proof (cases "PHYSADDR (a AND NOT 3) = PHYSADDR (b AND NOT 3)")
  case True
  then have "ldw (b AND NOT 3) (stb v a s) = put_byte (unat (a AND 3)) v (ldw (b AND NOT 3) s)"
    by (simp add: stb_def ldw_def stw_def)
  moreover have "unat (b AND 3) = unat (a AND 3) \<longleftrightarrow> a AND 3 = b AND 3" by (auto simp: word_unat_eq_iff)
  ultimately show ?thesis
    using True get_put_byte [OF byte_index byte_index, of b a v] PHYSADDR_split [of a b]
    by (auto simp: ldb_def)
next
  case False
  then show ?thesis using PHYSADDR_split [of a b] by (simp add: ldb_def stb_def ldw_def stw_def)
qed

section \<open>Copying\<close>

lemma memcpy_0 [simp]: "memcpy 0 dst src s = s"
  by (simp add: memcpy_def)

lemma memcpy_Suc:
  "memcpy (Suc n) dst src s
    = stb (ldb (src + of_nat n) (memcpy n dst src s)) (dst + of_nat n) (memcpy n dst src s)"
  by (simp add: memcpy_def)

text \<open>\<open>m\<close> bytes at \<open>p\<close> and \<open>n\<close> bytes at \<open>q\<close> do not overlap.\<close>

definition bytes_apart :: "nat \<Rightarrow> u32 \<Rightarrow> nat \<Rightarrow> u32 \<Rightarrow> bool" where
  "bytes_apart m p n q \<longleftrightarrow> (\<forall>i < m. \<forall>j < n. PHYSADDR (p + of_nat i) \<noteq> PHYSADDR (q + of_nat j))"

lemma bytes_apartI:
  assumes "m \<le> 4096" "n \<le> 4096" "m \<le> unat (q - p)" "unat (q - p) + n < 2 ^ 29"
  shows "bytes_apart m p n q"
proof -
  have "PHYSADDR (p + of_nat i) \<noteq> PHYSADDR (q + of_nat j)" if "i < m" "j < n" for i j
  proof -
    have q: "q + of_nat j = p + of_nat (unat (q - p) + j)" by simp
    show ?thesis unfolding q
      using PHYSADDR_offset_eq_iff [of i "unat (q - p) + j" p] assms that by simp
  qed
  then show ?thesis by (simp add: bytes_apart_def)
qed

lemma bytes_apart_sym: "bytes_apart m p n q \<Longrightarrow> bytes_apart n q m p"
  unfolding bytes_apart_def by metis

lemma memcpy_other: "\<forall>i < n. PHYSADDR b \<noteq> PHYSADDR (dst + of_nat i) \<Longrightarrow> ldb b (memcpy n dst src s) = ldb b s"
  by (induction n) (auto simp: memcpy_Suc ldb_stb)

lemma memcpy_copied:
  assumes "n < 2 ^ 29" "bytes_apart n src n dst" "i < n"
  shows "ldb (dst + of_nat i) (memcpy n dst src s) = ldb (src + of_nat i) s"
  using assms
proof (induction n)
  case (Suc n)
  have "bytes_apart n src n dst" using Suc.prems(2) by (simp add: bytes_apart_def)
  then have ih: "i < n \<Longrightarrow> ldb (dst + of_nat i) (memcpy n dst src s) = ldb (src + of_nat i) s" using Suc by simp
  have src: "ldb (src + of_nat n) (memcpy n dst src s) = ldb (src + of_nat n) s"
    using Suc.prems(2) by (intro memcpy_other) (simp add: bytes_apart_def)
  have "PHYSADDR (dst + of_nat n) = PHYSADDR (dst + of_nat i) \<longleftrightarrow> n = i"
    using PHYSADDR_offset_eq_iff [of n i dst] Suc.prems by simp
  then show ?case using ih src Suc.prems(3) by (auto simp: memcpy_Suc ldb_stb less_Suc_eq)
qed simp

text \<open>A copy changes memory only, and only words it writes to.\<close>

lemma stb_fields [simp]:
  "hwst.more (stb v a s) = hwst.more s" "cp0_status (stb v a s) = cp0_status s" "hwreg (stb v a s) = hwreg s"
  "dcache_wb (stb v a s) = dcache_wb s"
  by (simp_all add: stb_def stw_def)

lemma memcpy_fields [simp]:
  "hwst.more (memcpy n dst src s) = hwst.more s" "cp0_status (memcpy n dst src s) = cp0_status s"
  "hwreg (memcpy n dst src s) = hwreg s" "dcache_wb (memcpy n dst src s) = dcache_wb s"
  by (induction n) (simp_all add: memcpy_Suc)

lemma memcpy_mem: "\<exists>m. memcpy n dst src s = s\<lparr>mem := m\<rparr>"
  by (rule exI [of _ "mem (memcpy n dst src s)"]) (cases s; cases "memcpy n dst src s"; use memcpy_fields [of n dst src s] in simp)

lemma memcpy_word:
  assumes "\<forall>i < n. PHYSADDR a \<noteq> PHYSADDR ((dst + of_nat i) AND NOT 3)"
  shows "ldw a (memcpy n dst src s) = ldw a s"
  using assms by (induction n) (simp_all add: memcpy_Suc stb_def)

lemma word_align: "(a AND NOT 3) + (a AND 3) = (a :: u32)"
proof -
  have "(a AND NOT 3) + (a AND 3) = (a AND NOT 3) OR (a AND 3)"
    by (intro disjunctive_add) (auto simp: bit_simps)
  also have "\<dots> = a" by (rule bit_word_eqI) (auto simp: bit_simps)
  finally show ?thesis .
qed

text \<open>Storing an aligned word leaves the bytes outside it alone.\<close>

lemma ldb_stw_other:
  assumes "\<forall>i < 4. PHYSADDR b \<noteq> PHYSADDR (a + of_nat i)"
  shows "ldb b (stw v a s) = ldb b s"
proof -
  have "PHYSADDR (b AND NOT 3) \<noteq> PHYSADDR a"
  proof
    assume "PHYSADDR (b AND NOT 3) = PHYSADDR a"
    then have "PHYSADDR b = PHYSADDR (a + (b AND 3))" using word_align [of b] by (metis PHYSADDR_add_left)
    moreover have "of_nat (unat (b AND 3)) = b AND 3" by simp
    ultimately show False using assms byte_index [of b] by metis
  qed
  then show ?thesis by (simp add: ldb_def del: ldw_stw) (simp add: ldw_def stw_def)
qed

section \<open>Filling and comparing\<close>

definition memset :: "nat \<Rightarrow> u8 \<Rightarrow> u32 \<Rightarrow> 'a hwst_scheme \<Rightarrow> 'a hwst_scheme" where
  "memset n v dst s = foldl (\<lambda>s i. stb v (dst + of_nat i) s) s [0..<n]"

text \<open>The sign of \<open>memcmp\<close> is that of the first difference.\<close>

primrec memcmp :: "nat \<Rightarrow> u32 \<Rightarrow> u32 \<Rightarrow> 'a hwst_scheme \<Rightarrow> int" where
  "memcmp 0 p q s = 0"
| "memcmp (Suc n) p q s =
     (if ldb p s = ldb q s then memcmp n (p + 1) (q + 1) s else int (unat (ldb p s)) - int (unat (ldb q s)))"

lemma memset_0 [simp]: "memset 0 v dst s = s"
  by (simp add: memset_def)

lemma memset_Suc: "memset (Suc n) v dst s = stb v (dst + of_nat n) (memset n v dst s)"
  by (simp add: memset_def)

lemma memset_byte:
  "ldb b (memset n v dst s) = (if \<exists>i < n. PHYSADDR b = PHYSADDR (dst + of_nat i) then v else ldb b s)"
  by (induction n) (auto simp: memset_Suc ldb_stb less_Suc_eq)

lemma memset_fields [simp]:
  "hwst.more (memset n v dst s) = hwst.more s" "cp0_status (memset n v dst s) = cp0_status s"
  "hwreg (memset n v dst s) = hwreg s" "dcache_wb (memset n v dst s) = dcache_wb s"
  by (induction n) (simp_all add: memset_Suc)

lemma memcmp_0_iff: "memcmp n p q s = 0 \<longleftrightarrow> (\<forall>i < n. ldb (p + of_nat i) s = ldb (q + of_nat i) s)"
proof (induction n arbitrary: p q)
  case (Suc n)
  have "(\<forall>i < Suc n. ldb (p + of_nat i) s = ldb (q + of_nat i) s)
      \<longleftrightarrow> ldb p s = ldb q s \<and> (\<forall>i < n. ldb (p + 1 + of_nat i) s = ldb (q + 1 + of_nat i) s)"
    by (auto simp: less_Suc_eq_0_disj ac_simps)
  moreover have "uint (ldb p s) - uint (ldb q s) = 0 \<longleftrightarrow> ldb p s = ldb q s" by (auto intro: word_uint_eqI)
  ultimately show ?case by (simp add: Suc.IH)
qed simp


text \<open>Bytes and words of a region that starts at a multiple of four.\<close>

lemma word_of_byte:
  fixes d :: u32
  assumes "d AND 3 = 0"
  shows "(d + of_nat k) AND NOT 3 = d + of_nat (4 * (k div 4)) \<and> unat ((d + of_nat k) AND 3) = k mod 4"
proof -
  have t: "x AND 3 = take_bit 2 x" for x :: u32 by (simp add: take_bit_eq_mask mask_eq_exp_minus_1)
  have "take_bit 2 d = 0" using assms t [of d] by metis
  then have "unat d mod 4 = 0" using unat_take_bit_mod [of 2 d] by simp
  moreover have "unat (take_bit 2 (d + of_nat k)) = (unat d + unat (of_nat k :: u32)) mod 4"
    using unat_take_bit_add [of 2 d "of_nat k"] by simp
  moreover have "unat (of_nat k :: u32) mod 4 = k mod 4"
    using mod_mod_cancel [of 4 "2 ^ 32 :: nat" k] by (simp add: unat_of_nat take_bit_eq_mod)
  ultimately have u: "unat ((d + of_nat k) AND 3) = k mod 4" by (simp add: t mod_add_left_eq [symmetric])
  then have "(d + of_nat k) AND 3 = of_nat (k mod 4)" by (metis of_nat_unat ucast_id)
  moreover have "(d + of_nat k) AND NOT 3 = (d + of_nat k) - ((d + of_nat k) AND 3)" using word_align [of "d + of_nat k"] by (simp add: algebra_simps)
  moreover have "(of_nat k :: u32) = of_nat (4 * (k div 4)) + of_nat (k mod 4)" by (metis of_nat_add mult_div_mod_eq)
  ultimately show ?thesis using u by simp
qed

lemma ldb_word:
  "d AND 3 = 0 \<Longrightarrow> ldb (d + of_nat k) s = ucast (drop_bit (8 * (k mod 4)) (ldw (d + of_nat (4 * (k div 4))) s))"
  using word_of_byte [of d k] by (simp add: ldb_def)

lemma ldw_stb: "PHYSADDR a \<noteq> PHYSADDR (b AND NOT 3) \<Longrightarrow> ldw a (stb v b s) = ldw a s"
  by (simp add: stb_def)

lemma memset_word:
  assumes "\<forall>i < n. PHYSADDR a \<noteq> PHYSADDR ((dst + of_nat i) AND NOT 3)"
  shows "ldw a (memset n v dst s) = ldw a s"
  using assms by (induction n) (simp_all add: memset_Suc stb_def)

end
