(* ===== verification/Ncmd.thy ===== *)
theory Ncmd
  imports Scmd Bytes
begin

text \<open>
  The commands of the CD/DVD drive that take long (\<open>TGE/sbios/ncmd.c\<close>): reading sectors, reading the
  table of contents and stopping the motor. They follow the same protocol as the S-commands, with
  a lock and a client of their own. The state extends that of the S-commands, since the
  initialisation of the drive drives both.
\<close>

section \<open>State\<close>

record ncmd = scmd +
  bindNCmd :: int
  nCmdNum :: u32
  a_clientNCmd :: u32
  a_cdvdMutexN :: u32
  a_readData :: u32
  a_getTocSendBuff :: u32
  a_rd_intr_data :: u32
  a_curReadPos :: u32
  a_tocBuff :: u32
  a_nCmdRecvBuff :: u32
  a_cdAlignReadBuffer :: u32
  a_cdCallback :: u32
  a_cdGetTocStage2 :: u32
  a_NCmdCallback :: u32

definition CD_SERVER_NCMD :: u32 where "CD_SERVER_NCMD = 0x80000595"
definition CD_NCMD_READ :: u32 where "CD_NCMD_READ = 0x01"
definition CD_NCMD_DVDREAD :: u32 where "CD_NCMD_DVDREAD = 0x03"
definition CD_NCMD_GETTOC :: u32 where "CD_NCMD_GETTOC = 0x04"
definition CD_NCMD_STOP :: u32 where "CD_NCMD_STOP = 0x07"

definition NCMD_EAGAIN :: "'a ncmd_scheme \<Rightarrow> u32" where
  "NCMD_EAGAIN s = (if core_in_interrupt s then - SIF_RPCE_GETP else - SIF_RPCE_SENDP)"

section \<open>Lock\<close>

definition cdvdLockN :: "'a ncmd_scheme \<Rightarrow> u32 \<times> 'a ncmd_scheme" where
  "cdvdLockN s =
     (let (r, s) = sbios_tryLock (a_cdvdMutexN s) s
      in if r \<noteq> 0 then (1, s)
         else if SifCheckStatRpc (a_clientNCmd s) s \<noteq> 0 then (1, sbios_unlock (a_cdvdMutexN s) s)
         else (0, s))"

definition cdvdUnlockN :: "'a ncmd_scheme \<Rightarrow> 'a ncmd_scheme" where
  "cdvdUnlockN s = sbios_unlock (a_cdvdMutexN s) s"

definition cdCheckNCmd :: "u32 \<Rightarrow> 'a ncmd_scheme \<Rightarrow> u32 \<times> 'a ncmd_scheme" where
  "cdCheckNCmd cmd s =
     (let (r, s) = cdvdLockN s
      in if r \<noteq> 0 then (0, s)
         else
           let s = s\<lparr>nCmdNum := cmd\<rparr>
           in if bindNCmd s \<ge> 0 then (1, s) else (0, cdvdUnlockN s))"

definition ncmd_send ::
  "u32 \<Rightarrow> u32 \<Rightarrow> u32 \<Rightarrow> u32 \<Rightarrow> u32 \<Rightarrow> u32 \<Rightarrow> u32 \<Rightarrow> 'a ncmd_scheme \<Rightarrow> (u32 \<times> 'a ncmd_scheme) option" where
  "ncmd_send cmd sendbuf ssize recvbuf rsize stage2 carg s =
     (case SifCallRpc [] (a_clientNCmd s) cmd SIF_RPC_M_NOWAIT sendbuf ssize recvbuf rsize stage2 carg s of
        None \<Rightarrow> None
      | Some (r, s) \<Rightarrow>
          (if sint r < 0 then Some (- SIF_RPCE_SENDP, cdvdUnlockN s) else Some (0, s)))"

section \<open>Commands\<close>

text \<open>The read mode is a structure of bytes: retries, speed and sector type.\<close>

definition read_mode :: "u32 \<Rightarrow> 'a ncmd_scheme \<Rightarrow> u32" where
  "read_mode mode s =
     ucast (ldb mode s) OR push_bit 8 (ucast (ldb (mode + 1) s)) OR push_bit 16 (ucast (ldb (mode + 2) s))"

definition buf_size :: "u8 \<Rightarrow> u32 \<Rightarrow> u32" where
  "buf_size sectorType sectors =
     (if sectorType = 1 then sectors * 2328 else if sectorType = 2 then sectors * 2340 else sectors * 2048)"

text \<open>\<open>readData[0]\<close> to \<open>readData[4]\<close>.\<close>

definition fill_read :: "u32 \<Rightarrow> 'a ncmd_scheme \<Rightarrow> 'a ncmd_scheme" where
  "fill_read arg s =
     (let mode = ldw (arg + 12) s;
          s = stw (ldw arg s) (a_readData s) s;
          s = stw (ldw (arg + 4) s) (a_readData s + 4) s;
          s = stw (ldw (arg + 8) s) (a_readData s + 8) s;
          s = stw (read_mode mode s) (a_readData s + 12) s
      in stw (a_rd_intr_data s) (a_readData s + 16) s)"

definition prepare_read :: "u32 \<Rightarrow> 'a ncmd_scheme \<Rightarrow> 'a ncmd_scheme" where
  "prepare_read arg s =
     (let mode = ldw (arg + 12) s;
          s = fill_read arg s;
          s = stw (a_curReadPos s) (a_readData s + 20) s;
          bufSize = buf_size (ldb (mode + 2) s) (ldw (arg + 4) s);
          s = stw 0 (a_curReadPos s) s;
          s = SifWriteBackDCache (ldw (arg + 8) s) bufSize s;
          s = SifWriteBackDCache (a_rd_intr_data s) 144 s;
          s = SifWriteBackDCache (a_readData s) 24 s
      in SifWriteBackDCache (a_curReadPos s) 4 s)"

definition sbcall_cdvdread :: "u32 \<Rightarrow> 'a ncmd_scheme \<Rightarrow> (u32 \<times> 'a ncmd_scheme) option" where
  "sbcall_cdvdread carg s =
     (let arg = ra_sbarg (rpc_args s carg);
          (ok, s) = cdCheckNCmd CD_NCMD_READ s
      in if ok = 0 then Some (NCMD_EAGAIN s, s)
         else
           let s = prepare_read arg s
           in ncmd_send CD_NCMD_READ (a_readData s) 24 0 0 (a_cdAlignReadBuffer s) carg s)"

definition prepare_video :: "u32 \<Rightarrow> 'a ncmd_scheme \<Rightarrow> 'a ncmd_scheme" where
  "prepare_video arg s =
     (let s = fill_read arg s;
          s = SifWriteBackDCache (ldw (arg + 8) s) (ldw (arg + 4) s * 2064) s;
          s = SifWriteBackDCache (a_rd_intr_data s) 144 s
      in SifWriteBackDCache (a_readData s) 24 s)"

definition sbcall_cdvdread_video :: "u32 \<Rightarrow> 'a ncmd_scheme \<Rightarrow> (u32 \<times> 'a ncmd_scheme) option" where
  "sbcall_cdvdread_video carg s =
     (let arg = ra_sbarg (rpc_args s carg);
          (ok, s) = cdCheckNCmd CD_NCMD_DVDREAD s
      in if ok = 0 then Some (NCMD_EAGAIN s, s)
         else
           let s = prepare_video arg s
           in ncmd_send CD_NCMD_DVDREAD (a_readData s) 24 0 0 (a_cdCallback s) carg s)"

definition prepare_toc :: "'a ncmd_scheme \<Rightarrow> 'a ncmd_scheme" where
  "prepare_toc s =
     (let s = stw (a_tocBuff s) (a_getTocSendBuff s) s;
          s = SifWriteBackDCache (a_tocBuff s) 3072 s
      in SifWriteBackDCache (a_getTocSendBuff s) 12 s)"

definition sbcall_cdvdgettoc :: "u32 \<Rightarrow> 'a ncmd_scheme \<Rightarrow> (u32 \<times> 'a ncmd_scheme) option" where
  "sbcall_cdvdgettoc carg s =
     (let (ok, s) = cdCheckNCmd CD_NCMD_GETTOC s
      in if ok = 0 then Some (NCMD_EAGAIN s, s)
         else
           let s = prepare_toc s
           in ncmd_send CD_NCMD_GETTOC (a_getTocSendBuff s) 12 (a_nCmdRecvBuff s) 8 (a_cdGetTocStage2 s) carg s)"

definition sbcall_cdvdstop :: "u32 \<Rightarrow> 'a ncmd_scheme \<Rightarrow> (u32 \<times> 'a ncmd_scheme) option" where
  "sbcall_cdvdstop carg s =
     (let (ok, s) = cdCheckNCmd CD_NCMD_STOP s
      in if ok = 0 then Some (NCMD_EAGAIN s, s)
         else ncmd_send CD_NCMD_STOP 0 0 0 0 (a_NCmdCallback s) carg s)"

section \<open>Second stages\<close>

text \<open>
  \<open>struct _cdvd_read_data\<close> has the words size1, size2, dest1, dest2, src1 and src2; the sources are
  the addresses of the last two.
\<close>

definition cdAlignReadBuffer ::
  "(u32 \<Rightarrow> u32 \<Rightarrow> u32 \<Rightarrow> 'a ncmd_scheme \<Rightarrow> 'a ncmd_scheme option) \<Rightarrow> u32 \<Rightarrow> 'a ncmd_scheme \<Rightarrow> 'a ncmd_scheme option" where
  "cdAlignReadBuffer notify carg s =
     (let uncached = KSEG1ADDR (a_rd_intr_data s);
          s = (if ldw uncached s \<noteq> 0 \<and> ldw (uncached + 8) s \<noteq> 0
               then memcpy (unat (ldw uncached s)) (ldw (uncached + 8) s) (uncached + 16) s else s);
          s = (if ldw (uncached + 4) s \<noteq> 0 \<and> ldw (uncached + 12) s \<noteq> 0
               then memcpy (unat (ldw (uncached + 4) s)) (ldw (uncached + 12) s) (uncached + 20) s else s);
          s = cdvdUnlockN s;
          s = set_result carg 0 s
      in deliver notify carg s)"

definition cdCallback ::
  "(u32 \<Rightarrow> u32 \<Rightarrow> u32 \<Rightarrow> 'a ncmd_scheme \<Rightarrow> 'a ncmd_scheme option) \<Rightarrow> u32 \<Rightarrow> 'a ncmd_scheme \<Rightarrow> 'a ncmd_scheme option" where
  "cdCallback notify carg s = deliver notify carg (set_result carg 0 (cdvdUnlockN s))"

definition toc_length :: "u32 \<Rightarrow> u32 \<Rightarrow> u32" where
  "toc_length media len =
     (if media \<noteq> 0 then (if len > 2064 then 2064 else len) else (if len > 1024 then 1024 else len))"

text \<open>The argument words are the buffer, its length and the media type.\<close>

definition cdGetTocStage2 ::
  "(u32 \<Rightarrow> u32 \<Rightarrow> u32 \<Rightarrow> 'a ncmd_scheme \<Rightarrow> 'a ncmd_scheme option) \<Rightarrow> u32 \<Rightarrow> 'a ncmd_scheme \<Rightarrow> 'a ncmd_scheme option" where
  "cdGetTocStage2 notify carg s =
     (let arg = ra_sbarg (rpc_args s carg);
          s = set_result carg (if ldw (KSEG1ADDR (a_nCmdRecvBuff s)) s = 0 then 1 else 0) s;
          s = stw (ldw (a_nCmdRecvBuff s + 4) s) (arg + 8) s;
          len = toc_length (ldw (arg + 8) s) (ldw (arg + 4) s);
          s = stw len (arg + 4) s;
          s = (if len \<noteq> 0 then memcpy (unat len) (ldw arg s) (a_tocBuff s) s else s);
          s = cdvdUnlockN s
      in deliver notify carg s)"

definition NCmdCallback ::
  "(u32 \<Rightarrow> u32 \<Rightarrow> u32 \<Rightarrow> 'a ncmd_scheme \<Rightarrow> 'a ncmd_scheme option) \<Rightarrow> u32 \<Rightarrow> 'a ncmd_scheme \<Rightarrow> 'a ncmd_scheme option" where
  "NCmdCallback notify carg s = deliver notify carg (set_result carg 0 (cdvdUnlockN s))"

section \<open>Binding\<close>

definition cdNCmdInitCallback :: "u32 \<Rightarrow> 'a ncmd_scheme \<Rightarrow> u32 \<times> 'a ncmd_scheme" where
  "cdNCmdInitCallback carg s =
     (if cl_server (clients s (a_clientNCmd s)) \<noteq> 0 then (0, s\<lparr>bindNCmd := 0\<rparr>) else (- 1, s))"

definition cdNCmdInit :: "u32 \<Rightarrow> u32 \<Rightarrow> 'a ncmd_scheme \<Rightarrow> (u32 \<times> 'a ncmd_scheme) option" where
  "cdNCmdInit carg endfunc s =
     SifBindRpc [] (a_clientNCmd s) CD_SERVER_NCMD SIF_RPC_M_NOWAIT endfunc carg s"

section \<open>Admission\<close>

lemma ncmd_more:
  assumes "services.more s' = services.more s"
  shows "a_cdvdMutexN s' = a_cdvdMutexN s" "a_clientNCmd s' = a_clientNCmd s" "bindNCmd s' = bindNCmd s"
    "a_readData s' = a_readData s" "a_getTocSendBuff s' = a_getTocSendBuff s" "a_rd_intr_data s' = a_rd_intr_data s"
    "a_curReadPos s' = a_curReadPos s" "a_tocBuff s' = a_tocBuff s" "a_nCmdRecvBuff s' = a_nCmdRecvBuff s"
    "a_cdAlignReadBuffer s' = a_cdAlignReadBuffer s" "a_cdCallback s' = a_cdCallback s"
    "a_cdGetTocStage2 s' = a_cdGetTocStage2 s" "a_NCmdCallback s' = a_NCmdCallback s"
  using assms by (cases s; cases s'; simp)+

definition ncmd_ready :: "'a ncmd_scheme \<Rightarrow> bool" where
  "ncmd_ready s \<longleftrightarrow> mutexes s (a_cdvdMutexN s) = 0 \<and> SifCheckStatRpc (a_clientNCmd s) s = 0 \<and> bindNCmd s \<ge> 0"

definition nadmitted :: "u32 \<Rightarrow> 'a ncmd_scheme \<Rightarrow> 'a ncmd_scheme" where
  "nadmitted cmd s = (set_mutex (a_cdvdMutexN s) (- 1) s)\<lparr>nCmdNum := cmd\<rparr>"

lemma set_mutex_ncmd [simp]:
  "a_cdvdMutexN (set_mutex m v s) = a_cdvdMutexN s" "a_clientNCmd (set_mutex m v s) = a_clientNCmd s"
  "bindNCmd (set_mutex m v s) = bindNCmd s"
  "set_mutex m v (s\<lparr>nCmdNum := k\<rparr>) = (set_mutex m v s)\<lparr>nCmdNum := k\<rparr>"
  by (simp_all add: set_mutex_def)

lemma NCMD_EAGAIN_num [simp]: "NCMD_EAGAIN (s\<lparr>nCmdNum := k\<rparr>) = NCMD_EAGAIN s"
  by (simp add: NCMD_EAGAIN_def core_in_interrupt_def)

interpretation ncmds: command_set a_cdvdMutexN a_clientNCmd "\<lambda>s. bindNCmd s \<ge> 0" "\<lambda>cmd s. s\<lparr>nCmdNum := cmd\<rparr>"
  cdCheckNCmd ncmd_send
proof
  show "a_cdvdMutexN t = a_cdvdMutexN s \<and> a_clientNCmd t = a_clientNCmd s" if "services.more t = services.more s"
    for s t :: "'a ncmd_scheme"
    using ncmd_more [OF that] by simp
  show "cdCheckNCmd cmd s =
      (if mutexes s (a_cdvdMutexN s) \<noteq> 0 \<or> SifCheckStatRpc (a_clientNCmd s) s \<noteq> 0 then (0, s)
       else if \<not> bindNCmd s \<ge> 0 then (0, s\<lparr>nCmdNum := cmd\<rparr>)
       else (1, set_mutex (a_cdvdMutexN s) (- 1) s\<lparr>nCmdNum := cmd\<rparr>))"
    if "a_cdvdMutexN s \<noteq> 0" for cmd and s :: "'a ncmd_scheme"
    using that by (auto simp: cdCheckNCmd_def cdvdLockN_def cdvdUnlockN_def sbios_tryLock_eq sbios_unlock_eq)
qed (simp_all add: services.defs ncmd_send_def cdvdUnlockN_def split: option.split)

lemma ncmds_eq: "ncmds.ready s = ncmd_ready s" "ncmds.granted cmd s = nadmitted cmd s"
  by (simp_all add: ncmds.ready_def ncmd_ready_def ncmds.granted_def nadmitted_def)

section \<open>Outcome of a command\<close>

lemma stw_ncmd [simp]:
  "a_readData (stw v a s) = a_readData s" "a_rd_intr_data (stw v a s) = a_rd_intr_data s"
  "a_curReadPos (stw v a s) = a_curReadPos s" "a_getTocSendBuff (stw v a s) = a_getTocSendBuff s"
  "a_tocBuff (stw v a s) = a_tocBuff s" "a_cdvdMutexN (stw v a s) = a_cdvdMutexN s" "a_nCmdRecvBuff (stw v a s) = a_nCmdRecvBuff s"
  by (simp_all add: stw_def)

lemma writeback_ncmd [simp]:
  "a_readData (SifWriteBackDCache a n s) = a_readData s" "a_rd_intr_data (SifWriteBackDCache a n s) = a_rd_intr_data s"
  "a_curReadPos (SifWriteBackDCache a n s) = a_curReadPos s" "a_getTocSendBuff (SifWriteBackDCache a n s) = a_getTocSendBuff s"
  "a_tocBuff (SifWriteBackDCache a n s) = a_tocBuff s" "ldw b (SifWriteBackDCache a n s) = ldw b s"
  "rd_pkt_table (SifWriteBackDCache a n s) = rd_pkt_table s"
  by (simp_all add: SifWriteBackDCache_def ldw_def)

definition read_words :: "u32 \<Rightarrow> u32 list" where
  "read_words p = [p, p + 4, p + 8, p + 12, p + 16, p + 20]"

definition ncmd_placed :: "'a ncmd_scheme \<Rightarrow> bool" where
  "ncmd_placed s \<longleftrightarrow> a_cdvdMutexN s \<noteq> 0 \<and> a_nCmdRecvBuff s AND 0x0f = 0
     \<and> list_all (off_table (rd_pkt_table s)) (a_curReadPos s # a_getTocSendBuff s # read_words (a_readData s))"

lemma calm_fill:
  assumes "list_all (off_table (rd_pkt_table s)) (read_words (a_readData s))"
  shows "calm s (fill_read arg s)"
  unfolding fill_read_def Let_def using assms
  by (intro calm_intros) (simp_all add: read_words_def)

lemma fill_frame [simp]:
  "a_readData (fill_read arg s) = a_readData s" "a_rd_intr_data (fill_read arg s) = a_rd_intr_data s"
  "a_curReadPos (fill_read arg s) = a_curReadPos s" "rd_pkt_table (fill_read arg s) = rd_pkt_table s"
  by (simp_all add: fill_read_def Let_def)

lemma calm_prepare:
  assumes "ncmd_placed s"
  shows "calm s (prepare_read arg s)" "calm s (prepare_video arg s)" "calm s (prepare_toc s)"
proof -
  have off: "off_table (rd_pkt_table s) (a_curReadPos s)" "off_table (rd_pkt_table s) (a_readData s + 20)"
      "off_table (rd_pkt_table s) (a_getTocSendBuff s)"
      and words: "list_all (off_table (rd_pkt_table s)) (read_words (a_readData s))"
    using assms by (simp_all add: ncmd_placed_def read_words_def)
  show "calm s (prepare_read arg s)" unfolding prepare_read_def Let_def
    by (intro calm_intros(2,3) calm_fill words) (simp_all add: off)
  show "calm s (prepare_video arg s)" unfolding prepare_video_def Let_def
    by (intro calm_intros(2,3) calm_fill words)
  show "calm s (prepare_toc s)" unfolding prepare_toc_def Let_def
    by (intro calm_intros) (simp_all add: off)
qed

definition ncmd_outcome ::
  "u32 \<Rightarrow> u32 \<Rightarrow> u32 \<Rightarrow> u32 \<Rightarrow> u32 \<Rightarrow> u32 \<Rightarrow> u32 \<Rightarrow> ('a ncmd_scheme \<Rightarrow> 'a ncmd_scheme) \<Rightarrow> 'a ncmd_scheme \<Rightarrow> u32 \<Rightarrow> 'a ncmd_scheme \<Rightarrow> bool" where
  "ncmd_outcome cmd sendbuf ssize recvbuf rsize stage2 carg prep s r s' \<longleftrightarrow>
     (if \<not> ncmd_ready s then r = NCMD_EAGAIN s \<and> (s' = s \<or> s' = s\<lparr>nCmdNum := cmd\<rparr>)
      else if rpc_busy (a_clientNCmd s) ssize s then r = - SIF_RPCE_SENDP \<and> mutexes s' = mutexes s
      else r = 0 \<and> mutexes s' = (mutexes s)(a_cdvdMutexN s := - 1)
        \<and> requested (a_clientNCmd s) cmd sendbuf ssize recvbuf rsize stage2 carg s s'
        \<and> (\<forall>a. off_table (rd_pkt_table s) a \<longrightarrow> ldw a s' = ldw a (prep s)))"

lemma nadmitted_fields [simp]:
  "rpc_args (nadmitted cmd s) = rpc_args s" "rd_pkt_table (nadmitted cmd s) = rd_pkt_table s"
  "a_readData (nadmitted cmd s) = a_readData s" "a_rd_intr_data (nadmitted cmd s) = a_rd_intr_data s"
  "a_curReadPos (nadmitted cmd s) = a_curReadPos s" "a_getTocSendBuff (nadmitted cmd s) = a_getTocSendBuff s"
  "a_tocBuff (nadmitted cmd s) = a_tocBuff s" "a_nCmdRecvBuff (nadmitted cmd s) = a_nCmdRecvBuff s"
  "a_cdAlignReadBuffer (nadmitted cmd s) = a_cdAlignReadBuffer s" "a_cdCallback (nadmitted cmd s) = a_cdCallback s"
  "a_cdGetTocStage2 (nadmitted cmd s) = a_cdGetTocStage2 s" "a_NCmdCallback (nadmitted cmd s) = a_NCmdCallback s"
  "a_cdvdMutexN (nadmitted cmd s) = a_cdvdMutexN s" "ldw a (nadmitted cmd s) = ldw a s"
  by (simp_all add: nadmitted_def set_mutex_def ldw_def)

lemma placed_nadmitted [simp]: "ncmd_placed (nadmitted cmd s) = ncmd_placed s"
  by (simp add: ncmd_placed_def)

lemma ncmd_op_effect:
  fixes s :: "'a ncmd_scheme"
  assumes "rpc_ready s" "ncmd_placed s" "ssize \<le> 0xfffffff0" "recvbuf AND 0x0f = 0"
    and "op = (let (ok, s) = cdCheckNCmd cmd s in if ok = 0 then Some (NCMD_EAGAIN s, s)
      else let s = prep s in ncmd_send cmd (sb s) ssize (rb s) rsize (st s) carg s)"
    and "calm (nadmitted cmd s) (prep (nadmitted cmd s))"
    and "sb (prep (nadmitted cmd s)) = sendbuf" "rb (prep (nadmitted cmd s)) = recvbuf" "st (prep (nadmitted cmd s)) = stage2"
    and "\<And>a. ldw a (prep (nadmitted cmd s)) = ldw a (prep s)"
  shows "\<exists>r s'. op = Some (r, s') \<and> ncmd_outcome cmd sendbuf ssize recvbuf rsize stage2 carg prep s r s'"
proof -
  have "a_cdvdMutexN s \<noteq> 0" using assms(2) by (simp add: ncmd_placed_def)
  then obtain r s' where "op = Some (r, s')"
      "if ncmd_ready s then ncmds.outcome cmd sendbuf ssize recvbuf rsize stage2 carg s r s'
        \<and> (\<forall>a. off_table (rd_pkt_table s) a \<longrightarrow> ldw a s' = ldw a (prep s))
      else r = NCMD_EAGAIN s \<and> (s' = s \<or> s' = s\<lparr>nCmdNum := cmd\<rparr>)"
    using ncmds.command_effect [OF assms(1) _ assms(3-5), of sendbuf stage2] assms(6-10)
    by (auto simp: ncmds_eq split: if_splits)
  then show ?thesis by (auto simp: ncmds.outcome_def ncmd_outcome_def split: if_splits)
qed

lemma commute_nadmitted [simp]:
  "stw v a (nadmitted cmd s) = nadmitted cmd (stw v a s)"
  "SifWriteBackDCache a n (nadmitted cmd s) = nadmitted cmd (SifWriteBackDCache a n s)"
  "ldb a (nadmitted cmd s) = ldb a s" "read_mode m (nadmitted cmd s) = read_mode m s"
proof -
  show "ldb a (nadmitted cmd s) = ldb a s" for a by (simp add: ldb_def)
  then show "read_mode m (nadmitted cmd s) = read_mode m s" by (simp add: read_mode_def)
qed (simp_all add: nadmitted_def set_mutex_def stw_def SifWriteBackDCache_def)

lemma fill_nadmitted [simp]: "fill_read arg (nadmitted cmd s) = nadmitted cmd (fill_read arg s)"
  by (simp add: fill_read_def Let_def del: ldw_stw)

lemma prepare_nadmitted [simp]:
  "prepare_read arg (nadmitted cmd s) = nadmitted cmd (prepare_read arg s)"
  "prepare_video arg (nadmitted cmd s) = nadmitted cmd (prepare_video arg s)"
  "prepare_toc (nadmitted cmd s) = nadmitted cmd (prepare_toc s)"
  by (simp_all add: prepare_read_def prepare_video_def prepare_toc_def Let_def del: ldw_stw)

lemma prepare_addresses [simp]:
  "a_cdAlignReadBuffer (prepare_read arg s) = a_cdAlignReadBuffer s" "a_cdCallback (prepare_video arg s) = a_cdCallback s"
  "a_nCmdRecvBuff (prepare_toc s) = a_nCmdRecvBuff s" "a_cdGetTocStage2 (prepare_toc s) = a_cdGetTocStage2 s"
  "a_readData (prepare_read arg s) = a_readData s" "a_readData (prepare_video arg s) = a_readData s"
  "a_getTocSendBuff (prepare_toc s) = a_getTocSendBuff s"
proof -
  have "services.more (fill_read arg s) = services.more s" "services.more (SifWriteBackDCache a n t) = services.more t"
      "services.more (stw v a t) = services.more t" for v a n and t :: "'a ncmd_scheme"
    by (simp_all add: fill_read_def Let_def del: ldw_stw) (simp_all add: stw_def SifWriteBackDCache_def)
  then have more: "services.more (prepare_read arg s) = services.more s" "services.more (prepare_video arg s) = services.more s"
      "services.more (prepare_toc s) = services.more s"
    by (simp_all add: prepare_read_def prepare_video_def prepare_toc_def Let_def del: ldw_stw)
  show "a_cdAlignReadBuffer (prepare_read arg s) = a_cdAlignReadBuffer s" "a_cdCallback (prepare_video arg s) = a_cdCallback s"
    "a_nCmdRecvBuff (prepare_toc s) = a_nCmdRecvBuff s" "a_cdGetTocStage2 (prepare_toc s) = a_cdGetTocStage2 s"
    "a_readData (prepare_read arg s) = a_readData s" "a_readData (prepare_video arg s) = a_readData s"
    "a_getTocSendBuff (prepare_toc s) = a_getTocSendBuff s"
    using ncmd_more [OF more(1)] ncmd_more [OF more(2)] ncmd_more [OF more(3)] by simp_all
qed

text \<open>The commands: entry point, RPC number, send buffer, receive buffer (with their sizes), second stage and preparation.\<close>

definition ncmd_table ::
  "u32 \<Rightarrow> 'a ncmd_scheme \<Rightarrow> ((u32 \<Rightarrow> 'a ncmd_scheme \<Rightarrow> (u32 \<times> 'a ncmd_scheme) option) \<times> u32 \<times> u32 \<times> u32 \<times> u32 \<times> u32 \<times> u32
     \<times> ('a ncmd_scheme \<Rightarrow> 'a ncmd_scheme)) list" where
  "ncmd_table arg s =
     [(sbcall_cdvdread, CD_NCMD_READ, a_readData s, 24, 0, 0, a_cdAlignReadBuffer s, prepare_read arg),
      (sbcall_cdvdread_video, CD_NCMD_DVDREAD, a_readData s, 24, 0, 0, a_cdCallback s, prepare_video arg),
      (sbcall_cdvdgettoc, CD_NCMD_GETTOC, a_getTocSendBuff s, 12, a_nCmdRecvBuff s, 8, a_cdGetTocStage2 s, prepare_toc),
      (sbcall_cdvdstop, CD_NCMD_STOP, 0, 0, 0, 0, a_NCmdCallback s, (\<lambda>s. s))]"

lemma ncmd_command_effect:
  fixes s :: "'a ncmd_scheme"
  assumes "rpc_ready s" "ncmd_placed s" "arg = ra_sbarg (rpc_args s carg)"
    and "(op, cmd, sendbuf, ssize, recvbuf, rsize, stage2, prep) \<in> set (ncmd_table arg s)"
  shows "\<exists>r s'. op carg s = Some (r, s') \<and> ncmd_outcome cmd sendbuf ssize recvbuf rsize stage2 carg prep s r s'"
proof -
  note eff = ncmd_op_effect [OF assms(1,2)]
  have calm: "calm (nadmitted cmd s) (nadmitted cmd (prepare_read arg s))"
      "calm (nadmitted cmd s) (nadmitted cmd (prepare_video arg s))" "calm (nadmitted cmd s) (nadmitted cmd (prepare_toc s))" for cmd
    using calm_prepare [of "nadmitted cmd s"] assms(2) by simp_all
  have al: "a_nCmdRecvBuff s AND 0x0f = 0" using assms(2) by (simp add: ncmd_placed_def)
  have "\<exists>r s'. sbcall_cdvdread carg s = Some (r, s')
      \<and> ncmd_outcome CD_NCMD_READ (a_readData s) 24 0 0 (a_cdAlignReadBuffer s) carg (prepare_read arg) s r s'"
    by (intro eff [of _ _ _ _ _ a_readData "\<lambda>_. 0" _ a_cdAlignReadBuffer])
      (simp_all add: sbcall_cdvdread_def assms(3) [symmetric] calm cong: if_cong)
  moreover have "\<exists>r s'. sbcall_cdvdread_video carg s = Some (r, s')
      \<and> ncmd_outcome CD_NCMD_DVDREAD (a_readData s) 24 0 0 (a_cdCallback s) carg (prepare_video arg) s r s'"
    by (intro eff [of _ _ _ _ _ a_readData "\<lambda>_. 0" _ a_cdCallback])
      (simp_all add: sbcall_cdvdread_video_def assms(3) [symmetric] calm cong: if_cong)
  moreover have "\<exists>r s'. sbcall_cdvdgettoc carg s = Some (r, s')
      \<and> ncmd_outcome CD_NCMD_GETTOC (a_getTocSendBuff s) 12 (a_nCmdRecvBuff s) 8 (a_cdGetTocStage2 s) carg prepare_toc s r s'"
    by (intro eff [of _ _ _ _ _ a_getTocSendBuff a_nCmdRecvBuff _ a_cdGetTocStage2])
      (simp_all add: sbcall_cdvdgettoc_def calm al cong: if_cong)
  moreover have "\<exists>r s'. sbcall_cdvdstop carg s = Some (r, s')
      \<and> ncmd_outcome CD_NCMD_STOP 0 0 0 0 (a_NCmdCallback s) carg (\<lambda>s. s) s r s'"
    by (intro eff [of _ _ _ _ _ "\<lambda>_. 0" "\<lambda>_. 0" _ a_NCmdCallback])
      (simp_all add: sbcall_cdvdstop_def calm_refl Let_def cong: if_cong)
  ultimately show ?thesis using assms(4) unfolding ncmd_table_def by auto
qed

text \<open>The buffers a read request is assembled from and into.\<close>

definition read_apart :: "u32 \<Rightarrow> 'a ncmd_scheme \<Rightarrow> bool" where
  "read_apart arg s \<longleftrightarrow> words_apart 4 arg 6 (a_readData s) \<and> bytes_apart 3 (ldw (arg + 12) s) 24 (a_readData s)
     \<and> words_apart 1 (a_curReadPos s) 6 (a_readData s)"

lemma read_words_apart:
  assumes "words_apart m p 6 q" "i < m"
  shows "PHYSADDR (p + of_nat (4 * i)) \<noteq> PHYSADDR q" "PHYSADDR (p + of_nat (4 * i)) \<noteq> PHYSADDR (q + 4)"
    "PHYSADDR (p + of_nat (4 * i)) \<noteq> PHYSADDR (q + 8)" "PHYSADDR (p + of_nat (4 * i)) \<noteq> PHYSADDR (q + 12)"
    "PHYSADDR (p + of_nat (4 * i)) \<noteq> PHYSADDR (q + 16)" "PHYSADDR (p + of_nat (4 * i)) \<noteq> PHYSADDR (q + 20)"
  using assms(1) [unfolded words_apart_def, rule_format, OF assms(2), of 0]
    assms(1) [unfolded words_apart_def, rule_format, OF assms(2), of 1]
    assms(1) [unfolded words_apart_def, rule_format, OF assms(2), of 2]
    assms(1) [unfolded words_apart_def, rule_format, OF assms(2), of 3]
    assms(1) [unfolded words_apart_def, rule_format, OF assms(2), of 4]
    assms(1) [unfolded words_apart_def, rule_format, OF assms(2), of 5] by simp_all

lemma read_mode_stw:
  assumes "bytes_apart 3 m 24 q" "k < 6"
  shows "read_mode m (stw v (q + of_nat (4 * k)) s) = read_mode m s"
proof -
  have "ldb (m + of_nat j) (stw v (q + of_nat (4 * k)) s) = ldb (m + of_nat j) s" if "j < 3" for j
  proof (rule ldb_stw_other, intro allI impI)
    fix i :: nat
    assume "i < 4"
    then have "4 * k + i < 24" using assms(2) by simp
    then have "PHYSADDR (m + of_nat j) \<noteq> PHYSADDR (q + of_nat (4 * k + i))"
      using assms(1) that unfolding bytes_apart_def by blast
    then show "PHYSADDR (m + of_nat j) \<noteq> PHYSADDR (q + of_nat (4 * k) + of_nat i)" by (simp add: add.assoc)
  qed
  from this [of 0] this [of 1] this [of 2] show ?thesis by (simp add: read_mode_def)
qed

lemma read_words_content:
  assumes "read_apart arg s"
  shows "map (\<lambda>a. ldw a (prepare_read arg s)) (read_words (a_readData s))
    = [ldw arg s, ldw (arg + 4) s, ldw (arg + 8) s, read_mode (ldw (arg + 12) s) s, a_rd_intr_data s, a_curReadPos s]"
    "map (\<lambda>a. ldw a (prepare_video arg s)) (butlast (read_words (a_readData s)))
    = [ldw arg s, ldw (arg + 4) s, ldw (arg + 8) s, read_mode (ldw (arg + 12) s) s, a_rd_intr_data s]"
proof -
  let ?q = "a_readData s" and ?m = "ldw (arg + 12) s"
  note ap = assms [unfolded read_apart_def]
  note a0 = read_words_apart [of 4 arg ?q 0, simplified] read_words_apart [of 4 arg ?q 1, simplified]
    read_words_apart [of 4 arg ?q 2, simplified]
  note c = read_words_apart [of 1 "a_curReadPos s" ?q 0, simplified]
  have f: "PHYSADDR (?q + of_nat (4 * i)) = PHYSADDR (?q + of_nat (4 * j)) \<longleftrightarrow> i = j" if "i < 6" "j < 6" for i j
    using PHYSADDR_offset_eq_iff [of "4 * i" "4 * j" ?q] that by simp
  note fs = f [of 0 1, simplified] f [of 0 2, simplified] f [of 0 3, simplified] f [of 0 4, simplified] f [of 0 5, simplified]
    f [of 1 2, simplified] f [of 1 3, simplified] f [of 1 4, simplified] f [of 1 5, simplified] f [of 2 3, simplified]
    f [of 2 4, simplified] f [of 2 5, simplified] f [of 3 4, simplified] f [of 3 5, simplified] f [of 4 5, simplified]
  have m: "read_mode ?m (stw v ?q t) = read_mode ?m t" "read_mode ?m (stw v (?q + 4) t) = read_mode ?m t"
      "read_mode ?m (stw v (?q + 8) t) = read_mode ?m t" for v t
    using read_mode_stw [of ?m ?q 0 v t] read_mode_stw [of ?m ?q 1 v t] read_mode_stw [of ?m ?q 2 v t] ap by simp_all
  define t where "t = fill_read arg s"
  have t: "t = stw (a_rd_intr_data s) (?q + 16) (stw (read_mode ?m s) (?q + 12)
      (stw (ldw (arg + 8) s) (?q + 8) (stw (ldw (arg + 4) s) (?q + 4) (stw (ldw arg s) ?q s))))"
    using ap a0 by (simp add: t_def fill_read_def Let_def m)
  have "ldw a (prepare_read arg s) = ldw a (stw 0 (a_curReadPos s) (stw (a_curReadPos s) (?q + 20) t))" for a
    by (simp add: prepare_read_def Let_def t_def del: ldw_stw)
  then show "map (\<lambda>a. ldw a (prepare_read arg s)) (read_words ?q)
    = [ldw arg s, ldw (arg + 4) s, ldw (arg + 8) s, read_mode ?m s, a_rd_intr_data s, a_curReadPos s]"
    using ap c fs by (simp add: read_words_def t not_sym [OF fs(1)])
  have "ldw a (prepare_video arg s) = ldw a t" for a
    by (simp add: prepare_video_def Let_def t_def del: ldw_stw)
  then show "map (\<lambda>a. ldw a (prepare_video arg s)) (butlast (read_words ?q))
    = [ldw arg s, ldw (arg + 4) s, ldw (arg + 8) s, read_mode ?m s, a_rd_intr_data s]"
    using fs by (simp add: read_words_def t not_sym [OF fs(1)])
qed

lemma toc_words_content: "ldw (a_getTocSendBuff s) (prepare_toc s) = a_tocBuff s"
  by (simp add: prepare_toc_def Let_def)


section \<open>The table of contents\<close>

lemma word_apart_copy:
  assumes "bytes_apart 12 p n q" "k < 3"
  shows "ldw (p + of_nat (4 * k)) (memcpy n q src s) = ldw (p + of_nat (4 * k)) s"
proof (rule memcpy_word, intro allI impI notI)
  fix i
  let ?b = "q + of_nat i :: u32"
  assume i: "i < n" and "PHYSADDR (p + of_nat (4 * k)) = PHYSADDR (?b AND NOT 3)"
  then have "PHYSADDR ?b = PHYSADDR (p + of_nat (4 * k) + (?b AND 3))"
    using word_align [of ?b] by (metis PHYSADDR_add_left)
  also have "p + of_nat (4 * k) + (?b AND 3) = p + of_nat (4 * k + unat (?b AND 3))"
    by (simp add: add.assoc)
  finally have "PHYSADDR (p + of_nat (4 * k + unat (?b AND 3))) = PHYSADDR ?b" ..
  moreover have "4 * k + unat (?b AND 3) < 12" using assms(2) byte_index [of ?b] by simp
  ultimately show False using assms(1) i unfolding bytes_apart_def by blast
qed

lemma byte_apart_store:
  assumes "bytes_apart 12 p n q" "k < 3" "i < n"
  shows "ldb (q + of_nat i) (stw v (p + of_nat (4 * k)) s) = ldb (q + of_nat i) s"
proof (rule ldb_stw_other, intro allI impI)
  fix j :: nat
  assume "j < 4"
  then have "4 * k + j < 12" using assms(2) by simp
  then have "PHYSADDR (p + of_nat (4 * k + j)) \<noteq> PHYSADDR (q + of_nat i)"
    using assms(1,3) unfolding bytes_apart_def by blast
  then show "PHYSADDR (q + of_nat i) \<noteq> PHYSADDR (p + of_nat (4 * k) + of_nat j)" by (simp add: add.assoc)
qed

lemma toc_length_bound: "toc_length media len \<le> len" "toc_length media len \<le> 2064" "media = 0 \<Longrightarrow> toc_length media len \<le> 1024"
  by (auto simp: toc_length_def word_le_nat_alt word_less_nat_alt)

lemma result_ncmd [simp]:
  "a_nCmdRecvBuff (set_result c r s) = a_nCmdRecvBuff s" "a_tocBuff (set_result c r s) = a_tocBuff s"
  "a_cdvdMutexN (set_result c r s) = a_cdvdMutexN s" "ldb a (set_result c r s) = ldb a s" "ldb a (set_mutex m v s) = ldb a s"
  by (simp_all add: ldb_def) (simp_all add: set_result_def)

lemma memcpy_ncmd [simp]:
  "a_cdvdMutexN (memcpy n d a s) = a_cdvdMutexN s" "rpc_args (memcpy n d a s) = rpc_args s" "mutexes (memcpy n d a s) = mutexes s"
  using memcpy_mem [of n d a s] by auto

text \<open>
  C35. When the answer to a request for the table of contents has arrived, the second stage calls the
  kernel's end function once, with 1 for a zero status word and 0 otherwise, the result also being in
  the argument block. At that moment the N-lock is free, the media type is stored, the length is cut to 1024
  bytes for a CD and 2064 for a DVD, never more than the caller's buffer holds nor than the 3072
  bytes of the receive buffer, and exactly that many bytes are in the caller's buffer.
\<close>

theorem gettoc_delivers:
  fixes s :: "'a ncmd_scheme"
  assumes arg_def: "arg = ra_sbarg (rpc_args s carg)" and media_def: "media = ldw (a_nCmdRecvBuff s + 4) s"
    and len_def: "len = toc_length media (ldw (arg + 4) s)" and buf_def: "buf = ldw arg s"
    and result_def: "result = (if ldw (a_nCmdRecvBuff s) s = 0 then 1 else 0)"
    and "a_cdvdMutexN s \<noteq> 0" "bytes_apart 12 arg 3072 (a_tocBuff s)" "bytes_apart 12 arg (unat len) buf"
    and "bytes_apart (unat len) (a_tocBuff s) (unat len) buf"
  shows "\<exists>t. cdGetTocStage2 notify carg s
      = notify (ra_endfunc (rpc_args s carg)) (ra_efarg (rpc_args s carg)) result t
    \<and> ra_result (rpc_args t carg) = result \<and> mutexes t = (mutexes s)(a_cdvdMutexN s := 0)
    \<and> ldw (arg + 8) t = media \<and> ldw (arg + 4) t = len \<and> len \<le> ldw (arg + 4) s \<and> len \<le> (if media = 0 then 1024 else 2064)
    \<and> (\<forall>i < unat len. ldb (buf + of_nat i) t = ldb (a_tocBuff s + of_nat i) s)"
proof -
  let ?toc = "a_tocBuff s"
  define s1 where "s1 = stw len (arg + 4) (stw media (arg + 8) (set_result carg result s))"
  define s2 where "s2 = memcpy (unat len) buf ?toc s1"
  define t where "t = set_mutex (a_cdvdMutexN s) 0 s2"
  have ne: "PHYSADDR (arg + 4) \<noteq> PHYSADDR (arg + 8)" "PHYSADDR (arg + 4) \<noteq> PHYSADDR arg" "PHYSADDR (arg + 8) \<noteq> PHYSADDR arg"
    using PHYSADDR_offset_eq_iff [of 4 8 arg] PHYSADDR_offset_eq_iff [of 4 0 arg] PHYSADDR_offset_eq_iff [of 8 0 arg] by simp_all
  have len: "unat len \<le> 2064" using toc_length_bound(2) [of media] unfolding len_def by (simp add: word_le_nat_alt)
  have words: "ldw (arg + 4) s2 = len" "ldw (arg + 8) s2 = media"
    using word_apart_copy [OF assms(8), of 1 ?toc s1] word_apart_copy [OF assms(8), of 2 ?toc s1] ne
    by (simp_all add: s2_def s1_def)
  have toc: "ldb (?toc + of_nat i) s1 = ldb (?toc + of_nat i) s" if "i < unat len" for i
  proof -
    have "i < 3072" using that len by simp
    then show ?thesis
      using byte_apart_store [OF assms(7), of 1 i len "stw media (arg + 8) (set_result carg result s)"]
        byte_apart_store [OF assms(7), of 2 i media "set_result carg result s"] by (simp add: s1_def)
  qed
  have copied: "ldb (buf + of_nat i) s2 = ldb (?toc + of_nat i) s" if "i < unat len" for i
    unfolding s2_def using memcpy_copied [OF _ assms(9) that, of s1] toc [OF that] len by simp
  have "cdGetTocStage2 notify carg s = deliver notify carg (set_mutex (a_cdvdMutexN s) 0 (if len \<noteq> 0 then s2 else s1))"
  proof -
    have "ldw (KSEG1ADDR (a_nCmdRecvBuff s)) s = ldw (a_nCmdRecvBuff s) s" by (simp add: ldw_def)
    then show ?thesis
      unfolding cdGetTocStage2_def Let_def arg_def [symmetric]
      using ne assms(6)
      by (simp add: result_def [symmetric] media_def [symmetric] len_def [symmetric] buf_def [symmetric] cdvdUnlockN_def
          sbios_unlock_eq s2_def s1_def del: One_nat_def)
  qed
  moreover have "len = 0 \<Longrightarrow> s2 = s1" by (simp add: s2_def)
  ultimately have "cdGetTocStage2 notify carg s = deliver notify carg t" by (auto simp: t_def)
  then show ?thesis
    using copied words toc_length_bound [of media "ldw (arg + 4) s"]
    by (intro exI [of _ t]) (simp add: deliver_def t_def s2_def s1_def len_def)
qed

section \<open>Witnesses\<close>

text \<open>The drive of the S-command samples, with the N-server bound and its lock free.\<close>

definition sample_ncmd :: ncmd where
  "sample_ncmd = scmd.extend (sample_scmd\<lparr>mem := (\<lambda>a. a)(0x651000 := 0x80656000, 0x651004 := 3000, 0x65100c := 0x80657000,
       0x652000 := 0, 0x652004 := 0)\<rparr>)
     (ncmd.fields 0 0 0x80613000 0x80661004 0x80662000 0x80662100 0x80662200 0x80662400 0x80663000 0x80652000 11 12 13 14)"

lemma sample_ncmd_facts:
  "rpc_ready sample_ncmd" "a_getTocSendBuff sample_ncmd = 0x80662100" "ncmd_ready sample_ncmd"
  "cl_pkt_addr (clients sample_ncmd (a_clientNCmd sample_ncmd)) = 0" "a_cdvdMutexN sample_ncmd = 0x80661004"
  "unat (sif_get_number_of_free_dma_tags sample_ncmd) = 28" "cmd_tags 24 = 2" "\<not> pkt_allocated sample_ncmd 1"
  "ra_sbarg (rpc_args sample_ncmd 0x80651000) = 0x80651000" "a_readData sample_ncmd = 0x80662000" "a_curReadPos sample_ncmd = 0x80662400"
  "ldw (0x80651000 + 12) sample_ncmd = 0x80657000" "ldw 0x80651000 sample_ncmd = 0x80656000"
  "ldw (0x80651000 + 4) sample_ncmd = 3000" "a_nCmdRecvBuff sample_ncmd = 0x80652000" "a_tocBuff sample_ncmd = 0x80663000"
  "ldw (0x80652000 + 4) sample_ncmd = 0" "ldw 0x80652000 sample_ncmd = 0" "a_cdAlignReadBuffer sample_ncmd = 11"
  "ra_endfunc (rpc_args sample_ncmd 0x80651000) = 0x80014000" "rd_pkt_table sample_ncmd = 0xa0700000"
  by code_simp+

lemma sample_ncmd_placed: "ncmd_placed sample_ncmd"
proof -
  have "list_all (off_table 0xa0700000) (0x80662400 # 0x80662100 # read_words 0x80662000)"
    unfolding read_words_def list.pred_inject by (intro conjI off_tableI TrueI) (simp_all add: PHYSADDR_def)
  then show ?thesis unfolding ncmd_placed_def sample_ncmd_facts(2,5,10,11,15,21) by simp
qed


theorem gettoc_delivers_witness:
  "\<exists>t. cdGetTocStage2 (\<lambda>f a r s. if f = 0x80014000 \<and> r = 1 then Some s else None) 0x80651000 sample_ncmd = Some t
     \<and> mutexes t 0x80661004 = 0 \<and> ldw 0x80651004 t = 1024 \<and> ldb 0x806563ff t = ldb 0x806633ff sample_ncmd"
proof -
  have l: "toc_length 0 3000 = 1024" by (simp add: toc_length_def)
  have ap: "bytes_apart 12 0x80651000 3072 (a_tocBuff sample_ncmd)" "bytes_apart 12 0x80651000 (unat (1024 :: u32)) 0x80656000"
    "bytes_apart (unat (1024 :: u32)) (a_tocBuff sample_ncmd) (unat (1024 :: u32)) 0x80656000"
    unfolding sample_ncmd_facts(16)
    using bytes_apartI [of 12 3072 "0x80663000" "0x80651000"] bytes_apartI [of 12 1024 "0x80656000" "0x80651000"]
      bytes_apart_sym [OF bytes_apartI [of 1024 1024 "0x80663000" "0x80656000"]] by simp_all
  obtain t where t: "cdGetTocStage2 (\<lambda>f a r s. if f = 0x80014000 \<and> r = 1 then Some s else None) 0x80651000 sample_ncmd = Some t"
    "mutexes t = (mutexes sample_ncmd)(0x80661004 := 0)" "ldw 0x80651004 t = 1024"
    "\<forall>i < 1024. ldb (0x80656000 + of_nat i) t = ldb (0x80663000 + of_nat i) sample_ncmd"
    using gettoc_delivers [OF sample_ncmd_facts(9) [symmetric], of 0 1024 "0x80656000" 1
        "\<lambda>f a r s. if f = 0x80014000 \<and> r = 1 then Some s else None"] sample_ncmd_facts(5,13-18,20) l ap by auto
  show ?thesis using t(1-3) t(4) [rule_format, of 1023] by simp
qed

end
