(* ===== verification/Cdvd.thy ===== *)
theory Cdvd
  imports Ncmd
begin

text \<open>
  Bringing up the CD/DVD drive (\<open>TGE/sbios/cdvd.c\<close>). The kernel calls \<open>sbcall_cdvdinit\<close> again and
  again; each call starts the RPC request of the current stage and its callback moves on to the next
  stage: bind the init, search-file and disk-ready servers, start the drive, bind the N- and the
  S-command servers. The module also resets the drive and asks whether a disc is ready.
\<close>

section \<open>State\<close>

record cdvd = ncmd +
  cdvdInitCounter :: nat
  bindInit :: int
  bindDiskReady :: int
  bindSearchFile :: int
  a_clientInit :: u32
  a_clientDiskReady :: u32
  a_clientSearchFile :: u32
  a_diskReadyMode :: u32
  a_initMode :: u32
  a_cdvdInitCallback :: u32
  a_cdResetCallback :: u32
  a_cdDiskReadyCallback :: u32

definition CD_SERVER_INIT :: u32 where "CD_SERVER_INIT = 0x80000592"
definition CD_SERVER_SEARCHFILE :: u32 where "CD_SERVER_SEARCHFILE = 0x80000597"
definition CD_SERVER_DISKREADY :: u32 where "CD_SERVER_DISKREADY = 0x8000059A"
definition CDVD_INIT_NOCHECK :: u32 where "CDVD_INIT_NOCHECK = 1"
definition CDVD_READY_NOTREADY :: u32 where "CDVD_READY_NOTREADY = 6"

section \<open>Initialisation\<close>

definition cdvdInitCallback ::
  "(u32 \<Rightarrow> u32 \<Rightarrow> u32 \<Rightarrow> 'a cdvd_scheme \<Rightarrow> 'a cdvd_scheme option) \<Rightarrow> u32 \<Rightarrow> 'a cdvd_scheme \<Rightarrow> 'a cdvd_scheme option" where
  "cdvdInitCallback notify carg s =
     (let c = cdvdInitCounter s;
          s = (if c = 0 then
                 let s = (if cl_server (clients s (a_clientInit s)) \<noteq> 0
                          then s\<lparr>bindInit := 0, cdvdInitCounter := c + 1\<rparr> else s)
                 in cdvdUnlockS (set_result carg (- 1) s)
               else if c = 1 then
                 let s = (if cl_server (clients s (a_clientSearchFile s)) \<noteq> 0
                          then s\<lparr>bindSearchFile := 0, cdvdInitCounter := c + 1\<rparr> else s)
                 in cdvdUnlockS (set_result carg (- 1) s)
               else if c = 2 then
                 let s = (if cl_server (clients s (a_clientDiskReady s)) \<noteq> 0
                          then s\<lparr>bindDiskReady := 0, cdvdInitCounter := c + 1\<rparr> else s)
                 in cdvdUnlockS (set_result carg (- 1) s)
               else if c = 3 then
                 cdvdUnlockS (set_result carg (- 1) (s\<lparr>cdvdInitCounter := c + 1\<rparr>))
               else if c = 4 then
                 let (r, s) = cdNCmdInitCallback carg s;
                     s = (if r = 0 then s\<lparr>cdvdInitCounter := c + 1\<rparr> else s)
                 in cdvdUnlockN (set_result carg (- 1) s)
               else if c = 5 then
                 let (r, s) = cdSCmdInitCallback carg s;
                     s = (if r = 0 then set_result carg 0 (s\<lparr>cdvdInitCounter := c + 1\<rparr>)
                          else set_result carg (- 1) s)
                 in cdvdUnlockS s
               else s)
      in deliver notify carg s)"

text \<open>A stage takes its lock and starts a request, releasing the lock when that fails.\<close>

definition finish_stage ::
  "('a cdvd_scheme \<Rightarrow> 'a cdvd_scheme) \<Rightarrow> (u32 \<times> 'a cdvd_scheme) option \<Rightarrow> (u32 \<times> 'a cdvd_scheme) option" where
  "finish_stage unlock res =
     (case res of
        None \<Rightarrow> None
      | Some (r, s) \<Rightarrow> (if sint r < 0 then Some (- SIF_RPCE_SENDP, unlock s) else Some (0, s)))"

definition start_stage ::
  "('a cdvd_scheme \<Rightarrow> u32 \<times> 'a cdvd_scheme) \<Rightarrow> ('a cdvd_scheme \<Rightarrow> 'a cdvd_scheme)
     \<Rightarrow> ('a cdvd_scheme \<Rightarrow> (u32 \<times> 'a cdvd_scheme) option) \<Rightarrow> 'a cdvd_scheme \<Rightarrow> (u32 \<times> 'a cdvd_scheme) option" where
  "start_stage trylock unlock request s =
     (let (r, s) = trylock s
      in if r \<noteq> 0 then Some (- SIF_RPCE_SENDP, s) else finish_stage unlock (request s))"

definition set_initMode :: "'a cdvd_scheme \<Rightarrow> 'a cdvd_scheme" where
  "set_initMode s = SifWriteBackDCache (a_initMode s) 4 (stw CDVD_INIT_NOCHECK (a_initMode s) s)"

definition sbcall_cdvdinit ::
  "(u32 \<Rightarrow> u32 \<Rightarrow> u32 \<Rightarrow> 'a cdvd_scheme \<Rightarrow> 'a cdvd_scheme option) \<Rightarrow> u32
     \<Rightarrow> 'a cdvd_scheme \<Rightarrow> (u32 \<times> 'a cdvd_scheme) option" where
  "sbcall_cdvdinit notify carg s =
     (let c = cdvdInitCounter s
      in if c = 0 then
           start_stage cdvdLockS cdvdUnlockS
             (\<lambda>s. let s = s\<lparr>bindSearchFile := - 1, bindNCmd := - 1, bindSCmd := - 1, bindDiskReady := - 1, bindInit := - 1\<rparr>
                  in SifBindRpc [] (a_clientInit s) CD_SERVER_INIT SIF_RPC_M_NOWAIT (a_cdvdInitCallback s) carg s) s
         else if c = 1 then
           start_stage cdvdLockS cdvdUnlockS
             (\<lambda>s. SifBindRpc [] (a_clientSearchFile s) CD_SERVER_SEARCHFILE SIF_RPC_M_NOWAIT (a_cdvdInitCallback s) carg s) s
         else if c = 2 then
           start_stage cdvdLockS cdvdUnlockS
             (\<lambda>s. SifBindRpc [] (a_clientDiskReady s) CD_SERVER_DISKREADY SIF_RPC_M_NOWAIT (a_cdvdInitCallback s) carg s) s
         else if c = 3 then
           start_stage cdvdLockS cdvdUnlockS
             (\<lambda>s. let s = set_initMode s
                  in SifCallRpc [] (a_clientInit s) 0 SIF_RPC_M_NOWAIT (a_initMode s) 4 0 0 (a_cdvdInitCallback s) carg s) s
         else if c = 4 then
           start_stage cdvdLockN cdvdUnlockN (\<lambda>s. cdNCmdInit carg (a_cdvdInitCallback s) s) s
         else if c = 5 then
           start_stage cdvdLockS cdvdUnlockS (\<lambda>s. cdSCmdInit carg (a_cdvdInitCallback s) s) s
         else map_option (Pair 0) (deliver notify carg (set_result carg 0 s)))"

section \<open>Reset and readiness\<close>

definition cdResetCallback ::
  "(u32 \<Rightarrow> u32 \<Rightarrow> u32 \<Rightarrow> 'a cdvd_scheme \<Rightarrow> 'a cdvd_scheme option) \<Rightarrow> u32 \<Rightarrow> 'a cdvd_scheme \<Rightarrow> 'a cdvd_scheme option" where
  "cdResetCallback notify carg s = deliver notify carg (set_result carg 0 s)"

definition sbcall_cdvdreset :: "u32 \<Rightarrow> 'a cdvd_scheme \<Rightarrow> (u32 \<times> 'a cdvd_scheme) option" where
  "sbcall_cdvdreset carg s =
     (let s = set_initMode s
      in case SifCallRpc [] (a_clientInit s) 0 SIF_RPC_M_NOWAIT (a_initMode s) 4 0 0 (a_cdResetCallback s) carg s of
           None \<Rightarrow> None
         | Some (r, s) \<Rightarrow> (if sint r < 0 then Some (- SIF_RPCE_SENDP, s) else Some (0, s)))"

definition cdDiskReadyCallback ::
  "(u32 \<Rightarrow> u32 \<Rightarrow> u32 \<Rightarrow> 'a cdvd_scheme \<Rightarrow> 'a cdvd_scheme option) \<Rightarrow> u32 \<Rightarrow> 'a cdvd_scheme \<Rightarrow> 'a cdvd_scheme option" where
  "cdDiskReadyCallback notify carg s =
     (let s = set_result carg (ldw (KSEG1ADDR (a_sCmdRecvBuff s)) s) s
      in deliver notify carg (cdvdUnlockS s))"

definition sbcall_cdvdready :: "u32 \<Rightarrow> 'a cdvd_scheme \<Rightarrow> (u32 \<times> 'a cdvd_scheme) option" where
  "sbcall_cdvdready carg s =
     (let arg = ra_sbarg (rpc_args s carg);
          (r, s) = cdvdLockS s
      in if r \<noteq> 0 then Some (CDVD_READY_NOTREADY, s)
         else
           let s = stw (ldw arg s) (a_diskReadyMode s) s
           in if bindDiskReady s < 0 then Some (- 1, cdvdUnlockS s)
              else
                let s = SifWriteBackDCache (a_diskReadyMode s) 4 s
                in case SifCallRpc [] (a_clientDiskReady s) 0 SIF_RPC_M_NOWAIT (a_diskReadyMode s) 4 (a_sCmdRecvBuff s) 4
                          (a_cdDiskReadyCallback s) carg s of
                     None \<Rightarrow> None
                   | Some (r, s) \<Rightarrow>
                       (if sint r < 0 then Some (- SIF_RPCE_SENDP, cdvdUnlockS s) else Some (0, s)))"

section \<open>Stages\<close>

definition stage_lock :: "nat \<Rightarrow> 'a cdvd_scheme \<Rightarrow> u32" where
  "stage_lock k s = (if k = 4 then a_cdvdMutexN s else a_cdvdMutexS s)"

definition stage_client :: "nat \<Rightarrow> 'a cdvd_scheme \<Rightarrow> u32" where
  "stage_client k s =
     (if k = 0 \<or> k = 3 then a_clientInit s else if k = 1 then a_clientSearchFile s else if k = 2 then a_clientDiskReady s
      else if k = 4 then a_clientNCmd s else a_clientSCmd s)"

definition stage_size :: "nat \<Rightarrow> u32" where
  "stage_size k = (if k = 3 then 4 else 0)"

definition stage_free :: "nat \<Rightarrow> 'a cdvd_scheme \<Rightarrow> bool" where
  "stage_free k s \<longleftrightarrow> mutexes s (stage_lock k s) = 0
     \<and> SifCheckStatRpc (if k = 4 then a_clientNCmd s else a_clientSCmd s) s = 0"

definition begin_stage :: "nat \<Rightarrow> 'a cdvd_scheme \<Rightarrow> 'a cdvd_scheme" where
  "begin_stage k s =
     (if k = 0 then s\<lparr>bindSearchFile := - 1, bindNCmd := - 1, bindSCmd := - 1, bindDiskReady := - 1, bindInit := - 1\<rparr>
      else if k = 3 then set_initMode s else s)"

definition stage_request :: "nat \<Rightarrow> u32 \<Rightarrow> 'a cdvd_scheme \<Rightarrow> (u32 \<times> 'a cdvd_scheme) option" where
  "stage_request k carg s =
     (let ef = a_cdvdInitCallback s; cd = stage_client k s
      in if k = 3 then SifCallRpc [] cd 0 SIF_RPC_M_NOWAIT (a_initMode s) 4 0 0 ef carg s
         else SifBindRpc [] cd (if k = 0 then CD_SERVER_INIT else if k = 1 then CD_SERVER_SEARCHFILE
           else if k = 2 then CD_SERVER_DISKREADY else if k = 4 then CD_SERVER_NCMD else CD_SERVER_SCMD) SIF_RPC_M_NOWAIT ef carg s)"

text \<open>The five client structures are objects of their own.\<close>

definition clients_distinct :: "'a cdvd_scheme \<Rightarrow> bool" where
  "clients_distinct s \<longleftrightarrow>
     distinct [a_clientInit s, a_clientSearchFile s, a_clientDiskReady s, a_clientNCmd s, a_clientSCmd s]"

text \<open>
  The request of stage \<open>k\<close> is out: the last packet queued for the IOP asks for the server of the stage
  (in stage 3, for the start of the drive, with the mode word 1 sent along) on behalf of the client of the stage,
  which names the callback of this module and the argument \<open>carg\<close>. The server numbers are those of the IOP's CD/DVD module.
\<close>

definition stage_sid :: "nat \<Rightarrow> u32" where
  "stage_sid k = (if k = 0 then 0x80000592 else if k = 1 then 0x80000597 else if k = 2 then 0x8000059A
     else if k = 4 then 0x80000595 else 0x80000593)"

definition asked :: "u32 \<Rightarrow> nat \<Rightarrow> u32 \<Rightarrow> 'a cdvd_scheme \<Rightarrow> bool" where
  "asked b k carg s \<longleftrightarrow> (\<exists>i < 32. let p = pkt_at b i; cd = stage_client k s; ef = a_cdvdInitCallback s in
     busy_with cd p ef carg s
     \<and> (if k = 3
        then ldw (a_initMode s) s = 1
          \<and> (\<exists>server dest. call_packet p cd 0 4 0 0 ef server s \<and> queued (command_transfers p RPC_PACKET_SIZE (a_initMode s) dest 4 s) s)
        else bind_packet p cd (stage_sid k) s \<and> queued (command_transfers p RPC_PACKET_SIZE 0 0 0 s) s))"

definition cdvd_placed :: "'a cdvd_scheme \<Rightarrow> bool" where
  "cdvd_placed s \<longleftrightarrow> a_cdvdMutexS s \<noteq> 0 \<and> a_cdvdMutexN s \<noteq> 0 \<and> a_cdvdMutexS s \<noteq> a_cdvdMutexN s
     \<and> off_table (rd_pkt_table s) (a_initMode s) \<and> clients_distinct s"

lemma below_6: "k < 6 \<longleftrightarrow> k = 0 \<or> k = 1 \<or> k = 2 \<or> k = 3 \<or> k = 4 \<or> k = (5 :: nat)"
  by auto

lemma cdvd_more:
  assumes "services.more s' = services.more s"
  shows "cdvdInitCounter s' = cdvdInitCounter s" "bindInit s' = bindInit s" "bindSearchFile s' = bindSearchFile s"
    "bindDiskReady s' = bindDiskReady s" "bindNCmd s' = bindNCmd s" "bindSCmd s' = bindSCmd s"
    "a_clientInit s' = a_clientInit s" "a_clientDiskReady s' = a_clientDiskReady s" "a_clientSearchFile s' = a_clientSearchFile s"
    "a_clientNCmd s' = a_clientNCmd s" "a_clientSCmd s' = a_clientSCmd s" "a_cdvdMutexS s' = a_cdvdMutexS s"
    "a_cdvdMutexN s' = a_cdvdMutexN s" "a_initMode s' = a_initMode s" "a_cdvdInitCallback s' = a_cdvdInitCallback s"
  using assms by (cases s; cases s'; simp)+

lemma lock_eqs:
  "a_cdvdMutexS s \<noteq> 0 \<Longrightarrow> cdvdLockS s =
     (if mutexes s (a_cdvdMutexS s) \<noteq> 0 \<or> SifCheckStatRpc (a_clientSCmd s) s \<noteq> 0 then (1, s)
      else (0, set_mutex (a_cdvdMutexS s) (- 1) s))"
  "a_cdvdMutexN s \<noteq> 0 \<Longrightarrow> cdvdLockN s =
     (if mutexes s (a_cdvdMutexN s) \<noteq> 0 \<or> SifCheckStatRpc (a_clientNCmd s) s \<noteq> 0 then (1, s)
      else (0, set_mutex (a_cdvdMutexN s) (- 1) s))"
  by (auto simp: cdvdLockS_def cdvdLockN_def sbios_tryLock_eq sbios_unlock_eq)

lemma set_mutex_cdvd [simp]:
  "a_clientInit (set_mutex m v s) = a_clientInit s" "a_clientDiskReady (set_mutex m v s) = a_clientDiskReady s"
  "a_clientSearchFile (set_mutex m v s) = a_clientSearchFile s" "a_initMode (set_mutex m v s) = a_initMode s"
  "a_cdvdInitCallback (set_mutex m v s) = a_cdvdInitCallback s" "cdvdInitCounter (set_mutex m v s) = cdvdInitCounter s"
  "stage_client k (set_mutex m v s) = stage_client k s" "stage_lock k (set_mutex m v s) = stage_lock k s"
  by (simp_all add: set_mutex_def stage_client_def stage_lock_def)

text \<open>A stage that finds its lock free makes its request on the state it has prepared.\<close>

lemma sbcall_cdvdinit_eq:
  assumes "cdvdInitCounter s = k" "k < 6" "a_cdvdMutexS s \<noteq> 0" "a_cdvdMutexN s \<noteq> 0"
  shows "sbcall_cdvdinit notify carg s =
    (if \<not> stage_free k s then Some (- SIF_RPCE_SENDP, s)
     else finish_stage (if k = 4 then cdvdUnlockN else cdvdUnlockS)
       (stage_request k carg (begin_stage k (set_mutex (stage_lock k s) (- 1) s))))"
  using assms(1,3,4) assms(2) [unfolded below_6]
  by (elim disjE) (simp_all add: sbcall_cdvdinit_def start_stage_def lock_eqs stage_free_def stage_lock_def stage_request_def
      stage_client_def begin_stage_def cdNCmdInit_def cdSCmdInit_def Let_def set_mutex_def set_initMode_def stw_def SifWriteBackDCache_def)

lemma begin_stage_frame:
  assumes "off_table (rd_pkt_table s) (a_initMode s)"
  shows "rpc_ready (begin_stage k s) = rpc_ready s" "rd_pkt_table (begin_stage k s) = rd_pkt_table s" "mutexes (begin_stage k s) = mutexes s"
    "rpc_busy cd sz (begin_stage k s) = rpc_busy cd sz s" "rpc_args (begin_stage k s) = rpc_args s"
    "stage_client j (begin_stage k s) = stage_client j s" "stage_lock j (begin_stage k s) = stage_lock j s"
    "a_cdvdInitCallback (begin_stage k s) = a_cdvdInitCallback s" "cdvdInitCounter (begin_stage k s) = cdvdInitCounter s"
    "a_cdvdMutexS (begin_stage k s) = a_cdvdMutexS s" "a_cdvdMutexN (begin_stage k s) = a_cdvdMutexN s"
    "a_initMode (begin_stage k s) = a_initMode s"
proof -
  consider "k = 0" | "k = 3" | "k \<noteq> 0" "k \<noteq> 3" by blast
  then have "rpc_ready (begin_stage k s) = rpc_ready s \<and> rd_pkt_table (begin_stage k s) = rd_pkt_table s \<and> mutexes (begin_stage k s) = mutexes s
     \<and> clients (begin_stage k s) = clients s \<and> pkts_used (begin_stage k s) = pkts_used s \<and> rpc_args (begin_stage k s) = rpc_args s
     \<and> sif_get_number_of_free_dma_tags (begin_stage k s) = sif_get_number_of_free_dma_tags s"
  proof cases
    case 1
    then have "services.truncate (begin_stage k s) = services.truncate s" by (simp add: begin_stage_def services.defs)
    from truncate_frame [OF this] show ?thesis by simp
  next
    case 2
    then have "calm s (begin_stage k s)" using assms by (simp add: begin_stage_def set_initMode_def calm_intros)
    then show ?thesis by (simp add: calm_def)
  qed (simp add: begin_stage_def)
  then show "rpc_ready (begin_stage k s) = rpc_ready s" "rd_pkt_table (begin_stage k s) = rd_pkt_table s" "mutexes (begin_stage k s) = mutexes s"
    "rpc_busy cd sz (begin_stage k s) = rpc_busy cd sz s" "rpc_args (begin_stage k s) = rpc_args s"
    by (simp_all add: rpc_busy_def)
qed (simp_all add: begin_stage_def set_initMode_def stw_def SifWriteBackDCache_def stage_client_def stage_lock_def)

lemma more_stage:
  assumes "services.more u = services.more t"
  shows "stage_client k u = stage_client k t" "a_cdvdInitCallback u = a_cdvdInitCallback t" "a_initMode u = a_initMode t"
  using cdvd_more [OF assms] by (simp_all add: stage_client_def)

lemma stage_request_effect:
  fixes t :: "'a cdvd_scheme"
  assumes "rpc_ready t" "k < 6" "off_table (rd_pkt_table t) (a_initMode t)" "k = 3 \<Longrightarrow> ldw (a_initMode t) t = 1"
  obtains r u where "stage_request k carg t = Some (r, u)" "sifrpc.more u = sifrpc.more t"
    "rpc_busy (stage_client k t) (stage_size k) t \<longleftrightarrow> sint r < 0"
    "rpc_busy (stage_client k t) (stage_size k) t \<or> r = 0 \<and> asked (rd_pkt_table t) k carg u"
proof (cases "k = 3")
  case True
  obtain r u where u: "SifCallRpc [] (stage_client k t) 0 SIF_RPC_M_NOWAIT (a_initMode t) 4 0 0 (a_cdvdInitCallback t) carg t = Some (r, u)"
      "same_services (rd_pkt_table t) t u" "rpc_busy (stage_client k t) 4 t \<longleftrightarrow> sint r < 0"
      "rpc_busy (stage_client k t) 4 t \<or> r = 0 \<and> requested (stage_client k t) 0 (a_initMode t) 4 0 0 (a_cdvdInitCallback t) carg t u"
    by (rule service_call [OF assms(1), of 4 0 "stage_client k t" 0 "a_initMode t" 0 "a_cdvdInitCallback t" carg]) auto
  have m: "sifrpc.more u = sifrpc.more t" "ldw (a_initMode t) u = 1"
    using u(2) assms(3,4) True by (simp_all add: same_services_def)
  note st = more_stage [OF services_more(3) [OF m(1)]]
  have "asked (rd_pkt_table t) k carg u" if "requested (stage_client k t) 0 (a_initMode t) 4 0 0 (a_cdvdInitCallback t) carg t u"
    using that True m(2) unfolding asked_def requested_def Let_def st by auto
  then show thesis
    by (intro that [of r u]) (use u(1,3,4) m(1) True in \<open>auto simp: stage_request_def stage_size_def\<close>)
next
  case False
  note sids = CD_SERVER_INIT_def CD_SERVER_SEARCHFILE_def CD_SERVER_DISKREADY_def CD_SERVER_NCMD_def CD_SERVER_SCMD_def
  let ?sid = "if k = 0 then CD_SERVER_INIT else if k = 1 then CD_SERVER_SEARCHFILE
    else if k = 2 then CD_SERVER_DISKREADY else if k = 4 then CD_SERVER_NCMD else CD_SERVER_SCMD"
  obtain r u where u: "SifBindRpc [] (stage_client k t) ?sid SIF_RPC_M_NOWAIT (a_cdvdInitCallback t) carg t = Some (r, u)"
      "sifrpc.more u = sifrpc.more t" "rpc_busy (stage_client k t) 0 t \<longleftrightarrow> sint r < 0"
      "rpc_busy (stage_client k t) 0 t \<or> r = 0 \<and> bind_requested (stage_client k t) ?sid (a_cdvdInitCallback t) carg t u"
    by (rule service_bind [OF assms(1), of "stage_client k t" ?sid "a_cdvdInitCallback t" carg]) auto
  note st = more_stage [OF services_more(3) [OF u(2)]]
  have sid: "?sid = stage_sid k" by (simp add: stage_sid_def sids)
  have "asked (rd_pkt_table t) k carg u" if "bind_requested (stage_client k t) ?sid (a_cdvdInitCallback t) carg t u"
    using that False unfolding asked_def bind_requested_def Let_def st sid by auto
  then have "rpc_busy (stage_client k t) 0 t \<or> r = 0 \<and> asked (rd_pkt_table t) k carg u" using u(4) by blast
  then show thesis
    by (intro that [of r u]) (use u(1-3) False in \<open>simp_all add: stage_request_def stage_size_def Let_def cong: if_cong\<close>)
qed

lemma stage_outcome:
  fixes s :: "'a cdvd_scheme"
  assumes "rpc_ready s" "cdvd_placed s" "cdvdInitCounter s = k" "k < 6"
  shows "\<exists>r s'. sbcall_cdvdinit notify carg s = Some (r, s') \<and>
    (if \<not> stage_free k s then r = - SIF_RPCE_SENDP \<and> s' = s
     else services.more s' = services.more (begin_stage k s) \<and> rpc_args s' = rpc_args s
       \<and> (if rpc_busy (stage_client k s) (stage_size k) s then r = - SIF_RPCE_SENDP \<and> mutexes s' = mutexes s
          else r = 0 \<and> mutexes s' = (mutexes s)(stage_lock k s := - 1)
            \<and> asked (rd_pkt_table s) k carg s'))"
proof -
  have pl: "a_cdvdMutexS s \<noteq> 0" "a_cdvdMutexN s \<noteq> 0" "off_table (rd_pkt_table s) (a_initMode s)"
    using assms(2) by (simp_all add: cdvd_placed_def)
  note eq = sbcall_cdvdinit_eq [OF assms(3,4) pl(1,2), of notify carg]
  show ?thesis
  proof (cases "stage_free k s")
    case False
    then show ?thesis using eq by simp
  next
    case free: True
    let ?l = "set_mutex (stage_lock k s) (- 1) s"
    let ?t = "begin_stage k ?l"
    have offl: "off_table (rd_pkt_table ?l) (a_initMode ?l)" using pl(3) by simp
    have t: "rpc_ready ?t" "stage_client k ?t = stage_client k s" "a_cdvdInitCallback ?t = a_cdvdInitCallback s"
        "rpc_busy cd sz ?t = rpc_busy cd sz s" "mutexes ?t = (mutexes s)(stage_lock k s := - 1)" "rpc_args ?t = rpc_args s"
        "rd_pkt_table ?t = rd_pkt_table s" "a_initMode ?t = a_initMode s" for cd sz
      using begin_stage_frame [OF offl, where k = k] assms(1) by simp_all
    have mode: "ldw (a_initMode ?t) ?t = 1" if "k = 3"
      using that unfolding t(8) by (simp add: begin_stage_def set_initMode_def CDVD_INIT_NOCHECK_def)
    obtain r u where u: "stage_request k carg ?t = Some (r, u)" "sifrpc.more u = sifrpc.more ?t"
        "rpc_busy (stage_client k ?t) (stage_size k) ?t \<longleftrightarrow> sint r < 0"
        "rpc_busy (stage_client k ?t) (stage_size k) ?t
          \<or> r = 0 \<and> asked (rd_pkt_table ?t) k carg u"
      using stage_request_effect [OF t(1) assms(4) _ mode] pl(3) unfolding t(7,8) by blast
    have m: "mutexes u = mutexes ?t" "rpc_args u = rpc_args ?t" "services.more u = services.more ?t"
      using services_more [OF u(2)] by simp_all
    have more: "services.more ?t = services.more (begin_stage k s)"
      by (cases s) (simp add: begin_stage_def set_initMode_def stw_def SifWriteBackDCache_def set_mutex_def)
    have lk: "stage_lock k u = stage_lock k s" "stage_lock k s \<noteq> 0"
      using cdvd_more [OF m(3)] begin_stage_frame [OF offl, where k = k] pl by (simp_all add: stage_lock_def)
    have unlock: "(if k = 4 then cdvdUnlockN else cdvdUnlockS) u = set_mutex (stage_lock k s) 0 u"
      using lk by (simp add: cdvdUnlockN_def cdvdUnlockS_def stage_lock_def sbios_unlock_eq split: if_splits)
    have undo: "mutexes (set_mutex (stage_lock k s) 0 u) = mutexes s"
      using free m(1) t(5) by (auto simp: stage_free_def fun_eq_iff)
    have res: "sbcall_cdvdinit notify carg s
        = Some (if sint r < 0 then (- SIF_RPCE_SENDP, set_mutex (stage_lock k s) 0 u) else (0, u))"
      using eq free u(1) unlock by (simp add: finish_stage_def)
    show ?thesis
    proof (cases "sint r < 0")
      case True
      then show ?thesis using free res u(3) t undo m(2,3) more by simp
    next
      case False
      then show ?thesis using free res u(3,4) t m more by simp
    qed
  qed
qed

text \<open>The callback of a stage: the server is found, or the stage has to be repeated.\<close>

definition served :: "nat \<Rightarrow> 'a cdvd_scheme \<Rightarrow> bool" where
  "served k s \<longleftrightarrow> k = 3 \<or> cl_server (clients s (stage_client k s)) \<noteq> 0"

text \<open>The stages before \<open>n\<close> are through: their flags are cleared and their clients have a server.\<close>

definition bound_upto :: "nat \<Rightarrow> 'a cdvd_scheme \<Rightarrow> bool" where
  "bound_upto n s \<longleftrightarrow> (1 \<le> n \<longrightarrow> bindInit s = 0) \<and> (2 \<le> n \<longrightarrow> bindSearchFile s = 0) \<and> (3 \<le> n \<longrightarrow> bindDiskReady s = 0)
     \<and> (5 \<le> n \<longrightarrow> bindNCmd s = 0) \<and> (6 \<le> n \<longrightarrow> bindSCmd s = 0) \<and> (\<forall>k < n. served k s)"

text \<open>What a step of the module never changes: the addresses of its objects.\<close>

definition same_addresses :: "'a cdvd_scheme \<Rightarrow> 'a cdvd_scheme \<Rightarrow> bool" where
  "same_addresses s t \<longleftrightarrow> a_clientInit t = a_clientInit s \<and> a_clientDiskReady t = a_clientDiskReady s
     \<and> a_clientSearchFile t = a_clientSearchFile s \<and> a_clientNCmd t = a_clientNCmd s \<and> a_clientSCmd t = a_clientSCmd s
     \<and> a_cdvdMutexS t = a_cdvdMutexS s \<and> a_cdvdMutexN t = a_cdvdMutexN s \<and> a_initMode t = a_initMode s
     \<and> a_cdvdInitCallback t = a_cdvdInitCallback s"

lemma set_result_rpc [simp]: "sifrpc.truncate (set_result c r s) = sifrpc.truncate s"
  by (simp add: set_result_def sifrpc.defs)

definition advance :: "nat \<Rightarrow> 'a cdvd_scheme \<Rightarrow> 'a cdvd_scheme" where
  "advance k s =
     (if k = 0 then s\<lparr>bindInit := 0\<rparr> else if k = 1 then s\<lparr>bindSearchFile := 0\<rparr> else if k = 2 then s\<lparr>bindDiskReady := 0\<rparr>
      else if k = 4 then s\<lparr>bindNCmd := 0\<rparr> else if k = 5 then s\<lparr>bindSCmd := 0\<rparr> else s)\<lparr>cdvdInitCounter := k + 1\<rparr>"

definition completed :: "nat \<Rightarrow> u32 \<Rightarrow> 'a cdvd_scheme \<Rightarrow> 'a cdvd_scheme" where
  "completed k carg s =
     set_mutex (stage_lock k s) 0 (set_result carg (if k = 5 \<and> served k s then 0 else - 1) (if served k s then advance k s else s))"

lemma callback_eq:
  assumes "cdvdInitCounter s = k" "k < 6" "a_cdvdMutexS s \<noteq> 0" "a_cdvdMutexN s \<noteq> 0"
  shows "cdvdInitCallback notify carg s = deliver notify carg (completed k carg s)"
  using assms(1,3,4) assms(2) [unfolded below_6]
  by (elim disjE) (simp_all add: cdvdInitCallback_def completed_def advance_def served_def cdvdUnlockS_def cdvdUnlockN_def
      cdNCmdInitCallback_def cdSCmdInitCallback_def sbios_unlock_eq stage_client_def stage_lock_def set_result_def Let_def)

lemma completed_facts:
  assumes "cdvdInitCounter s = k" "k < 6"
  shows "sifrpc.truncate (completed k carg s) = sifrpc.truncate s" "same_addresses s (completed k carg s)"
    "mutexes (completed k carg s) = (mutexes s)(stage_lock k s := 0)"
    "cdvdInitCounter (completed k carg s) = (if served k s then k + 1 else k)"
    "ra_result (rpc_args (completed k carg s) carg) = (if k = 5 \<and> served k s then 0 else - 1)"
    "bound_upto k s \<Longrightarrow> bound_upto (cdvdInitCounter (completed k carg s)) (completed k carg s)"
proof -
  show t: "sifrpc.truncate (completed k carg s) = sifrpc.truncate s" and a: "same_addresses s (completed k carg s)"
    and "mutexes (completed k carg s) = (mutexes s)(stage_lock k s := 0)"
    and c: "cdvdInitCounter (completed k carg s) = (if served k s then k + 1 else k)"
    and "ra_result (rpc_args (completed k carg s) carg) = (if k = 5 \<and> served k s then 0 else - 1)"
    using assms(1) assms(2) [unfolded below_6]
    by (auto simp: completed_def advance_def same_addresses_def set_mutex_def set_result_def sifrpc.defs)
  have cl: "clients (completed k carg s) = clients s" using t by (cases s; cases "completed k carg s"; simp add: sifrpc.defs)
  have sv: "served j (completed k carg s) = served j s" for j
    using a unfolding served_def cl by (simp add: stage_client_def same_addresses_def)
  have flags: "served k s \<Longrightarrow> bindInit (completed k carg s) = (if k = 0 then 0 else bindInit s)
      \<and> bindSearchFile (completed k carg s) = (if k = 1 then 0 else bindSearchFile s)
      \<and> bindDiskReady (completed k carg s) = (if k = 2 then 0 else bindDiskReady s)
      \<and> bindNCmd (completed k carg s) = (if k = 4 then 0 else bindNCmd s)
      \<and> bindSCmd (completed k carg s) = (if k = 5 then 0 else bindSCmd s)"
    by (simp add: completed_def advance_def set_mutex_def set_result_def)
  have same: "\<not> served k s \<Longrightarrow> completed k carg s = set_mutex (stage_lock k s) 0 (set_result carg (- 1) s)"
    by (simp add: completed_def)
  show "bound_upto (cdvdInitCounter (completed k carg s)) (completed k carg s)" if b: "bound_upto k s"
  proof (cases "served k s")
    case True
    then show ?thesis
      using b flags unfolding c bound_upto_def sv by (auto simp: less_Suc_eq)
  next
    case False
    then show ?thesis
      using b unfolding c bound_upto_def sv unfolding same [OF False] by (simp add: set_mutex_def set_result_def)
  qed
qed

section \<open>Six rounds bring the drive up\<close>

text \<open>
  A round is a call of \<open>sbcall_cdvdinit\<close>, the work of the IOP and of the interrupt handler (\<open>iop\<close>), and the
  callback of the stage.
\<close>

definition cdvd_round ::
  "(u32 \<Rightarrow> u32 \<Rightarrow> u32 \<Rightarrow> 'a cdvd_scheme \<Rightarrow> 'a cdvd_scheme option) \<Rightarrow> ('a cdvd_scheme \<Rightarrow> 'a cdvd_scheme) \<Rightarrow> u32
     \<Rightarrow> 'a cdvd_scheme \<Rightarrow> 'a cdvd_scheme option" where
  "cdvd_round notify iop carg s =
     (case sbcall_cdvdinit notify carg s of
        None \<Rightarrow> None
      | Some (r, t) \<Rightarrow> (if r = 0 then cdvdInitCallback notify carg (iop t) else None))"

primrec cdvd_rounds ::
  "(u32 \<Rightarrow> u32 \<Rightarrow> u32 \<Rightarrow> 'a cdvd_scheme \<Rightarrow> 'a cdvd_scheme option) \<Rightarrow> ('a cdvd_scheme \<Rightarrow> 'a cdvd_scheme) \<Rightarrow> u32
     \<Rightarrow> nat \<Rightarrow> 'a cdvd_scheme \<Rightarrow> 'a cdvd_scheme option" where
  "cdvd_rounds notify iop carg 0 s = Some s"
| "cdvd_rounds notify iop carg (Suc n) s =
     (case cdvd_rounds notify iop carg n s of None \<Rightarrow> None | Some t \<Rightarrow> cdvd_round notify iop carg t)"

definition rpc_idle :: "'a cdvd_scheme \<Rightarrow> bool" where
  "rpc_idle s \<longleftrightarrow> rpc_ready s \<and> (\<forall>k < 6. \<not> rpc_busy (stage_client k s) (stage_size k) s)
     \<and> SifCheckStatRpc (a_clientSCmd s) s = 0 \<and> SifCheckStatRpc (a_clientNCmd s) s = 0"

text \<open>
  The IOP answers a request of this module that is out: then the client of the stage is bound, all
  clients are idle again, and packets and DMA tags are available. Whatever happens it leaves alone what
  the modules of the SBIOS keep, and a client that is bound stays bound.
\<close>

definition iop_answers :: "u32 \<Rightarrow> ('a cdvd_scheme \<Rightarrow> 'a cdvd_scheme) \<Rightarrow> bool" where
  "iop_answers b iop \<longleftrightarrow> (\<forall>s. sifrpc.more (iop s) = sifrpc.more s \<and> rd_pkt_table (iop s) = b
     \<and> (\<forall>k < 6. served k s \<longrightarrow> served k (iop s))
     \<and> (\<forall>k < 6. \<forall>carg. asked b k carg s \<longrightarrow> rpc_idle (iop s) \<and> served k (iop s)))"

definition cdvd_idle :: "'a cdvd_scheme \<Rightarrow> bool" where
  "cdvd_idle s \<longleftrightarrow> rpc_idle s \<and> cdvd_placed s \<and> mutexes s (a_cdvdMutexS s) = 0 \<and> mutexes s (a_cdvdMutexN s) = 0"

lemma truncate_rpc:
  assumes "sifrpc.truncate t = sifrpc.truncate s"
  shows "rpc_ready t = rpc_ready s" "rd_pkt_table t = rd_pkt_table s" "clients t = clients s" "rpc_busy cd sz t = rpc_busy cd sz s"
    "SifCheckStatRpc cd t = SifCheckStatRpc cd s"
  using assms
  by (cases s; cases t; simp add: sifrpc.defs rpc_ready_def pkt_inv_def ring_inv_def cur_tag_def hw_tag_def rpc_busy_def SifCheckStatRpc_def
      pkts_used_def pkt_allocated_def getf_def ldw_def sif_dma_get_hw_index_def sif_get_number_of_free_dma_tags_def reg_lw_def Let_def)+

lemma idle_transfer:
  assumes "sifrpc.truncate t = sifrpc.truncate s" "same_addresses s t"
  shows "rpc_idle t = rpc_idle s"
proof -
  have "stage_client k t = stage_client k s" for k using assms(2) by (simp add: stage_client_def same_addresses_def)
  then show ?thesis using truncate_rpc [OF assms(1)] assms(2) by (simp add: rpc_idle_def same_addresses_def)
qed

lemma more_addresses: "services.more t = services.more s \<Longrightarrow> same_addresses s t"
  by (simp add: cdvd_more [of t s] same_addresses_def)

lemma bound_kept:
  "services.more t = services.more s \<Longrightarrow> \<forall>k < n. served k s \<longrightarrow> served k t \<Longrightarrow> bound_upto n s \<Longrightarrow> bound_upto n t"
  by (simp add: cdvd_more [of t s] bound_upto_def)

text \<open>Starting a stage does not touch the servers of the stages before it.\<close>

lemma served_cong:
  assumes "services.more t = services.more s" "\<forall>c. cl_server (clients t c) = cl_server (clients s c)"
  shows "served j t = served j s"
  using assms(2) unfolding served_def more_stage(1) [OF assms(1)] by simp

lemma stage_clients_ne:
  assumes "clients_distinct s" "j < k" "k < 6" "k \<noteq> 3" "j \<noteq> 3"
  shows "stage_client j s \<noteq> stage_client k s"
proof -
  have j: "j = 0 \<or> j = 1 \<or> j = 2 \<or> j = 4" and k: "k = 1 \<or> k = 2 \<or> k = 4 \<or> k = 5" using assms(2-5) by auto
  show ?thesis using j k assms(1,2) by (elim disjE) (auto simp: clients_distinct_def stage_client_def)
qed

lemma begin_stage_same:
  "clients (begin_stage k s) = clients s" "stage_client j (begin_stage k s) = stage_client j s"
  by (simp_all add: begin_stage_def set_initMode_def stage_client_def stw_def SifWriteBackDCache_def)

lemma unlock_clients [simp]: "clients (cdvdUnlockS s) = clients s" "clients (cdvdUnlockN s) = clients s"
  by (simp_all add: cdvdUnlockS_def cdvdUnlockN_def sbios_unlock_def core_save_disable_def core_restore_def set_mutex_def Let_def)

lemma stage_request_keeps:
  assumes "stage_request k carg s = Some (r, u)" "clients_distinct s" "j < k" "k < 6" "served j s"
  shows "served j u"
proof (cases "j = 3")
  case False
  have ne: "k = 3 \<or> stage_client j s \<noteq> stage_client k s" using stage_clients_ne [OF assms(2-4)] False by blast
  have sv: "cl_server (clients u (stage_client j s)) = cl_server (clients s (stage_client j s))"
    using assms(1) ne nowait_servers [OF nowait_1(1)] by (auto simp: stage_request_def Let_def split: if_splits)
  have "services.more u = services.more s"
    using assms(1) by (auto simp: stage_request_def Let_def split: if_splits dest!: call_more)
  note st = more_stage(1) [OF this, of j]
  show ?thesis using assms(5) sv False unfolding served_def st by simp
qed (simp add: served_def)

lemma stage_keeps:
  assumes "sbcall_cdvdinit notify carg s = Some (r, t)" "cdvdInitCounter s = k" "k < 6" "a_cdvdMutexS s \<noteq> 0" "a_cdvdMutexN s \<noteq> 0"
    and "clients_distinct s" "j < k" "served j s"
  shows "served j t"
proof (cases "stage_free k s")
  case False
  then show ?thesis using assms(1,8) sbcall_cdvdinit_eq [OF assms(2-5), of notify carg] by simp
next
  case True
  let ?b = "begin_stage k (set_mutex (stage_lock k s) (- 1) s)"
  obtain q u where u: "stage_request k carg ?b = Some (q, u)"
      "t = (if sint q < 0 then (if k = 4 then cdvdUnlockN else cdvdUnlockS) u else u)"
    using assms(1) True sbcall_cdvdinit_eq [OF assms(2-5), of notify carg]
    by (auto simp: finish_stage_def split: option.splits if_splits)
  have "clients_distinct ?b"
    using assms(6) by (simp add: clients_distinct_def begin_stage_def set_initMode_def stw_def SifWriteBackDCache_def set_mutex_def)
  moreover have "served j ?b" using assms(8) by (simp add: served_def begin_stage_same)
  ultimately have "served j u" using stage_request_keeps [OF u(1) _ assms(7,3)] by blast
  moreover have "stage_client j t = stage_client j u"
    unfolding u(2) by (auto simp: stage_client_def cdvdUnlockS_def cdvdUnlockN_def sbios_unlock_def core_save_disable_def core_restore_def set_mutex_def Let_def)
  ultimately show ?thesis unfolding served_def u(2) by (auto split: if_splits)
qed

lemma round_step:
  fixes s :: "'a cdvd_scheme"
  assumes "cdvd_idle s" "cdvdInitCounter s = k" "k < 6" "bound_upto k s" "iop_answers (rd_pkt_table s) iop"
    and "\<And>f a r t. notify f a r t = Some t"
  obtains t where "cdvd_round notify iop carg s = Some t" "cdvd_idle t" "cdvdInitCounter t = k + 1" "bound_upto (k + 1) t"
    "rd_pkt_table t = rd_pkt_table s" "ra_result (rpc_args t carg) = (if k = 5 then 0 else - 1)"
proof -
  have s: "rpc_ready s" "cdvd_placed s" "stage_free k s" "\<not> rpc_busy (stage_client k s) (stage_size k) s" "mutexes s (stage_lock k s) = 0"
    using assms(1,3) by (auto simp: cdvd_idle_def rpc_idle_def stage_free_def stage_lock_def)
  obtain s1 where s1: "sbcall_cdvdinit notify carg s = Some (0, s1)" "services.more s1 = services.more (begin_stage k s)"
      "mutexes s1 = (mutexes s)(stage_lock k s := - 1)" "asked (rd_pkt_table s) k carg s1"
    using stage_outcome [OF s(1,2) assms(2,3), of notify carg] s(3,4) by auto
  define u where "u = iop s1"
  have u: "sifrpc.more u = sifrpc.more s1" "rd_pkt_table u = rd_pkt_table s" "rpc_idle u" "served k u"
      "served j s1 \<Longrightarrow> j < 6 \<Longrightarrow> served j u" for j
    using assms(3,5) s1(4) unfolding iop_answers_def u_def by blast+
  have mu: "mutexes u = (mutexes s)(stage_lock k s := - 1)" "services.more u = services.more (begin_stage k s)"
    using services_more [OF u(1)] s1(2,3) by simp_all
  have off: "off_table (rd_pkt_table s) (a_initMode s)" using s(2) by (simp add: cdvd_placed_def)
  have ad: "same_addresses s u" "cdvdInitCounter u = k"
    using more_addresses [OF mu(2)] cdvd_more(1) [OF mu(2)] begin_stage_frame [OF off, where k = k] assms(2)
    by (simp_all add: same_addresses_def begin_stage_def set_initMode_def stw_def SifWriteBackDCache_def)
  have pl: "a_cdvdMutexS u \<noteq> 0" "a_cdvdMutexN u \<noteq> 0" using ad(1) s(2) by (simp_all add: same_addresses_def cdvd_placed_def)
  have pls: "a_cdvdMutexS s \<noteq> 0" "a_cdvdMutexN s \<noteq> 0" "clients_distinct s" using s(2) by (simp_all add: cdvd_placed_def)
  have sv: "served j u" if "j < k" for j
    using stage_keeps [OF s1(1) assms(2,3) pls that] u(5) [of j] that assms(3,4) by (simp add: bound_upto_def)
  have bs: "bound_upto k (begin_stage k s)"
    using assms(4) by (simp add: bound_upto_def served_def begin_stage_same)
      (simp add: begin_stage_def set_initMode_def stw_def SifWriteBackDCache_def)
  have b: "bound_upto k u" by (rule bound_kept [OF mu(2) _ bs]) (use sv in blast)
  let ?t = "completed k carg u"
  note t = completed_facts [OF ad(2) assms(3), of carg]
  have ad2: "same_addresses s ?t" using ad(1) t(2) by (simp add: same_addresses_def)
  have lock: "stage_lock k u = stage_lock k s" using ad(1) by (simp add: stage_lock_def same_addresses_def)
  have "mutexes ?t = mutexes s" using t(3) mu(1) lock s(5) by (auto simp: fun_eq_iff)
  moreover have "rpc_idle ?t" using idle_transfer [OF t(1,2)] u(3) by simp
  moreover have "rd_pkt_table ?t = rd_pkt_table s" using truncate_rpc(2) [OF t(1)] u(2) by simp
  moreover have "cdvd_round notify iop carg s = Some ?t"
    using s1(1) callback_eq [OF ad(2) assms(3) pl, of notify carg] assms(6) by (simp add: cdvd_round_def u_def deliver_def)
  ultimately show thesis
    using that [of ?t] t(4,5,6) u(4) b ad2 assms(1)
    by (simp add: cdvd_idle_def cdvd_placed_def same_addresses_def clients_distinct_def)
qed

lemma rounds_progress:
  fixes s :: "'a cdvd_scheme"
  assumes "cdvd_idle s" "cdvdInitCounter s = 0" "iop_answers (rd_pkt_table s) iop" "\<And>f a r t. notify f a r t = Some t"
  shows "n \<le> 6 \<Longrightarrow> \<exists>t. cdvd_rounds notify iop carg n s = Some t \<and> cdvd_idle t \<and> cdvdInitCounter t = n \<and> bound_upto n t
    \<and> rd_pkt_table t = rd_pkt_table s \<and> (0 < n \<longrightarrow> ra_result (rpc_args t carg) = (if n = 6 then 0 else - 1))"
proof (induction n)
  case 0
  then show ?case using assms(1,2) by (simp add: bound_upto_def)
next
  case (Suc n)
  then obtain t where t: "cdvd_rounds notify iop carg n s = Some t" "cdvd_idle t" "cdvdInitCounter t = n" "bound_upto n t"
      "rd_pkt_table t = rd_pkt_table s" by auto
  have "n < 6" using Suc.prems by simp
  then obtain t' where "cdvd_round notify iop carg t = Some t'" "cdvd_idle t'" "cdvdInitCounter t' = n + 1" "bound_upto (n + 1) t'"
      "rd_pkt_table t' = rd_pkt_table t" "ra_result (rpc_args t' carg) = (if n = 5 then 0 else - 1)"
    by (rule round_step [OF t(2,3) _ t(4), of iop notify carg]) (use assms(3,4) t(5) in auto)
  then show ?case using t by simp
qed


section \<open>Through any interleaving the drive is never taken for bound too early\<close>

definition module_same :: "'a cdvd_scheme \<Rightarrow> 'a cdvd_scheme \<Rightarrow> bool" where
  "module_same s t \<longleftrightarrow> same_addresses s t \<and> cdvdInitCounter t = cdvdInitCounter s \<and> bindInit t = bindInit s
     \<and> bindSearchFile t = bindSearchFile s \<and> bindDiskReady t = bindDiskReady s \<and> bindNCmd t = bindNCmd s \<and> bindSCmd t = bindSCmd s
     \<and> (\<forall>j < 6. served j s \<longrightarrow> served j t)"

text \<open>
  The operations of the module in any order, between them changes that leave its variables alone and
  do not unbind its clients: commands, other services, interrupts and the IOP.
\<close>

inductive cdvd_step ::
  "(u32 \<Rightarrow> u32 \<Rightarrow> u32 \<Rightarrow> 'a cdvd_scheme \<Rightarrow> 'a cdvd_scheme option) \<Rightarrow> 'a cdvd_scheme \<Rightarrow> 'a cdvd_scheme \<Rightarrow> bool" for notify where
  init: "sbcall_cdvdinit notify carg s = Some (r, t) \<Longrightarrow> cdvd_step notify s t"
| init_done: "cdvdInitCallback notify carg s = Some t \<Longrightarrow> cdvd_step notify s t"
| reset: "sbcall_cdvdreset carg s = Some (r, t) \<Longrightarrow> cdvd_step notify s t"
| reset_done: "cdResetCallback notify carg s = Some t \<Longrightarrow> cdvd_step notify s t"
| ready: "sbcall_cdvdready carg s = Some (r, t) \<Longrightarrow> cdvd_step notify s t"
| ready_done: "cdDiskReadyCallback notify carg s = Some t \<Longrightarrow> cdvd_step notify s t"
| other: "module_same s t \<Longrightarrow> cdvd_step notify s t"


definition cdvd_inv :: "'a cdvd_scheme \<Rightarrow> bool" where
  "cdvd_inv s \<longleftrightarrow> a_cdvdMutexS s \<noteq> 0 \<and> a_cdvdMutexN s \<noteq> 0 \<and> cdvdInitCounter s \<le> 6 \<and> bound_upto (cdvdInitCounter s) s
     \<and> clients_distinct s"

definition keeps_bound :: "'a cdvd_scheme \<Rightarrow> 'a cdvd_scheme \<Rightarrow> bool" where
  "keeps_bound s t \<longleftrightarrow> (\<forall>j < 6. served j s \<longrightarrow> served j t)"

definition cdvd_notify :: "(u32 \<Rightarrow> u32 \<Rightarrow> u32 \<Rightarrow> 'a cdvd_scheme \<Rightarrow> 'a cdvd_scheme option) \<Rightarrow> bool" where
  "cdvd_notify notify \<longleftrightarrow> good_notify notify \<and> (\<forall>f a r s t. notify f a r s = Some t \<longrightarrow> keeps_bound s t)"

lemma more_module_same: "services.more t = services.more s \<Longrightarrow> keeps_bound s t \<Longrightarrow> module_same s t"
  by (simp add: cdvd_more [of t s] more_addresses module_same_def keeps_bound_def)

lemma module_same_inv: "module_same s t \<Longrightarrow> cdvd_inv s \<Longrightarrow> cdvd_inv t \<and> cdvdInitCounter t = cdvdInitCounter s"
  by (simp add: module_same_def same_addresses_def cdvd_inv_def bound_upto_def clients_distinct_def)

lemma keeps_bound_clients:
  "services.more t = services.more s \<Longrightarrow> \<forall>c. cl_server (clients t c) = cl_server (clients s c) \<Longrightarrow> keeps_bound s t"
  unfolding keeps_bound_def using served_cong by blast

lemma deliver_same:
  assumes "cdvd_notify notify" "deliver notify carg u = Some t" "services.more u = services.more s" "clients u = clients s"
  shows "module_same s t"
proof -
  have "services.more t = services.more u" "keeps_bound u t"
    using assms(1,2) deliver_more unfolding cdvd_notify_def deliver_def by blast+
  moreover have "keeps_bound s u" by (rule keeps_bound_clients) (simp_all add: assms(3,4))
  ultimately show ?thesis using assms(3) by (intro more_module_same) (auto simp: keeps_bound_def)
qed

lemma more_kept [simp]:
  "services.more (set_result c r s) = services.more s" "services.more (cdvdUnlockS s) = services.more s"
  "services.more (cdvdUnlockN s) = services.more s" "services.more (SifWriteBackDCache a n s) = services.more s"
  "services.more (stw v a s) = services.more s"
  by (simp_all add: set_result_def cdvdUnlockS_def cdvdUnlockN_def sbios_unlock_def core_save_disable_def core_restore_def
      SifWriteBackDCache_def stw_def set_mutex_def Let_def)

lemma lock_more: "services.more (snd (cdvdLockS s)) = services.more s" "clients (snd (cdvdLockS s)) = clients s"
  by (simp_all add: cdvdLockS_def sbios_tryLock_def sbios_unlock_def core_save_disable_def core_restore_def set_mutex_def Let_def)

lemma request_more: "stage_request k carg s = Some (r, u) \<Longrightarrow> services.more u = services.more s"
  by (auto simp: stage_request_def Let_def split: if_splits dest!: call_more)

lemma call_more_servers:
  "SifCallRpc [] cd n SIF_RPC_M_NOWAIT sb ss rb rs ef ea s = Some (r, t) \<Longrightarrow>
     services.more t = services.more s \<and> (\<forall>c. cl_server (clients t c) = cl_server (clients s c))"
  using call_more(1) [of "[]" cd n sb ss rb rs ef ea s r t] nowait_servers(1) [OF nowait_1(1), of "[]" cd n sb ss rb rs ef ea s r t]
  by blast

lemma finish_more:
  assumes "finish_stage f res = Some (r, t)" "\<And>q u. res = Some (q, u) \<Longrightarrow> services.more u = m"
    "\<And>u. services.more (f u) = services.more u"
  shows "services.more t = m"
  using assms by (auto simp: finish_stage_def split: option.splits if_splits)

lemma init_inv:
  assumes "cdvd_notify notify" "cdvd_inv s" "sbcall_cdvdinit notify carg s = Some (r, t)"
  shows "cdvd_inv t \<and> cdvdInitCounter t = cdvdInitCounter s"
proof (cases "cdvdInitCounter s < 6")
  case False
  then have "deliver notify carg (set_result carg 0 s) = Some t"
    using assms(3) by (auto simp: sbcall_cdvdinit_def)
  then have "module_same s t" by (rule deliver_same [OF assms(1)]) (simp_all add: set_result_def)
  then show ?thesis using module_same_inv assms(2) by blast
next
  case True
  let ?k = "cdvdInitCounter s"
  have pl: "a_cdvdMutexS s \<noteq> 0" "a_cdvdMutexN s \<noteq> 0" "clients_distinct s" "bound_upto ?k s" "?k \<le> 6"
    using assms(2) by (simp_all add: cdvd_inv_def)
  note eq = sbcall_cdvdinit_eq [OF refl True pl(1,2), of notify carg]
  show ?thesis
  proof (cases "stage_free ?k s")
    case False
    then show ?thesis using eq assms(2,3) by simp
  next
    case free: True
    let ?b = "begin_stage ?k (set_mutex (stage_lock ?k s) (- 1) s)"
    have more: "services.more t = services.more ?b"
      by (rule finish_more [of "if ?k = 4 then cdvdUnlockN else cdvdUnlockS" "stage_request ?k carg ?b" r])
        (use eq free assms(3) request_more in auto)
    have sb: "served j ?b = served j s" for j by (simp add: served_def begin_stage_same)
    have b: "bound_upto ?k ?b" "cdvdInitCounter ?b = ?k" "a_cdvdMutexS ?b \<noteq> 0" "a_cdvdMutexN ?b \<noteq> 0" "clients_distinct ?b"
      using pl unfolding bound_upto_def sb
      by (auto simp: clients_distinct_def begin_stage_def set_initMode_def stw_def SifWriteBackDCache_def set_mutex_def)
    have "bound_upto ?k t"
      by (rule bound_kept [OF more _ b(1)]) (use stage_keeps [OF assms(3) refl True pl(1-3)] sb in blast)
    then show ?thesis
      using b(2-5) pl(5) cdvd_more [OF more] by (simp add: cdvd_inv_def clients_distinct_def)
  qed
qed

lemma callback_inv:
  assumes "cdvd_notify notify" "cdvd_inv s" "cdvdInitCallback notify carg s = Some t"
  shows "cdvd_inv t \<and> cdvdInitCounter s \<le> cdvdInitCounter t"
proof (cases "cdvdInitCounter s < 6")
  case False
  then have "deliver notify carg s = Some t" using assms(3) by (simp add: cdvdInitCallback_def)
  then show ?thesis using module_same_inv [OF deliver_same [OF assms(1)] assms(2)] by fastforce
next
  case True
  let ?k = "cdvdInitCounter s"
  have pl: "a_cdvdMutexS s \<noteq> 0" "a_cdvdMutexN s \<noteq> 0" "bound_upto ?k s" "clients_distinct s"
    using assms(2) by (simp_all add: cdvd_inv_def)
  note c = completed_facts [OF refl True, of carg]
  have "deliver notify carg (completed ?k carg s) = Some t" using callback_eq [OF refl True pl(1,2)] assms(3) by simp
  then have same: "module_same (completed ?k carg s) t" by (rule deliver_same [OF assms(1)]) simp_all
  have "cdvd_inv (completed ?k carg s)"
    using c(2,4,6) pl True by (simp add: cdvd_inv_def same_addresses_def clients_distinct_def)
  then show ?thesis using module_same_inv [OF same] c(4) by (simp split: if_splits)
qed

lemma reset_ready_same:
  "sbcall_cdvdreset carg s = Some (r, t) \<Longrightarrow> module_same s t"
  "sbcall_cdvdready carg s = Some (r, t) \<Longrightarrow> module_same s t"
proof -
  assume "sbcall_cdvdreset carg s = Some (r, t)"
  then obtain q where "SifCallRpc [] (a_clientInit (set_initMode s)) 0 SIF_RPC_M_NOWAIT (a_initMode (set_initMode s)) 4 0 0
      (a_cdResetCallback (set_initMode s)) carg (set_initMode s) = Some (q, t)"
    by (auto simp: sbcall_cdvdreset_def Let_def split: option.splits if_splits)
  from call_more(1) [OF this] nowait_servers(1) [OF nowait_1(1) this]
  have "services.more t = services.more s" "\<forall>c. cl_server (clients t c) = cl_server (clients s c)"
    by (simp_all add: set_initMode_def) (simp add: stw_def SifWriteBackDCache_def)
  then show "module_same s t" by (intro more_module_same keeps_bound_clients) simp_all
next
  assume r: "sbcall_cdvdready carg s = Some (r, t)"
  obtain q u where u: "cdvdLockS s = (q, u)" by fastforce
  have m: "services.more u = services.more s" "clients u = clients s" using lock_more [of s] u by simp_all
  have w: "clients (stw v a x) = clients x" "clients (SifWriteBackDCache a n x) = clients x" for v a n and x :: "'a cdvd_scheme"
    by (simp_all add: stw_def SifWriteBackDCache_def)
  have "services.more t = services.more u \<and> (\<forall>c. cl_server (clients t c) = cl_server (clients u c))"
    using r u by (auto simp: sbcall_cdvdready_def w Let_def split: option.splits if_splits
        dest!: call_more_servers)
  then show "module_same s t" using m by (intro more_module_same keeps_bound_clients) simp_all
qed

lemma done_same:
  assumes "cdvd_notify notify"
  shows "cdResetCallback notify carg s = Some t \<Longrightarrow> module_same s t"
    "cdDiskReadyCallback notify carg s = Some t \<Longrightarrow> module_same s t"
  using deliver_same [OF assms, of carg "set_result carg 0 s" t s]
    deliver_same [OF assms, of carg "cdvdUnlockS (set_result carg (ldw (KSEG1ADDR (a_sCmdRecvBuff s)) s) s)" t s]
  by (auto simp: cdResetCallback_def cdDiskReadyCallback_def set_result_def Let_def)

lemma step_inv:
  assumes "cdvd_notify notify" "cdvd_inv s" "cdvd_step notify s t"
  shows "cdvd_inv t \<and> cdvdInitCounter s \<le> cdvdInitCounter t"
  using assms(3)
proof (cases rule: cdvd_step.cases)
  case (init carg r)
  then show ?thesis using init_inv [OF assms(1,2)] by fastforce
next
  case (init_done carg)
  then show ?thesis using callback_inv [OF assms(1,2)] by blast
qed (use module_same_inv [OF _ assms(2)] reset_ready_same done_same [OF assms(1)] in \<open>metis order_refl\<close>)+

text \<open>
  C16. From power on (counter 0), after any sequence of initialisation calls, callbacks, resets, readiness
  queries and their completions, and of other activity that does not unbind the clients of this module, the counter is
  at most 6 and never goes back, and for every stage it has passed that binds a server the flag of the stage is cleared
  and its client has a server: a client without one is never taken for bound.
\<close>

theorem cdvd_bound_in_order:
  fixes s :: "'a cdvd_scheme"
  assumes "good_notify notify" "\<forall>f a r s t. notify f a r s = Some t \<longrightarrow> keeps_bound s t"
    and "cdvdInitCounter s = 0" "a_cdvdMutexS s \<noteq> 0" "a_cdvdMutexN s \<noteq> 0" "clients_distinct s"
    and "(cdvd_step notify)\<^sup>*\<^sup>* s t" "(cdvd_step notify)\<^sup>*\<^sup>* t u"
  shows "cdvdInitCounter u \<le> 6 \<and> cdvdInitCounter t \<le> cdvdInitCounter u \<and> bound_upto (cdvdInitCounter u) u
    \<and> (1 \<le> cdvdInitCounter u \<longrightarrow> cl_server (clients u (a_clientInit u)) \<noteq> 0)
    \<and> (2 \<le> cdvdInitCounter u \<longrightarrow> cl_server (clients u (a_clientSearchFile u)) \<noteq> 0)
    \<and> (3 \<le> cdvdInitCounter u \<longrightarrow> cl_server (clients u (a_clientDiskReady u)) \<noteq> 0)
    \<and> (5 \<le> cdvdInitCounter u \<longrightarrow> cl_server (clients u (a_clientNCmd u)) \<noteq> 0)
    \<and> (6 \<le> cdvdInitCounter u \<longrightarrow> cl_server (clients u (a_clientSCmd u)) \<noteq> 0)"
proof -
  have n: "cdvd_notify notify" using assms(1,2) by (simp add: cdvd_notify_def)
  have run: "cdvd_inv y \<and> cdvdInitCounter x \<le> cdvdInitCounter y" if "(cdvd_step notify)\<^sup>*\<^sup>* x y" "cdvd_inv x" for x y
    using that by (induction rule: rtranclp_induct) (auto dest: step_inv [OF n])
  have "cdvd_inv s" using assms(3-6) by (simp add: cdvd_inv_def bound_upto_def)
  then have u: "cdvd_inv u" "cdvdInitCounter t \<le> cdvdInitCounter u" using run [OF assms(7)] run [OF assms(8)] by simp_all
  have sv: "served k u" if "k < cdvdInitCounter u" for k using u(1) that by (simp add: cdvd_inv_def bound_upto_def)
  show ?thesis
    using u sv [of 0] sv [of 1] sv [of 2] sv [of 4] sv [of 5]
    by (simp add: cdvd_inv_def served_def stage_client_def Suc_le_eq eval_nat_numeral)
qed

section \<open>Witnesses\<close>

definition sample_cdvd :: cdvd where
  "sample_cdvd = ncmd.extend (sample_ncmd\<lparr>clients := \<lambda>_. sample_client\<lparr>cl_server := 7, cl_pkt_addr := 0\<rparr>\<rparr>)
     (cdvd.fields 0 (- 1) (- 1) (- 1) 0x80614000 0x80615000 0x80616000 0x80662500 0x80662600 21 22 23)"

text \<open>An IOP that answers at once.\<close>

definition sample_iop :: "cdvd \<Rightarrow> cdvd" where
  "sample_iop s = sifrpc.extend (sifrpc.truncate sample_cdvd) (sifrpc.more s)"

lemma sample_cdvd_facts:
  "rpc_ready sample_cdvd" "clients sample_cdvd cd = sample_client\<lparr>cl_server := 7, cl_pkt_addr := 0\<rparr>" "cdvdInitCounter sample_cdvd = 0"
  "unat (sif_get_number_of_free_dma_tags sample_cdvd) = 28" "cmd_tags 0 = 1" "cmd_tags 4 = 2" "\<not> pkt_allocated sample_cdvd 1"
  "rd_pkt_table sample_cdvd = 0xa0700000" "a_initMode sample_cdvd = 0x80662600" "a_cdvdMutexS sample_cdvd = 0x80661000"
  "a_cdvdMutexN sample_cdvd = 0x80661004" "mutexes sample_cdvd m = 0"
  "clients_distinct sample_cdvd"
proof -
  show "clients sample_cdvd cd = sample_client\<lparr>cl_server := 7, cl_pkt_addr := 0\<rparr>" "mutexes sample_cdvd m = 0"
    by (simp_all add: sample_cdvd_def ncmd.defs sample_ncmd_def scmd.defs sample_scmd_def services.defs sifrpc.defs)
qed (code_simp+)

lemma sample_cdvd_free: "\<not> rpc_busy cd (stage_size k) sample_cdvd"
proof -
  have "1 \<notin> pkts_used sample_cdvd" "1 \<in> {..<32 :: nat}" using sample_cdvd_facts(7) by (simp_all add: pkts_used_def)
  then have "pkts_used sample_cdvd \<noteq> {..<32}" by metis
  then show ?thesis unfolding rpc_busy_def stage_size_def using sample_cdvd_facts(2,4-6) by simp
qed

lemma sample_cdvd_status: "SifCheckStatRpc cd sample_cdvd = 0"
  by (simp add: SifCheckStatRpc_def sample_cdvd_facts(2) Let_def)

lemma sample_cdvd_idle: "cdvd_idle sample_cdvd"
  unfolding cdvd_idle_def rpc_idle_def cdvd_placed_def
  using sample_cdvd_facts(1,8-13) sample_cdvd_free sample_cdvd_status off_tableI [of "0x80662600" "0xa0700000"]
  by (simp add: PHYSADDR_def)

lemma sample_iop_answers: "iop_answers (rd_pkt_table sample_cdvd) sample_iop"
proof -
  have t: "sifrpc.truncate (sample_iop s) = sifrpc.truncate sample_cdvd" "sifrpc.more (sample_iop s) = sifrpc.more s" for s
    by (simp_all add: sample_iop_def sifrpc.defs)
  show ?thesis
    unfolding iop_answers_def rpc_idle_def served_def
    using truncate_rpc [OF t(1)] t(2) sample_cdvd_facts(1,2) sample_cdvd_free sample_cdvd_status by simp
qed


theorem cdvd_bound_in_order_witness:
  "\<exists>u. (cdvd_step (\<lambda>_ _ _ t. Some t))\<^sup>*\<^sup>* sample_cdvd u \<and> cdvdInitCounter u = 1 \<and> bindInit u = 0
     \<and> cl_server (clients u (a_clientInit u)) \<noteq> 0"
proof -
  let ?n = "\<lambda>_ _ _ t. Some t" and ?u = "completed 0 0x80651000 sample_cdvd"
  have mx: "a_cdvdMutexS sample_cdvd \<noteq> 0" "a_cdvdMutexN sample_cdvd \<noteq> 0" using sample_cdvd_facts(10,11) by simp_all
  have "cdvdInitCallback ?n 0x80651000 sample_cdvd = Some ?u"
    using callback_eq [OF sample_cdvd_facts(3) _ mx] by (simp add: deliver_def)
  then have step: "(cdvd_step ?n)\<^sup>*\<^sup>* sample_cdvd ?u" by (intro r_into_rtranclp cdvd_step.init_done)
  have "cdvdInitCounter ?u = 1"
    using completed_facts(4) [OF sample_cdvd_facts(3)] sample_cdvd_facts(2) by (simp add: served_def)
  moreover have "good_notify ?n" "\<forall>f a r s t. ?n f a r s = Some t \<longrightarrow> keeps_bound s t"
    by (simp_all add: good_notify_def keeps_bound_def)
  ultimately show ?thesis
    using step cdvd_bound_in_order [OF _ _ sample_cdvd_facts(3) mx sample_cdvd_facts(13) step rtranclp.rtrancl_refl]
    by (auto simp: bound_upto_def)
qed

end
