(* ===== verification/Printf.thy ===== *)
theory Printf
  imports Prelude
begin

text \<open>
  The formatted output of the SBIOS and of the kernel (\<open>TGE/sbios/snprintf.c\<close>, of which
  \<open>kernel/snprintf.c\<close> is a copy, and the buffering of \<open>printf\<close>).

  The format string is the list of its characters before the terminating NUL, the variable
  arguments are a list of typed values, and the buffer is the list of characters stored so far.
  \<open>None\<close> stands for undefined behaviour: an argument that is missing or of the wrong type, or a
  read behind the end of the format string.
\<close>

section \<open>Model\<close>

datatype va_arg = Va_str string | Va_int u32

definition digit :: "u32 \<Rightarrow> char" where
  "digit u = char_of (48 + unat u)"

text \<open>\<open>hexmap\<close>.\<close>

definition hexmap :: "u32 \<Rightarrow> char" where
  "hexmap u = ''0123456789abcdef'' ! unat u"

text \<open>\<open>while(l && *t) *b++ = *t++, l--\<close>.\<close>

fun put_str :: "nat \<Rightarrow> string \<Rightarrow> string \<Rightarrow> nat \<times> string" where
  "put_str l [] b = (l, b)"
| "put_str l (c # t) b = (if l = 0 then (l, b) else put_str (l - 1) t (b @ [c]))"

text \<open>The loop that stores eight hexadecimal digits from the last to the first.\<close>

fun hex_digits :: "nat \<Rightarrow> u32 \<Rightarrow> string \<Rightarrow> string" where
  "hex_digits 0 u acc = acc"
| "hex_digits (Suc i) u acc = hex_digits i (drop_bit 4 u) (hexmap (u AND 0x0F) # acc)"

text \<open>The loop that fills \<open>d[10]\<close> from its end; the first argument is the number of free places.\<close>

fun dec_digits :: "nat \<Rightarrow> u32 \<Rightarrow> string \<Rightarrow> string" where
  "dec_digits 0 u acc = acc"
| "dec_digits (Suc i) u acc =
     (let acc = digit (u mod 10) # acc;
          u = u div 10
      in if u \<noteq> 0 \<and> i > 0 then dec_digits i u acc else acc)"

text \<open>\<open>while(++i < 10) { *b++ = d[i]; if(!(--l)) break; }\<close>.\<close>

fun put_digits :: "nat \<Rightarrow> string \<Rightarrow> string \<Rightarrow> nat \<times> string" where
  "put_digits l [] b = (l, b)"
| "put_digits l (c # ds) b =
     (let b = b @ [c]; l = l - 1 in if l = 0 then (l, b) else put_digits l ds b)"

definition put_unsigned :: "nat \<Rightarrow> u32 \<Rightarrow> string \<Rightarrow> nat \<times> string" where
  "put_unsigned l u b = put_digits l (dec_digits 10 u []) b"

definition put_signed :: "nat \<Rightarrow> u32 \<Rightarrow> string \<Rightarrow> nat \<times> string" where
  "put_signed l n b =
     (if sint n < 0 then
        let u = - n; b = b @ [CHR ''-'']; l = l - 1
        in if l = 0 then (l, b) else put_unsigned l u b
      else put_unsigned l n b)"

text \<open>
  The conversions but \<open>%c\<close>: remaining arguments, room and buffer. \<open>%c\<close> is in the loop because it
  advances the format string once more.
\<close>

definition convert :: "char \<Rightarrow> va_arg list \<Rightarrow> nat \<Rightarrow> string \<Rightarrow> (va_arg list \<times> nat \<times> string) option" where
  "convert k args l b =
     (if k = CHR ''s'' then
        (case args of Va_str t # args \<Rightarrow> (case put_str l t b of (l, b) \<Rightarrow> Some (args, l, b)) | _ \<Rightarrow> None)
      else if k = CHR ''x'' then
        (if l < 8 then Some (args, 0, b)
         else (case args of Va_int u # args \<Rightarrow> Some (args, l - 8, b @ hex_digits 8 u []) | _ \<Rightarrow> None))
      else if k = CHR ''d'' then
        (case args of Va_int n # args \<Rightarrow> (case put_signed l n b of (l, b) \<Rightarrow> Some (args, l, b)) | _ \<Rightarrow> None)
      else if k = CHR ''u'' then
        (case args of Va_int u # args \<Rightarrow> (case put_unsigned l u b of (l, b) \<Rightarrow> Some (args, l, b)) | _ \<Rightarrow> None)
      else if k = CHR ''X'' then
        (if l < 2 then Some (args, 0, b)
         else (case args of
                 Va_int n # args \<Rightarrow>
                   Some (args, l - 2, b @ [hexmap (drop_bit 4 (n AND 0xF0)), hexmap (n AND 0x0F)])
               | _ \<Rightarrow> None))
      else Some (args, l, b @ [k]))"

fun vsn_loop :: "string \<Rightarrow> va_arg list \<Rightarrow> nat \<Rightarrow> string \<Rightarrow> (nat \<times> string) option" where
  "vsn_loop [] args l b = Some (l, b)"
| "vsn_loop (c # fmt) args l b =
     (if l = 0 then Some (l, b)
      else if c = CHR ''%'' then
        let l = l - 1
        in if l = 0 then Some (l, b)
           else (case fmt of
                   [] \<Rightarrow> None
                 | k # fmt \<Rightarrow>
                     (if k = CHR ''c'' then
                        (case args of
                           Va_int n # args \<Rightarrow>
                             let b = b @ [char_of (unat n)]; l = l - 1
                             in (case fmt of
                                   [] \<Rightarrow> (if l = 0 then Some (l, b) else None)
                                 | _ # fmt \<Rightarrow> vsn_loop fmt args l b)
                         | _ \<Rightarrow> None)
                      else (case convert k args l b of
                              None \<Rightarrow> None
                            | Some (args, l, b) \<Rightarrow> vsn_loop fmt args l b)))
      else vsn_loop fmt args (l - 1) (b @ [c]))"

text \<open>Result and the characters stored, the terminator included.\<close>

definition vsnprintf :: "int \<Rightarrow> string \<Rightarrow> va_arg list \<Rightarrow> (int \<times> string) option" where
  "vsnprintf len fmt args =
     (if len < 1 then Some (0, [])
      else (case vsn_loop fmt args (nat len) [] of
              None \<Rightarrow> None
            | Some (l, b) \<Rightarrow> Some (len - int l, b @ [CHR 0x00])))"

definition snprintf :: "int \<Rightarrow> string \<Rightarrow> va_arg list \<Rightarrow> (int \<times> string) option" where
  "snprintf len fmt args = vsnprintf len fmt args"

text \<open>\<open>printf\<close> formats into a buffer of 256 characters and sends the string in it to the console.\<close>

definition MAX_BUFFER :: int where "MAX_BUFFER = 256"

fun sio_prints :: "string \<Rightarrow> string" where
  "sio_prints [] = []"
| "sio_prints (c # text) = (if c = CHR ''\<newline>'' then [CHR 0x0D] else []) @ [c] @ sio_prints text"

definition printf :: "string \<Rightarrow> va_arg list \<Rightarrow> (int \<times> string) option" where
  "printf format varg =
     (case vsnprintf MAX_BUFFER format varg of
        None \<Rightarrow> None
      | Some (ret, buffer) \<Rightarrow> Some (ret, sio_prints (cstr buffer)))"

section \<open>Room\<close>

text \<open>What is stored and the room left never add up to more than the length asked for.\<close>

lemma put_str_room: "put_str l t b = (l', b') \<Longrightarrow> length b' + l' = length b + l"
  by (induction l t b rule: put_str.induct) (auto split: if_splits)

lemma put_digits_room: "0 < l \<Longrightarrow> put_digits l ds b = (l', b') \<Longrightarrow> length b' + l' = length b + l"
  by (induction l ds b rule: put_digits.induct) (auto simp: Let_def split: if_splits)

lemma put_unsigned_room: "0 < l \<Longrightarrow> put_unsigned l u b = (l', b') \<Longrightarrow> length b' + l' = length b + l"
  unfolding put_unsigned_def by (rule put_digits_room)

lemma put_signed_room:
  assumes "0 < l" "put_signed l n b = (l', b')"
  shows "length b' + l' = length b + l"
proof -
  consider "put_unsigned l n b = (l', b')" | "l = 1" "(l', b') = (0, b @ [CHR ''-''])"
    | "0 < l - 1" "put_unsigned (l - 1) (- n) (b @ [CHR ''-'']) = (l', b')"
    using assms by (auto simp: put_signed_def Let_def split: if_splits)
  then show ?thesis
  proof cases
    case 3
    then show ?thesis using put_unsigned_room [OF 3] by simp
  qed (use assms(1) put_unsigned_room in auto)
qed

lemma length_hex_digits [simp]: "length (hex_digits n u acc) = n + length acc"
  by (induction n u acc rule: hex_digits.induct) auto

lemma convert_room:
  assumes "0 < l" "convert k args l b = Some (args', l', b')"
  shows "length b' + l' \<le> Suc (length b + l)"
proof -
  consider t where "put_str l t b = (l', b')" | n where "put_signed l n b = (l', b')"
    | u where "put_unsigned l u b = (l', b')" | "length b' + l' \<le> Suc (length b + l)"
    using assms by (auto simp: convert_def split: if_splits list.splits va_arg.splits prod.splits)
  then show ?thesis
    using put_str_room put_signed_room [OF assms(1)] put_unsigned_room [OF assms(1)] by cases fastforce+
qed

lemma vsn_loop_cases [consumes 1, case_names stop plain char_end char conversion]:
  assumes "vsn_loop (c # fmt) args l b = Some r"
  obtains (stop) l' where "r = (l', b)" "l' \<le> l"
    | (plain) "0 < l" "c \<noteq> CHR ''%''" "vsn_loop fmt args (l - 1) (b @ [c]) = Some r"
    | (char_end) n where "1 < l" "r = (0, b @ [char_of (unat (n :: u32))])"
    | (char) n k fmt' args' where "1 < l" "fmt = CHR ''c'' # k # fmt'"
        "vsn_loop fmt' args' (l - 2) (b @ [char_of (unat (n :: u32))]) = Some r"
    | (conversion) k fmt' args' l' b' where "1 < l" "fmt = k # fmt'"
        "convert k args (l - 1) b = Some (args', l', b')" "vsn_loop fmt' args' l' b' = Some r"
proof (cases "l \<le> 1 \<or> c \<noteq> CHR ''%''")
  case True
  then show thesis using assms that(1,2) by (auto simp: Let_def split: if_splits)
next
  case False
  then obtain k fmt' where k: "fmt = k # fmt'" using assms by (cases fmt) (auto simp: Let_def)
  show thesis
  proof (cases "k = CHR ''c''")
    case True
    then obtain n args' where n: "args = Va_int n # args'"
      using assms False k by (auto simp: Let_def split: list.splits va_arg.splits)
    show thesis
    proof (cases fmt')
      case Nil
      then show thesis using assms False k True n that(3) [of n] by (auto simp: Let_def split: if_splits)
    next
      case (Cons k' fmt'')
      then show thesis
        using assms False k True n that(4) [of k' fmt'' args' n] by (auto simp: Let_def numeral_2_eq_2)
    qed
  next
    case other: False
    then show thesis
      using assms False k that(5) [OF _ k] by (auto simp: Let_def split: option.splits)
  qed
qed

lemma vsn_loop_room: "vsn_loop fmt args l b = Some (l', b') \<Longrightarrow> length b' + l' \<le> length b + l"
proof (induction fmt arbitrary: args l b rule: length_induct)
  case (1 fmt)
  show ?case
  proof (cases fmt)
    case Nil
    then show ?thesis using 1 by simp
  next
    case (Cons c fmt1)
    have "vsn_loop (c # fmt1) args l b = Some (l', b')" using 1 Cons by simp
    then show ?thesis
    proof (cases rule: vsn_loop_cases)
      case (stop l'')
      then show ?thesis by simp
    next
      case plain
      then have "length b' + l' \<le> length (b @ [c]) + (l - 1)" using 1(1) Cons by (metis length_Cons lessI)
      then show ?thesis using plain(1) by simp
    next
      case (char_end n)
      then show ?thesis by simp
    next
      case (char n k fmt' args')
      then have "length fmt' < length fmt" using Cons by simp
      then have "length b' + l' \<le> length (b @ [char_of (unat n)]) + (l - 2)" using 1(1) char(3) by blast
      then show ?thesis using char(1) by simp
    next
      case (conversion k fmt' args' l'' b'')
      then have "length fmt' < length fmt" using Cons by simp
      then have "length b' + l' \<le> length b'' + l''" using 1(1) conversion(4) by blast
      moreover have "length b'' + l'' \<le> Suc (length b + (l - 1))" using convert_room [OF _ conversion(3)] conversion(1) by simp
      ultimately show ?thesis using conversion(1) by simp
    qed
  qed
qed

text \<open>
  C36. Whatever the format and the arguments, \<open>vsnprintf\<close> stores at most \<open>len\<close> characters and then
  the terminator; a text of \<open>len\<close> or more plain characters fills the buffer and puts the terminator at
  index \<open>len\<close>, one behind a buffer of that size.
\<close>

theorem vsnprintf_room:
  assumes "1 \<le> len"
  shows "(\<forall>ret s. vsnprintf len fmt args = Some (ret, s) \<longrightarrow>
      length s \<le> nat len + 1 \<and> last s = CHR 0x00 \<and> 0 \<le> ret \<and> ret \<le> len)
    \<and> (list_all (\<lambda>c. c \<noteq> CHR ''%'') fmt \<and> nat len \<le> length fmt \<longrightarrow>
      vsnprintf len fmt args = Some (len, take (nat len) fmt @ [CHR 0x00]))"
proof (intro conjI allI impI)
  fix ret s
  assume "vsnprintf len fmt args = Some (ret, s)"
  then obtain l b where lb: "vsn_loop fmt args (nat len) [] = Some (l, b)" "ret = len - int l" "s = b @ [CHR 0x00]"
    using assms by (auto simp: vsnprintf_def split: option.splits)
  then show "length s \<le> nat len + 1" "last s = CHR 0x00" "0 \<le> ret" "ret \<le> len"
    using vsn_loop_room [OF lb(1)] assms by auto
next
  have "vsn_loop fmt args l b = Some (0, b @ take l fmt)"
    if "list_all (\<lambda>c. c \<noteq> CHR ''%'') fmt" "l \<le> length fmt" for l b
    using that by (induction fmt arbitrary: l b) (auto simp: take_Cons')
  then show "list_all (\<lambda>c. c \<noteq> CHR ''%'') fmt \<and> nat len \<le> length fmt \<Longrightarrow>
      vsnprintf len fmt args = Some (len, take (nat len) fmt @ [CHR 0x00])"
    using assms by (simp add: vsnprintf_def)
qed

theorem vsnprintf_room_witness:
  "vsnprintf 4 ''abcdef'' [] = Some (4, ''abcd'' @ [CHR 0x00])
    \<and> length (snd (the (vsnprintf 4 ''abcdef'' []))) \<le> 5 \<and> fst (the (vsnprintf 4 ''abcdef'' [])) \<le> 4"
  using vsnprintf_room [of 4 "''abcdef''" "[]"] by simp

section \<open>Rendering\<close>

text \<open>
  A format string with its arguments, piece by piece, and the text each piece stands for. \<open>Chr\<close> carries
  the character of the format string behind \<open>%c\<close>, which the code skips.
\<close>

datatype piece = Text char | Percent | Str string | Chr u32 char | Hex u32 | Dec u32 | Uns u32 | Byte u32

fun piece_fmt :: "piece \<Rightarrow> string" where
  "piece_fmt (Text c) = [c]"
| "piece_fmt Percent = ''%%''"
| "piece_fmt (Str t) = ''%s''"
| "piece_fmt (Chr n k) = ''%c'' @ [k]"
| "piece_fmt (Hex u) = ''%x''"
| "piece_fmt (Dec n) = ''%d''"
| "piece_fmt (Uns u) = ''%u''"
| "piece_fmt (Byte n) = ''%X''"

fun piece_args :: "piece \<Rightarrow> va_arg list" where
  "piece_args (Text c) = []"
| "piece_args Percent = []"
| "piece_args (Str t) = [Va_str t]"
| "piece_args (Chr n k) = [Va_int n]"
| "piece_args (Hex u) = [Va_int u]"
| "piece_args (Dec n) = [Va_int n]"
| "piece_args (Uns u) = [Va_int u]"
| "piece_args (Byte n) = [Va_int n]"

fun decimal :: "nat \<Rightarrow> string" where
  "decimal n = (if n < 10 then [char_of (48 + n)] else decimal (n div 10) @ [char_of (48 + n mod 10)])"

declare decimal.simps [simp del]

definition hexadecimal :: "nat \<Rightarrow> nat \<Rightarrow> string" where
  "hexadecimal k n = map (\<lambda>i. ''0123456789abcdef'' ! (n div 16 ^ i mod 16)) (rev [0..<k])"

fun render :: "piece \<Rightarrow> string" where
  "render (Text c) = [c]"
| "render Percent = ''%''"
| "render (Str t) = t"
| "render (Chr n k) = [char_of (unat n)]"
| "render (Hex u) = hexadecimal 8 (unat u)"
| "render (Dec n) = (if sint n < 0 then CHR ''-'' # decimal (nat (- sint n)) else decimal (nat (sint n)))"
| "render (Uns u) = decimal (unat u)"
| "render (Byte n) = hexadecimal 2 (unat n mod 256)"

text \<open>The room a piece takes: its text, and one more for a conversion.\<close>

fun cost :: "piece \<Rightarrow> nat" where
  "cost (Text c) = 1"
| "cost Percent = 1"
| "cost p = Suc (length (render p))"

text \<open>Eight, two and up to ten digits are the digits of the number.\<close>

lemma hexadecimal_Suc:
  "hexadecimal (Suc k) n = hexadecimal k (n div 16) @ [''0123456789abcdef'' ! (n mod 16)]"
proof -
  have "rev [0..<Suc k] = map Suc (rev [0..<k]) @ [0]"
    by (simp add: rev_map [symmetric] map_Suc_upt upt_conv_Cons del: upt_Suc)
  then show ?thesis by (simp add: hexadecimal_def div_mult2_eq comp_def)
qed

lemma hexmap_low: "hexmap (u AND 0x0F) = ''0123456789abcdef'' ! (unat u mod 16)"
proof -
  have "u AND 0x0F = take_bit 4 u" by (simp add: take_bit_eq_mask mask_eq_exp_minus_1)
  then have "u AND 0x0F = u mod 16" by (simp add: take_bit_eq_mod)
  then show ?thesis by (simp add: hexmap_def unat_mod_distrib)
qed

lemma hex_digits_eq: "hex_digits k u acc = hexadecimal k (unat u) @ acc"
proof (induction k arbitrary: u acc)
  case 0
  then show ?case by (simp add: hexadecimal_def)
next
  case (Suc k)
  have "unat (drop_bit 4 u) = unat u div 16" by (simp add: drop_bit_eq_div unat_div_distrib)
  then show ?case by (simp add: Suc hexmap_low hexadecimal_Suc)
qed

lemma dec_digits_eq: "unat u < 10 ^ k \<Longrightarrow> 0 < k \<Longrightarrow> dec_digits k u acc = decimal (unat u) @ acc"
proof (induction k arbitrary: u acc)
  case 0
  then show ?case by simp
next
  case (Suc k)
  have d: "unat (u div 10) = unat u div 10" "unat (u mod 10) = unat u mod 10"
    by (simp_all add: unat_div_distrib unat_mod_distrib)
  have lt: "unat (u div 10) < 10 ^ k" using Suc.prems d by (simp add: less_mult_imp_div_less mult.commute)
  show ?case
  proof (cases "unat u < 10")
    case True
    then have "u div 10 = 0" using d by (metis div_less unat_0 word_unat_eq_iff)
    then show ?thesis using True d by (simp add: decimal.simps digit_def)
  next
    case False
    then have "u div 10 \<noteq> 0" "0 < k" using d lt by (auto simp: unat_eq_0 [symmetric] intro: gr0I)
    then show ?thesis
      using False Suc.IH [OF lt] d decimal.simps [of "unat u"] by (simp add: digit_def)
  qed
qed

lemma dec_digits_u32: "dec_digits 10 u [] = decimal (unat (u :: u32))"
  using unsigned_less [where ?'a = nat, of u] dec_digits_eq [of u 10 "[]"] by simp

text \<open>With room to spare each conversion stores its text.\<close>

lemma put_str_fits: "length t \<le> l \<Longrightarrow> put_str l t b = (l - length t, b @ t)"
  by (induction t arbitrary: l b) auto

lemma put_digits_fits: "length ds < l \<Longrightarrow> put_digits l ds b = (l - length ds, b @ ds)"
  by (induction ds arbitrary: l b) (auto simp: Let_def)

lemma put_unsigned_fits:
  "length (decimal (unat u)) < l \<Longrightarrow> put_unsigned l u b = (l - length (decimal (unat u)), b @ decimal (unat u))"
  by (simp add: put_unsigned_def dec_digits_u32 put_digits_fits)

lemma nat_sint:
  fixes n :: u32
  shows "sint n < 0 \<Longrightarrow> unat (- n) = nat (- sint n)" "0 \<le> sint n \<Longrightarrow> unat n = nat (sint n)"
proof -
  have s: "sint n = (if uint n < 2 ^ 31 then uint n else uint n - 2 ^ 32)"
  proof (cases "uint n < 2 ^ 31")
    case False
    then have "(uint n + 2147483648) mod 4294967296 = uint n - 2147483648"
      using uint_lt2p [of n] minus_mod_self2 [of "uint n + 2147483648" "4294967296", symmetric] by simp
    then show ?thesis using False by (simp add: sint_uint signed_take_bit_eq_take_bit_shift take_bit_eq_mod)
  qed (simp add: sint_uint signed_take_bit_eq_take_bit_shift take_bit_eq_mod)
  show "unat (- n) = nat (- sint n)" if "sint n < 0"
  proof -
    have "uint (- n) = (- uint n) mod 2 ^ 32" using uint_word_ariths(4) [of n] by simp
    also have "\<dots> = (2 ^ 32 - uint n) mod 2 ^ 32" by (simp add: mod_diff_left_eq)
    also have "\<dots> = 2 ^ 32 - uint n"
      by (rule mod_pos_pos_trivial) (use that s uint_lt2p [of n] in \<open>auto split: if_splits\<close>)
    finally have "uint (- n) = - sint n" using that s by (simp split: if_splits)
    then have "nat (uint (- n)) = nat (- sint n)" by (rule arg_cong)
    then show ?thesis by simp
  qed
  show "unat n = nat (sint n)" if "0 \<le> sint n"
  proof -
    have "uint n = sint n" using that s uint_lt2p [of n] by (simp split: if_splits)
    then have "nat (uint n) = nat (sint n)" by (rule arg_cong)
    then show ?thesis by simp
  qed
qed

lemma put_signed_fits:
  "length (render (Dec n)) < l \<Longrightarrow> put_signed l n b = (l - length (render (Dec n)), b @ render (Dec n))"
  using nat_sint [of n] by (auto simp: put_signed_def Let_def put_unsigned_fits)

lemma unat_byte:
  "hexmap (drop_bit 4 (n AND 0xF0)) = ''0123456789abcdef'' ! (unat (n :: u32) mod 256 div 16)"
proof -
  have "drop_bit 4 (n AND 0xF0) = drop_bit 4 n AND 0x0F"
    by (simp add: drop_bit_and)
  moreover have "unat n div 16 mod 16 = unat n mod 256 div 16" using mod_mult2_eq [of "unat n" 16 16] by simp
  ultimately show ?thesis by (simp add: hexmap_low drop_bit_eq_div unat_div_distrib)
qed

text \<open>The loop on one piece, with more room than the piece takes.\<close>

definition literal :: "piece \<Rightarrow> bool" where
  "literal p = (case p of Text c \<Rightarrow> c \<noteq> CHR ''%'' | _ \<Rightarrow> True)"

lemma vsn_loop_piece:
  assumes "literal p" "cost p < l"
  shows "vsn_loop (piece_fmt p @ fmt) (piece_args p @ args) l b = vsn_loop fmt args (l - cost p) (b @ render p)"
proof (cases p)
  case (Byte n)
  have "hexadecimal 2 (unat n mod 256) = [hexmap (drop_bit 4 (n AND 0xF0)), hexmap (n AND 0x0F)]"
    unfolding unat_byte hexmap_low by (simp add: hexadecimal_def upt_rec mod_mod_cancel)
  then show ?thesis using assms Byte by (auto simp: Let_def convert_def)
next
  case (Dec n)
  then show ?thesis
    using assms put_signed_fits [of n "l - 1" b] by (simp add: Let_def convert_def del: render.simps)
next
  case (Hex u)
  then show ?thesis using assms hex_digits_eq [of 8 u "[]"] by (auto simp: Let_def convert_def hexadecimal_def)
qed (use assms in \<open>auto simp: Let_def convert_def literal_def put_str_fits put_unsigned_fits\<close>)

lemma vsn_loop_pieces:
  "list_all literal ps \<Longrightarrow> sum_list (map cost ps) < l \<Longrightarrow>
    vsn_loop (concat (map piece_fmt ps)) (concat (map piece_args ps)) l b
      = Some (l - sum_list (map cost ps), b @ concat (map render ps))"
  by (induction ps arbitrary: l b) (simp_all add: vsn_loop_piece)



end
