(* ===== verification/Crc32.thy ===== *)
theory Crc32
  imports Prelude
begin

text \<open>
  The integrity check of the loader (\<open>loader/crc32check.c\<close>) and the tool that writes the
  expected values into the ELF file (\<open>tools/crc32gen/crc32gen.c\<close>). The loader works with
  two tables built once at run time; the tool works bit by bit. Both must compute the same
  function, and a changed byte must be noticed.
\<close>

section \<open>The bitwise reference of crc32gen\<close>

definition CRC32MASK :: u32 where "CRC32MASK = 0x04C11DB7"

definition gen_crc_bit :: "u8 \<Rightarrow> u32 \<Rightarrow> nat \<Rightarrow> u32" where
  "gen_crc_bit dat crc32 n =
     (let bit = ucast (drop_bit 31 crc32) :: u8;
          databit = drop_bit n dat AND 1
      in if bit \<noteq> databit then push_bit 1 crc32 XOR CRC32MASK else push_bit 1 crc32)"

definition gen_crc_byte :: "u32 \<Rightarrow> u8 \<Rightarrow> u32" where
  "gen_crc_byte crc32 dat = foldl (gen_crc_bit dat) crc32 [0..<8]"

definition gen_calc_crc :: "u8 list \<Rightarrow> u32" where
  "gen_calc_crc dat = foldl gen_crc_byte 0 dat"

section \<open>The table-driven version of the loader\<close>

record crc_state =
  crc_table :: "u32 list"
  crc_reverse :: "u8 list"
  crc_table_ready :: bool

definition table_bit :: "u32 \<Rightarrow> u32 \<times> u8 \<Rightarrow> nat \<Rightarrow> u32 \<times> u8" where
  "table_bit i cr n =
     (let (crc32, r) = cr;
          crc32 = (if crc32 AND 0x80000000 \<noteq> 0 then push_bit 1 crc32 XOR CRC32MASK
                   else push_bit 1 crc32);
          r = (if i AND push_bit n 1 \<noteq> 0 then r OR push_bit (7 - n) 1 else r)
      in (crc32, r))"

definition table_entry :: "nat \<Rightarrow> u32 \<times> u8" where
  "table_entry i = foldl (table_bit (of_nat i)) (push_bit 24 (of_nat i), 0) [0..<8]"

definition build_crc_table :: "crc_state \<Rightarrow> crc_state" where
  "build_crc_table st =
     (foldl (\<lambda>st i. let (crc32, r) = table_entry i
                    in st\<lparr>crc_table := (crc_table st)[i := crc32],
                          crc_reverse := (crc_reverse st)[i := r]\<rparr>)
        st [0..<256])\<lparr>crc_table_ready := True\<rparr>"

definition crc_step :: "crc_state \<Rightarrow> u32 \<Rightarrow> u8 \<Rightarrow> u32" where
  "crc_step st crc32 d =
     (let idx = ucast (drop_bit 24 crc32) XOR crc_reverse st ! unat d
      in push_bit 8 crc32 XOR crc_table st ! unat idx)"

definition calc_crc :: "u8 list \<Rightarrow> crc_state \<Rightarrow> u32 \<times> crc_state" where
  "calc_crc dat st =
     (let st = (if crc_table_ready st then st else build_crc_table st)
      in (foldl (crc_step st) 0 dat, st))"

section \<open>The check of the loaded sections\<close>

record crc32_section =
  sec_name :: string
  sec_crc :: u32
  sec_start :: u32
  sec_end :: u32
  sec_fileoffset :: u32

text \<open>The bytes from \<open>start\<close> up to \<open>end\<close>; none when the pointer difference is not positive.\<close>

definition section_bytes :: "(u32 \<Rightarrow> u8) \<Rightarrow> u32 \<Rightarrow> u32 \<Rightarrow> u8 list" where
  "section_bytes m start end' =
     (let size = sint (end' - start)
      in map (\<lambda>i. m (start + of_nat i)) [0..<nat size])"

fun crc32check :: "(u32 \<Rightarrow> u8) \<Rightarrow> crc32_section list \<Rightarrow> crc_state \<Rightarrow> int \<times> crc_state" where
  "crc32check m [] st = (0, st)"
| "crc32check m (c # cs) st =
     (let (crcvalue, st) = calc_crc (section_bytes m (sec_start c) (sec_end c)) st
      in if sec_crc c \<noteq> crcvalue then (- 1, st) else crc32check m cs st)"

section \<open>The shift register\<close>

text \<open>Shifts are reasoned about bit by bit and not as multiplications.\<close>

declare push_bit_Suc [simp del] push_bit_of_1 [simp del]

definition shl1 :: "u32 \<Rightarrow> u32" where
  "shl1 x = push_bit 1 x"

definition crc_shift :: "u32 \<Rightarrow> u32" where
  "crc_shift c = (if bit c 31 then shl1 c XOR CRC32MASK else shl1 c)"

lemma bit_shl1 [simp]: "bit (shl1 x) n \<longleftrightarrow> n \<noteq> 0 \<and> n < 32 \<and> bit x (n - 1)"
  by (simp only: shl1_def bit_push_bit_iff) auto

lemma xor_cancel_right: "a XOR c = b XOR c \<longleftrightarrow> (a :: 'a :: len word) = b"
  by (metis xor.assoc xor_self_eq xor.right_neutral)

lemma crc_shift_xor: "crc_shift (a XOR b) = crc_shift a XOR crc_shift b"
proof -
  have "shl1 (a XOR b) = shl1 a XOR shl1 b"
    by (rule bit_word_eqI) (auto simp: bit_xor_iff)
  then show ?thesis by (auto simp: crc_shift_def bit_xor_iff ac_simps)
qed

lemma crc_shift_pow_xor: "(crc_shift ^^ n) (a XOR b) = (crc_shift ^^ n) a XOR (crc_shift ^^ n) b"
  by (induction n) (simp_all add: crc_shift_xor)

lemma inj_crc_shift: "inj crc_shift"
proof (rule injI)
  fix a b assume eq: "crc_shift a = crc_shift b"
  have "bit CRC32MASK 0" by code_simp
  then have "bit (crc_shift x) 0 \<longleftrightarrow> bit x 31" for x
    by (simp add: crc_shift_def bit_xor_iff)
  then have top: "bit a 31 = bit b 31" using eq by metis
  then have sh: "shl1 a = shl1 b"
    using eq by (auto simp: crc_shift_def xor_cancel_right split: if_splits)
  show "a = b"
  proof (rule bit_word_eqI)
    fix n assume n: "n < LENGTH(32)"
    have "bit (shl1 a) (Suc n) = bit (shl1 b) (Suc n)" using sh by simp
    then show "bit a n = bit b n"
      using n top by (cases "n = 31") simp_all
  qed
qed

lemma inj_crc_shift_pow: "inj (crc_shift ^^ n)"
  by (rule inj_fn [OF inj_crc_shift])

text \<open>While no bit reaches the top, the register only shifts.\<close>

lemma crc_shift_pow_low:
  assumes "k \<le> 32"
  shows "(crc_shift ^^ k) (take_bit (32 - k) x) = push_bit k x"
  using assms
proof (induction k arbitrary: x)
  case 0
  then show ?case by (simp add: take_bit_word_eq_self)
next
  case (Suc k)
  let ?y = "take_bit (32 - Suc k) x"
  have "take_bit (32 - k) ?y = ?y" by (simp add: min_def)
  then have "(crc_shift ^^ k) ?y = push_bit k ?y" using Suc.IH [of ?y] Suc.prems by simp
  moreover have "\<not> bit (push_bit k ?y) 31" by (simp add: bit_simps)
  moreover have "shl1 (push_bit k ?y) = push_bit (Suc k) x"
    by (rule bit_word_eqI) (use Suc.prems in \<open>auto simp: bit_simps\<close>)
  ultimately have "crc_shift ((crc_shift ^^ k) ?y) = push_bit (Suc k) x"
    by (simp only: crc_shift_def [of "push_bit k ?y"] if_False)
  then show ?case by simp
qed

section \<open>One byte\<close>

text \<open>The data bits in the order they enter the register, the lowest first into bit 31.\<close>

definition feed :: "nat \<Rightarrow> u8 \<Rightarrow> u32" where
  "feed k d = foldl (\<lambda>a n. a OR (if bit d n then push_bit (31 - n) 1 else 0)) 0 [0..<k]"

lemma bit_feed: "k \<le> 8 \<Longrightarrow> bit (feed k d) j \<longleftrightarrow> 32 - k \<le> j \<and> j < 32 \<and> bit d (31 - j)"
proof (induction k)
  case (Suc k)
  have "bit (if bit d k then push_bit (31 - k) 1 else 0 :: u32) j \<longleftrightarrow> j = 31 - k \<and> bit d k"
    using Suc.prems by (auto simp: bit_simps)
  then have "bit (feed (Suc k) d) j \<longleftrightarrow> bit (feed k d) j \<or> j = 31 - k \<and> bit d k"
    by (simp add: feed_def bit_or_iff)
  also have "\<dots> \<longleftrightarrow> 32 - Suc k \<le> j \<and> j < 32 \<and> bit d (31 - j)"
    using Suc by (cases "j = 31 - k") auto
  finally show ?case .
qed (simp add: feed_def)

lemma gen_crc_bit_shift:
  "gen_crc_bit d c n = crc_shift (c XOR (if bit d n then push_bit 31 1 else 0))"
proof -
  let ?b = "if bit d n then push_bit 31 1 else 0 :: u32"
  have "drop_bit 31 c = of_bool (bit c 31)"
  proof (rule bit_word_eqI)
    fix j
    show "bit (drop_bit 31 c) j = bit (of_bool (bit c 31) :: u32) j"
      by (cases j) (auto simp: bit_simps dest: bit_imp_le_length)
  qed
  moreover have "drop_bit n d AND 1 = of_bool (bit d n)"
    by (rule bit_word_eqI) (auto simp: bit_simps)
  moreover have "bit (c XOR ?b) 31 \<longleftrightarrow> bit c 31 \<noteq> bit d n"
    by (auto simp: bit_simps)
  moreover have "shl1 (c XOR ?b) = shl1 c"
    by (rule bit_word_eqI) (auto simp: bit_simps)
  ultimately show ?thesis
    by (auto simp: gen_crc_bit_def crc_shift_def shl1_def Let_def)
qed

lemma gen_crc_bits:
  "k \<le> 8 \<Longrightarrow> foldl (gen_crc_bit d) c [0..<k] = (crc_shift ^^ k) (c XOR feed k d)"
proof (induction k)
  case (Suc k)
  let ?b = "if bit d k then push_bit (31 - k) 1 else 0 :: u32"
  have "(crc_shift ^^ k) (push_bit (31 - k) 1) = push_bit 31 1"
  proof -
    have "take_bit (32 - k) (push_bit (31 - k) 1) = (push_bit (31 - k) 1 :: u32)"
      by (rule bit_word_eqI) (use Suc.prems in \<open>auto simp: bit_simps\<close>)
    then show ?thesis
      using crc_shift_pow_low [of k "push_bit (31 - k) 1"] Suc.prems by (simp add: push_bit_push_bit)
  qed
  then have "(crc_shift ^^ k) ?b = (if bit d k then push_bit 31 1 else 0)"
    using crc_shift_pow_low [of k 0] Suc.prems by simp
  moreover have "feed (Suc k) d = feed k d XOR ?b"
  proof (rule bit_word_eqI)
    fix j
    show "bit (feed (Suc k) d) j = bit (feed k d XOR ?b) j"
      using Suc.prems by (cases "j = 31 - k") (auto simp: bit_feed bit_simps)
  qed
  ultimately show ?case
    using Suc by (simp add: gen_crc_bit_shift crc_shift_pow_xor xor.assoc flip: funpow_swap1)
qed (simp add: feed_def)

lemma table_bits:
  assumes "k \<le> 8"
  shows "fst (foldl (table_bit i) (c, 0) [0..<k]) = (crc_shift ^^ k) c"
    "bit (snd (foldl (table_bit i) (c, 0) [0..<k])) j \<longleftrightarrow> 8 - k \<le> j \<and> j < 8 \<and> bit i (7 - j)"
proof -
  have "push_bit 31 1 = (0x80000000 :: u32)" by (simp add: push_bit_of_1)
  then have msb: "c AND 0x80000000 \<noteq> 0 \<longleftrightarrow> bit c 31" for c :: u32
    using bit_iff_and_push_bit_not_eq_0 [of c 31] by simp
  have tb: "i AND push_bit n 1 \<noteq> 0 \<longleftrightarrow> bit i n" for n
    by (simp add: bit_iff_and_push_bit_not_eq_0)
  show "fst (foldl (table_bit i) (c, 0) [0..<k]) = (crc_shift ^^ k) c"
    by (induction k) (simp_all add: table_bit_def crc_shift_def [of "(crc_shift ^^ _) c"] split_beta Let_def msb shl1_def)
  show "bit (snd (foldl (table_bit i) (c, 0) [0..<k])) j \<longleftrightarrow> 8 - k \<le> j \<and> j < 8 \<and> bit i (7 - j)"
    using assms
  proof (induction k)
    case (Suc k)
    then show ?case
      by (cases "j = 7 - k") (auto simp: table_bit_def tb split_beta Let_def bit_simps)
  qed simp
qed

section \<open>The tables\<close>

definition tables_valid :: "crc_state \<Rightarrow> bool" where
  "tables_valid st \<longleftrightarrow> (\<forall>i < 256. crc_table st ! i = fst (table_entry i)
     \<and> crc_reverse st ! i = snd (table_entry i))"

text \<open>The static arrays have 256 entries, and the flag is only set when they are filled.\<close>

definition crc_inv :: "crc_state \<Rightarrow> bool" where
  "crc_inv st \<longleftrightarrow> length (crc_table st) = 256 \<and> length (crc_reverse st) = 256
     \<and> (crc_table_ready st \<longrightarrow> tables_valid st)"

lemma build_crc_table_prefix:
  assumes "length (crc_table st) = 256" "length (crc_reverse st) = 256" "n \<le> 256"
  defines "st' \<equiv> foldl (\<lambda>st i. let (crc32, r) = table_entry i
       in st\<lparr>crc_table := (crc_table st)[i := crc32], crc_reverse := (crc_reverse st)[i := r]\<rparr>)
       st [0..<n]"
  shows "length (crc_table st') = 256 \<and> length (crc_reverse st') = 256
    \<and> (\<forall>i < n. crc_table st' ! i = fst (table_entry i) \<and> crc_reverse st' ! i = snd (table_entry i))"
  using assms(3) unfolding st'_def
proof (induction n)
  case 0
  then show ?case using assms(1,2) by simp
next
  case (Suc n)
  then show ?case by (auto simp: split_beta Let_def less_Suc_eq)
qed

lemma build_crc_table_inv:
  assumes "crc_inv st"
  shows "crc_inv (build_crc_table st)" "tables_valid (build_crc_table st)"
    "crc_table_ready (build_crc_table st)"
  using build_crc_table_prefix [of st 256] assms
  by (auto simp: build_crc_table_def crc_inv_def tables_valid_def)

text \<open>The table step is the bitwise step, byte by byte.\<close>

lemma feed_reverse: "feed 8 d = push_bit 24 (ucast (snd (table_entry (unat d))))"
proof (rule bit_word_eqI)
  fix j
  have "(of_nat (unat d) :: u32) = ucast d" by simp
  then show "bit (feed 8 d) j = bit (push_bit 24 (ucast (snd (table_entry (unat d)))) :: u32) j"
    by (auto simp: table_entry_def bit_feed bit_simps table_bits(2) simp del: upt_rec_numeral)
qed

lemma crc_split: "c = push_bit 24 (ucast (ucast (drop_bit 24 c) :: u8)) XOR take_bit 24 (c :: u32)"
  by (rule bit_word_eqI) (auto simp: bit_simps)

lemma crc_step_gen:
  assumes "tables_valid st"
  shows "crc_step st c d = gen_crc_byte c d"
proof -
  let ?r = "snd (table_entry (unat d))" and ?h = "ucast (drop_bit 24 c) :: u8"
  have lt: "unat d < 256" "unat (?h XOR ?r) < 256"
    using unsigned_less [of d] unsigned_less [of "?h XOR ?r"] by simp_all
  have "push_bit 24 (ucast (?h XOR ?r)) = push_bit 24 (ucast ?h) XOR feed 8 d"
    by (rule bit_word_eqI) (auto simp: feed_reverse bit_simps)
  then have c: "c XOR feed 8 d = push_bit 24 (ucast (?h XOR ?r)) XOR take_bit 24 c"
    using crc_split [of c] by (metis xor.assoc xor.commute)
  have "gen_crc_byte c d = (crc_shift ^^ 8) (push_bit 24 (ucast (?h XOR ?r))) XOR push_bit 8 c"
    unfolding gen_crc_byte_def gen_crc_bits [OF order_refl] c crc_shift_pow_xor
    using crc_shift_pow_low [of 8 c] by simp
  moreover have "crc_table st ! unat (?h XOR ?r) = (crc_shift ^^ 8) (push_bit 24 (ucast (?h XOR ?r)))"
    using assms lt(2) by (simp only: tables_valid_def table_entry_def table_bits(1) order_refl) simp
  moreover have "crc_reverse st ! unat d = ?r" using assms lt(1) by (simp add: tables_valid_def)
  ultimately show ?thesis
    by (simp only: crc_step_def Let_def xor.commute)
qed

lemma foldl_crc_step:
  "tables_valid st \<Longrightarrow> foldl (crc_step st) c ds = foldl gen_crc_byte c ds"
  by (induction ds arbitrary: c) (simp_all add: crc_step_gen)

lemma calc_crc_gen:
  assumes "crc_inv st"
  shows "fst (calc_crc ds st) = gen_calc_crc ds" "crc_inv (snd (calc_crc ds st))"
  using assms build_crc_table_inv [OF assms]
  by (auto simp: calc_crc_def gen_calc_crc_def Let_def foldl_crc_step crc_inv_def)

section \<open>Error detection\<close>

text \<open>
  A running checksum whose step loses no information: every input of a window of \<open>w\<close>
  symbols leads to its own register value. What follows from that alone is that two
  messages that differ only inside one window have different checksums.
\<close>

locale running_checksum =
  fixes step :: "'s \<Rightarrow> 'b \<Rightarrow> 's" and w :: nat
  assumes step_inj: "step c b = step c' b \<Longrightarrow> c = c'"
    and window_inj: "length bs = length bs' \<Longrightarrow> length bs \<le> w \<Longrightarrow>
      foldl step c bs = foldl step c bs' \<Longrightarrow> bs = bs'"
begin

lemma foldl_step_inj: "foldl step c bs = foldl step c' bs \<Longrightarrow> c = c'"
  by (induction bs arbitrary: c c') (auto dest: step_inj)

lemma burst_detected:
  assumes "length bs = length bs'" "length bs \<le> w" "bs \<noteq> bs'"
  shows "foldl step c (xs @ bs @ ys) \<noteq> foldl step c (xs @ bs' @ ys)"
  using assms window_inj foldl_step_inj by (metis foldl_append)

end

text \<open>A window of at most four bytes enters the register as one word.\<close>

fun packed :: "u8 list \<Rightarrow> u32" where
  "packed [] = 0"
| "packed (b # bs) = feed 8 b XOR drop_bit 8 (packed bs)"

lemma bit_packed:
  "j < 32 \<Longrightarrow> bit (packed bs) (31 - j) \<longleftrightarrow> j div 8 < length bs \<and> bit (bs ! (j div 8)) (j mod 8)"
proof (induction bs arbitrary: j)
  case (Cons b bs)
  show ?case
  proof (cases "j < 8")
    case True
    then have "\<not> bit (packed bs) (8 + (31 - j))"
      by (auto dest: bit_imp_le_length)
    with True show ?thesis by (auto simp: bit_simps bit_feed)
  next
    case False
    then obtain i where i: "j = i + 8" by (metis add.commute le_add_diff_inverse not_less)
    then have "8 + (31 - j) = 31 - i" using Cons.prems by simp
    then have "bit (packed (b # bs)) (31 - j) \<longleftrightarrow> bit (packed bs) (31 - i)"
      using False Cons.prems i by (auto simp: bit_simps bit_feed)
    moreover have "j div 8 = Suc (i div 8)" "j mod 8 = i mod 8" by (simp_all add: i div_add_self2)
    ultimately show ?thesis using Cons.IH [of i] Cons.prems i by simp
  qed
qed simp

lemma packed_inj:
  assumes "packed bs = packed bs'" "length bs = length bs'" "length bs \<le> 4"
  shows "bs = bs'"
proof (rule nth_equalityI)
  fix k assume k: "k < length bs"
  show "bs ! k = bs' ! k"
  proof (rule bit_word_eqI)
    fix n assume "n < LENGTH(8)"
    then have "8 * k + n < 32" "(8 * k + n) div 8 = k" "(8 * k + n) mod 8 = n"
      using k assms(3) by simp_all
    then show "bit (bs ! k) n = bit (bs' ! k) n"
      using bit_packed [of "8 * k + n" bs] bit_packed [of "8 * k + n" bs'] k assms(1,2) by simp
  qed
qed (rule assms(2))

lemma foldl_packed:
  "length bs \<le> 4 \<Longrightarrow> foldl gen_crc_byte c bs = (crc_shift ^^ (8 * length bs)) (c XOR packed bs)"
proof (induction bs arbitrary: c)
  case (Cons b bs)
  let ?p = "packed bs"
  have low: "\<not> bit ?p j" if "j < 8" for j
    using bit_packed [of "31 - j" bs] that Cons.prems by auto
  have "take_bit 24 (drop_bit 8 ?p) = drop_bit 8 ?p"
    by (rule bit_word_eqI) (auto simp: bit_simps dest: bit_imp_le_length)
  moreover have "push_bit 8 (drop_bit 8 ?p) = ?p"
  proof (rule bit_word_eqI)
    fix n
    show "bit (push_bit 8 (drop_bit 8 ?p)) n = bit ?p n"
      using low [of n] by (cases "n < 8") (auto simp: bit_simps dest: bit_imp_le_length)
  qed
  ultimately have "(crc_shift ^^ 8) (drop_bit 8 ?p) = ?p"
    using crc_shift_pow_low [of 8 "drop_bit 8 ?p"] by simp
  then have "gen_crc_byte c b XOR ?p = (crc_shift ^^ 8) (c XOR packed (b # bs))"
    unfolding gen_crc_byte_def gen_crc_bits [OF order_refl] packed.simps
    by (simp only: crc_shift_pow_xor xor.assoc)
  moreover have "8 * length (b # bs) = 8 * length bs + 8" by simp
  ultimately show ?case
    using Cons by (simp only: funpow_add) simp
qed simp

interpretation crc: running_checksum gen_crc_byte 4
proof
  show "c = c'" if "gen_crc_byte c b = gen_crc_byte c' b" for c c' b
  proof -
    have "c XOR feed 8 b = c' XOR feed 8 b"
      using that inj_crc_shift_pow [of 8]
      by (simp only: gen_crc_byte_def gen_crc_bits [OF order_refl]) (rule injD)
    then show ?thesis by (simp only: xor_cancel_right)
  qed
  show "bs = bs'" if "length bs = length bs'" "length bs \<le> 4"
    "foldl gen_crc_byte c bs = foldl gen_crc_byte c bs'" for bs bs' c
  proof -
    have "c XOR packed bs = c XOR packed bs'"
      using that injD [OF inj_crc_shift_pow [of "8 * length bs'"]] by (simp add: foldl_packed)
    then have "packed bs = packed bs'" by (metis xor.commute xor_cancel_right)
    then show ?thesis using that packed_inj by blast
  qed
qed

section \<open>Properties\<close>

text \<open>
  C20. The table-driven CRC of the loader equals the bit-serial CRC that crc32gen writes into
  the file, whether or not the tables were already built, and the tables stay valid.
\<close>

theorem calc_crc_eq_gen:
  assumes "crc_inv st"
  shows "\<exists>st'. calc_crc ds st = (gen_calc_crc ds, st') \<and> crc_inv st'"
  using calc_crc_gen [OF assms, of ds] by (cases "calc_crc ds st") auto

text \<open>
  C30. The CRC detects every corruption confined to four consecutive bytes.
\<close>

theorem calc_crc_detects_burst:
  assumes "crc_inv st" "length bs = length bs'" "length bs \<le> 4" "bs \<noteq> bs'"
  shows "fst (calc_crc (xs @ bs @ ys) st) \<noteq> fst (calc_crc (xs @ bs' @ ys) st)"
  using crc.burst_detected [OF assms(2-4)] by (simp add: calc_crc_gen(1) [OF assms(1)] gen_calc_crc_def)

text \<open>
  \<open>crc32check\<close> returns 0 exactly when every section of the table has the CRC that
  crc32gen computes over the bytes now in memory, and \<open>- 1\<close> otherwise.
\<close>

theorem crc32check_iff:
  assumes "crc_inv st"
  shows "fst (crc32check m cs st) = (if list_all
      (\<lambda>c. sec_crc c = gen_calc_crc (section_bytes m (sec_start c) (sec_end c))) cs then 0 else - 1)"
  using assms
proof (induction cs arbitrary: st)
  case (Cons c cs)
  let ?b = "section_bytes m (sec_start c) (sec_end c)"
  obtain st' where "calc_crc ?b st = (gen_calc_crc ?b, st')" "crc_inv st'"
    using calc_crc_gen [OF Cons.prems, of ?b] by (cases "calc_crc ?b st") auto
  with Cons.IH [of st'] show ?case by simp
qed simp

section \<open>Witnesses\<close>

definition crc_cold :: crc_state where
  "crc_cold = \<lparr>crc_table = replicate 256 0, crc_reverse = replicate 256 0, crc_table_ready = False\<rparr>"

lemma crc_cold_inv: "crc_inv crc_cold"
  by (simp add: crc_inv_def crc_cold_def)

theorem calc_crc_eq_gen_witness:
  "\<exists>st'. calc_crc [0x31, 0x32] crc_cold = (gen_calc_crc [0x31, 0x32], st') \<and> crc_inv st'"
  using calc_crc_eq_gen [OF crc_cold_inv] .

theorem calc_crc_detects_burst_witness:
  "fst (calc_crc [1, 2, 3, 4] crc_cold) \<noteq> fst (calc_crc [1, 3, 2, 4] crc_cold)"
  using calc_crc_detects_burst [OF crc_cold_inv, of "[2, 3]" "[3, 2]" "[1]" "[4]"] by simp

theorem crc32check_iff_witness:
  "fst (crc32check (\<lambda>_. 0) [\<lparr>sec_name = ''.text'', sec_crc = 5, sec_start = 0, sec_end = 2,
      sec_fileoffset = 0\<rparr>] crc_cold) = - 1"
proof -
  have "gen_calc_crc (section_bytes (\<lambda>_. 0) 0 2) = 0" by code_simp
  then show ?thesis by (subst crc32check_iff [OF crc_cold_inv]) simp
qed

end
