(* ===== verification/BootLog.thy ===== *)
theory BootLog
  imports Prelude
begin

text \<open>
  The on-screen boot log of the loader (\<open>loader/bootlog.c\<close>): a ring of sixteen lines of
  at most 127 characters, written character by character. \<open>graphic_repaint\<close> draws the panel
  and is a parameter; it may itself print while \<open>painting\<close> is set.
\<close>

section \<open>State and operations\<close>

definition BOOTLOG_LINES :: nat where "BOOTLOG_LINES = 16"
definition BOOTLOG_COLS :: nat where "BOOTLOG_COLS = 128"

record bootlog =
  bl_lines :: "char list list"
  bl_first :: nat
  bl_count :: nat
  bl_partial :: nat
  bl_active :: bool
  bl_painting :: bool

definition repaint :: "(bootlog \<Rightarrow> bootlog) \<Rightarrow> bootlog \<Rightarrow> bootlog" where
  "repaint graphic_repaint s =
     (if \<not> bl_active s \<or> bl_painting s then s
      else let s = s\<lparr>bl_painting := True\<rparr>;
               s = graphic_repaint s
           in s\<lparr>bl_painting := False\<rparr>)"

definition set_char :: "nat \<Rightarrow> nat \<Rightarrow> char \<Rightarrow> bootlog \<Rightarrow> bootlog" where
  "set_char slot i c s = s\<lparr>bl_lines := (bl_lines s)[slot := (bl_lines s ! slot)[i := c]]\<rparr>"

definition startLine :: "bootlog \<Rightarrow> bootlog" where
  "startLine s =
     (let (slot, s) =
        (if bl_count s < BOOTLOG_LINES
         then ((bl_first s + bl_count s) mod BOOTLOG_LINES, s\<lparr>bl_count := bl_count s + 1\<rparr>)
         else (bl_first s, s\<lparr>bl_first := (bl_first s + 1) mod BOOTLOG_LINES\<rparr>));
        s = set_char slot 0 (CHR 0x00) s
      in s\<lparr>bl_partial := 0\<rparr>)"

definition appendChar :: "char \<Rightarrow> bootlog \<Rightarrow> bootlog" where
  "appendChar c s =
     (let s = (if bl_count s = 0 then startLine s else s);
          slot = (bl_first s + bl_count s - 1) mod BOOTLOG_LINES
      in if bl_partial s < BOOTLOG_COLS - 1
         then let s = set_char slot (bl_partial s) c s;
                  s = s\<lparr>bl_partial := bl_partial s + 1\<rparr>
              in set_char slot (bl_partial s) (CHR 0x00) s
         else s)"

definition append_step :: "bootlog \<Rightarrow> char \<Rightarrow> bootlog" where
  "append_step s c =
     (if c = CHR 0x0A then s\<lparr>bl_partial := BOOTLOG_COLS\<rparr>
      else if c = CHR 0x0D then s
      else appendChar c (if bl_partial s \<ge> BOOTLOG_COLS then startLine s else s))"

definition bootlogAppend :: "(bootlog \<Rightarrow> bootlog) \<Rightarrow> char list option \<Rightarrow> bootlog \<Rightarrow> bootlog" where
  "bootlogAppend graphic_repaint text s =
     (case text of None \<Rightarrow> s
      | Some p \<Rightarrow> repaint graphic_repaint (foldl append_step s (cstr p)))"

definition bootlogBegin :: "bootlog \<Rightarrow> bootlog" where
  "bootlogBegin s = s\<lparr>bl_active := True\<rparr>"

definition bootlogActive :: "bootlog \<Rightarrow> bool" where
  "bootlogActive s = bl_active s"

definition bootlogCount :: "bootlog \<Rightarrow> nat" where
  "bootlogCount s = bl_count s"

definition bootlogLine :: "int \<Rightarrow> bootlog \<Rightarrow> char list option" where
  "bootlogLine i s =
     (if i < 0 \<or> i \<ge> int (bl_count s) then None
      else Some (bl_lines s ! ((bl_first s + nat i) mod BOOTLOG_LINES)))"

lemmas bootlog_consts [simp] = BOOTLOG_LINES_def BOOTLOG_COLS_def

section \<open>Specification: the whole output, line by line\<close>

text \<open>
  The unbounded log: every line ever printed and whether the last one was ended. A newline
  only ends a line; the next line exists once something is written to it.
\<close>

type_synonym full_log = "string list \<times> bool"

fun full_step :: "full_log \<Rightarrow> char \<Rightarrow> full_log" where
  "full_step (ls, ended) c =
     (if c = CHR 0x0A then (ls, True)
      else if c = CHR 0x0D then (ls, ended)
      else if ended \<or> ls = [] then (ls @ [[c]], False)
      else (butlast ls @ [last ls @ [c]], False))"

text \<open>The panel: the last sixteen lines, each cut after 127 characters.\<close>

definition panel :: "string list \<Rightarrow> string list" where
  "panel ls = lastn 16 (map (take 127) ls)"

section \<open>Refinement\<close>

definition slot_of :: "bootlog \<Rightarrow> nat \<Rightarrow> nat" where
  "slot_of s i = (bl_first s + i) mod 16"

definition view :: "bootlog \<Rightarrow> string list" where
  "view s = map (\<lambda>i. cstr (bl_lines s ! slot_of s i)) [0..<bl_count s]"

definition open_at :: "bootlog \<Rightarrow> nat \<Rightarrow> bool" where
  "open_at s p \<longleftrightarrow> (let l = bl_lines s ! slot_of s (bl_count s - 1)
     in p < 128 \<and> l ! p = CHR 0x00 \<and> (\<forall>j < p. l ! j \<noteq> CHR 0x00))"

definition log_wf :: "bootlog \<Rightarrow> bool" where
  "log_wf s \<longleftrightarrow> length (bl_lines s) = 16 \<and> (\<forall>k < 16. length (bl_lines s ! k) = 128)
     \<and> bl_first s < 16 \<and> bl_count s \<le> 16
     \<and> (bl_partial s < 128 \<longrightarrow> bl_count s = 0 \<or> open_at s (bl_partial s))"

definition log_rel :: "bootlog \<Rightarrow> full_log \<Rightarrow> bool" where
  "log_rel s l \<longleftrightarrow> log_wf s \<and> view s = panel (fst l) \<and> (bl_partial s \<ge> 128 \<longleftrightarrow> snd l)"

lemma log_wfD:
  assumes "log_wf s"
  shows "length (bl_lines s) = 16" "k < 16 \<Longrightarrow> length (bl_lines s ! k) = 128"
    "bl_first s < 16" "bl_count s \<le> 16"
    "bl_partial s < 128 \<Longrightarrow> bl_count s \<noteq> 0 \<Longrightarrow> open_at s (bl_partial s)"
  using assms by (auto simp: log_wf_def)

lemma slot_of_lt [simp]: "slot_of s i < 16"
  by (simp add: slot_of_def)

lemma slot_of_upd [simp]:
  "slot_of (s\<lparr>bl_lines := x, bl_partial := y\<rparr>) i = slot_of s i"
  "slot_of (s\<lparr>bl_partial := y\<rparr>) i = slot_of s i" "slot_of (s\<lparr>bl_lines := x\<rparr>) i = slot_of s i"
  by (simp_all add: slot_of_def)

lemma slot_of_inj: "i < 16 \<Longrightarrow> j < 16 \<Longrightarrow> slot_of s i = slot_of s j \<longleftrightarrow> i = j"
  using mod_add_left_cancel_nat [of "bl_first s" i 16 j] by (auto simp: slot_of_def)

lemma length_view [simp]: "length (view s) = bl_count s"
  by (simp add: view_def)

lemma cstr_empty: "0 < length xs \<Longrightarrow> cstr (xs[0 := CHR 0x00]) = []"
  by (cases xs) (simp_all add: cstr_def)

lemma nth_view [simp]: "i < bl_count s \<Longrightarrow> view s ! i = cstr (bl_lines s ! slot_of s i)"
  by (simp add: view_def)

lemma startLine_frame [simp]:
  "bl_partial (startLine s) = 0" "bl_active (startLine s) = bl_active s"
  "bl_painting (startLine s) = bl_painting s"
  by (simp_all add: startLine_def set_char_def Let_def split_beta)

lemma startLine_room:
  assumes "bl_count s < 16"
  shows "bl_first (startLine s) = bl_first s" "bl_count (startLine s) = Suc (bl_count s)"
    "bl_lines (startLine s) = (bl_lines s)[slot_of s (bl_count s) :=
       (bl_lines s ! slot_of s (bl_count s))[0 := CHR 0x00]]"
    "slot_of (startLine s) i = slot_of s i"
  using assms by (simp_all add: startLine_def set_char_def slot_of_def)

lemma startLine_full:
  assumes "\<not> bl_count s < 16"
  shows "bl_first (startLine s) = (bl_first s + 1) mod 16" "bl_count (startLine s) = bl_count s"
    "bl_lines (startLine s) = (bl_lines s)[bl_first s := (bl_lines s ! bl_first s)[0 := CHR 0x00]]"
    "slot_of (startLine s) i = slot_of s (Suc i)"
  using assms by (simp_all add: startLine_def set_char_def slot_of_def mod_simps)

lemma slot_of_first: "log_wf s \<Longrightarrow> slot_of s 0 = bl_first s" "log_wf s \<Longrightarrow> slot_of s 16 = bl_first s"
  by (simp_all add: slot_of_def log_wfD)

lemma view_startLine:
  assumes "log_wf s"
  shows "view (startLine s) = lastn 16 (view s @ [[]])"
proof (cases "bl_count s < 16")
  case True
  show ?thesis
  proof (rule nth_equalityI)
    fix i assume "i < length (view (startLine s))"
    then have "i < Suc (bl_count s)" by (simp add: startLine_room [OF True])
    then show "view (startLine s) ! i = lastn 16 (view s @ [[]]) ! i"
      using True log_wfD [OF assms]
      by (cases "i = bl_count s")
        (simp_all add: startLine_room [OF True] lastn_def nth_append slot_of_inj cstr_empty)
  qed (use True in \<open>simp add: startLine_room [OF True]\<close>)
next
  case False
  then have c: "bl_count s = 16" using log_wfD [OF assms] by simp
  show ?thesis
  proof (rule nth_equalityI)
    fix i assume "i < length (view (startLine s))"
    then have i: "i < 16" using c by (simp add: startLine_full [OF False])
    show "view (startLine s) ! i = lastn 16 (view s @ [[]]) ! i"
    proof (cases "i = 15")
      case True
      then show ?thesis
        using c slot_of_first [OF assms] log_wfD [OF assms]
        by (simp add: startLine_full [OF False] lastn_def nth_append cstr_empty)
    next
      case ne: False
      then have "slot_of s (Suc i) \<noteq> bl_first s"
        using i slot_of_inj [of "Suc i" 0 s] slot_of_first(1) [OF assms] by simp
      then show ?thesis
        using c i ne log_wfD [OF assms]
        by (simp add: startLine_full [OF False] lastn_def nth_append)
    qed
  qed (simp add: c startLine_full [OF False])
qed

lemma log_wf_startLine:
  assumes "log_wf s"
  shows "log_wf (startLine s)" "bl_count (startLine s) \<noteq> 0"
proof -
  show "log_wf (startLine s)"
  proof (cases "bl_count s < 16")
    case True
    then show ?thesis
      using log_wfD [OF assms]
      by (auto simp: log_wf_def open_at_def startLine_room Let_def)
  next
    case False
    then have "bl_count s = 16" using log_wfD [OF assms] by simp
    then show ?thesis
      using log_wfD [OF assms] slot_of_first [OF assms] False
      by (auto simp: log_wf_def open_at_def startLine_full Let_def)
  qed
  show "bl_count (startLine s) \<noteq> 0"
    by (cases "bl_count s < 16") (simp_all add: startLine_room startLine_full)
qed

text \<open>Writing one more character to the open line.\<close>

definition put_char :: "char \<Rightarrow> bootlog \<Rightarrow> bootlog" where
  "put_char c s = (let k = slot_of s (bl_count s - 1); p = bl_partial s
     in s\<lparr>bl_lines := (bl_lines s)[k := (bl_lines s ! k)[p := c, Suc p := CHR 0x00]],
          bl_partial := Suc p\<rparr>)"

lemma appendChar_put:
  assumes "log_wf s" "bl_count s \<noteq> 0"
  shows "appendChar c s = (if bl_partial s < 127 then put_char c s else s)"
  using assms log_wfD [OF assms(1)]
  by (simp add: appendChar_def put_char_def set_char_def slot_of_def Let_def)

lemma put_char_step:
  assumes "log_wf s" "bl_count s \<noteq> 0" "bl_partial s < 127" "c \<noteq> CHR 0x00"
  shows "log_wf (put_char c s)"
    and "view (put_char c s) = butlast (view s) @ [last (view s) @ [c]]"
proof -
  define k where "k = slot_of s (bl_count s - Suc 0)"
  define l where "l = bl_lines s ! k"
  define l' where "l' = l[bl_partial s := c, Suc (bl_partial s) := CHR 0x00]"
  have k: "k < 16" by (simp add: k_def)
  then have len: "length l = 128" by (simp add: l_def log_wfD [OF assms(1)])
  have l: "l ! bl_partial s = CHR 0x00" "\<And>j. j < bl_partial s \<Longrightarrow> l ! j \<noteq> CHR 0x00"
    using log_wfD(5) [OF assms(1) _ assms(2)] assms(3) by (auto simp: open_at_def l_def k_def Let_def)
  have s': "put_char c s = s\<lparr>bl_lines := (bl_lines s)[k := l'], bl_partial := Suc (bl_partial s)\<rparr>"
    by (simp add: put_char_def k_def l_def l'_def Let_def)
  have slots: "slot_of (put_char c s) i = slot_of s i" for i by (simp add: s')
  have len': "length l' = 128" by (simp add: l'_def len)
  have l': "l' ! Suc (bl_partial s) = CHR 0x00" "\<And>j. j < Suc (bl_partial s) \<Longrightarrow> l' ! j \<noteq> CHR 0x00"
    using l(2) len assms(3,4) by (auto simp: l'_def less_Suc_eq)
  then have new: "cstr l' = cstr l @ [c]"
    using cstr_terminated [of "Suc (bl_partial s)" l'] cstr_terminated [of "bl_partial s" l]
      l len assms(3) by (simp add: l'_def take_Suc_conv_app_nth)
  show "log_wf (put_char c s)"
    using log_wfD [OF assms(1)] l' k len assms(3)
    by (auto simp: log_wf_def open_at_def Let_def s' len' simp flip: k_def)
  show "view (put_char c s) = butlast (view s) @ [last (view s) @ [c]]"
  proof (rule nth_equalityI)
    fix i assume "i < length (view (put_char c s))"
    then have i: "i < bl_count s" by (simp add: s')
    have ne: "view s \<noteq> []" using assms(2) by (metis length_view length_0_conv)
    have cnt: "bl_count (put_char c s) = bl_count s" by (simp add: s')
    show "view (put_char c s) ! i = (butlast (view s) @ [last (view s) @ [c]]) ! i"
    proof (cases "i = bl_count s - 1")
      case True
      then show ?thesis
        using i k new ne log_wfD(1) [OF assms(1)]
        by (simp add: cnt slots s' nth_append last_conv_nth k_def [symmetric] l_def [symmetric])
    next
      case False
      then have lt: "i < bl_count s - Suc 0" using i by simp
      then have "slot_of s i \<noteq> k"
        using i log_wfD(4) [OF assms(1)] by (simp add: k_def slot_of_inj)
      then show ?thesis
        using i lt k log_wfD(1) [OF assms(1)] by (simp add: cnt slots s' nth_append nth_butlast)
    qed
  qed (use assms(2) in \<open>simp add: s'\<close>)
qed

lemma length_open:
  assumes "log_wf s" "bl_partial s < 128" "bl_count s \<noteq> 0"
  shows "length (last (view s)) = bl_partial s"
proof -
  have "view s \<noteq> []" using assms(3) by (metis length_view length_0_conv)
  then have "last (view s) = cstr (bl_lines s ! slot_of s (bl_count s - 1))"
    using assms(3) by (simp add: last_conv_nth)
  then show ?thesis
    using log_wfD(5) [OF assms] log_wfD(2) [OF assms(1)] assms(2)
    by (simp add: open_at_def Let_def cstr_terminated [of "bl_partial s"])
qed

lemma panel_snoc: "panel (ls @ [l]) = lastn 15 (map (take 127) ls) @ [take 127 l]"
  by (cases "length ls < 16") (simp_all add: panel_def lastn_def not_less Suc_diff_le diff_Suc_eq_diff_pred)

text \<open>The two cases of a printable character.\<close>

lemma append_new_line:
  assumes "log_rel s (ls, ended)" "c \<noteq> CHR 0x0A" "c \<noteq> CHR 0x0D" "c \<noteq> CHR 0x00" "ended \<or> ls = []"
  shows "log_rel (append_step s c) (ls @ [[c]], False)"
proof -
  have wf: "log_wf s" and v: "view s = panel ls" and e: "bl_partial s \<ge> 128 \<longleftrightarrow> ended"
    using assms(1) by (simp_all add: log_rel_def)
  have cnt: "bl_count s = min 16 (length ls)"
    using v by (metis length_view panel_def length_lastn length_map)
  have "append_step s c = appendChar c (startLine s)"
    using assms(2,3,5) e cnt log_wf_startLine(2) [OF wf]
    by (cases ended) (simp_all add: append_step_def appendChar_def Let_def)
  then have s': "append_step s c = put_char c (startLine s)"
    by (simp add: appendChar_put log_wf_startLine [OF wf])
  have "view (startLine s) = panel (ls @ [[]])"
    by (simp add: view_startLine [OF wf] v panel_def lastn_snoc [of 16 "map (take 127) ls"])
  then show ?thesis
    using put_char_step [OF log_wf_startLine [OF wf], of c] assms(4)
    by (simp add: s' log_rel_def panel_snoc put_char_def Let_def)
qed

lemma append_to_open:
  assumes "log_rel s (ls @ [l], False)" "c \<noteq> CHR 0x0A" "c \<noteq> CHR 0x0D" "c \<noteq> CHR 0x00"
  shows "log_rel (append_step s c) (ls @ [l @ [c]], False)"
proof -
  have wf: "log_wf s" and v: "view s = panel (ls @ [l])" and e: "bl_partial s < 128"
    using assms(1) by (simp_all add: log_rel_def not_le)
  have cnt: "bl_count s \<noteq> 0"
    using v by (metis length_view length_0_conv panel_snoc snoc_eq_iff_butlast)
  have p: "bl_partial s = min 127 (length l)"
    using length_open [OF wf e cnt] v by (simp add: panel_snoc)
  have s': "append_step s c = (if bl_partial s < 127 then put_char c s else s)"
    using assms(2,3) e by (simp add: append_step_def appendChar_put [OF wf cnt])
  show ?thesis
  proof (cases "bl_partial s < 127")
    case True
    then show ?thesis
      using put_char_step [OF wf cnt True assms(4)] p
      by (simp add: s' log_rel_def v panel_snoc put_char_def Let_def)
  next
    case False
    then show ?thesis using wf v e p by (simp add: s' log_rel_def panel_snoc)
  qed
qed

lemma append_newline:
  "log_rel s (ls, ended) \<Longrightarrow> log_rel (s\<lparr>bl_partial := 128\<rparr>) (ls, True)"
  by (simp add: log_rel_def log_wf_def view_def)

text \<open>
  Characters that reach the log are the characters of a C string, so NUL is not among them.
\<close>

interpretation blog: simulation log_rel "\<lambda>s c. if c = CHR 0x00 then s else append_step s c"
  "\<lambda>l c. if c = CHR 0x00 then l else full_step l c"
proof
  fix s l c assume rel: "log_rel s l"
  obtain ls ended where l: "l = (ls, ended)" by (cases l)
  show "log_rel (if c = CHR 0x00 then s else append_step s c)
      (if c = CHR 0x00 then l else full_step l c)"
  proof (cases "c = CHR 0x00 \<or> c = CHR 0x0A \<or> c = CHR 0x0D")
    case True
    then show ?thesis using rel append_newline [of s ls ended] by (auto simp: l append_step_def)
  next
    case False
    show ?thesis
    proof (cases "ended \<or> ls = []")
      case True
      then show ?thesis using rel False append_new_line [of s ls ended c] by (auto simp: l)
    next
      case open': False
      then have "ls = butlast ls @ [last ls]" by simp
      then show ?thesis
        using rel False open' append_to_open [of s "butlast ls" "last ls" c] by (simp add: l)
    qed
  qed
qed

lemma foldl_cstr: "foldl (\<lambda>x c. if c = CHR 0x00 then x else f x c) x (cstr p) = foldl f x (cstr p)"
  by (rule foldl_cong) (auto simp: cstr_def dest: set_takeWhileD)

lemma append_text:
  assumes "log_rel s l"
  shows "log_rel (foldl append_step s (cstr p)) (foldl full_step l (cstr p))"
  using blog.run [OF assms, of "cstr p"] by (simp only: foldl_cstr)

section \<open>Properties\<close>

text \<open>
  C28. Whatever texts are printed, the panel shows the last sixteen lines of the complete
  output, oldest first, each cut after 127 characters; a trailing newline adds no empty line,
  and a text that does not end in a newline is continued by the next one. The hypothesis on
  \<open>graphic_repaint\<close> says that painting prints nothing itself.
\<close>

theorem bootlog_shows_last_lines:
  assumes "log_rel s l" and "\<And>t. graphic_repaint t = t"
    and "s' = foldl (\<lambda>s p. bootlogAppend graphic_repaint (Some p) s) s texts"
  shows "map (\<lambda>i. map_option cstr (bootlogLine (int i) s')) [0..<bootlogCount s']
    = map Some (panel (fst (foldl full_step l (concat (map cstr texts)))))"
proof -
  have paint: "log_rel (repaint graphic_repaint t) a \<longleftrightarrow> log_rel t a" for t a
    using assms(2) by (auto simp: repaint_def Let_def log_rel_def log_wf_def view_def open_at_def slot_of_def)
  have "log_rel (foldl (\<lambda>s p. bootlogAppend graphic_repaint (Some p) s) s texts)
      (foldl full_step l (concat (map cstr texts)))"
    using assms(1)
    by (induction texts arbitrary: s l) (simp_all add: bootlogAppend_def paint append_text)
  then have "log_rel s' (foldl full_step l (concat (map cstr texts)))" by (simp add: assms(3))
  then have "view s' = panel (fst (foldl full_step l (concat (map cstr texts))))"
    by (simp add: log_rel_def)
  moreover have "map (\<lambda>i. map_option cstr (bootlogLine (int i) s')) [0..<bootlogCount s']
      = map Some (view s')"
    by (simp add: bootlogLine_def bootlogCount_def slot_of_def view_def)
  ultimately show ?thesis by simp
qed

section \<open>Witnesses\<close>

definition bootlog_init :: bootlog where
  "bootlog_init = \<lparr>bl_lines = replicate 16 (replicate 128 (CHR 0x00)), bl_first = 0, bl_count = 0,
     bl_partial = 0, bl_active = False, bl_painting = False\<rparr>"

lemma bootlog_init_rel: "log_rel bootlog_init ([], False)"
  by (simp add: log_rel_def log_wf_def view_def panel_def lastn_def bootlog_init_def)

theorem bootlog_shows_last_lines_witness:
  "let s' = foldl (\<lambda>s p. bootlogAppend id (Some p) s) bootlog_init [''Loading'', ''..ok'']
   in map (\<lambda>i. map_option cstr (bootlogLine (int i) s')) [0..<bootlogCount s'] = [Some ''Loading..ok'']"
  unfolding Let_def
  by (subst bootlog_shows_last_lines [OF bootlog_init_rel id_apply refl])
    (simp add: cstr_def panel_def lastn_def)

end
