(* ===== verification/Rom.thy ===== *)
theory Rom
  imports Prelude
begin

text \<open>
  Files embedded in the loader (\<open>loader/rom.c\<close>) behind a stdio-like interface. A name that
  is not in the table is opened on the host instead. The table and the initialisation code
  are generated by the build and are parameters, as are the C library's file functions and
  the outcome of \<open>malloc\<close>. \<open>memcpy\<close> into the caller's buffer is the list of bytes copied.
\<close>

section \<open>State\<close>

record rom_entry =
  re_filename :: string
  re_start :: u32
  re_size :: int

record rom =
  rom_files :: "rom_entry list"
  rom_initialized :: bool

text \<open>\<open>rs_file\<close> points into the table, \<open>rs_fin\<close> is the host stream.\<close>

record 'f rom_stream =
  rs_file :: "nat option"
  rs_fin :: "'f option"
  rs_pos :: int

record 'f stdio =
  io_fopen :: "string \<Rightarrow> string \<Rightarrow> 'f option"
  io_fread :: "int \<Rightarrow> 'f \<Rightarrow> int \<times> u8 list \<times> 'f"
  io_fseek :: "int \<Rightarrow> int \<Rightarrow> 'f \<Rightarrow> int \<times> 'f"
  io_ftell :: "'f \<Rightarrow> int"
  io_fclose :: "'f \<Rightarrow> int"
  io_feof :: "'f \<Rightarrow> int"

definition SEEK_SET :: int where "SEEK_SET = 0"
definition SEEK_CUR :: int where "SEEK_CUR = 1"
definition SEEK_END :: int where "SEEK_END = 2"

definition ROM_MAX_FILENAME :: nat where "ROM_MAX_FILENAME = 200"

section \<open>Operations\<close>

definition rom_ensure :: "(rom \<Rightarrow> rom) \<Rightarrow> rom \<Rightarrow> rom" where
  "rom_ensure rom_initialize r = (if \<not> rom_initialized r then rom_initialize r else r)"

text \<open>The search stops at the first entry whose start is NULL.\<close>

fun rom_search :: "string \<Rightarrow> nat \<Rightarrow> rom_entry list \<Rightarrow> nat option" where
  "rom_search filename i [] = None"
| "rom_search filename i (e # es) =
     (if re_start e = 0 then None
      else if re_filename e = filename then Some i
      else rom_search filename (Suc i) es)"

definition rom_getFile :: "(rom \<Rightarrow> rom) \<Rightarrow> string \<Rightarrow> rom \<Rightarrow> nat option \<times> rom" where
  "rom_getFile rom_initialize filename r =
     (let r = rom_ensure rom_initialize r in (rom_search filename 0 (rom_files r), r))"

definition rom_open ::
  "(rom \<Rightarrow> rom) \<Rightarrow> 'f stdio \<Rightarrow> bool \<Rightarrow> string \<Rightarrow> string \<Rightarrow> rom \<Rightarrow> 'f rom_stream option \<times> rom" where
  "rom_open rom_initialize io malloc_ok filename mode r =
     (let r = rom_ensure rom_initialize r;
          (file, r) = rom_getFile rom_initialize filename r
      in case file of
           Some i \<Rightarrow>
             (if malloc_ok then (Some \<lparr>rs_file = Some i, rs_fin = None, rs_pos = 0\<rparr>, r) else (None, r))
         | None \<Rightarrow>
             let hostfilename = take (ROM_MAX_FILENAME - 1) (''host:'' @ filename)
             in (case io_fopen io hostfilename mode of
                   None \<Rightarrow> (None, r)
                 | Some fin \<Rightarrow>
                     (if malloc_ok
                      then (Some \<lparr>rs_file = None, rs_fin = Some fin, rs_pos = 0\<rparr>, r)
                      else (None, r))))"

definition rom_read ::
  "(rom \<Rightarrow> rom) \<Rightarrow> 'f stdio \<Rightarrow> (u32 \<Rightarrow> u8) \<Rightarrow> int \<Rightarrow> 'f rom_stream \<Rightarrow> rom
     \<Rightarrow> int \<times> u8 list \<times> 'f rom_stream \<times> rom" where
  "rom_read rom_initialize io m sz fd r =
     (let r = rom_ensure rom_initialize r
      in case rs_fin fd of
           Some fin \<Rightarrow> (let (n, bs, fin) = io_fread io sz fin in (n, bs, fd\<lparr>rs_fin := Some fin\<rparr>, r))
         | None \<Rightarrow>
             (case rs_file fd of
                None \<Rightarrow> (- 1, [], fd, r)
              | Some i \<Rightarrow>
                  let file = rom_files r ! i
                  in if rs_pos fd \<ge> re_size file then (- 1, [], fd, r)
                     else if sz \<le> 0 then (sz, [], fd, r)
                     else
                       let remaining = int32 (re_size file - rs_pos fd);
                           sz = (if sz > remaining then remaining else sz)
                       in if re_start file = 0 then (- 2, [], fd, r)
                          else if re_size file < 0 then (- 2, [], fd, r)
                          else (sz,
                                map (\<lambda>k. m (re_start file + of_int (rs_pos fd) + of_nat k)) [0..<nat sz],
                                fd\<lparr>rs_pos := int32 (rs_pos fd + sz)\<rparr>, r)))"

definition rom_seek ::
  "(rom \<Rightarrow> rom) \<Rightarrow> 'f stdio \<Rightarrow> int \<Rightarrow> int \<Rightarrow> 'f rom_stream \<Rightarrow> rom \<Rightarrow> int \<times> 'f rom_stream \<times> rom" where
  "rom_seek rom_initialize io offset whence fd r =
     (let r = rom_ensure rom_initialize r
      in case rs_fin fd of
           Some fin \<Rightarrow> (let (n, fin) = io_fseek io offset whence fin in (n, fd\<lparr>rs_fin := Some fin\<rparr>, r))
         | None \<Rightarrow>
             (case rs_file fd of
                None \<Rightarrow> (- 1, fd, r)
              | Some i \<Rightarrow>
                  let file = rom_files r ! i;
                      newpos = (if whence = SEEK_SET then Some offset
                                else if whence = SEEK_END then Some (int32 (re_size file + offset))
                                else if whence = SEEK_CUR then Some (int32 (rs_pos fd + offset))
                                else None)
                  in (case newpos of
                        None \<Rightarrow> (- 1, fd, r)
                      | Some newpos \<Rightarrow>
                          (if newpos < 0 then (- 1, fd, r)
                           else if newpos > re_size file then (- 1, fd, r)
                           else (0, fd\<lparr>rs_pos := newpos\<rparr>, r)))))"

definition rom_tell :: "(rom \<Rightarrow> rom) \<Rightarrow> 'f stdio \<Rightarrow> 'f rom_stream \<Rightarrow> rom \<Rightarrow> int \<times> rom" where
  "rom_tell rom_initialize io fd r =
     (let r = rom_ensure rom_initialize r
      in case rs_fin fd of
           Some fin \<Rightarrow> (io_ftell io fin, r)
         | None \<Rightarrow> (if rs_file fd \<noteq> None then (rs_pos fd, r) else (- 1, r)))"

definition rom_close :: "(rom \<Rightarrow> rom) \<Rightarrow> 'f stdio \<Rightarrow> 'f rom_stream \<Rightarrow> rom \<Rightarrow> int \<times> rom" where
  "rom_close rom_initialize io fd r =
     (let r = rom_ensure rom_initialize r;
          ret = (case rs_fin fd of Some fin \<Rightarrow> io_fclose io fin | None \<Rightarrow> - 1);
          ret = (if rs_file fd \<noteq> None then 0 else ret)
      in (ret, r))"

definition rom_eof :: "'f stdio \<Rightarrow> 'f rom_stream \<Rightarrow> rom \<Rightarrow> int" where
  "rom_eof io fd r =
     (let ret = (case rs_fin fd of Some fin \<Rightarrow> io_feof io fin | None \<Rightarrow> - 1)
      in case rs_file fd of
           Some i \<Rightarrow> (if rs_pos fd \<ge> re_size (rom_files r ! i) then 1 else 0)
         | None \<Rightarrow> ret)"

definition rom_isFast :: "'f rom_stream \<Rightarrow> bool" where
  "rom_isFast fd \<longleftrightarrow> rs_file fd \<noteq> None"

section \<open>Streams over embedded files\<close>

definition contents :: "(u32 \<Rightarrow> u8) \<Rightarrow> rom_entry \<Rightarrow> u8 list" where
  "contents m e = map (\<lambda>k. m (re_start e + of_nat k)) [0..<nat (re_size e)]"

text \<open>An initialised table entry, and a stream on it at a position inside the file.\<close>

definition rom_on :: "rom \<Rightarrow> rom_entry \<Rightarrow> int \<Rightarrow> 'f rom_stream \<Rightarrow> bool" where
  "rom_on r e p fd \<longleftrightarrow> rom_initialized r \<and> rs_fin fd = None
     \<and> (\<exists>i. rs_file fd = Some i \<and> i < length (rom_files r) \<and> rom_files r ! i = e)
     \<and> re_start e \<noteq> 0 \<and> 0 \<le> p \<and> p \<le> re_size e \<and> re_size e < 2 ^ 31 \<and> rs_pos fd = p"

lemma rom_read_chunk:
  assumes "rom_on r e p fd" "0 < n" "p < re_size e"
  defines "k \<equiv> min n (re_size e - p)"
  shows "rom_read ini io m n fd r = (k, take (nat k) (drop (nat p) (contents m e)), fd\<lparr>rs_pos := p + k\<rparr>, r)"
    and "rom_on r e (p + k) (fd\<lparr>rs_pos := p + k\<rparr>)"
proof -
  have p: "(of_int p :: u32) = of_nat (nat p)" using assms(1) by (simp add: rom_on_def)
  have "nat k \<le> nat (re_size e) - nat p" using assms(1) by (auto simp: k_def rom_on_def)
  then have "map (\<lambda>j. m (re_start e + of_int p + of_nat j)) [0..<nat k]
      = take (nat k) (drop (nat p) (contents m e))"
  proof (intro nth_equalityI)
    fix j assume "j < length (map (\<lambda>j. m (re_start e + of_int p + of_nat j)) [0..<nat k])"
    then have "nat p + j < nat (re_size e)" "j < nat k"
      using \<open>nat k \<le> nat (re_size e) - nat p\<close> by auto
    then show "map (\<lambda>j. m (re_start e + of_int p + of_nat j)) [0..<nat k] ! j
        = take (nat k) (drop (nat p) (contents m e)) ! j"
      by (simp add: contents_def p add.assoc del: nat_less_iff)
  qed (simp add: contents_def)
  then show "rom_read ini io m n fd r =
      (k, take (nat k) (drop (nat p) (contents m e)), fd\<lparr>rs_pos := p + k\<rparr>, r)"
    using assms by (auto simp: rom_on_def rom_read_def rom_ensure_def min_def k_def Let_def)
  show "rom_on r e (p + k) (fd\<lparr>rs_pos := p + k\<rparr>)"
    using assms by (auto simp: rom_on_def k_def)
qed

text \<open>Reading chunk after chunk.\<close>

fun read_all ::
  "(rom \<Rightarrow> rom) \<Rightarrow> 'f stdio \<Rightarrow> (u32 \<Rightarrow> u8) \<Rightarrow> int list \<Rightarrow> 'f rom_stream \<Rightarrow> rom \<Rightarrow> u8 list" where
  "read_all ini io m [] fd r = []"
| "read_all ini io m (n # ns) fd r =
     (let (k, bs, fd, r) = rom_read ini io m n fd r in bs @ read_all ini io m ns fd r)"

lemma rom_read_end:
  assumes "rom_on r e p fd" "p = re_size e"
  shows "rom_read ini io m n fd r = (- 1, [], fd, r)"
  using assms by (auto simp: rom_on_def rom_read_def rom_ensure_def)

section \<open>Properties\<close>

text \<open>
  Reading a stream on an embedded file in any positive chunk sizes delivers the bytes of
  the file from the current position, without loss or repetition, up to the end of the file.
\<close>

theorem rom_read_sequence:
  assumes "rom_on r e p fd" "\<forall>n \<in> set ns. 0 < n"
  shows "read_all ini io m ns fd r = take (nat (sum_list ns)) (drop (nat p) (contents m e))"
  using assms
proof (induction ns arbitrary: fd p)
  case (Cons n ns)
  show ?case
  proof (cases "p < re_size e")
    case True
    define k where "k = min n (re_size e - p)"
    have k: "0 < k" "0 \<le> p" using True Cons.prems by (auto simp: k_def rom_on_def)
    have ns: "0 \<le> sum_list ns" using Cons.prems(2) by (intro sum_list_nonneg) (simp add: less_imp_le)
    have "read_all ini io m (n # ns) fd r
        = take (nat k) (drop (nat p) (contents m e)) @ take (nat (sum_list ns)) (drop (nat (p + k)) (contents m e))"
      using rom_read_chunk [OF Cons.prems(1), of n] Cons True by (simp add: k_def)
    also have "nat (p + k) = nat p + nat k" using k by simp
    also have "take (nat k) (drop (nat p) (contents m e))
        @ take (nat (sum_list ns)) (drop (nat p + nat k) (contents m e))
        = take (nat k + nat (sum_list ns)) (drop (nat p) (contents m e))"
      by (simp add: take_add add.commute)
    also have "\<dots> = take (nat (sum_list (n # ns))) (drop (nat p) (contents m e))"
    proof (cases "n \<le> re_size e - p")
      case True
      then show ?thesis using ns k by (simp add: k_def nat_add_distrib)
    next
      case False
      then show ?thesis using ns k by (simp add: k_def contents_def)
    qed
    finally show ?thesis .
  next
    case False
    then have end': "p = re_size e" using Cons.prems by (simp add: rom_on_def)
    then have "drop (nat p) (contents m e) = []" by (simp add: contents_def)
    with Cons end' show ?thesis by (simp add: rom_read_end)
  qed
qed simp

text \<open>
  A successful \<open>rom_seek\<close> on an embedded file puts the stream where \<open>rom_tell\<close> then
  reports it, inside the file even when the position arithmetic wraps; a failing one leaves
  the position alone.
\<close>

theorem rom_seek_tell:
  assumes "rom_on r e p fd" "rom_seek ini io offset whence fd r = (ret, fd', r')"
  shows "rom_on r' e (fst (rom_tell ini io fd' r')) fd' \<and> ret \<in> {0, - 1}
    \<and> (ret = - 1 \<longrightarrow> fd' = fd)
    \<and> (ret = 0 \<and> whence = SEEK_SET \<longrightarrow> fst (rom_tell ini io fd' r') = offset)
    \<and> (ret = 0 \<and> whence = SEEK_CUR \<longrightarrow> fst (rom_tell ini io fd' r') = int32 (p + offset))
    \<and> (ret = 0 \<and> whence = SEEK_END \<longrightarrow> fst (rom_tell ini io fd' r') = int32 (re_size e + offset))"
  using assms
  by (auto simp: rom_on_def rom_seek_def rom_tell_def rom_ensure_def SEEK_SET_def SEEK_CUR_def
      SEEK_END_def Let_def split: if_splits)

section \<open>Witnesses\<close>

definition sample_rom :: rom where
  "sample_rom = \<lparr>rom_files = [\<lparr>re_filename = ''logo.rgb'', re_start = 0x1000, re_size = 5\<rparr>,
     \<lparr>re_filename = [], re_start = 0, re_size = 0\<rparr>], rom_initialized = True\<rparr>"

definition sample_fd :: "unit rom_stream" where
  "sample_fd = \<lparr>rs_file = Some 0, rs_fin = None, rs_pos = 1\<rparr>"

definition no_host :: "unit stdio" where
  "no_host = \<lparr>io_fopen = \<lambda>_ _. None, io_fread = \<lambda>_ f. (0, [], f), io_fseek = \<lambda>_ _ f. (0, f),
     io_ftell = \<lambda>_. 0, io_fclose = \<lambda>_. 0, io_feof = \<lambda>_. 1\<rparr>"

lemma sample_on: "rom_on sample_rom (rom_files sample_rom ! 0) 1 sample_fd"
  by (simp add: rom_on_def sample_rom_def sample_fd_def)

theorem rom_read_sequence_witness:
  "read_all id no_host (\<lambda>a. ucast a) [2, 7] sample_fd sample_rom = [1, 2, 3, 4]"
proof -
  have "take (nat (sum_list [2, 7])) (drop (nat 1) (contents (\<lambda>a. ucast a) (rom_files sample_rom ! 0)))
      = [1, 2, 3, 4]" by code_simp
  then show ?thesis using rom_read_sequence [OF sample_on, of "[2, 7]" id no_host "\<lambda>a. ucast a"] by simp
qed

theorem rom_seek_tell_witness:
  "\<exists>fd' r'. rom_seek id no_host (- 2) SEEK_END sample_fd sample_rom = (0, fd', r')
     \<and> fst (rom_tell id no_host fd' r') = 3"
proof -
  have "fst (rom_seek id no_host (- 2) SEEK_END sample_fd sample_rom) = 0" by code_simp
  then obtain fd' r' where eq: "rom_seek id no_host (- 2) SEEK_END sample_fd sample_rom = (0, fd', r')"
    by (cases "rom_seek id no_host (- 2) SEEK_END sample_fd sample_rom") auto
  then show ?thesis using rom_seek_tell [OF sample_on eq] by (simp add: sample_rom_def SEEK_END_def)
qed

end
