(* ===== verification/Sema.thy ===== *)
theory Sema
  imports Prelude
begin

text \<open>
  Counting semaphores of the kernel (\<open>kernel/thread.c\<close>). Thirty-two slots are linked into a
  free list through their \<open>next\<close> pointers (here indices of the array). A waiting caller
  polls with interrupts briefly enabled; what interrupt handlers do to the semaphores between
  two polls is an input of the model.
\<close>

section \<open>State\<close>

definition NUMBER_OF_SEMAPHORES :: nat where "NUMBER_OF_SEMAPHORES = 32"

record kernel_sema =
  ks_count :: int
  ks_max_count :: int
  ks_init_count :: int
  ks_wait_threads :: int
  ks_attr :: u32
  ks_option :: u32
  ks_next :: "nat option"
  ks_index :: int
  ks_free :: int

record ee_sema =
  es_count :: int
  es_max_count :: int
  es_init_count :: int
  es_wait_threads :: int
  es_attr :: u32
  es_option :: u32

record sema_state =
  semaphoreArray :: "kernel_sema list"
  semaphoreListHead :: "nat option"
  sem_cp0_status :: u32

definition upd_sema :: "nat \<Rightarrow> (kernel_sema \<Rightarrow> kernel_sema) \<Rightarrow> sema_state \<Rightarrow> sema_state" where
  "upd_sema i f st = st\<lparr>semaphoreArray := (semaphoreArray st)[i := f (semaphoreArray st ! i)]\<rparr>"

section \<open>Operations\<close>

definition syscallCreateSema :: "ee_sema \<Rightarrow> sema_state \<Rightarrow> int \<times> sema_state" where
  "syscallCreateSema sema st =
     (if es_init_count sema < 0 then (- 1, st)
      else case semaphoreListHead st of
        None \<Rightarrow> (- 1, st)
      | Some s \<Rightarrow>
          let st = st\<lparr>semaphoreListHead := ks_next (semaphoreArray st ! s)\<rparr>;
              st = upd_sema s (\<lambda>k. k\<lparr>ks_count := es_init_count sema,
                     ks_max_count := es_max_count sema, ks_wait_threads := es_wait_threads sema,
                     ks_attr := es_attr sema, ks_option := es_option sema, ks_free := 0,
                     ks_next := None\<rparr>) st
          in (ks_index (semaphoreArray st ! s), st))"

definition iDeleteSema :: "int \<Rightarrow> sema_state \<Rightarrow> int \<times> sema_state" where
  "iDeleteSema sema_id st =
     (if sema_id \<ge> int NUMBER_OF_SEMAPHORES then (- 1, st)
      else if sema_id < 0 then (- 1, st)
      else let s = nat sema_id
        in if ks_free (semaphoreArray st ! s) \<noteq> 0 then (- 1, st)
           else let st = upd_sema s (\<lambda>k. k\<lparr>ks_next := semaphoreListHead st\<rparr>) st;
                    st = st\<lparr>semaphoreListHead := Some s\<rparr>;
                    st = upd_sema s (\<lambda>k. k\<lparr>ks_free := - 1\<rparr>) st
                in (sema_id, st))"

definition iWaitSema :: "u32 \<Rightarrow> sema_state \<Rightarrow> int \<times> sema_state" where
  "iWaitSema sid st =
     (if unat sid \<ge> NUMBER_OF_SEMAPHORES \<or> ks_count (semaphoreArray st ! unat sid) < 0 then (- 1, st)
      else if ks_count (semaphoreArray st ! unat sid) > 0
      then (sint sid, upd_sema (unat sid) (\<lambda>k. k\<lparr>ks_count := ks_count k - 1\<rparr>) st)
      else (- 2, st))"

text \<open>
  The polling loop. \<open>irqs\<close> holds, for each time interrupts are enabled, what the interrupt
  handlers do; \<open>None\<close> means the caller is still waiting after all of them.
\<close>

fun wait_loop :: "u32 \<Rightarrow> (sema_state \<Rightarrow> sema_state) list \<Rightarrow> int \<times> sema_state \<Rightarrow> (int \<times> sema_state) option" where
  "wait_loop sid irqs (ret, st) =
     (if ret \<noteq> - 2 then Some (ret, st)
      else case irqs of [] \<Rightarrow> None | irq # irqs \<Rightarrow> wait_loop sid irqs (iWaitSema sid (irq st)))"

definition WaitSema :: "u32 \<Rightarrow> (sema_state \<Rightarrow> sema_state) list \<Rightarrow> sema_state \<Rightarrow> (int \<times> sema_state) option" where
  "WaitSema sid irqs st =
     (let old = sem_cp0_status st;
          st = st\<lparr>sem_cp0_status := old AND NOT 0x1f\<rparr>
      in case wait_loop sid irqs (iWaitSema sid st) of
           None \<Rightarrow> None
         | Some (ret, st) \<Rightarrow> Some (ret, st\<lparr>sem_cp0_status := old\<rparr>))"

text \<open>A negative \<open>sid\<close> reads in front of the array and is \<open>None\<close>.\<close>

definition iSignalSema :: "int \<Rightarrow> sema_state \<Rightarrow> (int \<times> sema_state) option" where
  "iSignalSema sid st =
     (if sid \<ge> int NUMBER_OF_SEMAPHORES then Some (- 1, st)
      else if sid < 0 then None
      else if ks_count (semaphoreArray st ! nat sid) < 0 then Some (- 1, st)
      else Some (0, upd_sema (nat sid) (\<lambda>k. k\<lparr>ks_count := int32 (ks_count k + 1)\<rparr>) st))"

definition init_semaphores :: "sema_state \<Rightarrow> sema_state" where
  "init_semaphores st =
     (let st = st\<lparr>semaphoreListHead := Some 0\<rparr>;
          st = foldl (\<lambda>st i. upd_sema i (\<lambda>k. k\<lparr>ks_next := Some (i + 1), ks_index := int i, ks_free := - 1\<rparr>) st)
                 st [0..<NUMBER_OF_SEMAPHORES - 1]
      in upd_sema (NUMBER_OF_SEMAPHORES - 1)
           (\<lambda>k. k\<lparr>ks_next := None, ks_index := int (NUMBER_OF_SEMAPHORES - 1), ks_free := - 1\<rparr>) st)"

definition init_thread_module :: "sema_state \<Rightarrow> sema_state" where
  "init_thread_module st = init_semaphores st"

lemmas sema_consts [simp] = NUMBER_OF_SEMAPHORES_def

section \<open>The free list\<close>

fun path :: "kernel_sema list \<Rightarrow> nat option \<Rightarrow> nat list \<Rightarrow> bool" where
  "path a h [] \<longleftrightarrow> h = None"
| "path a h (i # is) \<longleftrightarrow> h = Some i \<and> path a (ks_next (a ! i)) is"

definition free_slots :: "sema_state \<Rightarrow> nat set" where
  "free_slots st = {i. i < 32 \<and> ks_free (semaphoreArray st ! i) \<noteq> 0}"

definition used_slots :: "sema_state \<Rightarrow> nat set" where
  "used_slots st = {i. i < 32 \<and> ks_free (semaphoreArray st ! i) = 0}"

definition sema_inv :: "sema_state \<Rightarrow> bool" where
  "sema_inv st \<longleftrightarrow> length (semaphoreArray st) = 32
     \<and> (\<forall>i < 32. ks_index (semaphoreArray st ! i) = int i)
     \<and> (\<exists>is. path (semaphoreArray st) (semaphoreListHead st) is \<and> distinct is \<and> set is = free_slots st)"

lemma path_update:
  "i \<notin> set is \<Longrightarrow> path (a[i := k]) h is \<longleftrightarrow> path a h is"
proof (induction "is" arbitrary: h)
  case (Cons j js)
  then have "a[i := k] ! j = a ! j" by simp
  with Cons show ?case by simp
qed simp

lemma create_cases:
  assumes "sema_inv st" "syscallCreateSema q st = (r, st')"
  obtains (failed) "r = - 1" "st' = st" "es_init_count q < 0 \<or> semaphoreListHead st = None"
  | (created) i where "r = int i" "i < 32" "i \<in> free_slots st" "0 \<le> es_init_count q"
      "sema_inv st'" "used_slots st' = insert i (used_slots st)"
      "ks_count (semaphoreArray st' ! i) = es_init_count q"
      "\<And>j. j \<noteq> i \<Longrightarrow> semaphoreArray st' ! j = semaphoreArray st ! j"
proof (cases "es_init_count q < 0 \<or> semaphoreListHead st = None")
  case True
  then show thesis using failed assms(2) by (auto simp: syscallCreateSema_def split: if_splits)
next
  case False
  then obtain i where head: "semaphoreListHead st = Some i" by auto
  obtain "is" where p: "path (semaphoreArray st) (Some i) is" "distinct is" "set is = free_slots st"
    using assms(1) head by (auto simp: sema_inv_def)
  then obtain js where js: "is = i # js" by (cases "is") auto
  have i: "i < 32" "i \<in> free_slots st" using p(3) js by (auto simp: free_slots_def)
  have len: "length (semaphoreArray st) = 32" using assms(1) by (simp add: sema_inv_def)
  have st': "semaphoreListHead st' = ks_next (semaphoreArray st ! i)"
      "\<exists>k. semaphoreArray st' = (semaphoreArray st)[i := k] \<and> ks_free k = 0
         \<and> ks_count k = es_init_count q \<and> ks_index k = ks_index (semaphoreArray st ! i)"
      "r = ks_index (semaphoreArray st ! i)"
    using assms(2) head False len i by (auto simp: syscallCreateSema_def upd_sema_def Let_def)
  then obtain k where k: "semaphoreArray st' = (semaphoreArray st)[i := k]" "ks_free k = 0"
      "ks_count k = es_init_count q" "ks_index k = int i" "r = int i"
    using assms(1) i by (auto simp: sema_inv_def)
  have free: "free_slots st' = free_slots st - {i}" "used_slots st' = insert i (used_slots st)"
    using k len i by (auto simp: free_slots_def used_slots_def)
  have "path (semaphoreArray st') (semaphoreListHead st') js"
    using p js st'(1) k(1) by (simp add: path_update)
  moreover have "distinct js" "set js = free_slots st'" using p js free by auto
  ultimately have "sema_inv st'"
    using assms(1) k len i by (auto simp: sema_inv_def)
  then show thesis
    using created [of i] i k free False len by auto
qed

lemma delete_used:
  assumes "sema_inv st" "i \<in> used_slots st"
  shows "fst (iDeleteSema (int i) st) = int i" "sema_inv (snd (iDeleteSema (int i) st))"
    "used_slots (snd (iDeleteSema (int i) st)) = used_slots st - {i}"
proof -
  have i: "i < 32" "ks_free (semaphoreArray st ! i) = 0" using assms(2) by (auto simp: used_slots_def)
  have len: "length (semaphoreArray st) = 32" using assms(1) by (simp add: sema_inv_def)
  define st' where "st' = snd (iDeleteSema (int i) st)"
  have st': "semaphoreListHead st' = Some i"
      "\<exists>k. semaphoreArray st' = (semaphoreArray st)[i := k] \<and> ks_free k \<noteq> 0
        \<and> ks_next k = semaphoreListHead st \<and> ks_index k = ks_index (semaphoreArray st ! i)"
    and ret: "fst (iDeleteSema (int i) st) = int i"
    using i len by (auto simp: st'_def iDeleteSema_def upd_sema_def Let_def)
  then obtain k where k: "semaphoreArray st' = (semaphoreArray st)[i := k]" "ks_free k \<noteq> 0"
      "ks_next k = semaphoreListHead st" "ks_index k = int i"
    using assms(1) i by (auto simp: sema_inv_def)
  obtain "is" where p: "path (semaphoreArray st) (semaphoreListHead st) is" "distinct is"
      "set is = free_slots st"
    using assms(1) by (auto simp: sema_inv_def)
  have ni: "i \<notin> set is" using p(3) i by (simp add: free_slots_def)
  have free: "free_slots st' = insert i (free_slots st)" "used_slots st' = used_slots st - {i}"
    using k len i by (auto simp: free_slots_def used_slots_def)
  have "path (semaphoreArray st') (semaphoreListHead st') (i # is)"
    using p ni st'(1) k len i by (simp add: path_update)
  moreover have "distinct (i # is)" "set (i # is) = free_slots st'" using p ni free by auto
  moreover have "\<forall>j < 32. ks_index (semaphoreArray st' ! j) = int j" "length (semaphoreArray st') = 32"
    using assms(1) k len i by (auto simp: sema_inv_def)
  ultimately have "sema_inv st'"
    unfolding sema_inv_def by blast
  then show "fst (iDeleteSema (int i) st) = int i" "sema_inv (snd (iDeleteSema (int i) st))"
      "used_slots (snd (iDeleteSema (int i) st)) = used_slots st - {i}"
    using ret free by (simp_all add: st'_def)
qed

text \<open>The pool operations a client sees: an identifier or nothing, and its return.\<close>

definition sema_alloc :: "ee_sema \<Rightarrow> sema_state \<Rightarrow> nat option \<times> sema_state" where
  "sema_alloc q st = (let (r, st') = syscallCreateSema q st in (if r < 0 then None else Some (nat r), st'))"

definition sema_release :: "nat \<Rightarrow> sema_state \<Rightarrow> sema_state" where
  "sema_release i st = snd (iDeleteSema (int i) st)"

interpretation sema: slot_pool sema_inv used_slots 32 sema_alloc sema_release
proof
  fix s s' :: sema_state and q i
  assume inv: "sema_inv s"
  obtain r t where r: "syscallCreateSema q s = (r, t)" by (cases "syscallCreateSema q s")
  show "used_slots s \<subseteq> {..<32}" by (auto simp: used_slots_def)
  show "sema_inv s' \<and> i < 32 \<and> i \<notin> used_slots s \<and> used_slots s' = insert i (used_slots s)"
    if "sema_alloc q s = (Some i, s')"
    using inv r
    by (cases rule: create_cases)
      (use that r in \<open>auto simp: sema_alloc_def free_slots_def used_slots_def split: if_splits\<close>)
  show "sema_inv s' \<and> used_slots s' = used_slots s" if "sema_alloc q s = (None, s')"
    using inv r
    by (cases rule: create_cases) (use that r inv in \<open>auto simp: sema_alloc_def\<close>)
  show "sema_inv (sema_release i s) \<and> used_slots (sema_release i s) = used_slots s - {i}"
    if "i \<in> used_slots s"
    using delete_used [OF inv that] by (simp add: sema_release_def)
qed

section \<open>Counting\<close>

definition sema_count :: "nat \<Rightarrow> sema_state \<Rightarrow> int" where
  "sema_count i st = ks_count (semaphoreArray st ! i)"

text \<open>One semaphore as a client uses it.\<close>

datatype sema_request = Signal | Poll

fun sema_call :: "nat \<Rightarrow> sema_request \<Rightarrow> sema_state \<Rightarrow> sema_state" where
  "sema_call i Signal st = (case iSignalSema (int i) st of Some (_, st) \<Rightarrow> st | None \<Rightarrow> st)"
| "sema_call i Poll st = snd (iWaitSema (of_nat i) st)"

text \<open>Its specification: a natural number that a poll lowers when it can.\<close>

fun counter_call :: "sema_request \<Rightarrow> nat \<Rightarrow> nat" where
  "counter_call Signal n = n + 1"
| "counter_call Poll n = n - 1"

lemma length_upd_sema [simp]: "length (semaphoreArray (upd_sema i f st)) = length (semaphoreArray st)"
  by (simp add: upd_sema_def)

lemma sema_count_upd:
  "i < length (semaphoreArray st) \<Longrightarrow>
   sema_count j (upd_sema i f st) = (if j = i then ks_count (f (semaphoreArray st ! i)) else sema_count j st)"
  by (simp add: sema_count_def upd_sema_def)

lemma signal_count:
  assumes "length (semaphoreArray st) = 32" "i < 32" "0 \<le> sema_count i st" "sema_count i st < 2 ^ 31 - 1"
  shows "\<exists>st'. iSignalSema (int i) st = Some (0, st') \<and> length (semaphoreArray st') = 32
    \<and> (\<forall>j. sema_count j st' = (if j = i then sema_count i st + 1 else sema_count j st))"
  using assms by (auto simp: iSignalSema_def sema_count_upd) (simp_all add: sema_count_def)

lemma wait_count:
  assumes "length (semaphoreArray st) = 32" "unat sid < 32" "0 \<le> sema_count (unat sid) st"
  shows "fst (iWaitSema sid st) = (if 0 < sema_count (unat sid) st then sint sid else - 2)"
    "length (semaphoreArray (snd (iWaitSema sid st))) = 32"
    "sema_count j (snd (iWaitSema sid st)) =
       (if j = unat sid then max 0 (sema_count j st - 1) else sema_count j st)"
  using assms by (auto simp: iWaitSema_def sema_count_upd) (auto simp: sema_count_def)

lemma init_prefix:
  assumes "length (semaphoreArray st) = 32" "n \<le> 31"
  defines "st' \<equiv> foldl (\<lambda>st i. upd_sema i
      (\<lambda>k. k\<lparr>ks_next := Some (i + 1), ks_index := int i, ks_free := - 1\<rparr>) st)
      (st\<lparr>semaphoreListHead := Some 0\<rparr>) [0..<n]"
  shows "length (semaphoreArray st') = 32 \<and> semaphoreListHead st' = Some 0 \<and> (i < n \<longrightarrow>
    ks_index (semaphoreArray st' ! i) = int i \<and> ks_free (semaphoreArray st' ! i) = - 1
    \<and> ks_next (semaphoreArray st' ! i) = Some (i + 1))"
  using assms(2) unfolding st'_def
proof (induction n)
  case 0
  then show ?case using assms(1) by simp
next
  case (Suc n)
  then show ?case by (auto simp: upd_sema_def less_Suc_eq)
qed

lemma path_succ:
  assumes "\<And>i. i < n \<Longrightarrow> ks_next (a ! i) = (if i = n - 1 then None else Some (i + 1))" "i < n"
  shows "path a (Some i) [i..<n]"
  using assms(2)
proof (induction "n - i" arbitrary: i)
  case (Suc k)
  then show ?case
    using assms(1) [of i] by (cases "i = n - 1") (auto simp: upt_conv_Cons)
qed simp

section \<open>Properties\<close>

text \<open>
  C17. Whatever semaphores are created and deleted, in any order, the identifiers a client
  holds are distinct, below 32 and exactly the ones in use, and the free list stays intact.
\<close>

theorem sema_ids_unique:
  assumes "sema_inv st" "used_slots st = {}"
    and "pool_run sema_alloc sema_release ops ([], st) = (held, st')"
  shows "sema_inv st' \<and> distinct held \<and> set held = used_slots st' \<and> length held \<le> 32"
  using sema.run_held [OF assms(1) _ _ assms(3)] sema.run_bounded [OF assms(1) _ _ assms(3)]
  by (simp add: assms(2))

text \<open>
  C31. A semaphore counts: after any sequence of signals and polls the count is the one of a
  counter that signals raise and successful polls lower, and never negative, as long as it
  stays below \<open>2 ^ 31\<close>.
\<close>

theorem sema_counts:
  assumes "length (semaphoreArray st) = 32" "i < 32" "sema_count i st = int n"
    and "n + length cs < 2 ^ 31"
  shows "sema_count i (foldl (\<lambda>st c. sema_call i c st) st cs) = int (foldl (\<lambda>n c. counter_call c n) n cs)"
  using assms
proof (induction cs arbitrary: st n)
  case (Cons c cs)
  have step: "length (semaphoreArray (sema_call i c st)) = 32"
      "sema_count i (sema_call i c st) = int (counter_call c n)"
  proof (atomize (full), cases c)
    case Signal
    then show "length (semaphoreArray (sema_call i c st)) = 32
        \<and> sema_count i (sema_call i c st) = int (counter_call c n)"
      using signal_count [of st i] Cons.prems by auto
  next
    case Poll
    have "unat (of_nat i :: u32) = i" using Cons.prems(2) by (simp add: unat_of_nat_lt)
    with Poll show "length (semaphoreArray (sema_call i c st)) = 32
        \<and> sema_count i (sema_call i c st) = int (counter_call c n)"
      using wait_count [of st "of_nat i"] Cons.prems by auto
  qed
  have "counter_call c n \<le> n + 1" by (cases c) auto
  then show ?case using Cons step by simp
qed simp

text \<open>
  \<open>WaitSema\<close> returns as soon as an interrupt handler raises the count, whatever the
  handlers before did as long as they kept it nonnegative; it takes one unit and restores
  the processor status.
\<close>

theorem WaitSema_returns:
  assumes "length (semaphoreArray st) = 32" "unat sid < 32" "0 \<le> sema_count (unat sid) st"
    and keep: "\<And>f t. f \<in> set pre \<Longrightarrow> length (semaphoreArray t) = 32 \<Longrightarrow> 0 \<le> sema_count (unat sid) t \<Longrightarrow>
      length (semaphoreArray (f t)) = 32 \<and> 0 \<le> sema_count (unat sid) (f t)"
    and signal: "\<And>t. length (semaphoreArray t) = 32 \<Longrightarrow> 0 \<le> sema_count (unat sid) t \<Longrightarrow>
      length (semaphoreArray (sig t)) = 32 \<and> 0 < sema_count (unat sid) (sig t)"
  shows "\<exists>st'. WaitSema sid (pre @ sig # post) st = Some (sint sid, st')
    \<and> sem_cp0_status st' = sem_cp0_status st \<and> 0 \<le> sema_count (unat sid) st'"
proof -
  have "unat sid < 2 ^ 31" by (rule order_less_trans [OF assms(2)]) simp
  then have ne: "sint sid \<noteq> - 2" using sint_small [of sid] by linarith
  let ?ok = "\<lambda>t. length (semaphoreArray t) = 32 \<and> 0 \<le> sema_count (unat sid) t"
  have loop: "\<exists>st'. wait_loop sid irqs (iWaitSema sid t) = Some (sint sid, st') \<and> 0 \<le> sema_count (unat sid) st'"
    if "?ok t" "0 < sema_count (unat sid) t" for irqs t
    using that wait_count(1,2) [of t sid] wait_count(3) [of t sid "unat sid"] ne assms(2)
    by (cases "iWaitSema sid t") auto
  have poll: "wait_loop sid (irq # irqs) (iWaitSema sid t) = wait_loop sid irqs (iWaitSema sid (irq t))"
    if "?ok t" "\<not> 0 < sema_count (unat sid) t" for irq irqs t
    using that assms(2) by (auto simp: iWaitSema_def sema_count_def)
  have "\<exists>st'. wait_loop sid (pre @ sig # post) (iWaitSema sid t) = Some (sint sid, st')
      \<and> 0 \<le> sema_count (unat sid) st'" if "?ok t" for t
    using that keep
  proof (induction pre arbitrary: t)
    case Nil
    then show ?case
      using loop [of t] loop [of "sig t" post] poll [of t sig post] signal [of t]
      by (cases "0 < sema_count (unat sid) t") (auto simp: less_imp_le)
  next
    case (Cons f fs)
    then show ?case
      using loop [of t] poll [of t f "fs @ sig # post"] Cons.IH [of "f t"]
      by (cases "0 < sema_count (unat sid) t") auto
  qed
  from this [of "st\<lparr>sem_cp0_status := sem_cp0_status st AND NOT 0x1f\<rparr>"] show ?thesis
    using assms(1,3) by (auto simp: WaitSema_def Let_def sema_count_def simp del: wait_loop.simps)
qed

text \<open>
  \<open>init_semaphores\<close> makes all 32 semaphores free and chains them into the free list.
\<close>

theorem init_semaphores_inv:
  assumes "length (semaphoreArray st) = 32"
  shows "sema_inv (init_semaphores st) \<and> used_slots (init_semaphores st) = {}"
proof -
  let ?a = "semaphoreArray (init_semaphores st)"
  have a: "length ?a = 32" "i < 32 \<Longrightarrow> ks_index (?a ! i) = int i \<and> ks_free (?a ! i) = - 1
      \<and> ks_next (?a ! i) = (if i = 31 then None else Some (i + 1))" for i
    using init_prefix [OF assms, of 31 i] by (auto simp: init_semaphores_def upd_sema_def Let_def)
  have "path ?a (Some 0) [0..<32]" using path_succ [of 32 ?a 0] a by simp
  moreover have "semaphoreListHead (init_semaphores st) = Some 0"
    using init_prefix [OF assms, of 31 0] by (simp add: init_semaphores_def upd_sema_def Let_def)
  ultimately show ?thesis
    unfolding sema_inv_def using a by (auto simp: free_slots_def used_slots_def intro!: exI [of _ "[0..<32]"])
qed

section \<open>Witnesses\<close>

definition sample_sema :: sema_state where
  "sample_sema = init_semaphores \<lparr>semaphoreArray = replicate 32 \<lparr>ks_count = 0, ks_max_count = 0,
     ks_init_count = 0, ks_wait_threads = 0, ks_attr = 0, ks_option = 0, ks_next = None,
     ks_index = 0, ks_free = 0\<rparr>, semaphoreListHead = None, sem_cp0_status = 0x10001\<rparr>"

definition sample_request :: ee_sema where
  "sample_request = \<lparr>es_count = 0, es_max_count = 1, es_init_count = 1, es_wait_threads = 0,
     es_attr = 0, es_option = 0\<rparr>"

theorem init_semaphores_inv_witness: "sema_inv sample_sema \<and> used_slots sample_sema = {}"
  unfolding sample_sema_def by (rule init_semaphores_inv) simp

lemma sample_sema_ok: "sema_inv sample_sema" "used_slots sample_sema = {}"
proof -
  have p: "path (semaphoreArray sample_sema) (semaphoreListHead sample_sema) [0..<32]" by code_simp
  have "list_all (\<lambda>i. ks_index (semaphoreArray sample_sema ! i) = int i
      \<and> ks_free (semaphoreArray sample_sema ! i) \<noteq> 0) [0..<32]" by code_simp
  then have a: "\<forall>i < 32. ks_index (semaphoreArray sample_sema ! i) = int i
      \<and> ks_free (semaphoreArray sample_sema ! i) \<noteq> 0" by (simp add: list_all_iff)
  have "length (semaphoreArray sample_sema) = 32" by code_simp
  with p a show "sema_inv sample_sema"
    unfolding sema_inv_def by (auto simp: free_slots_def intro!: exI [of _ "[0..<32]"])
  show "used_slots sample_sema = {}" using a by (auto simp: used_slots_def)
qed

theorem sema_ids_unique_witness:
  "\<exists>held st'. pool_run sema_alloc sema_release [Alloc sample_request, Alloc sample_request]
      ([], sample_sema) = (held, st') \<and> distinct held \<and> set held = used_slots st'"
  using sema_ids_unique [OF sample_sema_ok] by (metis surj_pair)

lemma sample_sema_zero: "length (semaphoreArray sample_sema) = 32" "sema_count 3 sample_sema = int 0"
  by code_simp+

theorem sema_counts_witness:
  "sema_count 3 (foldl (\<lambda>st c. sema_call 3 c st) sample_sema [Signal, Signal, Poll]) = 1"
  using sema_counts [OF sample_sema_zero(1) _ sample_sema_zero(2), of "[Signal, Signal, Poll]"] by simp

theorem WaitSema_returns_witness:
  "\<exists>st'. WaitSema 3 [id, sema_call 3 Signal \<circ> upd_sema 3 (\<lambda>k. k\<lparr>ks_count := 0\<rparr>)] sample_sema = Some (3, st')"
proof -
  have u: "unat (3 :: u32) = 3" by simp
  have "\<exists>st'. WaitSema 3 ([id] @ (sema_call 3 Signal \<circ> upd_sema 3 (\<lambda>k. k\<lparr>ks_count := 0\<rparr>)) # []) sample_sema
      = Some (sint (3 :: u32), st') \<and> sem_cp0_status st' = sem_cp0_status sample_sema
      \<and> 0 \<le> sema_count (unat (3 :: u32)) st'"
  proof (rule WaitSema_returns)
    show "length (semaphoreArray ((sema_call 3 Signal \<circ> upd_sema 3 (\<lambda>k. k\<lparr>ks_count := 0\<rparr>)) t)) = 32
        \<and> 0 < sema_count (unat (3 :: u32)) ((sema_call 3 Signal \<circ> upd_sema 3 (\<lambda>k. k\<lparr>ks_count := 0\<rparr>)) t)"
      if "length (semaphoreArray t) = 32" for t
      using that signal_count [of "upd_sema 3 (\<lambda>k. k\<lparr>ks_count := 0\<rparr>) t" 3]
      by (auto simp: sema_count_upd)
  qed (use sample_sema_zero in simp_all)
  then show ?thesis by auto
qed

end
