(* ===== verification/Mmu.thy ===== *)
theory Mmu
  imports Prelude
begin

text \<open>
  The fixed TLB of the kernel (\<open>kernel/mmu.c\<close>): \<open>mapMemory\<close> writes one of the 48 entries
  through the COP0 registers and \<open>mmu_init_module\<close> fills 39 of them. The receiving side, the
  lookup of a virtual address in the TLB, follows the documentation of the processor.
\<close>

section \<open>State and operations\<close>

record tlb_entry =
  te_mask :: u32
  te_hi :: u32
  te_lo0 :: u32
  te_lo1 :: u32

record mmu =
  c0_pagemask :: u32
  c0_index :: u32
  c0_entrylo0 :: u32
  c0_entrylo1 :: u32
  c0_entryhi :: u32
  c0_wired :: u32
  tlb :: "tlb_entry list"

definition PAGE_CACHEABLE :: u32 where "PAGE_CACHEABLE = push_bit 3 3"
definition PAGE_UNCACHEABLE :: u32 where "PAGE_UNCACHEABLE = push_bit 3 2"
definition PAGE_UNCACHEABLE_ACCELERATED :: u32 where "PAGE_UNCACHEABLE_ACCELERATED = push_bit 3 7"
definition PAGE_DIRTY :: u32 where "PAGE_DIRTY = push_bit 2 1"
definition PAGE_VALID :: u32 where "PAGE_VALID = push_bit 1 1"
definition PAGE_GLOBAL :: u32 where "PAGE_GLOBAL = 1"
definition PAGE_SPRAM :: u32 where "PAGE_SPRAM = push_bit 31 1"
definition PAGE_4K :: u32 where "PAGE_4K = 0"
definition PAGE_16K :: u32 where "PAGE_16K = push_bit 13 0x03"
definition PAGE_64K :: u32 where "PAGE_64K = push_bit 13 0x0f"
definition PAGE_256K :: u32 where "PAGE_256K = push_bit 13 0x3f"
definition PAGE_1M :: u32 where "PAGE_1M = push_bit 13 0xff"
definition PAGE_4M :: u32 where "PAGE_4M = push_bit 13 0x3ff"
definition PAGE_16M :: u32 where "PAGE_16M = push_bit 13 0xfff"
definition KSEG0 :: u32 where "KSEG0 = 0x80000000"
definition ZERO_REG_ADDRESS :: u32 where "ZERO_REG_ADDRESS = 0x78000"

text \<open>The \<open>tlbwi\<close> instruction.\<close>

definition tlbwi :: "mmu \<Rightarrow> mmu" where
  "tlbwi s = s\<lparr>tlb := (tlb s)[unat (c0_index s) :=
     \<lparr>te_mask = c0_pagemask s, te_hi = c0_entryhi s, te_lo0 = c0_entrylo0 s, te_lo1 = c0_entrylo1 s\<rparr>]\<rparr>"

definition mapMemory :: "u32 \<Rightarrow> u32 \<Rightarrow> u32 \<Rightarrow> u32 \<Rightarrow> u32 \<Rightarrow> u32 \<Rightarrow> u32 \<Rightarrow> mmu \<Rightarrow> mmu" where
  "mapMemory index vaddr paddr1 flags1 paddr2 flags2 pagesize s =
     (let pagemask = pagesize OR 0x1FFF;
          pagemask = drop_bit 1 pagemask;
          pagemask = NOT pagemask;
          asid = 0;
          s = s\<lparr>c0_pagemask := pagesize\<rparr>;
          s = s\<lparr>c0_index := index\<rparr>;
          s = s\<lparr>c0_entrylo0 := drop_bit (12 - 6) (paddr1 AND pagemask) OR flags1\<rparr>;
          s = s\<lparr>c0_entrylo1 := drop_bit (12 - 6) (paddr2 AND pagemask) OR flags2\<rparr>;
          s = s\<lparr>c0_entryhi := (vaddr AND push_bit 1 pagemask) OR asid\<rparr>
      in tlbwi s)"

definition flush_tlbs :: "mmu \<Rightarrow> mmu" where
  "flush_tlbs s =
     (let pagesize = PAGE_16M;
          s = s\<lparr>c0_wired := 0\<rparr>;
          s = s\<lparr>c0_pagemask := pagesize\<rparr>;
          s = s\<lparr>c0_entrylo0 := 0\<rparr>;
          s = s\<lparr>c0_entrylo1 := 0\<rparr>;
          pagesize = (pagesize OR 0x1FFF) + 1
      in foldl (\<lambda>s entry. tlbwi (s\<lparr>c0_entryhi := KSEG0 + of_nat entry * pagesize, c0_index := of_nat entry\<rparr>))
           s [0..<48])"

text \<open>The calls of \<open>mmu_init_module\<close>, in four groups.\<close>

text \<open>The hardware registers and the boot ROM.\<close>

definition map_registers :: "mmu \<Rightarrow> mmu" where
  "map_registers s =
     (let s = mapMemory 2 0x10000000 0x10000000 (PAGE_UNCACHEABLE OR PAGE_DIRTY OR PAGE_VALID OR PAGE_GLOBAL)
            0x10001000 (PAGE_UNCACHEABLE OR PAGE_VALID OR PAGE_GLOBAL) PAGE_4K s;
          s = mapMemory 3 0x10002000 0x10002000 (PAGE_UNCACHEABLE OR PAGE_DIRTY OR PAGE_VALID OR PAGE_GLOBAL)
            0x10003000 (PAGE_UNCACHEABLE OR PAGE_DIRTY OR PAGE_VALID OR PAGE_GLOBAL) PAGE_4K s;
          s = mapMemory 4 0x10004000 0x10004000 (PAGE_UNCACHEABLE OR PAGE_DIRTY OR PAGE_VALID OR PAGE_GLOBAL)
            0x10005000 (PAGE_UNCACHEABLE OR PAGE_DIRTY OR PAGE_VALID OR PAGE_GLOBAL) PAGE_4K s;
          s = mapMemory 5 0x10006000 0x10006000 (PAGE_UNCACHEABLE OR PAGE_DIRTY OR PAGE_VALID OR PAGE_GLOBAL)
            0x10007000 (PAGE_UNCACHEABLE OR PAGE_DIRTY OR PAGE_VALID OR PAGE_GLOBAL) PAGE_4K s;
          s = mapMemory 6 0x10008000 0x10008000 (PAGE_UNCACHEABLE OR PAGE_DIRTY OR PAGE_VALID OR PAGE_GLOBAL)
            0x10009000 (PAGE_UNCACHEABLE OR PAGE_DIRTY OR PAGE_VALID OR PAGE_GLOBAL) PAGE_4K s;
          s = mapMemory 7 0x1000a000 0x1000a000 (PAGE_UNCACHEABLE OR PAGE_DIRTY OR PAGE_VALID OR PAGE_GLOBAL)
            0x1000b000 (PAGE_UNCACHEABLE OR PAGE_DIRTY OR PAGE_VALID OR PAGE_GLOBAL) PAGE_4K s;
          s = mapMemory 8 0x1000c000 0x1000c000 (PAGE_UNCACHEABLE OR PAGE_VALID OR PAGE_GLOBAL)
            0x1000d000 (PAGE_UNCACHEABLE OR PAGE_DIRTY OR PAGE_VALID OR PAGE_GLOBAL) PAGE_4K s;
          s = mapMemory 9 0x1000e000 0x1000e000 (PAGE_UNCACHEABLE OR PAGE_DIRTY OR PAGE_VALID OR PAGE_GLOBAL)
            0x1000f000 (PAGE_UNCACHEABLE OR PAGE_DIRTY OR PAGE_VALID OR PAGE_GLOBAL) PAGE_4K s;
          s = mapMemory 10 0x11000000 0x11000000 (PAGE_UNCACHEABLE OR PAGE_DIRTY OR PAGE_VALID OR PAGE_GLOBAL)
            0x11010000 (PAGE_UNCACHEABLE OR PAGE_DIRTY OR PAGE_GLOBAL) PAGE_64K s;
          s = mapMemory 11 0x12000000 0x12000000 (PAGE_UNCACHEABLE OR PAGE_DIRTY OR PAGE_VALID OR PAGE_GLOBAL)
            0x12010000 (PAGE_UNCACHEABLE OR PAGE_DIRTY OR PAGE_GLOBAL) PAGE_64K s;
          s = mapMemory 12 0x1e000000 0x1e000000 (PAGE_UNCACHEABLE OR PAGE_DIRTY OR PAGE_VALID OR PAGE_GLOBAL)
            0x1f000000 (PAGE_UNCACHEABLE OR PAGE_DIRTY OR PAGE_VALID OR PAGE_GLOBAL) PAGE_16M s
      in s)"

text \<open>User level memory, cached.\<close>

definition map_cached :: "mmu \<Rightarrow> mmu" where
  "map_cached s =
     (let s = mapMemory 13 0x80000 0x80000 (PAGE_CACHEABLE OR PAGE_DIRTY OR PAGE_VALID OR PAGE_GLOBAL)
            0xc0000 (PAGE_CACHEABLE OR PAGE_DIRTY OR PAGE_VALID OR PAGE_GLOBAL) PAGE_256K s;
          s = mapMemory 14 0x100000 0x100000 (PAGE_CACHEABLE OR PAGE_DIRTY OR PAGE_VALID OR PAGE_GLOBAL)
            0x140000 (PAGE_CACHEABLE OR PAGE_DIRTY OR PAGE_VALID OR PAGE_GLOBAL) PAGE_256K s;
          s = mapMemory 15 0x180000 0x180000 (PAGE_CACHEABLE OR PAGE_DIRTY OR PAGE_VALID OR PAGE_GLOBAL)
            0x180000 (PAGE_CACHEABLE OR PAGE_DIRTY OR PAGE_VALID OR PAGE_GLOBAL) PAGE_256K s;
          s = mapMemory 16 0x200000 0x200000 (PAGE_CACHEABLE OR PAGE_DIRTY OR PAGE_VALID OR PAGE_GLOBAL)
            0x300000 (PAGE_CACHEABLE OR PAGE_DIRTY OR PAGE_VALID OR PAGE_GLOBAL) PAGE_1M s;
          s = mapMemory 17 0x400000 0x400000 (PAGE_CACHEABLE OR PAGE_DIRTY OR PAGE_VALID OR PAGE_GLOBAL)
            0x500000 (PAGE_CACHEABLE OR PAGE_DIRTY OR PAGE_VALID OR PAGE_GLOBAL) PAGE_1M s;
          s = mapMemory 18 0x600000 0x600000 (PAGE_CACHEABLE OR PAGE_DIRTY OR PAGE_VALID OR PAGE_GLOBAL)
            0x700000 (PAGE_CACHEABLE OR PAGE_DIRTY OR PAGE_VALID OR PAGE_GLOBAL) PAGE_1M s;
          s = mapMemory 19 0x800000 0x800000 (PAGE_CACHEABLE OR PAGE_DIRTY OR PAGE_VALID OR PAGE_GLOBAL)
            0xc00000 (PAGE_CACHEABLE OR PAGE_DIRTY OR PAGE_VALID OR PAGE_GLOBAL) PAGE_4M s;
          s = mapMemory 20 0x1000000 0x1000000 (PAGE_CACHEABLE OR PAGE_DIRTY OR PAGE_VALID OR PAGE_GLOBAL)
            0x1400000 (PAGE_CACHEABLE OR PAGE_DIRTY OR PAGE_VALID OR PAGE_GLOBAL) PAGE_4M s;
          s = mapMemory 21 0x1800000 0x1800000 (PAGE_CACHEABLE OR PAGE_DIRTY OR PAGE_VALID OR PAGE_GLOBAL)
            0x1c00000 (PAGE_CACHEABLE OR PAGE_DIRTY OR PAGE_VALID OR PAGE_GLOBAL) PAGE_4M s
      in s)"

text \<open>User level memory, uncached.\<close>

definition map_uncached :: "mmu \<Rightarrow> mmu" where
  "map_uncached s =
     (let s = mapMemory 22 0x20080000 0x80000 (PAGE_UNCACHEABLE OR PAGE_DIRTY OR PAGE_VALID OR PAGE_GLOBAL)
            0xc0000 (PAGE_UNCACHEABLE OR PAGE_DIRTY OR PAGE_VALID OR PAGE_GLOBAL) PAGE_256K s;
          s = mapMemory 23 0x20100000 0x100000 (PAGE_UNCACHEABLE OR PAGE_DIRTY OR PAGE_VALID OR PAGE_GLOBAL)
            0x140000 (PAGE_UNCACHEABLE OR PAGE_DIRTY OR PAGE_VALID OR PAGE_GLOBAL) PAGE_256K s;
          s = mapMemory 24 0x20180000 0x180000 (PAGE_UNCACHEABLE OR PAGE_DIRTY OR PAGE_VALID OR PAGE_GLOBAL)
            0x180000 (PAGE_UNCACHEABLE OR PAGE_DIRTY OR PAGE_VALID OR PAGE_GLOBAL) PAGE_256K s;
          s = mapMemory 25 0x20200000 0x200000 (PAGE_UNCACHEABLE OR PAGE_DIRTY OR PAGE_VALID OR PAGE_GLOBAL)
            0x300000 (PAGE_UNCACHEABLE OR PAGE_DIRTY OR PAGE_VALID OR PAGE_GLOBAL) PAGE_1M s;
          s = mapMemory 26 0x20400000 0x400000 (PAGE_UNCACHEABLE OR PAGE_DIRTY OR PAGE_VALID OR PAGE_GLOBAL)
            0x500000 (PAGE_UNCACHEABLE OR PAGE_DIRTY OR PAGE_VALID OR PAGE_GLOBAL) PAGE_1M s;
          s = mapMemory 27 0x20600000 0x600000 (PAGE_UNCACHEABLE OR PAGE_DIRTY OR PAGE_VALID OR PAGE_GLOBAL)
            0x700000 (PAGE_UNCACHEABLE OR PAGE_DIRTY OR PAGE_VALID OR PAGE_GLOBAL) PAGE_1M s;
          s = mapMemory 28 0x20800000 0x800000 (PAGE_UNCACHEABLE OR PAGE_DIRTY OR PAGE_VALID OR PAGE_GLOBAL)
            0xc00000 (PAGE_UNCACHEABLE OR PAGE_DIRTY OR PAGE_VALID OR PAGE_GLOBAL) PAGE_4M s;
          s = mapMemory 29 0x21000000 0x1000000 (PAGE_UNCACHEABLE OR PAGE_DIRTY OR PAGE_VALID OR PAGE_GLOBAL)
            0x1400000 (PAGE_UNCACHEABLE OR PAGE_DIRTY OR PAGE_VALID OR PAGE_GLOBAL) PAGE_4M s;
          s = mapMemory 30 0x21800000 0x1800000 (PAGE_UNCACHEABLE OR PAGE_DIRTY OR PAGE_VALID OR PAGE_GLOBAL)
            0x1c00000 (PAGE_UNCACHEABLE OR PAGE_DIRTY OR PAGE_VALID OR PAGE_GLOBAL) PAGE_4M s
      in s)"

text \<open>User level memory, uncached accelerated.\<close>

definition map_accelerated :: "mmu \<Rightarrow> mmu" where
  "map_accelerated s =
     (let s = mapMemory 31 0x30100000 0x100000 (PAGE_UNCACHEABLE_ACCELERATED OR PAGE_DIRTY OR PAGE_VALID OR PAGE_GLOBAL)
            0x140000 (PAGE_UNCACHEABLE_ACCELERATED OR PAGE_DIRTY OR PAGE_VALID OR PAGE_GLOBAL) PAGE_256K s;
          s = mapMemory 32 0x30180000 0x180000 (PAGE_UNCACHEABLE_ACCELERATED OR PAGE_DIRTY OR PAGE_VALID OR PAGE_GLOBAL)
            0x1c0000 (PAGE_UNCACHEABLE_ACCELERATED OR PAGE_DIRTY OR PAGE_VALID OR PAGE_GLOBAL) PAGE_256K s;
          s = mapMemory 33 0x30200000 0x200000 (PAGE_UNCACHEABLE_ACCELERATED OR PAGE_DIRTY OR PAGE_VALID OR PAGE_GLOBAL)
            0x300000 (PAGE_UNCACHEABLE_ACCELERATED OR PAGE_DIRTY OR PAGE_VALID OR PAGE_GLOBAL) PAGE_1M s;
          s = mapMemory 34 0x30400000 0x400000 (PAGE_UNCACHEABLE_ACCELERATED OR PAGE_DIRTY OR PAGE_VALID OR PAGE_GLOBAL)
            0x500000 (PAGE_UNCACHEABLE_ACCELERATED OR PAGE_DIRTY OR PAGE_VALID OR PAGE_GLOBAL) PAGE_1M s;
          s = mapMemory 35 0x30600000 0x600000 (PAGE_UNCACHEABLE_ACCELERATED OR PAGE_DIRTY OR PAGE_VALID OR PAGE_GLOBAL)
            0x700000 (PAGE_UNCACHEABLE_ACCELERATED OR PAGE_DIRTY OR PAGE_VALID OR PAGE_GLOBAL) PAGE_1M s;
          s = mapMemory 36 0x30800000 0x800000 (PAGE_UNCACHEABLE_ACCELERATED OR PAGE_DIRTY OR PAGE_VALID OR PAGE_GLOBAL)
            0xc00000 (PAGE_UNCACHEABLE_ACCELERATED OR PAGE_DIRTY OR PAGE_VALID OR PAGE_GLOBAL) PAGE_4M s;
          s = mapMemory 37 0x31000000 0x1000000 (PAGE_UNCACHEABLE_ACCELERATED OR PAGE_DIRTY OR PAGE_VALID OR PAGE_GLOBAL)
            0x1400000 (PAGE_UNCACHEABLE_ACCELERATED OR PAGE_DIRTY OR PAGE_VALID OR PAGE_GLOBAL) PAGE_4M s;
          s = mapMemory 38 0x31800000 0x1800000 (PAGE_UNCACHEABLE_ACCELERATED OR PAGE_DIRTY OR PAGE_VALID OR PAGE_GLOBAL)
            0x1c00000 (PAGE_UNCACHEABLE_ACCELERATED OR PAGE_DIRTY OR PAGE_VALID OR PAGE_GLOBAL) PAGE_4M s
      in s)"

text \<open>\<open>end_addr\<close> is the link-time end of the kernel image; \<open>None\<close> is the panic.\<close>

definition mmu_init_module :: "u32 \<Rightarrow> mmu \<Rightarrow> mmu option" where
  "mmu_init_module end_addr s =
     (let s = flush_tlbs s;
          s = s\<lparr>c0_wired := 31\<rparr>;
          s = mapMemory 0 0x70000000 0x00000000 (PAGE_UNCACHEABLE OR PAGE_DIRTY OR PAGE_VALID OR PAGE_GLOBAL OR PAGE_SPRAM)
            0x00000000 (PAGE_UNCACHEABLE OR PAGE_DIRTY OR PAGE_VALID OR PAGE_GLOBAL) PAGE_4K s
      in if KSEG0 + ZERO_REG_ADDRESS < end_addr then None
         else let s = mapMemory 1 0xffff8000 ZERO_REG_ADDRESS (PAGE_CACHEABLE OR PAGE_DIRTY OR PAGE_VALID OR PAGE_GLOBAL)
            (ZERO_REG_ADDRESS + 0x4000) (PAGE_CACHEABLE OR PAGE_DIRTY OR PAGE_VALID OR PAGE_GLOBAL) PAGE_16K s
              in Some (map_accelerated (map_uncached (map_cached (map_registers s)))))"

section \<open>Address translation\<close>

text \<open>
  An entry covers a pair of pages. A page of \<open>2 ^ k\<close> bytes has \<open>PageMask OR 0x1fff =
  2 ^ (k + 1) - 1\<close>. Bits 6 to 25 of the low word are the frame number, bit 1 is the valid
  bit, bits 3 to 5 the cache mode.
\<close>

definition te_span :: "tlb_entry \<Rightarrow> u32" where
  "te_span e = te_mask e OR 0x1fff"

definition tlb_match :: "u32 \<Rightarrow> tlb_entry \<Rightarrow> bool" where
  "tlb_match v e \<longleftrightarrow> v AND NOT (te_span e) = te_hi e AND NOT (te_span e)"

definition te_offset :: "u32 \<Rightarrow> tlb_entry \<Rightarrow> u32" where
  "te_offset v e = v AND drop_bit 1 (te_span e)"

definition te_lo :: "u32 \<Rightarrow> tlb_entry \<Rightarrow> u32" where
  "te_lo v e = (if v AND (te_span e - drop_bit 1 (te_span e)) = 0 then te_lo0 e else te_lo1 e)"

definition te_result :: "u32 \<Rightarrow> tlb_entry \<Rightarrow> (u32 \<times> u32) option" where
  "te_result v e = (let lo = te_lo v e
     in if lo AND PAGE_VALID = 0 then None
        else Some (push_bit 6 (lo AND 0x03ffffc0) + te_offset v e, lo AND 0x38))"

definition translate :: "u32 \<Rightarrow> mmu \<Rightarrow> (u32 \<times> u32) option" where
  "translate v s = (case find (tlb_match v) (tlb s) of None \<Rightarrow> None | Some e \<Rightarrow> te_result v e)"

section \<open>Checking a mapping by computation\<close>

text \<open>
  A window of virtual addresses is mapped with a constant difference when the first entry it
  meets covers it with one page. The check is executable, so that a claim about millions of
  addresses is settled by evaluating it once per page.
\<close>

definition te_base :: "tlb_entry \<Rightarrow> u32" where
  "te_base e = te_hi e AND NOT (te_span e)"

definition span_wf :: "tlb_entry \<Rightarrow> bool" where
  "span_wf e \<longleftrightarrow> list_ex (\<lambda>n. te_span e = mask n) [13..<26]"

definition page_ok :: "u32 \<Rightarrow> u32 \<Rightarrow> u32 \<Rightarrow> u32 \<Rightarrow> tlb_entry \<Rightarrow> bool" where
  "page_ok vlo vhi d c e \<longleftrightarrow>
     (let half = drop_bit 1 (te_span e);
          (first, lo) = (if vhi - te_base e \<le> half then (te_base e, te_lo0 e)
                         else (te_base e + half + 1, te_lo1 e))
      in first \<le> vlo \<and> vlo \<le> vhi \<and> vhi \<le> first + half
         \<and> lo AND PAGE_VALID \<noteq> 0 \<and> push_bit 6 (lo AND 0x03ffffc0) - first = d \<and> lo AND 0x38 = c)"

fun window_ok :: "u32 \<Rightarrow> u32 \<Rightarrow> u32 \<Rightarrow> u32 \<Rightarrow> tlb_entry list \<Rightarrow> bool" where
  "window_ok vlo vhi d c [] \<longleftrightarrow> False"
| "window_ok vlo vhi d c (e # es) \<longleftrightarrow>
     (if vhi < te_base e \<or> te_base e + te_span e < vlo then window_ok vlo vhi d c es
      else te_base e \<le> vlo \<and> vhi \<le> te_base e + te_span e \<and> page_ok vlo vhi d c e)"

lemma and_not_mask_sub: "(v :: u32) AND NOT (mask n) = v - take_bit n v"
proof -
  have "v AND NOT (mask n) = push_bit n (drop_bit n v)"
    by (rule bit_word_eqI) (auto simp: bit_simps)
  then show ?thesis using bits_ident [of n v] by (simp add: eq_diff_eq)
qed

lemma and_not_mask_div: "unat ((v :: u32) AND NOT (mask n)) = 2 ^ n * (unat v div 2 ^ n)"
proof -
  have "take_bit n v \<le> v" by (simp only: word_le_nat_alt unat_take_bit_mod mod_less_eq_dividend)
  then have "unat (v AND NOT (mask n)) = unat v - unat v mod 2 ^ n"
    by (simp only: and_not_mask_sub unat_sub unat_take_bit_mod)
  then show ?thesis by (simp only: minus_mod_eq_mult_div)
qed

lemma div_eq_interval:
  fixes x m q :: nat
  assumes "0 < m"
  shows "m * (x div m) = m * q \<longleftrightarrow> m * q \<le> x \<and> x < m * q + m"
proof -
  have "m * (x div m) = m * q \<longleftrightarrow> x div m = q" using assms by simp
  also have "\<dots> \<longleftrightarrow> m * q \<le> x \<and> x < m * q + m"
    using div_nat_eqI [of m q x] dividend_less_times_div [OF assms, of x]
    by (auto simp: mult.commute add.commute)
  finally show ?thesis .
qed

lemma unat_mask: "n \<le> 32 \<Longrightarrow> unat (mask n :: u32) = 2 ^ n - 1"
proof -
  assume "n \<le> 32"
  have "unat (mask n :: u32) = unat (take_bit n (- 1 :: u32))" by (simp add: take_bit_minus_one_eq_mask)
  also have "\<dots> = (2 ^ 32 - 1) mod 2 ^ n"
    by (simp only: unat_take_bit_mod) (simp add: unsigned_minus_1_eq_mask mask_eq_exp_minus_1)
  also have "\<dots> = 2 ^ n - 1"
  proof -
    have "(2 ^ 32 - 1 :: nat) = 2 ^ n - 1 + 2 ^ n * (2 ^ (32 - n) - 1)"
      using \<open>n \<le> 32\<close> power_increasing [of n 32 "2 :: nat"]
      by (simp add: diff_mult_distrib2 flip: power_add)
    then show ?thesis by (simp only: mod_mult_self2) simp
  qed
  finally show ?thesis .
qed

lemma base_multiple:
  assumes "te_span e = mask n"
  shows "unat (te_base e) = 2 ^ n * (unat (te_hi e) div 2 ^ n)"
  using assms by (simp only: te_base_def and_not_mask_div)

lemma base_room:
  assumes "te_span e = mask n" "n \<le> 31"
  shows "unat (te_base e) + 2 ^ n \<le> 2 ^ 32"
proof -
  have "unat (te_hi e) div 2 ^ n < 2 ^ (32 - n)"
  proof (rule less_mult_imp_div_less)
    have "(2::nat) ^ (32 - n) * 2 ^ n = 2 ^ 32" using assms(2) by (simp flip: power_add)
    then show "unat (te_hi e) < 2 ^ (32 - n) * 2 ^ n" using unsigned_less [of "te_hi e"] by simp
  qed
  then have "unat (te_hi e) div 2 ^ n + 1 \<le> 2 ^ (32 - n)" by simp
  then have "2 ^ n * (unat (te_hi e) div 2 ^ n + 1) \<le> 2 ^ n * 2 ^ (32 - n)"
    by (rule mult_le_mono2)
  then show ?thesis
    using assms(2) by (simp add: base_multiple [OF assms(1)] add.commute flip: power_add)
qed

lemma unat_base_add:
  assumes "te_span e = mask n" "n \<le> 31" "unat x < 2 ^ n"
  shows "unat (te_base e + x) = unat (te_base e) + unat x"
  using base_room [OF assms(1,2)] assms(3) by (simp add: unat_word_ariths)

lemma match_iff:
  assumes "te_span e = mask n" "n \<le> 31"
  shows "tlb_match v e \<longleftrightarrow> te_base e \<le> v \<and> v \<le> te_base e + te_span e"
proof -
  have "unat (te_span e) = 2 ^ n - 1" using assms unat_mask [of n] by simp
  then have top: "unat (te_base e + te_span e) = unat (te_base e) + (2 ^ n - 1)"
    using unat_base_add [OF assms, of "te_span e"] by simp
  have "tlb_match v e \<longleftrightarrow> 2 ^ n * (unat v div 2 ^ n) = 2 ^ n * (unat (te_hi e) div 2 ^ n)"
    by (simp only: tlb_match_def assms(1)) (simp only: word_unat_eq_iff and_not_mask_div)
  also have "\<dots> \<longleftrightarrow> unat (te_base e) \<le> unat v \<and> unat v < unat (te_base e) + 2 ^ n"
    by (simp only: div_eq_interval base_multiple [OF assms(1)] zero_less_power zero_less_numeral)
  also have "unat v < unat (te_base e) + 2 ^ n \<longleftrightarrow> unat v \<le> unat (te_base e) + (2 ^ n - 1)"
    using one_le_power [of "2 :: nat" n] by linarith
  finally show ?thesis by (simp only: word_le_nat_alt top)
qed

text \<open>Inside one page the offset is the distance from its first byte.\<close>

lemma drop_mask: "drop_bit 1 (mask (Suc k) :: u32) = mask k" if "k < 31"
  by (rule bit_word_eqI) (use that in \<open>auto simp: bit_simps\<close>)

lemma page_offset:
  assumes span: "te_span e = mask (Suc k)" and k: "k < 31"
    and first: "first = te_base e + (if odd' then 2 ^ k else 0)"
    and v: "first \<le> v" "v \<le> first + mask k"
  shows "te_offset v e = v - first" and "te_lo v e = (if odd' then te_lo1 e else te_lo0 e)"
proof -
  define q where "q = unat (te_hi e) div 2 ^ Suc k"
  define b :: nat where "b = (if odd' then 1 else 0)"
  have k2: "unat (2 ^ k :: u32) = 2 ^ k"
  proof -
    have "(2 ^ k :: u32) = mask k + 1" by (simp add: mask_eq_exp_minus_1)
    moreover have "(2 :: nat) ^ k < 2 ^ 32" using k by (intro power_strict_increasing) auto
    ultimately show ?thesis using unat_mask [of k] k by (simp only: unat_word_ariths) simp
  qed
  have uf: "unat first = 2 ^ Suc k * q + b * 2 ^ k"
    using unat_base_add [OF span, of "if odd' then 2 ^ k else 0"] k k2 base_multiple [OF span]
    by (simp add: first b_def q_def)
  have "unat (first + mask k) = unat first + (2 ^ k - 1)"
  proof -
    have "unat first + (2 ^ k - 1) < 2 ^ 32"
      using base_room [OF span] k base_multiple [OF span] uf
      by (auto simp: b_def q_def split: if_splits)
    then show ?thesis using unat_mask [of k] k by (simp add: unat_word_ariths)
  qed
  then obtain r where r: "unat v = unat first + r" "r < 2 ^ k"
  proof -
    assume a: "unat (first + mask k) = unat first + (2 ^ k - 1)"
      and that: "\<And>r. unat v = unat first + r \<Longrightarrow> r < 2 ^ k \<Longrightarrow> thesis"
    have "unat v - unat first < 2 ^ k" "unat v = unat first + (unat v - unat first)"
      using v one_le_power [of "2 :: nat" k] by (simp_all only: word_le_nat_alt a) linarith+
    then show thesis using that by blast
  qed
  then have vd: "unat v = (2 * q + b) * 2 ^ k + r" using uf by (simp add: algebra_simps)
  have "unat (te_offset v e) = unat v mod 2 ^ k"
    by (simp only: te_offset_def span drop_mask [OF k] and_mask_take_bit unat_take_bit_mod)
  also have "\<dots> = r" using r(2) by (simp add: vd)
  also have "r = unat (v - first)" using r v(1) by (simp add: unat_sub)
  finally show "te_offset v e = v - first" by (simp only: word_unat_eq_iff)
  have "te_span e - drop_bit 1 (te_span e) = push_bit k 1"
    using k by (simp only: span drop_mask) (simp add: mask_eq_exp_minus_1 push_bit_of_1)
  then have "v AND (te_span e - drop_bit 1 (te_span e)) = 0 \<longleftrightarrow> \<not> bit v k"
    by (simp only: bit_iff_and_push_bit_not_eq_0) simp
  also have "bit v k \<longleftrightarrow> odd (unat v div 2 ^ k)"
    by (simp add: bit_unsigned_iff flip: bit_iff_odd)
  also have "unat v div 2 ^ k = 2 * q + b" using r(2) by (simp add: vd)
  finally show "te_lo v e = (if odd' then te_lo1 e else te_lo0 e)"
    by (auto simp: te_lo_def b_def)
qed

lemma page_ok_result:
  assumes "page_ok vlo vhi d c e" "te_span e = mask (Suc k)" "k < 31" "vlo \<le> v" "v \<le> vhi"
  shows "te_result v e = Some (v + d, c)"
proof -
  define odd' where "odd' \<longleftrightarrow> \<not> vhi - te_base e \<le> mask k"
  define first where "first = te_base e + (if odd' then 2 ^ k else 0)"
  define lo where "lo = (if odd' then te_lo1 e else te_lo0 e)"
  have half: "drop_bit 1 (te_span e) = mask k" using assms(2,3) by (simp only: drop_mask)
  have next': "te_base e + mask k + 1 = te_base e + 2 ^ k" by (simp add: mask_eq_exp_minus_1)
  have ok: "first \<le> vlo" "vhi \<le> first + mask k" "lo AND PAGE_VALID \<noteq> 0"
      "push_bit 6 (lo AND 0x03ffffc0) - first = d" "lo AND 0x38 = c"
    using assms(1) unfolding page_ok_def Let_def half next' first_def lo_def
    by (cases odd'; simp add: odd'_def)+
  have v: "first \<le> v" "v \<le> first + mask k" using ok assms(4,5) by auto
  note page = page_offset [OF assms(2,3) first_def v]
  have "te_result v e = Some (push_bit 6 (lo AND 0x03ffffc0) + (v - first), c)"
    using ok(3,5) by (simp only: te_result_def Let_def page lo_def [symmetric]) simp
  then show ?thesis using ok(4) by (simp add: algebra_simps)
qed

lemma window_find:
  assumes "window_ok vlo vhi d c es" "vlo \<le> v" "v \<le> vhi" "list_all span_wf es"
  shows "(case find (tlb_match v) es of None \<Rightarrow> None | Some e \<Rightarrow> te_result v e) = Some (v + d, c)"
  using assms(1,4)
proof (induction es)
  case (Cons e es)
  then obtain n where n: "te_span e = mask n" "n \<in> {13..<26}"
    by (auto simp: span_wf_def list_ex_iff)
  then obtain k where k: "te_span e = mask (Suc k)" "k < 31" by (cases n) auto
  note m = match_iff [OF n(1), of v]
  show ?case
  proof (cases "vhi < te_base e \<or> te_base e + te_span e < vlo")
    case True
    then have "\<not> tlb_match v e" using m n(2) assms(2,3) by auto
    with True Cons show ?thesis by simp
  next
    case False
    then have w: "te_base e \<le> vlo" "vhi \<le> te_base e + te_span e" "page_ok vlo vhi d c e"
      using Cons.prems by simp_all
    then have "tlb_match v e" using m n(2) assms(2,3) by auto
    then show ?thesis using page_ok_result [OF w(3) k assms(2,3)] by simp
  qed
qed simp

lemma window_translate:
  assumes "window_ok vlo vhi d c (tlb s)" "vlo \<le> v" "v \<le> vhi" "list_all span_wf (tlb s)"
  shows "translate v s = Some (v + d, c)"
  using window_find [OF assms] by (simp only: translate_def)

section \<open>The TLB after initialisation\<close>

definition mmu_reset :: mmu where
  "mmu_reset = \<lparr>c0_pagemask = 0, c0_index = 0, c0_entrylo0 = 0, c0_entrylo1 = 0, c0_entryhi = 0,
     c0_wired = 0, tlb = replicate 48 \<lparr>te_mask = 0, te_hi = 0, te_lo0 = 0, te_lo1 = 0\<rparr>\<rparr>"

text \<open>Flushing forgets the state before it.\<close>

definition flush_step :: "u32 \<Rightarrow> mmu \<Rightarrow> nat \<Rightarrow> mmu" where
  "flush_step ps s entry = tlbwi (s\<lparr>c0_entryhi := KSEG0 + of_nat entry * ps, c0_index := of_nat entry\<rparr>)"

lemma flush_prefix:
  assumes "length (tlb s) = 48" "n < 48"
  shows "foldl (flush_step ps) s [0..<Suc n] = s\<lparr>c0_entryhi := KSEG0 + of_nat n * ps, c0_index := of_nat n,
    tlb := map (\<lambda>i. \<lparr>te_mask = c0_pagemask s, te_hi = KSEG0 + of_nat i * ps,
                   te_lo0 = c0_entrylo0 s, te_lo1 = c0_entrylo1 s\<rparr>) [0..<Suc n] @ drop (Suc n) (tlb s)\<rparr>"
  using assms(2)
proof (induction n)
  case 0
  then show ?case using assms(1) by (cases "tlb s") (simp_all add: flush_step_def tlbwi_def)
next
  case (Suc n)
  have "unat (of_nat (Suc n) :: u32) = Suc n" using Suc.prems by (intro unat_of_nat_lt) simp
  moreover have "drop (Suc n) (tlb s) = tlb s ! Suc n # drop (Suc (Suc n)) (tlb s)"
    using Suc.prems assms(1) by (simp add: Cons_nth_drop_Suc)
  ultimately show ?case
    using Suc by (simp add: flush_step_def tlbwi_def list_update_append)
qed

lemma flush_tlbs_reset:
  assumes "length (tlb s) = 48"
  shows "flush_tlbs s = flush_tlbs mmu_reset"
proof -
  define f where "f s = s\<lparr>c0_wired := 0, c0_pagemask := PAGE_16M, c0_entrylo0 := 0, c0_entrylo1 := 0\<rparr>" for s :: mmu
  have "flush_tlbs s = foldl (flush_step ((PAGE_16M OR 0x1FFF) + 1)) (f s) [0..<Suc 47]" for s
    unfolding flush_step_def f_def flush_tlbs_def Let_def by (simp del: upt_Suc)
  then have "flush_tlbs t = (f t)\<lparr>c0_entryhi := KSEG0 + of_nat 47 * ((PAGE_16M OR 0x1FFF) + 1), c0_index := of_nat 47,
      tlb := map (\<lambda>i. \<lparr>te_mask = PAGE_16M, te_hi = KSEG0 + of_nat i * ((PAGE_16M OR 0x1FFF) + 1),
                     te_lo0 = 0, te_lo1 = 0\<rparr>) [0..<Suc 47]\<rparr>" if "length (tlb t) = 48" for t
    using flush_prefix [of "f t" 47] that by (simp add: f_def del: upt_Suc)
  note eq = this
  show ?thesis
    unfolding eq [OF assms] eq [of mmu_reset, unfolded mmu_reset_def, simplified, folded mmu_reset_def]
    by (cases s) (simp add: f_def mmu_reset_def)
qed

definition mmu_ready :: mmu where
  "mmu_ready = the (mmu_init_module 0 mmu_reset)"

text \<open>The 48 entries, computed once.\<close>

lemma tlb_ready: "tlb mmu_ready = [
     tlb_entry.make 0x0 0x70000000 0x80000017 0x17,
     tlb_entry.make 0x6000 0xffff8000 0x1e1f 0x1f1f,
     tlb_entry.make 0x0 0x10000000 0x400017 0x400053,
     tlb_entry.make 0x0 0x10002000 0x400097 0x4000d7,
     tlb_entry.make 0x0 0x10004000 0x400117 0x400157,
     tlb_entry.make 0x0 0x10006000 0x400197 0x4001d7,
     tlb_entry.make 0x0 0x10008000 0x400217 0x400257,
     tlb_entry.make 0x0 0x1000a000 0x400297 0x4002d7,
     tlb_entry.make 0x0 0x1000c000 0x400313 0x400357,
     tlb_entry.make 0x0 0x1000e000 0x400397 0x4003d7,
     tlb_entry.make 0x1e000 0x11000000 0x440017 0x440415,
     tlb_entry.make 0x1e000 0x12000000 0x480017 0x480415,
     tlb_entry.make 0x1ffe000 0x1e000000 0x780017 0x7c0017,
     tlb_entry.make 0x7e000 0x80000 0x201f 0x301f,
     tlb_entry.make 0x7e000 0x100000 0x401f 0x501f,
     tlb_entry.make 0x7e000 0x180000 0x601f 0x601f,
     tlb_entry.make 0x1fe000 0x200000 0x801f 0xc01f,
     tlb_entry.make 0x1fe000 0x400000 0x1001f 0x1401f,
     tlb_entry.make 0x1fe000 0x600000 0x1801f 0x1c01f,
     tlb_entry.make 0x7fe000 0x800000 0x2001f 0x3001f,
     tlb_entry.make 0x7fe000 0x1000000 0x4001f 0x5001f,
     tlb_entry.make 0x7fe000 0x1800000 0x6001f 0x7001f,
     tlb_entry.make 0x7e000 0x20080000 0x2017 0x3017,
     tlb_entry.make 0x7e000 0x20100000 0x4017 0x5017,
     tlb_entry.make 0x7e000 0x20180000 0x6017 0x6017,
     tlb_entry.make 0x1fe000 0x20200000 0x8017 0xc017,
     tlb_entry.make 0x1fe000 0x20400000 0x10017 0x14017,
     tlb_entry.make 0x1fe000 0x20600000 0x18017 0x1c017,
     tlb_entry.make 0x7fe000 0x20800000 0x20017 0x30017,
     tlb_entry.make 0x7fe000 0x21000000 0x40017 0x50017,
     tlb_entry.make 0x7fe000 0x21800000 0x60017 0x70017,
     tlb_entry.make 0x7e000 0x30100000 0x403f 0x503f,
     tlb_entry.make 0x7e000 0x30180000 0x603f 0x703f,
     tlb_entry.make 0x1fe000 0x30200000 0x803f 0xc03f,
     tlb_entry.make 0x1fe000 0x30400000 0x1003f 0x1403f,
     tlb_entry.make 0x1fe000 0x30600000 0x1803f 0x1c03f,
     tlb_entry.make 0x7fe000 0x30800000 0x2003f 0x3003f,
     tlb_entry.make 0x7fe000 0x31000000 0x4003f 0x5003f,
     tlb_entry.make 0x7fe000 0x31800000 0x6003f 0x7003f,
     tlb_entry.make 0x1ffe000 0xce000000 0x0 0x0,
     tlb_entry.make 0x1ffe000 0xd0000000 0x0 0x0,
     tlb_entry.make 0x1ffe000 0xd2000000 0x0 0x0,
     tlb_entry.make 0x1ffe000 0xd4000000 0x0 0x0,
     tlb_entry.make 0x1ffe000 0xd6000000 0x0 0x0,
     tlb_entry.make 0x1ffe000 0xd8000000 0x0 0x0,
     tlb_entry.make 0x1ffe000 0xda000000 0x0 0x0,
     tlb_entry.make 0x1ffe000 0xdc000000 0x0 0x0,
     tlb_entry.make 0x1ffe000 0xde000000 0x0 0x0]"
  by code_simp

lemma span_wf_ready: "list_all span_wf (tlb mmu_ready)"
  unfolding tlb_ready by code_simp

lemma mmu_init_ready:
  assumes "length (tlb s) = 48" "end_addr \<le> KSEG0 + ZERO_REG_ADDRESS"
  shows "mmu_init_module end_addr s = Some mmu_ready"
  using assms(2) by (simp add: mmu_ready_def mmu_init_module_def flush_tlbs_reset [OF assms(1)] Let_def not_less)

text \<open>A region of consecutive pages, given by the last address of each.\<close>

fun region_ok :: "u32 \<Rightarrow> u32 \<Rightarrow> u32 \<Rightarrow> u32 list \<Rightarrow> tlb_entry list \<Rightarrow> bool" where
  "region_ok vlo d c [] es \<longleftrightarrow> True"
| "region_ok vlo d c (h # hs) es \<longleftrightarrow> window_ok vlo h d c es \<and> region_ok (h + 1) d c hs es"

lemma region_translate:
  assumes "region_ok vlo d c hs (tlb s)" "hs \<noteq> []" "vlo \<le> v" "v \<le> last hs" "list_all span_wf (tlb s)"
  shows "translate v s = Some (v + d, c)"
  using assms
proof (induction hs arbitrary: vlo)
  case (Cons h hs)
  show ?case
  proof (cases "v \<le> h")
    case True
    then show ?thesis using Cons.prems window_translate by auto
  next
    case False
    then have "h + 1 \<le> v" by (intro inc_le) simp
    then show ?thesis using Cons False by (cases hs) auto
  qed
qed simp

text \<open>The windows of user memory in the finished TLB.\<close>

lemma ready_windows:
  "0x80000 \<le> v \<Longrightarrow> v \<le> 0x1bffff \<Longrightarrow> translate v mmu_ready = Some (v, PAGE_CACHEABLE)"
  "0x200000 \<le> v \<Longrightarrow> v \<le> 0x1ffffff \<Longrightarrow> translate v mmu_ready = Some (v, PAGE_CACHEABLE)"
  "0x30100000 \<le> v \<Longrightarrow> v \<le> 0x31ffffff \<Longrightarrow> translate v mmu_ready = Some (v - 0x30000000, PAGE_UNCACHEABLE_ACCELERATED)"
proof -
  have r1: "region_ok 0x80000 0 PAGE_CACHEABLE [0xbffff, 0xfffff, 0x13ffff, 0x17ffff, 0x1bffff] (tlb mmu_ready)"
    unfolding tlb_ready by code_simp
  have r2: "region_ok 0x200000 0 PAGE_CACHEABLE [0x2fffff, 0x3fffff, 0x4fffff, 0x5fffff, 0x6fffff,
      0x7fffff, 0xbfffff, 0xffffff, 0x13fffff, 0x17fffff, 0x1bfffff, 0x1ffffff] (tlb mmu_ready)"
    unfolding tlb_ready by code_simp
  have r3: "region_ok 0x30100000 (- 0x30000000) PAGE_UNCACHEABLE_ACCELERATED [0x3013ffff, 0x3017ffff,
      0x301bffff, 0x301fffff, 0x302fffff, 0x303fffff, 0x304fffff, 0x305fffff, 0x306fffff, 0x307fffff,
      0x30bfffff, 0x30ffffff, 0x313fffff, 0x317fffff, 0x31bfffff, 0x31ffffff] (tlb mmu_ready)"
    unfolding tlb_ready by code_simp
  show "0x80000 \<le> v \<Longrightarrow> v \<le> 0x1bffff \<Longrightarrow> translate v mmu_ready = Some (v, PAGE_CACHEABLE)"
    "0x200000 \<le> v \<Longrightarrow> v \<le> 0x1ffffff \<Longrightarrow> translate v mmu_ready = Some (v, PAGE_CACHEABLE)"
    "0x30100000 \<le> v \<Longrightarrow> v \<le> 0x31ffffff \<Longrightarrow> translate v mmu_ready = Some (v - 0x30000000, PAGE_UNCACHEABLE_ACCELERATED)"
    using region_translate [OF r1, of v] region_translate [OF r2, of v] region_translate [OF r3, of v]
    by (simp_all add: span_wf_ready)
qed

section \<open>Properties\<close>

text \<open>
  C22. After initialisation user memory is mapped with the offsets the comments give: cached
  addresses from 0x80000 to 0x1bffff and from 0x200000 to 0x1ffffff are the physical ones, and
  uncached accelerated addresses from 0x30100000 to 0x31ffffff are the physical ones plus
  0x30000000.
\<close>

theorem mmu_user_mapping:
  assumes "length (tlb s) = 48" "end_addr \<le> KSEG0 + ZERO_REG_ADDRESS"
    and "mmu_init_module end_addr s = Some s'"
  shows "(0x80000 \<le> v \<and> v \<le> 0x1bffff \<longrightarrow> translate v s' = Some (v, PAGE_CACHEABLE))
    \<and> (0x200000 \<le> v \<and> v \<le> 0x1ffffff \<longrightarrow> translate v s' = Some (v, PAGE_CACHEABLE))
    \<and> (0x30100000 \<le> v \<and> v \<le> 0x31ffffff \<longrightarrow>
        translate v s' = Some (v - 0x30000000, PAGE_UNCACHEABLE_ACCELERATED))"
  using mmu_init_ready [OF assms(1,2)] assms(3) ready_windows [of v] by simp

text \<open>
  The 256 KByte from 0x1c0000 on are not reachable: cached and uncached addresses there
  name the physical memory 0x40000 below, the same as the page before.
\<close>

theorem mmu_aliased_page:
  assumes "length (tlb s) = 48" "end_addr \<le> KSEG0 + ZERO_REG_ADDRESS"
    and "mmu_init_module end_addr s = Some s'" "0x1c0000 \<le> v" "v \<le> 0x1fffff"
  shows "translate v s' = translate (v - 0x40000) s' \<and> translate v s' = Some (v - 0x40000, PAGE_CACHEABLE)"
proof -
  have s': "s' = mmu_ready" using mmu_init_ready [OF assms(1,2)] assms(3) by simp
  have "region_ok 0x1c0000 (- 0x40000) PAGE_CACHEABLE [0x1fffff] (tlb mmu_ready)" unfolding tlb_ready by code_simp
  then have "translate v mmu_ready = Some (v - 0x40000, PAGE_CACHEABLE)"
    using region_translate [of "0x1c0000" "- 0x40000" PAGE_CACHEABLE "[0x1fffff]" mmu_ready v] assms(4,5) by (simp add: span_wf_ready)
  moreover have "0x180000 \<le> v - 0x40000" "v - 0x40000 \<le> 0x1bffff"
    using assms(4,5) by (simp_all add: word_le_nat_alt unat_sub)
  moreover have "region_ok 0x180000 0 PAGE_CACHEABLE [0x1bffff] (tlb mmu_ready)" unfolding tlb_ready by code_simp
  ultimately show ?thesis
    using region_translate [of "0x180000" 0 PAGE_CACHEABLE "[0x1bffff]" mmu_ready "v - 0x40000"]
    by (simp add: s' span_wf_ready)
qed

section \<open>Witnesses\<close>

lemma mmu_reset_length: "length (tlb mmu_reset) = 48"
  by (simp add: mmu_reset_def)

theorem mmu_user_mapping_witness:
  "\<exists>s'. mmu_init_module 0x80070000 mmu_reset = Some s' \<and> translate 0x123456 s' = Some (0x123456, PAGE_CACHEABLE)"
proof -
  have e: "(0x80070000 :: u32) \<le> KSEG0 + ZERO_REG_ADDRESS" by code_simp
  note i = mmu_init_ready [OF mmu_reset_length e]
  show ?thesis using i mmu_user_mapping [OF mmu_reset_length e i, of "0x123456"] by simp
qed

theorem mmu_aliased_page_witness:
  "\<exists>s'. mmu_init_module 0x80070000 mmu_reset = Some s' \<and> translate 0x1c0010 s' = Some (0x180010, PAGE_CACHEABLE)"
proof -
  have e: "(0x80070000 :: u32) \<le> KSEG0 + ZERO_REG_ADDRESS" by code_simp
  note i = mmu_init_ready [OF mmu_reset_length e]
  show ?thesis using i mmu_aliased_page [OF mmu_reset_length e i, of "0x1c0010"] by auto
qed

end
