(* ===== verification/Irq.thy ===== *)
theory Irq
  imports Prelude
begin

text \<open>
  Interrupt dispatch of the kernel: the three processor lines (\<open>kernel/irq.c\<close>), the interrupt
  controller (\<open>intc.c\<close>), the DMA controller (\<open>dmac.c\<close>) and timer 0 (\<open>timers.c\<close>).

  What a register holds after a write is decided by the device and is the parameter \<open>hw\<close>
  (address, old value, value written). A function pointer is either one of the kernel's own
  handlers or the address of another function, whose effect is the parameter \<open>ext\<close>.
  \<open>panic\<close> does not return and is \<open>None\<close>.
\<close>

section \<open>State\<close>

datatype irq_fn = Intc_interrupt | Dmac_interrupt | Irq_ext u32
datatype leaf_fn = Timer_interrupt | Leaf_ext u32

record kirq =
  k_reg :: "u32 \<Rightarrow> u64"
  k_cause :: u32
  k_status :: u32
  irq_handler :: "irq_fn option list"
  saved_intc_mask :: u64
  intc_handler :: "leaf_fn option list"
  saved_dmac_mask :: u64
  dmac_handler :: "leaf_fn option list"
  dmac_useg_handler :: "u32 list"
  timer_interruptCount :: u64

type_synonym hw_write = "u32 \<Rightarrow> u64 \<Rightarrow> u64 \<Rightarrow> u64"

definition rd64 :: "u32 \<Rightarrow> kirq \<Rightarrow> u64" where
  "rd64 a s = k_reg s a"

definition wr64 :: "hw_write \<Rightarrow> u32 \<Rightarrow> u64 \<Rightarrow> kirq \<Rightarrow> kirq" where
  "wr64 hw a v s = s\<lparr>k_reg := (k_reg s)(a := hw a (k_reg s a) v)\<rparr>"

text \<open>The C expression \<open>1 << n\<close> of type \<open>int\<close>, widened; the processor uses five bits of \<open>n\<close>.\<close>

definition int_bit :: "u32 \<Rightarrow> u64" where
  "int_bit n = scast (push_bit (unat (n AND 31)) (1 :: u32))"

definition SBUS_SMFLG :: u32 where "SBUS_SMFLG = 0xb000f230"
definition INTC_MASK :: u32 where "INTC_MASK = 0xb000f010"
definition INTC_STAT :: u32 where "INTC_STAT = 0xb000f000"
definition DMAC_STAT :: u32 where "DMAC_STAT = 0xb000e010"
definition DMAC_MASK :: u32 where "DMAC_MASK = 0xb000e010"
definition T0_COUNT :: u32 where "T0_COUNT = 0xb0000000"
definition T0_MODE :: u32 where "T0_MODE = 0xb0000010"

lemmas irq_regs = SBUS_SMFLG_def INTC_MASK_def INTC_STAT_def DMAC_STAT_def DMAC_MASK_def
  T0_COUNT_def T0_MODE_def

definition IRQ_IM2 :: nat where "IRQ_IM2 = 0"
definition IRQ_IM3 :: nat where "IRQ_IM3 = 1"
definition IRQ_IM7 :: nat where "IRQ_IM7 = 2"
definition IRQ_NUMBER_OF_HANDLERS :: nat where "IRQ_NUMBER_OF_HANDLERS = 3"
definition INTC_TIMER0 :: u32 where "INTC_TIMER0 = 9"
definition INTC_NUMBER_OF_HANDLERS :: nat where "INTC_NUMBER_OF_HANDLERS = 11"
definition DMAC_CIS0 :: u32 where "DMAC_CIS0 = 0"
definition DMAC_CIS9 :: u32 where "DMAC_CIS9 = 9"
definition DMAC_CIM0 :: u32 where "DMAC_CIM0 = 16"
definition DMAC_NUMBER_OF_HANDLERS :: nat where "DMAC_NUMBER_OF_HANDLERS = 16"

lemmas irq_consts [simp] = IRQ_IM2_def IRQ_IM3_def IRQ_IM7_def IRQ_NUMBER_OF_HANDLERS_def
  INTC_TIMER0_def INTC_NUMBER_OF_HANDLERS_def DMAC_CIS0_def DMAC_CIS9_def DMAC_CIM0_def
  DMAC_NUMBER_OF_HANDLERS_def

section \<open>Timer 0\<close>

definition timer_interrupt :: "hw_write \<Rightarrow> kirq \<Rightarrow> kirq" where
  "timer_interrupt hw s =
     (let s = s\<lparr>timer_interruptCount := timer_interruptCount s + 1\<rparr>
      in wr64 hw T0_MODE (rd64 T0_MODE s OR push_bit 11 1) s)"

definition kBUSCLKBY256 :: u64 where "kBUSCLKBY256 = 147456000 div 256"

definition timer_time :: "kirq \<Rightarrow> u64" where
  "timer_time s =
     (let t = rd64 T0_COUNT s + push_bit 16 (timer_interruptCount s)
      in t * 1000000 div kBUSCLKBY256)"

definition Tn_MODE :: "u32 \<Rightarrow> u32 \<Rightarrow> u32 \<Rightarrow> u32 \<Rightarrow> u32 \<Rightarrow> u32 \<Rightarrow> u32 \<Rightarrow> u32 \<Rightarrow> u32 \<Rightarrow> u32 \<Rightarrow> u32" where
  "Tn_MODE CLKS GATE GATS GATM ZRET CUE CMPE OVFE EQUF OVFF =
     CLKS OR push_bit 2 GATE OR push_bit 3 GATS OR push_bit 4 GATM OR push_bit 6 ZRET
       OR push_bit 7 CUE OR push_bit 8 CMPE OR push_bit 9 OVFE OR push_bit 10 EQUF OR push_bit 11 OVFF"

section \<open>Interrupt controller\<close>

definition intc_enable_irq :: "hw_write \<Rightarrow> u32 \<Rightarrow> kirq \<Rightarrow> kirq" where
  "intc_enable_irq hw irq_nr s =
     (if saved_intc_mask s AND int_bit irq_nr = 0
      then let s = s\<lparr>saved_intc_mask := saved_intc_mask s OR int_bit irq_nr\<rparr>
           in wr64 hw INTC_MASK (rd64 INTC_MASK s OR int_bit irq_nr) s
      else s)"

definition intc_disable_irq :: "hw_write \<Rightarrow> u32 \<Rightarrow> kirq \<Rightarrow> kirq" where
  "intc_disable_irq hw irq_nr s =
     (if saved_intc_mask s AND int_bit irq_nr \<noteq> 0
      then let s = s\<lparr>saved_intc_mask := saved_intc_mask s AND NOT (int_bit irq_nr)\<rparr>
           in wr64 hw INTC_MASK (rd64 INTC_MASK s OR int_bit irq_nr) s
      else s)"

fun call_leaf :: "hw_write \<Rightarrow> (u32 \<Rightarrow> kirq \<Rightarrow> kirq) \<Rightarrow> leaf_fn option \<Rightarrow> kirq \<Rightarrow> kirq" where
  "call_leaf hw ext None s = s"
| "call_leaf hw ext (Some Timer_interrupt) s = timer_interrupt hw s"
| "call_leaf hw ext (Some (Leaf_ext a)) s = ext a s"

definition intc_dispatch :: "hw_write \<Rightarrow> (u32 \<Rightarrow> kirq \<Rightarrow> kirq) \<Rightarrow> u64 \<Rightarrow> kirq \<Rightarrow> nat \<Rightarrow> kirq" where
  "intc_dispatch hw ext msk s i =
     (if (msk AND saved_intc_mask s) AND int_bit (of_nat i) \<noteq> 0
      then let s = wr64 hw INTC_STAT (int_bit (of_nat i)) s
           in call_leaf hw ext (intc_handler s ! i) s
      else s)"

definition intc_interrupt :: "hw_write \<Rightarrow> (u32 \<Rightarrow> kirq \<Rightarrow> kirq) \<Rightarrow> kirq \<Rightarrow> kirq" where
  "intc_interrupt hw ext s =
     (let msk = rd64 INTC_MASK s
      in foldl (intc_dispatch hw ext msk) s [0..<INTC_NUMBER_OF_HANDLERS])"

definition irq_register_handler :: "nat \<Rightarrow> irq_fn option \<Rightarrow> kirq \<Rightarrow> (irq_fn option \<times> kirq) option" where
  "irq_register_handler nr handler s =
     (if nr < IRQ_NUMBER_OF_HANDLERS
      then let old = irq_handler s ! nr
           in Some (old, s\<lparr>irq_handler := (irq_handler s)[nr := handler]\<rparr>)
      else None)"

definition intc_init_module :: "hw_write \<Rightarrow> kirq \<Rightarrow> kirq option" where
  "intc_init_module hw s =
     (let s = s\<lparr>saved_intc_mask := 0\<rparr>;
          s = wr64 hw INTC_MASK (rd64 INTC_MASK s) s;
          s = wr64 hw INTC_STAT (rd64 INTC_STAT s) s;
          s = foldl (\<lambda>s i. s\<lparr>intc_handler := (intc_handler s)[i := None]\<rparr>) s [0..<INTC_NUMBER_OF_HANDLERS]
      in map_option snd (irq_register_handler IRQ_IM2 (Some Intc_interrupt) s))"

definition intc_register_handler :: "nat \<Rightarrow> leaf_fn option \<Rightarrow> kirq \<Rightarrow> (leaf_fn option \<times> kirq) option" where
  "intc_register_handler nr handler s =
     (if nr < INTC_NUMBER_OF_HANDLERS
      then let old = intc_handler s ! nr
           in Some (old, s\<lparr>intc_handler := (intc_handler s)[nr := handler]\<rparr>)
      else None)"

definition timer_init_module :: "hw_write \<Rightarrow> kirq \<Rightarrow> kirq option" where
  "timer_init_module hw s =
     (let s = wr64 hw T0_MODE 0 s
      in case intc_register_handler (unat INTC_TIMER0) (Some Timer_interrupt) s of
           None \<Rightarrow> None
         | Some (_, s) \<Rightarrow>
             let s = intc_enable_irq hw INTC_TIMER0 s;
                 s = wr64 hw T0_COUNT 0 s;
                 s = wr64 hw T0_MODE (ucast (Tn_MODE 0x01 0 0 0 0 0x01 0 0x01 0 0)) s
             in Some (s\<lparr>timer_interruptCount := 0\<rparr>))"

definition timer_exit_module :: "hw_write \<Rightarrow> kirq \<Rightarrow> kirq" where
  "timer_exit_module hw s = intc_disable_irq hw INTC_TIMER0 (wr64 hw T0_MODE 0 s)"

section \<open>DMA controller\<close>

definition dmac_enable_irq :: "hw_write \<Rightarrow> u32 \<Rightarrow> kirq \<Rightarrow> kirq" where
  "dmac_enable_irq hw irq_nr s =
     (let irq_nr = irq_nr + DMAC_CIM0
      in if saved_dmac_mask s AND int_bit irq_nr = 0
         then wr64 hw DMAC_MASK (int_bit irq_nr) (s\<lparr>saved_dmac_mask := saved_dmac_mask s OR int_bit irq_nr\<rparr>)
         else s)"

definition dmac_disable_irq :: "hw_write \<Rightarrow> u32 \<Rightarrow> kirq \<Rightarrow> kirq" where
  "dmac_disable_irq hw irq_nr s =
     (let irq_nr = irq_nr + DMAC_CIM0
      in if saved_dmac_mask s AND int_bit irq_nr \<noteq> 0
         then wr64 hw DMAC_MASK (int_bit irq_nr)
                (s\<lparr>saved_dmac_mask := saved_dmac_mask s AND NOT (int_bit irq_nr)\<rparr>)
         else s)"

definition dmac_dispatch ::
  "hw_write \<Rightarrow> (u32 \<Rightarrow> kirq \<Rightarrow> kirq) \<Rightarrow> (u32 \<Rightarrow> u32 \<Rightarrow> kirq \<Rightarrow> kirq) \<Rightarrow> u32 \<Rightarrow> u32 \<Rightarrow> kirq \<Rightarrow> nat \<Rightarrow> kirq" where
  "dmac_dispatch hw ext useg status msk s i =
     (if (status AND msk) AND push_bit i 1 \<noteq> 0
      then let s = wr64 hw DMAC_STAT (int_bit (of_nat i)) s;
               s = call_leaf hw ext (dmac_handler s ! i) s
           in if dmac_useg_handler s ! i \<noteq> 0
              then let old = k_status s;
                       s = s\<lparr>k_status := old AND NOT 0x1f\<rparr>;
                       s = useg (dmac_useg_handler s ! i) (of_nat i - DMAC_CIS0) s
                   in s\<lparr>k_status := old\<rparr>
              else s
      else s)"

definition dmac_interrupt ::
  "hw_write \<Rightarrow> (u32 \<Rightarrow> kirq \<Rightarrow> kirq) \<Rightarrow> (u32 \<Rightarrow> u32 \<Rightarrow> kirq \<Rightarrow> kirq) \<Rightarrow> kirq \<Rightarrow> kirq" where
  "dmac_interrupt hw ext useg s =
     (let status = ucast (rd64 DMAC_MASK s);
          msk = ucast (drop_bit 16 (saved_dmac_mask s))
      in foldl (dmac_dispatch hw ext useg status msk) s [0..<DMAC_NUMBER_OF_HANDLERS])"

definition dmac_init_module :: "hw_write \<Rightarrow> kirq \<Rightarrow> kirq option" where
  "dmac_init_module hw s =
     (let s = s\<lparr>saved_dmac_mask := 0\<rparr>;
          s = wr64 hw DMAC_MASK (rd64 DMAC_MASK s) s;
          s = wr64 hw DMAC_STAT (rd64 DMAC_STAT s) s;
          s = foldl (\<lambda>s i. s\<lparr>dmac_handler := (dmac_handler s)[i := None],
                             dmac_useg_handler := (dmac_useg_handler s)[i := 0]\<rparr>)
                s [0..<DMAC_NUMBER_OF_HANDLERS]
      in map_option snd (irq_register_handler IRQ_IM3 (Some Dmac_interrupt) s))"

definition dmac_register_handler :: "nat \<Rightarrow> leaf_fn option \<Rightarrow> kirq \<Rightarrow> (leaf_fn option \<times> kirq) option" where
  "dmac_register_handler nr handler s =
     (if nr < DMAC_NUMBER_OF_HANDLERS
      then let old = dmac_handler s ! nr
           in Some (old, s\<lparr>dmac_handler := (dmac_handler s)[nr := handler]\<rparr>)
      else None)"

definition syscallAddDmacHandler :: "u32 \<Rightarrow> u32 \<Rightarrow> int \<Rightarrow> kirq \<Rightarrow> int \<times> kirq" where
  "syscallAddDmacHandler channel handler next s =
     (if channel > DMAC_CIS9 then (- 1, s)
      else (sint channel,
            s\<lparr>dmac_useg_handler := (dmac_useg_handler s)[unat (channel + DMAC_CIS0) := handler]\<rparr>))"

definition syscallEnableDmac :: "hw_write \<Rightarrow> u32 \<Rightarrow> kirq \<Rightarrow> int \<times> kirq" where
  "syscallEnableDmac hw channel s =
     (let irq_nr = channel + DMAC_CIS0
      in if saved_dmac_mask s AND int_bit irq_nr = 0 then (0, s)
         else (1, dmac_enable_irq hw irq_nr s))"

definition syscallDisableDmac :: "hw_write \<Rightarrow> u32 \<Rightarrow> kirq \<Rightarrow> int \<times> kirq" where
  "syscallDisableDmac hw channel s =
     (let irq_nr = channel + DMAC_CIS0
      in if saved_dmac_mask s AND int_bit irq_nr \<noteq> 0 then (0, s)
         else (1, dmac_disable_irq hw irq_nr s))"

section \<open>The processor's interrupt lines\<close>

fun call_irq ::
  "hw_write \<Rightarrow> (u32 \<Rightarrow> kirq \<Rightarrow> kirq) \<Rightarrow> (u32 \<Rightarrow> u32 \<Rightarrow> kirq \<Rightarrow> kirq) \<Rightarrow> irq_fn option \<Rightarrow> kirq \<Rightarrow> kirq" where
  "call_irq hw ext useg None s = s"
| "call_irq hw ext useg (Some Intc_interrupt) s = intc_interrupt hw ext s"
| "call_irq hw ext useg (Some Dmac_interrupt) s = dmac_interrupt hw ext useg s"
| "call_irq hw ext useg (Some (Irq_ext a)) s = ext a s"

definition irq_interrupt ::
  "hw_write \<Rightarrow> (u32 \<Rightarrow> kirq \<Rightarrow> kirq) \<Rightarrow> (u32 \<Rightarrow> u32 \<Rightarrow> kirq \<Rightarrow> kirq) \<Rightarrow> kirq \<Rightarrow> kirq" where
  "irq_interrupt hw ext useg s =
     (let cause = k_cause s;
          s = (if cause AND push_bit 10 1 \<noteq> 0 then call_irq hw ext useg (irq_handler s ! IRQ_IM2) s else s);
          s = (if cause AND push_bit 11 1 \<noteq> 0 then call_irq hw ext useg (irq_handler s ! IRQ_IM3) s else s)
      in if cause AND push_bit 15 1 \<noteq> 0 then call_irq hw ext useg (irq_handler s ! IRQ_IM7) s else s)"

text \<open>The exception vector and the interrupt enables set here are outside this component.\<close>

definition irq_init_module :: "hw_write \<Rightarrow> kirq \<Rightarrow> kirq" where
  "irq_init_module hw s =
     (let s = wr64 hw SBUS_SMFLG (push_bit 8 1 OR push_bit 10 1) s
      in foldl (\<lambda>s i. s\<lparr>irq_handler := (irq_handler s)[i := None]\<rparr>) s [0..<IRQ_NUMBER_OF_HANDLERS])"

section \<open>Lemmas\<close>

lemma wr64_frame [simp]:
  "saved_intc_mask (wr64 hw a v s) = saved_intc_mask s" "intc_handler (wr64 hw a v s) = intc_handler s"
  "saved_dmac_mask (wr64 hw a v s) = saved_dmac_mask s" "dmac_handler (wr64 hw a v s) = dmac_handler s"
  "dmac_useg_handler (wr64 hw a v s) = dmac_useg_handler s" "irq_handler (wr64 hw a v s) = irq_handler s"
  "timer_interruptCount (wr64 hw a v s) = timer_interruptCount s" "k_status (wr64 hw a v s) = k_status s"
  by (simp_all add: wr64_def)

lemma rd64_wr64 [simp]:
  "rd64 a (wr64 hw b v s) = (if a = b then hw b (rd64 b s) v else rd64 a s)"
  by (simp add: rd64_def wr64_def)

lemma int_bit_small:
  assumes "unat n < 31"
  shows "int_bit n = push_bit (unat n) 1"
proof -
  have "(31 :: u32) = mask 5" by (simp add: mask_eq_exp_minus_1)
  then have "unat (n AND 31) = unat n"
    using assms by (simp only: and_mask_take_bit unat_take_bit_mod) simp
  then show ?thesis
    using assms unfolding int_bit_def by (intro bit_word_eqI) (auto simp: bit_simps)
qed

lemma and_int_bit: "unat n < 31 \<Longrightarrow> x AND int_bit n = 0 \<longleftrightarrow> \<not> bit x (unat n)"
  by (simp add: int_bit_small bit_iff_and_push_bit_not_eq_0)

lemma bit_int_bit: "unat n < 31 \<Longrightarrow> bit (int_bit n) j \<longleftrightarrow> j = unat n"
  by (auto simp: int_bit_small bit_simps)

lemma unat_cim:
  assumes "unat n < 15"
  shows "unat (n + DMAC_CIM0) = unat n + 16"
  using assms by (simp add: unat_word_ariths)

text \<open>A handler that leaves the controller's own variables alone.\<close>

definition keeps_intc :: "(u32 \<Rightarrow> kirq \<Rightarrow> kirq) \<Rightarrow> bool" where
  "keeps_intc ext \<longleftrightarrow> (\<forall>a t. saved_intc_mask (ext a t) = saved_intc_mask t
     \<and> intc_handler (ext a t) = intc_handler t)"

lemma call_leaf_keeps:
  assumes "keeps_intc ext"
  shows "saved_intc_mask (call_leaf hw ext h s) = saved_intc_mask s"
    "intc_handler (call_leaf hw ext h s) = intc_handler s"
proof -
  have "saved_intc_mask (call_leaf hw ext h s) = saved_intc_mask s
      \<and> intc_handler (call_leaf hw ext h s) = intc_handler s"
    using assms by (cases "(hw, ext, h, s)" rule: call_leaf.cases)
      (auto simp: keeps_intc_def timer_interrupt_def Let_def)
  then show "saved_intc_mask (call_leaf hw ext h s) = saved_intc_mask s"
    "intc_handler (call_leaf hw ext h s) = intc_handler s" by simp_all
qed

lemma low_bits_zero: "take_bit k (x :: u64) = 0 \<longleftrightarrow> (\<forall>j < k. \<not> bit x j)"
proof
  assume "take_bit k x = 0"
  then have "\<not> bit (take_bit k x) j" for j by simp
  then show "\<forall>j < k. \<not> bit x j" by (simp only: bit_take_bit_iff) blast
next
  assume "\<forall>j < k. \<not> bit x j"
  then show "take_bit k x = 0" by (intro bit_word_eqI) (auto simp: bit_take_bit_iff)
qed

definition dmac_sync :: "kirq \<Rightarrow> bool" where
  "dmac_sync s \<longleftrightarrow> (\<forall>n \<in> {16..<31}. bit (rd64 DMAC_MASK s) n = bit (saved_dmac_mask s) n)"

definition dmac_calls :: "hw_write \<Rightarrow> (bool \<times> u32) list \<Rightarrow> kirq \<Rightarrow> kirq" where
  "dmac_calls hw cs s = foldl (\<lambda>s (on, n). if on then dmac_enable_irq hw n s else dmac_disable_irq hw n s) s cs"

text \<open>What one call does to the saved mask and to the register.\<close>

lemma dmac_call_bits:
  assumes "unat n < 15"
  shows "bit (saved_dmac_mask (if on then dmac_enable_irq hw n s else dmac_disable_irq hw n s)) j
      \<longleftrightarrow> (if j = unat n + 16 then on else bit (saved_dmac_mask s) j)"
    "rd64 DMAC_MASK (if on then dmac_enable_irq hw n s else dmac_disable_irq hw n s)
      = (if bit (saved_dmac_mask s) (unat n + 16) = on then rd64 DMAC_MASK s
         else hw DMAC_MASK (rd64 DMAC_MASK s) (int_bit (n + DMAC_CIM0)))"
proof -
  have "unat (n + DMAC_CIM0) < 31" using assms by (simp only: unat_cim)
  note b = and_int_bit [OF this] bit_int_bit [OF this]
  note defs = dmac_enable_irq_def dmac_disable_irq_def Let_def b unat_cim [OF assms]
  show "bit (saved_dmac_mask (if on then dmac_enable_irq hw n s else dmac_disable_irq hw n s)) j
      \<longleftrightarrow> (if j = unat n + 16 then on else bit (saved_dmac_mask s) j)"
    using assms by (auto simp: defs bit_or_iff bit_and_iff bit_not_iff simp del: irq_consts
        dest: bit_imp_le_length)
  show "rd64 DMAC_MASK (if on then dmac_enable_irq hw n s else dmac_disable_irq hw n s)
      = (if bit (saved_dmac_mask s) (unat n + 16) = on then rd64 DMAC_MASK s
         else hw DMAC_MASK (rd64 DMAC_MASK s) (int_bit (n + DMAC_CIM0)))"
    by (auto simp: defs rd64_def wr64_def simp del: irq_consts)
qed

section \<open>Properties\<close>


text \<open>
  C32. The saved mask of the DMA controller mirrors the hardware: the mask bits of the status
  register flip when written with 1, and any sequence of enabling and disabling channels keeps
  them equal to the saved mask.
\<close>

theorem dmac_mask_mirrors_hardware:
  assumes "dmac_sync s" "\<forall>(on, n) \<in> set cs. unat n < 15"
    and toggle: "\<And>old v n. 16 \<le> n \<Longrightarrow> n < 32 \<Longrightarrow> bit (hw DMAC_MASK old v) n \<longleftrightarrow> bit old n \<noteq> bit v n"
  shows "dmac_sync (dmac_calls hw cs s)"
  using assms(1,2) unfolding dmac_calls_def
proof (induction cs arbitrary: s)
  case (Cons c cs)
  obtain on n where c: "c = (on, n)" by (cases c)
  have n: "unat n < 15" using Cons.prems(2) by (simp add: c)
  have "bit (int_bit (n + DMAC_CIM0)) j \<longleftrightarrow> j = unat n + 16" for j
    using bit_int_bit [of "n + DMAC_CIM0" j] n by (simp add: unat_cim del: irq_consts)
  then have "dmac_sync (if on then dmac_enable_irq hw n s else dmac_disable_irq hw n s)"
    using Cons.prems(1) unfolding dmac_sync_def dmac_call_bits [OF n] by (auto simp: toggle)
  then show ?case using Cons by (simp add: c)
qed simp

text \<open>
  \<open>syscallEnableDmac\<close> never enables a channel: it looks for the channel's status bit in the
  saved mask, which only ever holds mask bits, and returns 0 without doing anything.
\<close>

theorem syscallEnableDmac_does_nothing:
  assumes "take_bit 16 (saved_dmac_mask s) = 0" "\<forall>(on, n) \<in> set cs. unat n < 15" "channel \<le> 9"
  shows "syscallEnableDmac hw channel (dmac_calls hw cs s) = (0, dmac_calls hw cs s)"
proof -
  have "\<not> bit (saved_dmac_mask (dmac_calls hw cs s)) j" if "j < 16" for j
    using assms(1,2) unfolding dmac_calls_def
  proof (induction cs arbitrary: s)
    case Nil
    then show ?case using that by (simp add: low_bits_zero)
  next
    case (Cons c cs)
    obtain on n where c: "c = (on, n)" by (cases c)
    have n: "unat n < 15" using Cons.prems(2) by (simp add: c)
    have "take_bit 16 (saved_dmac_mask (if on then dmac_enable_irq hw n s else dmac_disable_irq hw n s)) = 0"
      using Cons.prems(1) unfolding low_bits_zero dmac_call_bits(1) [OF n] by auto
    then show ?case using Cons by (simp add: c)
  qed
  moreover have "unat channel < 31" "unat channel < 16" using assms(3) by (simp_all add: word_le_nat_alt)
  ultimately show ?thesis by (simp add: syscallEnableDmac_def and_int_bit)
qed

text \<open>
  The interrupt controller's mask does not mirror its saved mask. On a mask register that
  flips the bits written with 1, enabling a second source writes back the first one's bit too
  and so switches the first source off, while the saved mask says it is on.
\<close>

theorem intc_enable_disturbs:
  assumes "unat i < 31" "unat j < 31" "i \<noteq> j" "saved_intc_mask s = 0" "rd64 INTC_MASK s = 0"
    and toggle: "\<And>old v. hw INTC_MASK old v = old XOR v"
  shows "bit (saved_intc_mask (intc_enable_irq hw j (intc_enable_irq hw i s))) (unat i)
    \<and> \<not> bit (rd64 INTC_MASK (intc_enable_irq hw j (intc_enable_irq hw i s))) (unat i)"
proof -
  have ij: "unat i \<noteq> unat j" using assms(3) by (simp add: word_unat_eq_iff)
  have "bit (int_bit i) k \<longleftrightarrow> k = unat i" "bit (int_bit j) k \<longleftrightarrow> k = unat j" for k
    using bit_int_bit assms(1,2) by auto
  moreover have "int_bit i AND int_bit j = 0"
    using ij assms(1,2) by (simp add: and_int_bit bit_int_bit)
  ultimately show ?thesis
    using assms(4,5) ij by (simp add: intc_enable_irq_def toggle Let_def bit_xor_iff bit_or_iff)
qed

text \<open>
  \<open>timer_time\<close> is the number of microseconds of \<open>COUNT + 65536 * interrupts\<close> ticks of a
  576 kHz clock, rounded down, without overflow for \<open>2 ^ 27\<close> timer interrupts.
\<close>

theorem timer_time_exact:
  assumes "unat (rd64 T0_COUNT s) < 2 ^ 16" "unat (timer_interruptCount s) < 2 ^ 27"
  shows "unat (timer_time s)
    = (unat (rd64 T0_COUNT s) + 65536 * unat (timer_interruptCount s)) * 1000000 div 576000"
proof -
  define c n where "c = unat (rd64 T0_COUNT s)" and "n = unat (timer_interruptCount s)"
  have "push_bit 16 (timer_interruptCount s) = of_nat (65536 * n)"
    by (simp add: n_def push_bit_eq_mult)
  then have t: "rd64 T0_COUNT s + push_bit 16 (timer_interruptCount s) = of_nat (c + 65536 * n)"
    by (simp add: c_def)
  have bound: "(c + 65536 * n) * 1000000 < 2 ^ 64" using assms by (simp add: c_def n_def)
  have "(rd64 T0_COUNT s + push_bit 16 (timer_interruptCount s)) * 1000000 = of_nat ((c + 65536 * n) * 1000000)"
    unfolding t by simp
  then have "unat ((rd64 T0_COUNT s + push_bit 16 (timer_interruptCount s)) * 1000000) = (c + 65536 * n) * 1000000"
    using bound by (simp only:) (rule unat_of_nat_lt, simp)
  then show ?thesis
    unfolding timer_time_def Let_def unat_div by (simp add: kBUSCLKBY256_def unat_div c_def n_def)
qed

text \<open>
  \<open>timer_init_module\<close> installs the timer handler, enables its interrupt, clears the tick
  counter and starts the timer with clock selection 1, which is one sixteenth of the bus clock
  and not the 1/256 that \<open>timer_time\<close> and the comments use. The hypotheses say that the timer's
  registers hold what is written to them.
\<close>

theorem timer_init_module_starts:
  assumes "length (intc_handler s) = 11" "\<And>old v. hw T0_MODE old v = v" "\<And>old v. hw T0_COUNT old v = v"
  shows "\<exists>s'. timer_init_module hw s = Some s' \<and> intc_handler s' ! 9 = Some Timer_interrupt
    \<and> bit (saved_intc_mask s') 9 \<and> timer_interruptCount s' = 0 \<and> rd64 T0_COUNT s' = 0
    \<and> rd64 T0_MODE s' = 0x281 \<and> rd64 T0_MODE s' AND 3 = 1"
proof -
  have b: "bit (int_bit 9) 9" by code_simp
  have m: "ucast (Tn_MODE 0x01 0 0 0 0 0x01 0 0x01 0 0) = (0x281 :: u64)" by code_simp
  have e: "bit (saved_intc_mask (intc_enable_irq hw 9 t)) 9" for t
    using and_int_bit [of 9 "saved_intc_mask t"] b
    by (auto simp: intc_enable_irq_def bit_or_iff Let_def)
  have f: "intc_handler (intc_enable_irq hw 9 t) = intc_handler t"
      "rd64 T0_MODE (intc_enable_irq hw 9 t) = rd64 T0_MODE t" for t
    by (simp_all add: intc_enable_irq_def Let_def rd64_def wr64_def irq_regs)
  have keep: "rd64 a (t\<lparr>timer_interruptCount := x\<rparr>) = rd64 a t" for a t x by (simp add: rd64_def)
  have ne: "T0_MODE \<noteq> T0_COUNT" by (simp add: irq_regs)
  show ?thesis
    using assms e f ne by (simp add: timer_init_module_def intc_register_handler_def Let_def m keep)
qed

section \<open>Witnesses\<close>

text \<open>The documented behaviour of the registers: mask bits flip, status bits clear.\<close>

definition ee_hw :: hw_write where
  "ee_hw a old v =
     (if a = INTC_MASK then old XOR v
      else if a = INTC_STAT then old AND NOT v
      else if a = DMAC_STAT then (old AND NOT (v AND 0xffff)) XOR (v AND 0xffff0000)
      else v)"

definition sample_irq :: kirq where
  "sample_irq = \<lparr>k_reg = (\<lambda>_. 0), k_cause = 0, k_status = 0, irq_handler = replicate 3 None,
     saved_intc_mask = 0, intc_handler = replicate 11 None, saved_dmac_mask = 0,
     dmac_handler = replicate 16 None, dmac_useg_handler = replicate 16 0, timer_interruptCount = 3\<rparr>"


lemma ee_hw_dmac:
  assumes "16 \<le> n" "n < 32"
  shows "bit (ee_hw DMAC_MASK old v) n \<longleftrightarrow> bit old n \<noteq> bit v n"
proof -
  have "(0xffff :: u64) = mask 16" "(0xffff0000 :: u64) = push_bit 16 (mask 16)"
    by (simp_all add: mask_eq_exp_minus_1)
  then have "bit (0xffff :: u64) n = False" "bit (0xffff0000 :: u64) n = True"
    using assms by (simp_all only: bit_mask_iff bit_push_bit_iff) auto
  moreover have "ee_hw DMAC_MASK old v = (old AND NOT (v AND 0xffff)) XOR (v AND 0xffff0000)"
    by (simp add: ee_hw_def irq_regs)
  ultimately show ?thesis
    using assms by (simp only: bit_xor_iff bit_and_iff bit_not_iff) auto
qed

theorem dmac_mask_mirrors_hardware_witness:
  "dmac_sync (dmac_calls ee_hw [(True, 5), (True, 6), (False, 5)] sample_irq)"
  by (rule dmac_mask_mirrors_hardware)
    (simp_all add: ee_hw_dmac dmac_sync_def sample_irq_def rd64_def)

theorem syscallEnableDmac_does_nothing_witness:
  "syscallEnableDmac ee_hw 5 (dmac_calls ee_hw [(True, 5)] sample_irq)
    = (0, dmac_calls ee_hw [(True, 5)] sample_irq)"
  by (rule syscallEnableDmac_does_nothing) (simp_all add: sample_irq_def)

theorem intc_enable_disturbs_witness:
  "bit (saved_intc_mask (intc_enable_irq ee_hw 1 (intc_enable_irq ee_hw 9 sample_irq))) 9
    \<and> \<not> bit (rd64 INTC_MASK (intc_enable_irq ee_hw 1 (intc_enable_irq ee_hw 9 sample_irq))) 9"
  using intc_enable_disturbs [of 9 1 sample_irq ee_hw]
  by (simp add: sample_irq_def rd64_def ee_hw_def)

theorem timer_time_exact_witness: "unat (timer_time sample_irq) = 341333"
  using timer_time_exact [of sample_irq] by (simp add: sample_irq_def rd64_def)

theorem timer_init_module_starts_witness:
  "\<exists>s'. timer_init_module ee_hw sample_irq = Some s' \<and> rd64 T0_MODE s' = 0x281"
  using timer_init_module_starts [of sample_irq ee_hw]
  by (auto simp: sample_irq_def ee_hw_def irq_regs)

end
