(* ===== verification/Elf.thy ===== *)
theory Elf
  imports Bytes
begin

text \<open>
  The ELF part of the loader (\<open>loader/elf.h\<close> and the functions \<open>kmemcpy\<close>, \<open>check_sections\<close>,
  \<open>copy_sections\<close> and \<open>verify_sections\<close> of \<open>loader/loader.c\<close>): checking a file against the memory it may
  occupy, copying its segments, and comparing them afterwards.

  The file is a range of main memory that starts at \<open>buffer\<close>; every field is read from the bytes of memory, again
  at each use, because the check may copy to memory while it reads. The functions for 32-bit and for 64-bit
  files are the same text over two pairs of structures, so they are one definition over the description of
  a format, \<open>elf32\<close> or \<open>elf64\<close>; arithmetic is done at the width the structure gives it. A null pointer for
  \<open>highest\<close> is \<open>None\<close>, and a null \<open>destaddr\<close> is 0. \<open>panic\<close> is \<open>None\<close>. Console output is left out.
\<close>

section \<open>Model\<close>

subsection \<open>Structures\<close>

definition ELFMAGIC :: u32 where "ELFMAGIC = 0x464c457f"
definition PT_LOAD :: u32 where "PT_LOAD = 1"

text \<open>The loader keeps 28 bits of an address where the SBIOS keeps 29.\<close>

definition PHYSADDR28 :: "u32 \<Rightarrow> u32" where
  "PHYSADDR28 a = a AND 0x0fffffff"

record 'v phdr =
  ph_type :: u32
  ph_offset :: 'v
  ph_vaddr :: 'v
  ph_paddr :: 'v
  ph_filesz :: 'v
  ph_memsz :: 'v
  ph_flags :: u32
  ph_align :: 'v

text \<open>The fields of the file header that the loader reads, and the headers of the segments.\<close>

record ('v, 's) elf_format =
  eh_magic :: "u32 \<Rightarrow> 's \<Rightarrow> u32"
  eh_entry :: "u32 \<Rightarrow> 's \<Rightarrow> 'v"
  eh_phnum :: "u32 \<Rightarrow> 's \<Rightarrow> u16"
  eh_phdr :: "u32 \<Rightarrow> nat \<Rightarrow> 's \<Rightarrow> 'v phdr"

definition Elf32_Phdr :: "u32 \<Rightarrow> nat \<Rightarrow> 'a hwst_scheme \<Rightarrow> 32 word phdr" where
  "Elf32_Phdr buffer i s = (let p = buffer + of_nat (52 + i * 32) in
     \<lparr>ph_type = rd32 p s, ph_offset = rd32 (p + 4) s, ph_vaddr = rd32 (p + 8) s, ph_paddr = rd32 (p + 12) s,
      ph_filesz = rd32 (p + 16) s, ph_memsz = rd32 (p + 20) s, ph_flags = rd32 (p + 24) s, ph_align = rd32 (p + 28) s\<rparr>)"

definition Elf64_Phdr :: "u32 \<Rightarrow> nat \<Rightarrow> 'a hwst_scheme \<Rightarrow> 64 word phdr" where
  "Elf64_Phdr buffer i s = (let p = buffer + of_nat (64 + i * 56) in
     \<lparr>ph_type = rd32 p s, ph_offset = rd64 (p + 8) s, ph_vaddr = rd64 (p + 16) s, ph_paddr = rd64 (p + 24) s,
      ph_filesz = rd64 (p + 32) s, ph_memsz = rd64 (p + 40) s, ph_flags = rd32 (p + 4) s, ph_align = rd64 (p + 48) s\<rparr>)"

definition elf32 :: "(32 word, 'a hwst_scheme) elf_format" where
  "elf32 = \<lparr>eh_magic = rd32, eh_entry = \<lambda>b. rd32 (b + 24), eh_phnum = \<lambda>b. rd16 (b + 44), eh_phdr = Elf32_Phdr\<rparr>"

definition elf64 :: "(64 word, 'a hwst_scheme) elf_format" where
  "elf64 = \<lparr>eh_magic = rd32, eh_entry = \<lambda>b. rd64 (b + 24), eh_phnum = \<lambda>b. rd16 (b + 56), eh_phdr = Elf64_Phdr\<rparr>"

text \<open>\<open>info[0]\<close> of the header, the class of the file.\<close>

definition elf_class :: "u32 \<Rightarrow> 'a hwst_scheme \<Rightarrow> u8" where
  "elf_class buffer s = ldb (buffer + 4) s"

subsection \<open>Copying a segment\<close>

definition kmemcpy :: "u32 \<Rightarrow> u32 \<Rightarrow> u32 \<Rightarrow> 'a hwst_scheme \<Rightarrow> 'a hwst_scheme" where
  "kmemcpy dest src n s = memcpy (nat (sint n)) dest src s"

definition copy_segment :: "u32 \<Rightarrow> u32 \<Rightarrow> ('w :: len) word phdr \<Rightarrow> 'a hwst_scheme \<Rightarrow> 'a hwst_scheme" where
  "copy_segment d buffer ph s =
     (let s = if ph_filesz ph \<noteq> 0 then kmemcpy d (buffer + ucast (ph_offset ph)) (ucast (ph_filesz ph)) s else s;
          n = sint (ucast (ph_memsz ph - ph_filesz ph) :: u32)
      in if n > 0 then memset (nat n) 0 (d + ucast (ph_filesz ph)) s else s)"

subsection \<open>Checking a file\<close>

record chk =
  copied_entry :: bool
  highest :: "u32 option"

text \<open>The loader can reach KSEG0 and KSEG1 only.\<close>

definition accessible :: "u32 \<Rightarrow> bool" where
  "accessible a \<longleftrightarrow> (let area = drop_bit 28 a in area = 8 \<or> area = 0xa)"

definition place_segment ::
  "u32 \<Rightarrow> u32 \<Rightarrow> u32 \<Rightarrow> u32 \<Rightarrow> u32 \<Rightarrow> u32 \<Rightarrow> u32 \<Rightarrow> ('w :: len) word phdr \<Rightarrow> chk \<Rightarrow> 'a hwst_scheme \<Rightarrow> int \<times> chk \<times> 'a hwst_scheme" where
  "place_segment buffer start stop entry destaddr dest sz ph c s =
     (if \<not> accessible dest then (- 2, c, s)
      else let dest = PHYSADDR28 dest in
        if dest < start then (- 3, c, s)
        else let lst = dest + sz;
                 c = c\<lparr>highest := map_option (\<lambda>h. if h < lst then lst else h) (highest c)\<rparr>
          in if lst \<ge> stop then (- 4, c, s)
             else let c = if dest \<le> entry \<and> dest + sz > entry then c\<lparr>copied_entry := True\<rparr> else c
               in (0, c, if destaddr \<noteq> 0 then copy_segment (destaddr + (dest - start)) buffer ph s else s))"

definition check_phdr ::
  "u32 \<Rightarrow> u32 \<Rightarrow> u32 \<Rightarrow> u32 \<Rightarrow> u32 \<Rightarrow> u32 \<Rightarrow> ('w :: len) word phdr \<Rightarrow> chk \<Rightarrow> 'a hwst_scheme \<Rightarrow> int \<times> chk \<times> 'a hwst_scheme" where
  "check_phdr buffer filesize start stop entry destaddr ph c s =
     (if ph_type ph = PT_LOAD \<and> ph_memsz ph \<noteq> 0
      then let dest = ucast (ph_paddr ph);
               sz = ucast (ph_memsz ph);
               sz = if ucast sz < ph_filesz ph then ucast (ph_filesz ph) else sz
        in if sz \<noteq> 0
           then if ph_filesz ph \<noteq> 0 \<and> ph_filesz ph > 128 * 1024 * 1024 then (- 31, c, s)
             else if ph_filesz ph \<noteq> 0 \<and> ph_offset ph > 128 * 1024 * 1024 then (- 31, c, s)
             else if ph_filesz ph \<noteq> 0 \<and> ucast (ph_offset ph + ph_filesz ph) \<ge> filesize then (- 30, c, s)
             else place_segment buffer start stop entry destaddr dest sz ph c s
           else (0, c, s)
      else (0, c, s))"

text \<open>The loop over the headers. The number of headers has 16 bits, so it ends even if the file changes under it.\<close>

lemma u16_bound: "i < unat (n :: u16) \<Longrightarrow> i < 65536"
proof -
  assume "i < unat n"
  also have "unat n < 2 ^ LENGTH(16)" by (rule unsigned_less)
  finally show ?thesis by simp
qed

function check_phdrs ::
  "(('w :: len) word, 'a hwst_scheme) elf_format \<Rightarrow> u32 \<Rightarrow> u32 \<Rightarrow> u32 \<Rightarrow> u32 \<Rightarrow> u32 \<Rightarrow> u32 \<Rightarrow> nat \<Rightarrow> chk \<Rightarrow> 'a hwst_scheme
    \<Rightarrow> int \<times> chk \<times> 'a hwst_scheme" where
  "check_phdrs F buffer filesize start stop entry destaddr i c s =
     (if i < unat (eh_phnum F buffer s)
      then case check_phdr buffer filesize start stop entry destaddr (eh_phdr F buffer i s) c s of (r, c, s) \<Rightarrow>
        if r \<noteq> 0 then (r, c, s) else check_phdrs F buffer filesize start stop entry destaddr (i + 1) c s
      else (if copied_entry c then 0 else - 5, c, s))"
  by auto
termination
  by (relation "measure (\<lambda>(_, _, _, _, _, _, _, i, _). 65536 - i)") (auto dest!: u16_bound)

declare check_phdrs.simps [simp del]

definition check_file ::
  "(('w :: len) word, 'a hwst_scheme) elf_format \<Rightarrow> u32 \<Rightarrow> u32 \<Rightarrow> u32 \<Rightarrow> u32 \<Rightarrow> u32 option \<Rightarrow> u32 \<Rightarrow> 'a hwst_scheme
    \<Rightarrow> int \<times> u32 option \<times> 'a hwst_scheme" where
  "check_file F buffer filesize start stop high destaddr s =
     (let c = \<lparr>copied_entry = False, highest = map_option (\<lambda>_. 0) high\<rparr>;
          entry = ucast (eh_entry F buffer s) :: u32
      in if eh_magic F buffer s \<noteq> ELFMAGIC then (- 1, highest c, s)
         else if \<not> accessible entry then (- 20, highest c, s)
         else let entry = PHYSADDR28 entry in
           if entry < start then (- 21, highest c, s)
           else if entry \<ge> stop then (- 21, highest c, s)
           else case check_phdrs F buffer filesize start stop entry destaddr 0 c s of (r, c, s) \<Rightarrow> (r, highest c, s))"

definition check_sections32 ::
  "u32 \<Rightarrow> u32 \<Rightarrow> u32 \<Rightarrow> u32 \<Rightarrow> u32 option \<Rightarrow> u32 \<Rightarrow> 'a hwst_scheme \<Rightarrow> int \<times> u32 option \<times> 'a hwst_scheme" where
  "check_sections32 = check_file elf32"

definition check_sections64 ::
  "u32 \<Rightarrow> u32 \<Rightarrow> u32 \<Rightarrow> u32 \<Rightarrow> u32 option \<Rightarrow> u32 \<Rightarrow> 'a hwst_scheme \<Rightarrow> int \<times> u32 option \<times> 'a hwst_scheme" where
  "check_sections64 = check_file elf64"

definition check_sections ::
  "u32 \<Rightarrow> u32 \<Rightarrow> u32 \<Rightarrow> u32 \<Rightarrow> u32 option \<Rightarrow> u32 \<Rightarrow> 'a hwst_scheme \<Rightarrow> int \<times> u32 option \<times> 'a hwst_scheme" where
  "check_sections buffer filesize start stop high destaddr s =
     (let start = PHYSADDR28 start; stop = PHYSADDR28 stop
      in if elf_class buffer s = 2 then check_sections64 buffer filesize start stop high destaddr s
         else check_sections32 buffer filesize start stop high destaddr s)"

subsection \<open>Copying and verifying a file\<close>

function copy_phdrs :: "(('w :: len) word, 'a hwst_scheme) elf_format \<Rightarrow> u32 \<Rightarrow> nat \<Rightarrow> 'a hwst_scheme \<Rightarrow> 'a hwst_scheme" where
  "copy_phdrs F buffer i s =
     (if i < unat (eh_phnum F buffer s)
      then let ph = eh_phdr F buffer i s
        in copy_phdrs F buffer (i + 1)
             (if ph_type ph = PT_LOAD \<and> ph_memsz ph \<noteq> 0 then copy_segment (ucast (ph_paddr ph)) buffer ph s else s)
      else s)"
  by auto
termination
  by (relation "measure (\<lambda>(_, _, i, _). 65536 - i)") (auto dest!: u16_bound)

declare copy_phdrs.simps [simp del]

definition copy_sections32 :: "u32 \<Rightarrow> 'a hwst_scheme \<Rightarrow> u32 \<times> 'a hwst_scheme" where
  "copy_sections32 buffer s =
     (if eh_magic elf32 buffer s \<noteq> ELFMAGIC then (0, s)
      else (eh_entry elf32 buffer s, copy_phdrs elf32 buffer 0 s))"

definition copy_sections64 :: "u32 \<Rightarrow> 'a hwst_scheme \<Rightarrow> u32 \<times> 'a hwst_scheme" where
  "copy_sections64 buffer s =
     (if eh_magic elf64 buffer s \<noteq> ELFMAGIC then (0, s)
      else (PHYSADDR28 (ucast (eh_entry elf64 buffer s)), copy_phdrs elf64 buffer 0 s))"

definition copy_sections :: "u32 \<Rightarrow> 'a hwst_scheme \<Rightarrow> u32 \<times> 'a hwst_scheme" where
  "copy_sections buffer s = (if elf_class buffer s = 2 then copy_sections64 buffer s else copy_sections32 buffer s)"

text \<open>The loop that is meant to look at the zeroed bytes looks at the first of them \<open>size\<close> times.\<close>

primrec verify_zero :: "nat \<Rightarrow> u32 \<Rightarrow> 'a hwst_scheme \<Rightarrow> bool" where
  "verify_zero 0 a s = True"
| "verify_zero (Suc n) a s = (if ldb a s \<noteq> 0 then False else verify_zero n a s)"

definition verify_phdr :: "u32 \<Rightarrow> u32 \<Rightarrow> ('w :: len) word phdr \<Rightarrow> 'a hwst_scheme \<Rightarrow> unit option" where
  "verify_phdr dest buffer ph s =
     (if ph_filesz ph \<noteq> 0 \<and> memcmp (unat (ucast (ph_filesz ph) :: u32)) dest (buffer + ucast (ph_offset ph)) s \<noteq> 0 then None
      else let n = ucast (ph_memsz ph - ph_filesz ph) :: u32
        in if n > 0 \<and> \<not> verify_zero (unat n) (dest + ucast (ph_filesz ph)) s then None else Some ())"

fun verify_phdrs ::
  "(u32 \<Rightarrow> u32) \<Rightarrow> (('w :: len) word, 'a hwst_scheme) elf_format \<Rightarrow> u32 \<Rightarrow> nat list \<Rightarrow> 'a hwst_scheme \<Rightarrow> unit option" where
  "verify_phdrs to F buffer [] s = Some ()"
| "verify_phdrs to F buffer (i # is) s =
     (let ph = eh_phdr F buffer i s
      in if ph_type ph = PT_LOAD \<and> ph_memsz ph \<noteq> 0
         then case verify_phdr (to (ucast (ph_paddr ph))) buffer ph s of
             None \<Rightarrow> None
           | Some _ \<Rightarrow> verify_phdrs to F buffer is s
         else verify_phdrs to F buffer is s)"

definition verify_sections32 :: "u32 \<Rightarrow> 'a hwst_scheme \<Rightarrow> unit option" where
  "verify_sections32 buffer s =
     (if eh_magic elf32 buffer s \<noteq> ELFMAGIC then None
      else verify_phdrs id elf32 buffer [0..<unat (eh_phnum elf32 buffer s)] s)"

definition verify_sections64 :: "u32 \<Rightarrow> 'a hwst_scheme \<Rightarrow> unit option" where
  "verify_sections64 buffer s =
     (if eh_magic elf64 buffer s \<noteq> ELFMAGIC then None
      else verify_phdrs PHYSADDR28 elf64 buffer [0..<unat (eh_phnum elf64 buffer s)] s)"

definition verify_sections :: "u32 \<Rightarrow> 'a hwst_scheme \<Rightarrow> unit option" where
  "verify_sections buffer s = (if elf_class buffer s = 2 then verify_sections64 buffer s else verify_sections32 buffer s)"

section \<open>Segments as numbers\<close>

text \<open>
  What a header asks for, independent of the class of the file: \<open>sg_memsz\<close> bytes at \<open>sg_dest\<close>, the first
  \<open>sg_filesz\<close> from offset \<open>sg_off\<close> of the file and the others zero.
\<close>

record segment =
  sg_dest :: u32
  sg_off :: nat
  sg_filesz :: nat
  sg_memsz :: nat

definition seg_of :: "('w :: len) word phdr \<Rightarrow> segment" where
  "seg_of ph = \<lparr>sg_dest = ucast (ph_paddr ph), sg_off = unat (ph_offset ph), sg_filesz = unat (ph_filesz ph), sg_memsz = unat (ph_memsz ph)\<rparr>"

definition loadable :: "('w :: len) word phdr \<Rightarrow> bool" where
  "loadable ph \<longleftrightarrow> ph_type ph = PT_LOAD \<and> ph_memsz ph \<noteq> 0"

definition file_segments :: "(('w :: len) word, 's) elf_format \<Rightarrow> u32 \<Rightarrow> 's \<Rightarrow> segment list" where
  "file_segments F buffer s = map seg_of (filter loadable (map (\<lambda>i. eh_phdr F buffer i s) [0..<unat (eh_phnum F buffer s)]))"

text \<open>A well-formed segment, as the ELF specification demands; the second part excludes sizes no console has.\<close>

definition wf_seg :: "segment \<Rightarrow> bool" where
  "wf_seg sg \<longleftrightarrow> sg_filesz sg \<le> sg_memsz sg \<and> sg_memsz sg < 2 ^ 31"

definition seg_start :: "segment \<Rightarrow> nat" where
  "seg_start sg = unat (PHYSADDR28 (sg_dest sg))"

definition seg_fits :: "u32 \<Rightarrow> u32 \<Rightarrow> u32 \<Rightarrow> segment \<Rightarrow> bool" where
  "seg_fits filesize start stop sg \<longleftrightarrow>
     (sg_filesz sg \<noteq> 0 \<longrightarrow> sg_filesz sg \<le> 2 ^ 27 \<and> sg_off sg \<le> 2 ^ 27 \<and> sg_off sg + sg_filesz sg < unat filesize)
     \<and> accessible (sg_dest sg) \<and> unat start \<le> seg_start sg \<and> seg_start sg + sg_memsz sg < unat stop"

definition put_segment :: "u32 \<Rightarrow> u32 \<Rightarrow> segment \<Rightarrow> 'a hwst_scheme \<Rightarrow> 'a hwst_scheme" where
  "put_segment d buffer sg s = memset (sg_memsz sg - sg_filesz sg) 0 (d + of_nat (sg_filesz sg))
     (memcpy (sg_filesz sg) d (buffer + of_nat (sg_off sg)) s)"

definition put_segments :: "(segment \<Rightarrow> u32) \<Rightarrow> u32 \<Rightarrow> segment list \<Rightarrow> 'a hwst_scheme \<Rightarrow> 'a hwst_scheme" where
  "put_segments D buffer sgs s = foldl (\<lambda>s sg. put_segment (D sg) buffer sg s) s sgs"

subsection \<open>Bytes of a range\<close>

definition within :: "u32 \<Rightarrow> u32 \<Rightarrow> nat \<Rightarrow> bool" where
  "within b d n \<longleftrightarrow> (\<exists>i < n. PHYSADDR b = PHYSADDR (d + of_nat i))"

definition agree :: "nat \<Rightarrow> u32 \<Rightarrow> 'a hwst_scheme \<Rightarrow> 'a hwst_scheme \<Rightarrow> bool" where
  "agree n a s t \<longleftrightarrow> (\<forall>k < n. ldb (a + of_nat k) s = ldb (a + of_nat k) t)"

lemma withinI: "i < n \<Longrightarrow> within (d + of_nat i) d n"
  by (auto simp: within_def)

lemma within_sub:
  assumes "within b (d + of_nat k) m" "k + m \<le> n"
  shows "within b d n"
proof -
  obtain i where "i < m" "PHYSADDR b = PHYSADDR (d + of_nat k + of_nat i)" using assms(1) by (auto simp: within_def)
  then have "k + i < n" "PHYSADDR b = PHYSADDR (d + of_nat (k + i))" using assms(2) by (simp_all add: add.assoc)
  then show ?thesis by (auto simp: within_def)
qed

lemma within_apart: "bytes_apart m p n q \<Longrightarrow> i < m \<Longrightarrow> \<not> within (p + of_nat i) q n"
  by (auto simp: bytes_apart_def within_def)

lemma apart_sub:
  assumes "bytes_apart m p n q" "i + k \<le> m" "j + l \<le> n"
  shows "bytes_apart k (p + of_nat i) l (q + of_nat j)"
  unfolding bytes_apart_def
proof (intro allI impI)
  fix x y
  assume "x < k" "y < l"
  then have "i + x < m" "j + y < n" using assms(2,3) by simp_all
  then have "PHYSADDR (p + of_nat (i + x)) \<noteq> PHYSADDR (q + of_nat (j + y))" using assms(1) unfolding bytes_apart_def by blast
  then show "PHYSADDR (p + of_nat i + of_nat x) \<noteq> PHYSADDR (q + of_nat j + of_nat y)" by (simp add: add.assoc)
qed

lemma agree_refl [simp]: "agree n a s s"
  by (simp add: agree_def)

lemma agree_trans: "agree n a s t \<Longrightarrow> agree n a t u \<Longrightarrow> agree n a s u"
  by (simp add: agree_def)

lemma agree_mono: "agree n a s t \<Longrightarrow> m \<le> n \<Longrightarrow> agree m a s t"
  by (simp add: agree_def)

lemma agree_ldb: "agree n a s t \<Longrightarrow> k < n \<Longrightarrow> ldb (a + of_nat k) s = ldb (a + of_nat k) t"
  by (simp add: agree_def)

lemma agree_rd:
  assumes "agree n a s t"
  shows "k + 2 \<le> n \<Longrightarrow> rd16 (a + of_nat k) s = rd16 (a + of_nat k) t"
    and "k + 4 \<le> n \<Longrightarrow> rd32 (a + of_nat k) s = rd32 (a + of_nat k) t"
    and "k + 8 \<le> n \<Longrightarrow> rd64 (a + of_nat k) s = rd64 (a + of_nat k) t"
proof -
  have r16: "rd16 (a + of_nat k) s = rd16 (a + of_nat k) t" if "k + 2 \<le> n" for k
    using agree_ldb [OF assms, of k] agree_ldb [OF assms, of "k + 1"] that by (simp add: rd16_def ac_simps)
  have r32: "rd32 (a + of_nat k) s = rd32 (a + of_nat k) t" if "k + 4 \<le> n" for k
    using r16 [of k] r16 [of "k + 2"] that by (simp add: rd32_def ac_simps)
  show "k + 2 \<le> n \<Longrightarrow> rd16 (a + of_nat k) s = rd16 (a + of_nat k) t" by (rule r16)
  show "k + 4 \<le> n \<Longrightarrow> rd32 (a + of_nat k) s = rd32 (a + of_nat k) t" by (rule r32)
  show "k + 8 \<le> n \<Longrightarrow> rd64 (a + of_nat k) s = rd64 (a + of_nat k) t"
    using r32 [of k] r32 [of "k + 4"] by (simp add: rd64_def ac_simps)
qed

subsection \<open>One segment\<close>

lemma unat_ucast_small: "unat (w :: 'a :: len word) < 2 ^ LENGTH('b) \<Longrightarrow> unat (ucast w :: 'b :: len word) = unat w"
  by (simp add: unsigned_ucast_eq take_bit_nat_eq_self)

lemma ucast_diff:
  assumes "32 \<le> LENGTH('w)"
  shows "(ucast (a - b :: 'w :: len word) :: u32) = ucast a - ucast b"
proof -
  have "take_bit 32 (uint (a - b)) = take_bit 32 (uint a - uint b)"
    using assms by (simp only: uint_word_ariths(2) take_bit_eq_mod [symmetric] take_bit_take_bit min.absorb1)
  then have "(word_of_int (uint (a - b)) :: u32) = word_of_int (uint a - uint b)"
    by (simp only: word_of_int_eq_iff) simp
  then show ?thesis by (simp only: ucast_eq wi_hom_sub)
qed


lemma copy_segment_eq:
  assumes "32 \<le> LENGTH('w)" "wf_seg (seg_of ph)"
  shows "copy_segment d buffer (ph :: ('w :: len) word phdr) s = put_segment d buffer (seg_of ph) s"
proof -
  define m f where "m = unat (ph_memsz ph)" and "f = unat (ph_filesz ph)"
  have mf: "f \<le> m" "m < 2 ^ 31" using assms(2) by (simp_all add: wf_seg_def seg_of_def m_def f_def)
  have u: "unat (ucast (ph_memsz ph) :: u32) = m" "unat (ucast (ph_filesz ph) :: u32) = f"
    using mf by (simp_all add: unat_ucast_small m_def f_def)
  have "unat (ucast (ph_memsz ph - ph_filesz ph) :: u32) = m - f"
    using u mf(1) by (simp add: ucast_diff [OF assms(1)] unat_sub word_le_nat_alt)
  then have size: "sint (ucast (ph_memsz ph - ph_filesz ph) :: u32) = int (m - f)"
    using sint_small [of "ucast (ph_memsz ph - ph_filesz ph)"] mf(2) by simp
  have "sint (ucast (ph_filesz ph) :: u32) = int f" using sint_small [of "ucast (ph_filesz ph)"] u(2) mf by simp
  moreover have "ph_filesz ph = 0 \<longleftrightarrow> f = 0" by (simp add: f_def unat_eq_0)
  moreover have "(ucast (ph_filesz ph) :: u32) = of_nat f" "(ucast (ph_offset ph) :: u32) = of_nat (unat (ph_offset ph))"
    by (simp_all add: f_def)
  ultimately show ?thesis
    by (cases "f < m") (auto simp: nat_diff_distrib copy_segment_def put_segment_def kmemcpy_def seg_of_def size Let_def simp flip: m_def f_def)
qed

lemma put_segment_outside:
  assumes "wf_seg sg" "\<not> within b d (sg_memsz sg)"
  shows "ldb b (put_segment d buffer sg s) = ldb b s"
proof -
  have le: "sg_filesz sg + (sg_memsz sg - sg_filesz sg) \<le> sg_memsz sg" using assms(1) by (simp add: wf_seg_def)
  have "\<not> within b (d + of_nat (sg_filesz sg)) (sg_memsz sg - sg_filesz sg)" using within_sub [OF _ le] assms(2) by blast
  moreover have "\<forall>i < sg_filesz sg. PHYSADDR b \<noteq> PHYSADDR (d + of_nat i)"
    using assms by (auto simp: within_def wf_seg_def)
  ultimately show ?thesis by (auto simp: put_segment_def memset_byte memcpy_other within_def)
qed

lemma put_segment_inside:
  assumes "wf_seg sg" "sg_memsz sg < 2 ^ 29" "bytes_apart (sg_filesz sg) (buffer + of_nat (sg_off sg)) (sg_memsz sg) d"
    and i: "i < sg_memsz sg"
  shows "ldb (d + of_nat i) (put_segment d buffer sg s) = (if i < sg_filesz sg then ldb (buffer + of_nat (sg_off sg) + of_nat i) s else 0)"
proof -
  have le: "sg_filesz sg \<le> sg_memsz sg" using assms(1) by (simp add: wf_seg_def)
  have "(\<exists>j < sg_memsz sg - sg_filesz sg. PHYSADDR (d + of_nat i) = PHYSADDR (d + of_nat (sg_filesz sg) + of_nat j)) \<longleftrightarrow> sg_filesz sg \<le> i"
  proof -
    have "PHYSADDR (d + of_nat i) = PHYSADDR (d + of_nat (sg_filesz sg) + of_nat j) \<longleftrightarrow> i = sg_filesz sg + j"
      if "j < sg_memsz sg - sg_filesz sg" for j
      using PHYSADDR_offset_eq_iff [of i "sg_filesz sg + j" d] that assms(2) i by (simp add: add.assoc)
    then have "(\<exists>j < sg_memsz sg - sg_filesz sg. PHYSADDR (d + of_nat i) = PHYSADDR (d + of_nat (sg_filesz sg) + of_nat j))
        \<longleftrightarrow> (\<exists>j < sg_memsz sg - sg_filesz sg. i = sg_filesz sg + j)" by blast
    also have "\<dots> \<longleftrightarrow> sg_filesz sg \<le> i" using i by (metis le_add1 le_add_diff_inverse nat_add_left_cancel_less le)
    finally show ?thesis .
  qed
  moreover have "bytes_apart (sg_filesz sg) (buffer + of_nat (sg_off sg)) (sg_filesz sg) d"
    using assms(3) le by (auto simp: bytes_apart_def)
  then have "i < sg_filesz sg \<Longrightarrow> ldb (d + of_nat i) (memcpy (sg_filesz sg) d (buffer + of_nat (sg_off sg)) s) = ldb (buffer + of_nat (sg_off sg) + of_nat i) s"
    using assms(2) le by (intro memcpy_copied) simp_all
  ultimately show ?thesis by (simp add: put_segment_def memset_byte not_le)
qed

subsection \<open>All segments\<close>

lemma put_segments_simps [simp]:
  "put_segments D buffer [] s = s"
  "put_segments D buffer (sg # sgs) s = put_segments D buffer sgs (put_segment (D sg) buffer sg s)"
  by (simp_all add: put_segments_def)

lemma put_segments_outside:
  assumes "\<forall>sg \<in> set sgs. wf_seg sg \<and> \<not> within b (D sg) (sg_memsz sg)"
  shows "ldb b (put_segments D buffer sgs s) = ldb b s"
  using assms by (induction sgs arbitrary: s) (simp_all add: put_segment_outside)

text \<open>Segments that lie apart from each other and from the bytes of the file all arrive.\<close>

definition seg_byte :: "u32 \<Rightarrow> segment \<Rightarrow> nat \<Rightarrow> 'a hwst_scheme \<Rightarrow> u8" where
  "seg_byte buffer sg i s = (if i < sg_filesz sg then ldb (buffer + of_nat (sg_off sg) + of_nat i) s else 0)"

definition segs_apart :: "(segment \<Rightarrow> u32) \<Rightarrow> segment list \<Rightarrow> bool" where
  "segs_apart D sgs \<longleftrightarrow> (\<forall>i < length sgs. \<forall>j < length sgs. i \<noteq> j \<longrightarrow>
     bytes_apart (sg_memsz (sgs ! i)) (D (sgs ! i)) (sg_memsz (sgs ! j)) (D (sgs ! j)))"

definition source_apart :: "(segment \<Rightarrow> u32) \<Rightarrow> u32 \<Rightarrow> nat \<Rightarrow> segment list \<Rightarrow> bool" where
  "source_apart D buffer n sgs \<longleftrightarrow> (\<forall>sg \<in> set sgs. bytes_apart n buffer (sg_memsz sg) (D sg))"

lemma segs_apart_Cons:
  assumes "segs_apart D (sg # sgs)"
  shows "segs_apart D sgs" "\<forall>x \<in> set sgs. bytes_apart (sg_memsz sg) (D sg) (sg_memsz x) (D x)"
proof -
  note a = assms [unfolded segs_apart_def]
  show "segs_apart D sgs" unfolding segs_apart_def
  proof (intro allI impI)
    fix i j
    assume "i < length sgs" "j < length sgs" "i \<noteq> j"
    then show "bytes_apart (sg_memsz (sgs ! i)) (D (sgs ! i)) (sg_memsz (sgs ! j)) (D (sgs ! j))"
      using a [rule_format, of "Suc i" "Suc j"] by simp
  qed
  show "\<forall>x \<in> set sgs. bytes_apart (sg_memsz sg) (D sg) (sg_memsz x) (D x)"
  proof
    fix x
    assume "x \<in> set sgs"
    then obtain j where "j < length sgs" "sgs ! j = x" by (auto simp: in_set_conv_nth)
    then show "bytes_apart (sg_memsz sg) (D sg) (sg_memsz x) (D x)" using a [rule_format, of 0 "Suc j"] by auto
  qed
qed

lemma put_segments_inside:
  assumes "\<forall>sg \<in> set sgs. wf_seg sg \<and> sg_memsz sg < 2 ^ 29 \<and> (sg_filesz sg \<noteq> 0 \<longrightarrow> sg_off sg + sg_filesz sg \<le> n)"
    and "segs_apart D sgs" "source_apart D buffer n sgs" "sg \<in> set sgs" "i < sg_memsz sg"
  shows "ldb (D sg + of_nat i) (put_segments D buffer sgs s) = seg_byte buffer sg i s"
  using assms
proof (induction sgs arbitrary: s)
  case (Cons x sgs)
  let ?t = "put_segment (D x) buffer x s"
  have wfx: "wf_seg x" "sg_memsz x < 2 ^ 29" using Cons.prems(1) by simp_all
  have src: "bytes_apart n buffer (sg_memsz x) (D x)" using Cons.prems(3) by (simp add: source_apart_def)
  have kept: "seg_byte buffer y i ?t = seg_byte buffer y i s" if "y \<in> set (x # sgs)" for y
  proof (cases "i < sg_filesz y")
    case True
    then have "sg_off y + i < n" using Cons.prems(1) that by force
    then have "\<not> within (buffer + of_nat (sg_off y + i)) (D x) (sg_memsz x)" by (rule within_apart [OF src])
    then show ?thesis by (simp add: seg_byte_def add.assoc put_segment_outside [OF wfx(1)])
  qed (simp add: seg_byte_def)
  show ?case
  proof (cases "sg \<in> set sgs")
    case True
    have "source_apart D buffer n sgs" using Cons.prems(3) by (simp add: source_apart_def)
    then have "ldb (D sg + of_nat i) (put_segments D buffer sgs ?t) = seg_byte buffer sg i ?t"
      using Cons.IH Cons.prems(1,5) segs_apart_Cons(1) [OF Cons.prems(2)] True by simp
    then show ?thesis using kept [of sg] Cons.prems(4) by simp
  next
    case False
    then have [simp]: "sg = x" using Cons.prems(4) by simp
    have "\<forall>y \<in> set sgs. wf_seg y \<and> \<not> within (D x + of_nat i) (D y) (sg_memsz y)"
      using segs_apart_Cons(2) [OF Cons.prems(2)] Cons.prems(1,5) within_apart by fastforce
    then have "ldb (D x + of_nat i) (put_segments D buffer sgs ?t) = ldb (D x + of_nat i) ?t" by (rule put_segments_outside)
    moreover have "bytes_apart (sg_filesz x) (buffer + of_nat (sg_off x)) (sg_memsz x) (D x)"
    proof (cases "sg_filesz x = 0")
      case False
      then have "sg_off x + sg_filesz x \<le> n" using Cons.prems(1) by simp
      then show ?thesis using apart_sub [OF src, of "sg_off x" "sg_filesz x" 0 "sg_memsz x"] by simp
    qed (simp add: bytes_apart_def)
    then have "ldb (D x + of_nat i) ?t = seg_byte buffer x i s"
      using put_segment_inside [OF wfx, of buffer "D x" i s] Cons.prems(5) by (simp add: seg_byte_def)
    ultimately show ?thesis by simp
  qed
qed simp


section \<open>What the check accepts\<close>

definition seg_holds :: "segment \<Rightarrow> u32 \<Rightarrow> bool" where
  "seg_holds sg a \<longleftrightarrow> seg_start sg \<le> unat a \<and> unat a < seg_start sg + sg_memsz sg"

definition noted :: "u32 \<Rightarrow> segment \<Rightarrow> chk \<Rightarrow> chk" where
  "noted entry sg c = \<lparr>copied_entry = copied_entry c \<or> seg_holds sg entry,
     highest = map_option (\<lambda>h. max h (of_nat (seg_start sg + sg_memsz sg))) (highest c)\<rparr>"

definition image_addr :: "u32 \<Rightarrow> u32 \<Rightarrow> segment \<Rightarrow> u32" where
  "image_addr start destaddr sg = destaddr + (PHYSADDR28 (sg_dest sg) - start)"

definition placed :: "u32 \<Rightarrow> u32 \<Rightarrow> u32 \<Rightarrow> segment \<Rightarrow> 'a hwst_scheme \<Rightarrow> 'a hwst_scheme" where
  "placed buffer start destaddr sg s = (if destaddr \<noteq> 0 then put_segment (image_addr start destaddr sg) buffer sg s else s)"

lemma PHYSADDR28_take_bit: "PHYSADDR28 a = take_bit 28 a"
proof -
  have "mask 28 = (0x0fffffff :: u32)" by (simp add: mask_eq_exp_minus_1)
  then show ?thesis by (metis PHYSADDR28_def take_bit_eq_mask)
qed

lemma unat_PHYSADDR28: "unat (PHYSADDR28 a) = unat a mod 2 ^ 28"
  by (simp only: PHYSADDR28_take_bit unat_take_bit_mod)

lemma seg_start_less: "seg_start sg < 2 ^ 28"
  by (simp add: seg_start_def unat_PHYSADDR28)

lemma file_range:
  assumes "32 \<le> LENGTH('w)"
  shows "(f > 128 * 1024 * 1024 \<longleftrightarrow> unat f > 2 ^ 27)"
    and "unat f \<le> 2 ^ 27 \<Longrightarrow> unat g \<le> 2 ^ 27 \<Longrightarrow> unat (ucast (g + f :: 'w :: len word) :: u32) = unat g + unat f"
proof -
  have big: "(2 :: nat) ^ 32 \<le> 2 ^ LENGTH('w)" using assms by (rule power_increasing) simp
  have "(128 * 1024 * 1024 :: 'w word) = of_nat (2 ^ 27)" by simp
  moreover have "unat (of_nat (2 ^ 27) :: 'w word) = 2 ^ 27"
    by (rule unat_of_nat_lt) (use big in simp)
  ultimately have "unat (128 * 1024 * 1024 :: 'w word) = 2 ^ 27" by simp
  then show "f > 128 * 1024 * 1024 \<longleftrightarrow> unat f > 2 ^ 27" by (simp only: word_less_nat_alt)
  assume le: "unat f \<le> 2 ^ 27" "unat g \<le> 2 ^ 27"
  then have "unat g + unat f < 2 ^ LENGTH('w)" using big by simp
  then have "unat (g + f) = unat g + unat f" by (simp add: unat_word_ariths)
  then show "unat (ucast (g + f) :: u32) = unat g + unat f" using le by (simp add: unat_ucast_small)
qed

lemma place_segment_fits:
  assumes "wf_seg sg" "32 \<le> LENGTH('w)" "sg = seg_of (ph :: ('w :: len) word phdr)" "sz = of_nat (sg_memsz sg)"
  shows "accessible (sg_dest sg) \<and> unat start \<le> seg_start sg \<and> seg_start sg + sg_memsz sg < unat stop \<Longrightarrow>
      place_segment buffer start stop entry destaddr (sg_dest sg) sz ph c s = (0, noted entry sg c, placed buffer start destaddr sg s)"
    and "\<not> (accessible (sg_dest sg) \<and> unat start \<le> seg_start sg \<and> seg_start sg + sg_memsz sg < unat stop) \<Longrightarrow>
      \<exists>r c'. place_segment buffer start stop entry destaddr (sg_dest sg) sz ph c s = (r, c', s) \<and> r \<noteq> 0"
proof -
  have sum: "unat (PHYSADDR28 (sg_dest sg) + sz) = seg_start sg + sg_memsz sg"
    using assms(1,4) seg_start_less [of sg]
    by (simp add: unat_word_ariths unat_of_nat_lt wf_seg_def seg_start_def)
  have lst: "PHYSADDR28 (sg_dest sg) + sz = of_nat (seg_start sg + sg_memsz sg)"
    by (simp only: sum [symmetric] of_nat_unat ucast_id)
  show "place_segment buffer start stop entry destaddr (sg_dest sg) sz ph c s = (0, noted entry sg c, placed buffer start destaddr sg s)"
    if "accessible (sg_dest sg) \<and> unat start \<le> seg_start sg \<and> seg_start sg + sg_memsz sg < unat stop"
  proof -
    have "\<not> PHYSADDR28 (sg_dest sg) < start" "\<not> stop \<le> PHYSADDR28 (sg_dest sg) + sz"
      using that sum by (simp_all add: word_less_nat_alt word_le_nat_alt seg_start_def)
    moreover have "(PHYSADDR28 (sg_dest sg) \<le> entry \<and> entry < PHYSADDR28 (sg_dest sg) + sz) \<longleftrightarrow> seg_holds sg entry"
      using sum by (simp add: word_less_nat_alt word_le_nat_alt seg_start_def seg_holds_def)
    moreover have "(\<lambda>h. if h < l then l else h) = (\<lambda>h. max h l)" for l :: u32 by (auto simp: fun_eq_iff max_def)
    ultimately show ?thesis
      using that copy_segment_eq [OF assms(2), of ph _ buffer s] assms(1,3) lst
      by (cases c) (simp add: place_segment_def noted_def placed_def image_addr_def Let_def)
  qed
  show "\<exists>r c'. place_segment buffer start stop entry destaddr (sg_dest sg) sz ph c s = (r, c', s) \<and> r \<noteq> 0"
    if "\<not> (accessible (sg_dest sg) \<and> unat start \<le> seg_start sg \<and> seg_start sg + sg_memsz sg < unat stop)"
    using that sum by (auto simp: place_segment_def Let_def word_less_nat_alt word_le_nat_alt seg_start_def)
qed

lemma check_phdr_spec:
  assumes "32 \<le> LENGTH('w)" "wf_seg (seg_of (ph :: ('w :: len) word phdr))"
  shows "\<not> loadable ph \<Longrightarrow> check_phdr buffer filesize start stop entry destaddr ph c s = (0, c, s)"
    and "loadable ph \<Longrightarrow> seg_fits filesize start stop (seg_of ph) \<Longrightarrow>
      check_phdr buffer filesize start stop entry destaddr ph c s = (0, noted entry (seg_of ph) c, placed buffer start destaddr (seg_of ph) s)"
    and "loadable ph \<Longrightarrow> \<not> seg_fits filesize start stop (seg_of ph) \<Longrightarrow>
      \<exists>r c'. check_phdr buffer filesize start stop entry destaddr ph c s = (r, c', s) \<and> r \<noteq> 0"
proof -
  define m f where "m = unat (ph_memsz ph)" and "f = unat (ph_filesz ph)"
  have mf: "f \<le> m" "m < 2 ^ 31" using assms(2) by (simp_all add: wf_seg_def seg_of_def m_def f_def)
  have um: "unat (ucast (ph_memsz ph) :: u32) = m" using mf by (simp add: unat_ucast_small m_def)
  then have "unat (ucast (ucast (ph_memsz ph) :: u32) :: 'w word) = m"
    using unat_ucast_up [of "ucast (ph_memsz ph) :: u32", where 'b = 'w] assms(1) by simp
  then have sz: "(if ucast (ucast (ph_memsz ph) :: u32) < ph_filesz ph then ucast (ph_filesz ph) else (ucast (ph_memsz ph) :: u32)) = of_nat m"
    using mf(1) by (simp add: word_less_nat_alt m_def f_def)
  have nz: "loadable ph \<Longrightarrow> (of_nat m :: u32) \<noteq> 0"
  proof -
    assume "loadable ph"
    then have "m \<noteq> 0" by (simp add: loadable_def m_def unat_eq_0)
    moreover have "unat (of_nat m :: u32) = m" using mf(2) by (simp add: unat_of_nat_lt)
    ultimately show ?thesis by (metis unsigned_0)
  qed
  have fz: "ph_filesz ph = 0 \<longleftrightarrow> f = 0" by (simp add: f_def unat_eq_0)
  have rng: "(128 * 1024 * 1024 < ph_filesz ph \<longleftrightarrow> \<not> f \<le> 2 ^ 27) \<and> (128 * 1024 * 1024 < ph_offset ph \<longleftrightarrow> \<not> unat (ph_offset ph) \<le> 2 ^ 27)"
    unfolding f_def not_le by (intro conjI file_range(1) [OF assms(1)])
  have ends: "filesize \<le> ucast (ph_offset ph + ph_filesz ph) \<longleftrightarrow> \<not> unat (ph_offset ph) + f < unat filesize"
    if "f \<le> 2 ^ 27" "unat (ph_offset ph) \<le> 2 ^ 27"
    using file_range(2) [OF assms(1)] that by (simp add: f_def word_le_nat_alt not_less)
  show "\<not> loadable ph \<Longrightarrow> check_phdr buffer filesize start stop entry destaddr ph c s = (0, c, s)"
    by (auto simp: check_phdr_def loadable_def)
  note place = place_segment_fits [OF assms(2,1) refl, of "of_nat m"]
  have sel: "sg_memsz (seg_of ph) = m" "sg_filesz (seg_of ph) = f" "sg_off (seg_of ph) = unat (ph_offset ph)"
     "sg_dest (seg_of ph) = ucast (ph_paddr ph)" by (simp_all add: seg_of_def m_def f_def)
  have body: "check_phdr buffer filesize start stop entry destaddr ph c s
      = (if f \<noteq> 0 \<and> \<not> f \<le> 2 ^ 27 then (- 31, c, s) else if f \<noteq> 0 \<and> \<not> unat (ph_offset ph) \<le> 2 ^ 27 then (- 31, c, s)
         else if f \<noteq> 0 \<and> \<not> unat (ph_offset ph) + f < unat filesize then (- 30, c, s)
         else place_segment buffer start stop entry destaddr (sg_dest (seg_of ph)) (of_nat m) ph c s)" if "loadable ph"
    using that nz [OF that] ends unfolding check_phdr_def Let_def sz loadable_def sel rng [THEN conjunct1] rng [THEN conjunct2] fz
    by auto
  show "check_phdr buffer filesize start stop entry destaddr ph c s = (0, noted entry (seg_of ph) c, placed buffer start destaddr (seg_of ph) s)"
    if "loadable ph" "seg_fits filesize start stop (seg_of ph)"
    using that(2) place(1) [of start stop buffer entry destaddr c s] unfolding body [OF that(1)] seg_fits_def sel by auto
  show "\<exists>r c'. check_phdr buffer filesize start stop entry destaddr ph c s = (r, c', s) \<and> r \<noteq> 0"
    if "loadable ph" "\<not> seg_fits filesize start stop (seg_of ph)"
    using that(2) place(2) [of start stop buffer entry destaddr c s] unfolding body [OF that(1)] seg_fits_def sel by auto
qed


subsection \<open>The image the check may build\<close>

definition image_apart :: "nat \<Rightarrow> u32 \<Rightarrow> u32 \<Rightarrow> u32 \<Rightarrow> u32 \<Rightarrow> bool" where
  "image_apart n buffer start stop destaddr \<longleftrightarrow> destaddr = 0 \<or> bytes_apart n buffer (unat stop - unat start) destaddr"

definition placed_all :: "u32 \<Rightarrow> u32 \<Rightarrow> u32 \<Rightarrow> segment list \<Rightarrow> 'a hwst_scheme \<Rightarrow> 'a hwst_scheme" where
  "placed_all buffer start destaddr sgs s = (if destaddr \<noteq> 0 then put_segments (image_addr start destaddr) buffer sgs s else s)"

lemma placed_all_simps [simp]:
  "placed_all buffer start destaddr [] s = s"
  "placed_all buffer start destaddr (sg # sgs) s = placed_all buffer start destaddr sgs (placed buffer start destaddr sg s)"
  by (simp_all add: placed_all_def placed_def)

lemma image_addr_eq:
  assumes "unat start \<le> seg_start sg"
  shows "image_addr start destaddr sg = destaddr + of_nat (seg_start sg - unat start)"
proof -
  have "(of_nat (seg_start sg - unat start) :: u32) = of_nat (seg_start sg) - of_nat (unat start)"
    using assms by (rule of_nat_diff)
  then show ?thesis by (simp add: image_addr_def seg_start_def)
qed

lemma image_within:
  assumes "seg_fits filesize start stop sg" "within b (image_addr start destaddr sg) (sg_memsz sg)"
  shows "within b destaddr (unat stop - unat start)"
proof -
  have le: "unat start \<le> seg_start sg" "seg_start sg - unat start + sg_memsz sg \<le> unat stop - unat start"
    using assms(1) by (auto simp: seg_fits_def)
  show ?thesis using assms(2) unfolding image_addr_eq [OF le(1)] by (rule within_sub) (rule le(2))
qed

lemma placed_agree:
  assumes "wf_seg sg" "seg_fits filesize start stop sg" "image_apart n buffer start stop destaddr"
  shows "agree n buffer s (placed buffer start destaddr sg s)"
proof (cases "destaddr = 0")
  case False
  then have "bytes_apart n buffer (unat stop - unat start) destaddr" using assms(3) by (simp add: image_apart_def)
  then have "\<not> within (buffer + of_nat k) (image_addr start destaddr sg) (sg_memsz sg)" if "k < n" for k
    using within_apart [OF _ that] image_within [OF assms(2)] by blast
  then show ?thesis using False by (simp add: agree_def placed_def put_segment_outside [OF assms(1)])
qed (simp add: placed_def)

lemma file_range_drop:
  "i < n \<Longrightarrow> map seg_of (filter loadable (map g [i..<n]))
     = (if loadable (g i) then seg_of (g i) # map seg_of (filter loadable (map g [Suc i..<n])) else map seg_of (filter loadable (map g [Suc i..<n])))"
  by (simp add: upt_conv_Cons)

section \<open>Reading the headers of a file\<close>

text \<open>
  What the functions rely on from a format: the fields are at least as wide as an address, and they are
  determined by the bytes of the header table. The laws hold of both structures.
\<close>

locale elf_reader =
  fixes F :: "(('w :: len) word, 'a hwst_scheme) elf_format"
    and span :: "nat \<Rightarrow> nat"
  assumes width: "32 \<le> LENGTH('w)"
    and span_mono: "i \<le> j \<Longrightarrow> span i \<le> span j"
    and magic_agree: "agree (span 0) b s t \<Longrightarrow> eh_magic F b s = eh_magic F b t"
    and entry_agree: "agree (span 0) b s t \<Longrightarrow> eh_entry F b s = eh_entry F b t"
    and phnum_agree: "agree (span 0) b s t \<Longrightarrow> eh_phnum F b s = eh_phnum F b t"
    and phdr_agree: "agree (span n) b s t \<Longrightarrow> i < n \<Longrightarrow> eh_phdr F b i s = eh_phdr F b i t"
begin

lemma header_agree:
  assumes "agree n b s t" "span (unat (eh_phnum F b s)) \<le> n"
  shows "eh_magic F b s = eh_magic F b t" "eh_entry F b s = eh_entry F b t" "eh_phnum F b s = eh_phnum F b t"
    "i < unat (eh_phnum F b s) \<Longrightarrow> eh_phdr F b i s = eh_phdr F b i t"
proof -
  have a: "agree (span (unat (eh_phnum F b s))) b s t" using assms by (rule agree_mono)
  then have "agree (span 0) b s t" by (rule agree_mono) (simp add: span_mono)
  then show "eh_magic F b s = eh_magic F b t" "eh_entry F b s = eh_entry F b t" "eh_phnum F b s = eh_phnum F b t"
    by (rule magic_agree entry_agree phnum_agree)+
  show "i < unat (eh_phnum F b s) \<Longrightarrow> eh_phdr F b i s = eh_phdr F b i t" using a by (rule phdr_agree)
qed

text \<open>The loop of the check, from header \<open>i\<close> on.\<close>

lemma check_phdrs_spec:
  fixes b start stop destaddr entry filesize s
  defines "rest i \<equiv> map seg_of (filter loadable (map (\<lambda>j. eh_phdr F b j s) [i..<unat (eh_phnum F b s)]))"
  assumes apart: "image_apart n b start stop destaddr" and n: "span (unat (eh_phnum F b s)) \<le> n"
    and wf: "\<forall>sg \<in> set (rest i). wf_seg sg" and t: "agree n b s t"
  shows "(\<forall>sg \<in> set (rest i). seg_fits filesize start stop sg) \<Longrightarrow>
      check_phdrs F b filesize start stop entry destaddr i c t
        = (let c' = foldl (\<lambda>c sg. noted entry sg c) c (rest i)
           in (if copied_entry c' then 0 else - 5, c', placed_all b start destaddr (rest i) t))" (is "?all i \<Longrightarrow> ?ok i c t")
    and "\<not> (\<forall>sg \<in> set (rest i). seg_fits filesize start stop sg) \<Longrightarrow>
      \<exists>r c' t'. check_phdrs F b filesize start stop entry destaddr i c t = (r, c', t') \<and> r \<noteq> 0" (is "\<not> ?all i \<Longrightarrow> ?bad i c t")
proof -
  have "(?all i \<longrightarrow> ?ok i c t) \<and> (\<not> ?all i \<longrightarrow> ?bad i c t)"
    using wf t
  proof (induction "unat (eh_phnum F b s) - i" arbitrary: i c t)
    case 0
    then have "rest i = []" "\<not> i < unat (eh_phnum F b t)" using header_agree(3) [OF 0(3) n] by (simp_all add: rest_def)
    then show ?case by (simp add: check_phdrs.simps [of _ _ _ _ _ _ _ i] Let_def)
  next
    case (Suc k)
    let ?ph = "eh_phdr F b i s"
    have i: "i < unat (eh_phnum F b s)" using Suc.hyps(2) by simp
    have rd: "i < unat (eh_phnum F b t)" "eh_phdr F b i t = ?ph"
      using header_agree(3,4) [OF Suc.prems(2) n] i by simp_all
    note rest = file_range_drop [of i "unat (eh_phnum F b s)" "\<lambda>j. eh_phdr F b j s", OF i, folded rest_def]
    note ih = Suc.hyps(1) [of "Suc i"]
    have k: "k = unat (eh_phnum F b s) - Suc i" using Suc.hyps(2) by simp
    show ?case
    proof (cases "loadable ?ph")
      case False
      then have "check_phdrs F b filesize start stop entry destaddr i c t = check_phdrs F b filesize start stop entry destaddr (Suc i) c t"
        using rd by (subst check_phdrs.simps) (auto simp: check_phdr_def loadable_def)
      then show ?thesis using ih [OF k, of t c] Suc.prems rest False by simp
    next
      case True
      then have r: "rest i = seg_of ?ph # rest (Suc i)" using rest by simp
      then have wf: "wf_seg (seg_of ?ph)" "\<forall>sg \<in> set (rest (Suc i)). wf_seg sg" using Suc.prems(1) by simp_all
      note spec = check_phdr_spec(2,3) [OF width wf(1) True, of filesize start stop]
      show ?thesis
      proof (cases "seg_fits filesize start stop (seg_of ?ph)")
        case True
        let ?c = "noted entry (seg_of ?ph) c" and ?t = "placed b start destaddr (seg_of ?ph) t"
        have "check_phdrs F b filesize start stop entry destaddr i c t = check_phdrs F b filesize start stop entry destaddr (Suc i) ?c ?t"
          using rd spec(1) [OF True, of b entry destaddr c t] by (subst check_phdrs.simps) simp
        moreover have "agree n b s ?t" by (rule agree_trans [OF Suc.prems(2)]) (rule placed_agree [OF wf(1) True apart])
        ultimately show ?thesis using ih [OF k wf(2), of ?t ?c] r True by simp
      next
        case False
        obtain r c' where "check_phdr b filesize start stop entry destaddr ?ph c t = (r, c', t)" "r \<noteq> 0"
          using spec(2) [OF False, of b entry destaddr c t] by blast
        then have "check_phdrs F b filesize start stop entry destaddr i c t = (r, c', t)"
          using rd by (subst check_phdrs.simps) simp
        then show ?thesis using \<open>r \<noteq> 0\<close> r False by simp
      qed
    qed
  qed
  then show "?all i \<Longrightarrow> ?ok i c t" "\<not> ?all i \<Longrightarrow> ?bad i c t" by blast+
qed

end


section \<open>The whole file\<close>

definition seg_top :: "segment list \<Rightarrow> nat" where
  "seg_top sgs = foldr max (map (\<lambda>sg. seg_start sg + sg_memsz sg) sgs) 0"

text \<open>The acceptance criterion, on the fields of the file alone.\<close>

definition acceptable :: "u32 \<Rightarrow> u32 \<Rightarrow> u32 \<Rightarrow> u32 \<Rightarrow> u32 \<Rightarrow> segment list \<Rightarrow> bool" where
  "acceptable magic entry filesize start stop sgs \<longleftrightarrow>
     magic = ELFMAGIC \<and> accessible entry \<and> start \<le> PHYSADDR28 entry \<and> PHYSADDR28 entry < stop
     \<and> (\<forall>sg \<in> set sgs. seg_fits filesize start stop sg) \<and> (\<exists>sg \<in> set sgs. seg_holds sg (PHYSADDR28 entry))"

lemma foldl_noted:
  "copied_entry (foldl (\<lambda>c sg. noted entry sg c) c sgs) \<longleftrightarrow> copied_entry c \<or> (\<exists>sg \<in> set sgs. seg_holds sg entry)"
  by (induction sgs arbitrary: c) (auto simp: noted_def)

lemma seg_top_le: "sg \<in> set sgs \<Longrightarrow> seg_start sg + sg_memsz sg \<le> seg_top sgs"
  by (induction sgs) (auto simp: seg_top_def)

lemma seg_top_less: "\<forall>sg \<in> set sgs. seg_fits filesize start stop sg \<Longrightarrow> 0 < stop \<Longrightarrow> seg_top sgs < unat stop"
  by (induction sgs) (auto simp: seg_top_def seg_fits_def word_less_nat_alt)

lemma highest_foldl:
  assumes "\<forall>sg \<in> set sgs. seg_start sg + sg_memsz sg < 2 ^ 32" "k < 2 ^ 32" "highest c = map_option (\<lambda>_. of_nat k) high"
  shows "highest (foldl (\<lambda>c sg. noted entry sg c) c sgs) = map_option (\<lambda>_. of_nat (max k (seg_top sgs))) high"
  using assms
proof (induction sgs arbitrary: c k)
  case (Cons sg sgs)
  let ?e = "seg_start sg + sg_memsz sg"
  have "max (of_nat k :: u32) (of_nat ?e) = of_nat (max k ?e)"
    using Cons.prems(1,2) by (simp add: max_def word_le_nat_alt unat_of_nat_lt del: of_nat_add)
  then have "highest (noted entry sg c) = map_option (\<lambda>_. of_nat (max k ?e)) high"
    using Cons.prems(3) by (cases high) (simp_all add: noted_def del: of_nat_add)
  moreover have "max (max k ?e) (seg_top sgs) = max k (seg_top (sg # sgs))" by (simp add: seg_top_def max.assoc)
  ultimately show ?case using Cons.IH [of "max k ?e" "noted entry sg c"] Cons.prems(1,2) by simp
qed (simp add: seg_top_def)

text \<open>Where a segment goes, in terms of the range it was checked against.\<close>

lemma accessible_phys: "accessible d \<Longrightarrow> PHYSADDR (PHYSADDR28 d + x) = PHYSADDR (d + x)"
proof -
  assume "accessible d"
  then have "\<not> bit (drop_bit 28 d) 0" by (auto simp: accessible_def Let_def)
  then have nb: "\<not> bit d 28" by (simp add: bit_drop_bit_eq)
  have "PHYSADDR (PHYSADDR28 d) = PHYSADDR d"
  proof (rule bit_word_eqI)
    fix n :: nat
    have "n < 29 \<longleftrightarrow> n < 28 \<or> n = 28" by auto
    then show "bit (PHYSADDR (PHYSADDR28 d)) n = bit (PHYSADDR d) n"
      using nb by (auto simp: PHYSADDR_take_bit PHYSADDR28_take_bit bit_take_bit_iff)
  qed
  then show ?thesis by (metis PHYSADDR_add_left)
qed

lemma dest_within:
  assumes "seg_fits filesize start stop sg" "within x (sg_dest sg) (sg_memsz sg)"
  shows "within x start (unat stop - unat start)"
proof -
  have le: "unat start \<le> seg_start sg" "seg_start sg - unat start + sg_memsz sg \<le> unat stop - unat start"
    and acc: "accessible (sg_dest sg)"
    using assms(1) by (auto simp: seg_fits_def)
  have "PHYSADDR28 (sg_dest sg) = start + of_nat (seg_start sg - unat start)"
    using image_addr_eq [OF le(1), of start] by (simp add: image_addr_def)
  then have "within x (start + of_nat (seg_start sg - unat start)) (sg_memsz sg)"
    using assms(2) accessible_phys [OF acc] by (metis within_def)
  then show ?thesis by (rule within_sub) (rule le(2))
qed

lemma put_segment_agree:
  assumes "wf_seg sg" "seg_fits filesize start stop sg" "bytes_apart n b (unat stop - unat start) start"
  shows "agree n b s (put_segment (sg_dest sg) b sg s)"
proof -
  have "\<not> within (b + of_nat k) (sg_dest sg) (sg_memsz sg)" if "k < n" for k
    using within_apart [OF assms(3) that] dest_within [OF assms(2)] by blast
  then show ?thesis by (simp add: agree_def put_segment_outside [OF assms(1)])
qed

lemma verify_zero_iff: "verify_zero n a s \<longleftrightarrow> n = 0 \<or> ldb a s = 0"
  by (induction n) auto

text \<open>What the verification of one segment looks at: all bytes from the file, and the first byte after them.\<close>

lemma verify_phdr_iff:
  assumes "32 \<le> LENGTH('w)" "wf_seg (seg_of (ph :: ('w :: len) word phdr))" "sg = seg_of ph"
  shows "verify_phdr d b ph s = Some () \<longleftrightarrow>
     (\<forall>i < sg_filesz sg. ldb (d + of_nat i) s = ldb (b + of_nat (sg_off sg) + of_nat i) s)
     \<and> (sg_filesz sg < sg_memsz sg \<longrightarrow> ldb (d + of_nat (sg_filesz sg)) s = 0)"
proof -
  define m f where "m = unat (ph_memsz ph)" and "f = unat (ph_filesz ph)"
  have mf: "f \<le> m" "m < 2 ^ 31" using assms(2) by (simp_all add: wf_seg_def seg_of_def m_def f_def)
  have u: "unat (ucast (ph_memsz ph) :: u32) = m" "unat (ucast (ph_filesz ph) :: u32) = f"
    using mf by (simp_all add: unat_ucast_small m_def f_def)
  have rest: "unat (ucast (ph_memsz ph - ph_filesz ph) :: u32) = m - f"
    using u mf(1) by (simp add: ucast_diff [OF assms(1)] unat_sub word_le_nat_alt)
  have "ph_filesz ph = 0 \<longleftrightarrow> f = 0" by (simp add: f_def unat_eq_0)
  moreover have "(ucast (ph_filesz ph) :: u32) = of_nat f" "(ucast (ph_offset ph) :: u32) = of_nat (unat (ph_offset ph))"
    by (simp_all add: f_def)
  moreover have "0 < (ucast (ph_memsz ph - ph_filesz ph) :: u32) \<longleftrightarrow> f < m" using rest by (simp add: word_less_nat_alt)
  ultimately show ?thesis
    using u(2) rest memcmp_0_iff [of f d "b + ucast (ph_offset ph)" s]
    by (auto simp: verify_phdr_def Let_def verify_zero_iff assms(3) seg_of_def simp flip: m_def f_def)
qed

context elf_reader
begin

lemma check_file_spec:
  fixes b s
  defines "sgs \<equiv> file_segments F b s"
  assumes "image_apart n b start stop destaddr" "span (unat (eh_phnum F b s)) \<le> n" "\<forall>sg \<in> set sgs. wf_seg sg"
  shows "acceptable (eh_magic F b s) (ucast (eh_entry F b s)) filesize start stop sgs \<Longrightarrow>
      check_file F b filesize start stop high destaddr s = (0, map_option (\<lambda>_. of_nat (seg_top sgs)) high, placed_all b start destaddr sgs s)"
    and "\<not> acceptable (eh_magic F b s) (ucast (eh_entry F b s)) filesize start stop sgs \<Longrightarrow>
      fst (check_file F b filesize start stop high destaddr s) \<noteq> 0"
proof -
  let ?c = "\<lparr>copied_entry = False, highest = map_option (\<lambda>_. 0) high\<rparr>" and ?e = "PHYSADDR28 (ucast (eh_entry F b s))"
  note loop = check_phdrs_spec [where i = 0 and t = s, OF assms(2,3), folded file_segments_def, folded sgs_def, OF assms(4) agree_refl,
      where c = ?c and entry = ?e and filesize = filesize]
  have hi: "highest (foldl (\<lambda>c sg. noted ?e sg c) ?c sgs) = map_option (\<lambda>_. of_nat (seg_top sgs)) high"
  proof -
    have "\<forall>sg \<in> set sgs. seg_start sg + sg_memsz sg < 2 ^ 32"
    proof
      fix sg
      assume "sg \<in> set sgs"
      then show "seg_start sg + sg_memsz sg < 2 ^ 32" using assms(4) seg_start_less [of sg] by (force simp: wf_seg_def)
    qed
    then show ?thesis using highest_foldl [of sgs 0 ?c high] by simp
  qed
  show "check_file F b filesize start stop high destaddr s = (0, map_option (\<lambda>_. of_nat (seg_top sgs)) high, placed_all b start destaddr sgs s)"
    if "acceptable (eh_magic F b s) (ucast (eh_entry F b s)) filesize start stop sgs"
    using that loop(1) hi by (simp add: check_file_def acceptable_def Let_def foldl_noted not_less not_le)
  show "fst (check_file F b filesize start stop high destaddr s) \<noteq> 0"
    if "\<not> acceptable (eh_magic F b s) (ucast (eh_entry F b s)) filesize start stop sgs"
  proof (cases "\<forall>sg \<in> set sgs. seg_fits filesize start stop sg")
    case True
    then show ?thesis using that loop(1) by (auto simp: check_file_def acceptable_def Let_def foldl_noted)
  next
    case False
    show ?thesis using loop(2) [OF False] by (auto simp: check_file_def Let_def)
  qed
qed

lemma copy_phdrs_spec:
  fixes b s
  defines "rest i \<equiv> map seg_of (filter loadable (map (\<lambda>j. eh_phdr F b j s) [i..<unat (eh_phnum F b s)]))"
  assumes apart: "bytes_apart n b (unat stop - unat start) start" and n: "span (unat (eh_phnum F b s)) \<le> n"
    and wf: "\<forall>sg \<in> set (rest i). wf_seg sg \<and> seg_fits filesize start stop sg" and t: "agree n b s t"
  shows "copy_phdrs F b i t = put_segments sg_dest b (rest i) t \<and> agree n b s (copy_phdrs F b i t)"
  using wf t
proof (induction "unat (eh_phnum F b s) - i" arbitrary: i t)
  case 0
  then have "rest i = []" "\<not> i < unat (eh_phnum F b t)" using header_agree(3) [OF 0(3) n] by (simp_all add: rest_def)
  then show ?case using 0(3) by (simp add: copy_phdrs.simps [of _ _ i])
next
  case (Suc k)
  let ?ph = "eh_phdr F b i s"
  have i: "i < unat (eh_phnum F b s)" using Suc.hyps(2) by simp
  have rd: "i < unat (eh_phnum F b t)" "eh_phdr F b i t = ?ph"
    using header_agree(3,4) [OF Suc.prems(2) n] i by simp_all
  note rest = file_range_drop [of i "unat (eh_phnum F b s)" "\<lambda>j. eh_phdr F b j s", OF i, folded rest_def]
  have k: "k = unat (eh_phnum F b s) - Suc i" using Suc.hyps(2) by simp
  show ?case
  proof (cases "loadable ?ph")
    case False
    then have "copy_phdrs F b i t = copy_phdrs F b (Suc i) t"
      using rd by (subst copy_phdrs.simps) (auto simp: loadable_def Let_def)
    then show ?thesis using Suc.hyps(1) [OF k, of t] Suc.prems rest False by (metis (full_types))
  next
    case True
    then have r: "rest i = seg_of ?ph # rest (Suc i)" using rest by simp
    then have wf: "wf_seg (seg_of ?ph)" "seg_fits filesize start stop (seg_of ?ph)" using Suc.prems(1) by simp_all
    let ?t = "put_segment (sg_dest (seg_of ?ph)) b (seg_of ?ph) t"
    have "copy_phdrs F b i t = copy_phdrs F b (Suc i) ?t"
      using rd True copy_segment_eq [OF width wf(1), of "ucast (ph_paddr ?ph)" b t]
      by (subst copy_phdrs.simps) (simp add: loadable_def Let_def seg_of_def)
    moreover have "agree n b s ?t"
      by (rule agree_trans [OF Suc.prems(2)]) (rule put_segment_agree [OF wf apart])
    ultimately show ?thesis using Suc.hyps(1) [OF k, of ?t] Suc.prems(1) r by auto
  qed
qed

lemma verify_phdrs_all:
  assumes "\<forall>sg \<in> set (map seg_of (filter loadable (map (\<lambda>j. eh_phdr F b j s) is))). wf_seg sg \<and>
     (\<forall>i < sg_memsz sg. ldb (to (sg_dest sg) + of_nat i) s = seg_byte b sg i s)"
  shows "verify_phdrs to F b is s = Some ()"
  using assms
proof (induction "is")
  case (Cons i "is")
  have "verify_phdr (to (ucast (ph_paddr (eh_phdr F b i s)))) b (eh_phdr F b i s) s = Some ()" if "loadable (eh_phdr F b i s)"
  proof -
    let ?sg = "seg_of (eh_phdr F b i s)"
    have wf: "wf_seg ?sg" and eq: "\<forall>k < sg_memsz ?sg. ldb (to (sg_dest ?sg) + of_nat k) s = seg_byte b ?sg k s"
      using Cons.prems that by simp_all
    have "ldb (to (sg_dest ?sg) + of_nat k) s = ldb (b + of_nat (sg_off ?sg) + of_nat k) s" if "k < sg_filesz ?sg" for k
      using eq [rule_format, of k] that wf by (simp add: seg_byte_def wf_seg_def)
    moreover have "ldb (to (sg_dest ?sg) + of_nat (sg_filesz ?sg)) s = 0" if "sg_filesz ?sg < sg_memsz ?sg"
      using eq [rule_format, OF that] by (simp add: seg_byte_def)
    moreover have "sg_dest ?sg = ucast (ph_paddr (eh_phdr F b i s))" by (simp add: seg_of_def)
    ultimately show ?thesis using verify_phdr_iff [OF width wf refl] by metis
  qed
  then show ?case using Cons by (auto simp: Let_def loadable_def)
qed simp

end


section \<open>Both classes of files\<close>

lemma phdr32_agree:
  assumes "agree (52 + n * 32) b s t" "i < n"
  shows "Elf32_Phdr b i s = Elf32_Phdr b i t"
proof -
  have "rd32 (b + of_nat (52 + i * 32) + of_nat j) s = rd32 (b + of_nat (52 + i * 32) + of_nat j) t" if "j + 4 \<le> 32" for j
    using agree_rd(2) [OF assms(1), of "52 + i * 32 + j"] that assms(2) by (simp add: ac_simps)
  from this [of 0] this [of 4] this [of 8] this [of 12] this [of 16] this [of 20] this [of 24] this [of 28]
  show ?thesis by (simp add: Elf32_Phdr_def Let_def)
qed

lemma phdr64_agree:
  assumes "agree (64 + n * 56) b s t" "i < n"
  shows "Elf64_Phdr b i s = Elf64_Phdr b i t"
proof -
  have r32: "rd32 (b + of_nat (64 + i * 56) + of_nat j) s = rd32 (b + of_nat (64 + i * 56) + of_nat j) t" if "j + 4 \<le> 56" for j
    using agree_rd(2) [OF assms(1), of "64 + i * 56 + j"] that assms(2) by (simp add: ac_simps)
  have "rd64 (b + of_nat (64 + i * 56) + of_nat j) s = rd64 (b + of_nat (64 + i * 56) + of_nat j) t" if "j + 8 \<le> 56" for j
    using agree_rd(3) [OF assms(1), of "64 + i * 56 + j"] that assms(2) by (simp add: ac_simps)
  from this [of 8] this [of 16] this [of 24] this [of 32] this [of 40] this [of 48] r32 [of 0] r32 [of 4]
  show ?thesis by (simp add: Elf64_Phdr_def Let_def)
qed

interpretation e32: elf_reader elf32 "\<lambda>n. 52 + n * 32"
proof unfold_locales
  fix b and s t :: "'a hwst_scheme"
  assume a: "agree (52 + 0 * 32) b s t"
  show "eh_magic elf32 b s = eh_magic elf32 b t" "eh_entry elf32 b s = eh_entry elf32 b t" "eh_phnum elf32 b s = eh_phnum elf32 b t"
    using agree_rd(2) [OF a, of 0] agree_rd(2) [OF a, of 24] agree_rd(1) [OF a, of 44] by (simp_all add: elf32_def)
qed (simp_all add: elf32_def phdr32_agree)

interpretation e64: elf_reader elf64 "\<lambda>n. 64 + n * 56"
proof unfold_locales
  fix b and s t :: "'a hwst_scheme"
  assume a: "agree (64 + 0 * 56) b s t"
  show "eh_magic elf64 b s = eh_magic elf64 b t" "eh_entry elf64 b s = eh_entry elf64 b t" "eh_phnum elf64 b s = eh_phnum elf64 b t"
    using agree_rd(2) [OF a, of 0] agree_rd(3) [OF a, of 24] agree_rd(1) [OF a, of 56] by (simp_all add: elf64_def)
qed (simp_all add: elf64_def phdr64_agree)

definition elf_segments :: "u32 \<Rightarrow> 'a hwst_scheme \<Rightarrow> segment list" where
  "elf_segments b s = (if elf_class b s = 2 then file_segments elf64 b s else file_segments elf32 b s)"

definition elf_entry :: "u32 \<Rightarrow> 'a hwst_scheme \<Rightarrow> u32" where
  "elf_entry b s = (if elf_class b s = 2 then ucast (rd64 (b + 24) s) else rd32 (b + 24) s)"

text \<open>The bytes of the file that hold its headers.\<close>

definition elf_span :: "u32 \<Rightarrow> 'a hwst_scheme \<Rightarrow> nat" where
  "elf_span b s = (if elf_class b s = 2 then 64 + unat (rd16 (b + 56) s) * 56 else 52 + unat (rd16 (b + 44) s) * 32)"

lemma check_sections_spec:
  fixes b s
  assumes "\<forall>sg \<in> set (elf_segments b s). wf_seg sg" "elf_span b s \<le> n"
    and "image_apart n b (PHYSADDR28 start) (PHYSADDR28 stop) destaddr"
  shows "acceptable (rd32 b s) (elf_entry b s) filesize (PHYSADDR28 start) (PHYSADDR28 stop) (elf_segments b s) \<Longrightarrow>
      check_sections b filesize start stop high destaddr s
        = (0, map_option (\<lambda>_. of_nat (seg_top (elf_segments b s))) high, placed_all b (PHYSADDR28 start) destaddr (elf_segments b s) s)"
    and "\<not> acceptable (rd32 b s) (elf_entry b s) filesize (PHYSADDR28 start) (PHYSADDR28 stop) (elf_segments b s) \<Longrightarrow>
      fst (check_sections b filesize start stop high destaddr s) \<noteq> 0"
proof -
  have f: "eh_magic elf32 b s = rd32 b s" "eh_magic elf64 b s = rd32 b s" "eh_entry elf32 b s = rd32 (b + 24) s"
    "eh_entry elf64 b s = rd64 (b + 24) s" "eh_phnum elf32 b s = rd16 (b + 44) s" "eh_phnum elf64 b s = rd16 (b + 56) s"
    by (simp_all add: elf32_def elf64_def)
  note spec = e32.check_file_spec [OF assms(3), of s filesize high, unfolded f ucast_id]
    e64.check_file_spec [OF assms(3), of s filesize high, unfolded f]
  show "check_sections b filesize start stop high destaddr s
        = (0, map_option (\<lambda>_. of_nat (seg_top (elf_segments b s))) high, placed_all b (PHYSADDR28 start) destaddr (elf_segments b s) s)"
    if "acceptable (rd32 b s) (elf_entry b s) filesize (PHYSADDR28 start) (PHYSADDR28 stop) (elf_segments b s)"
    using that assms(1,2) spec(1,3)
    by (simp add: check_sections_def check_sections32_def check_sections64_def elf_segments_def elf_entry_def elf_span_def Let_def split: if_splits)
  show "fst (check_sections b filesize start stop high destaddr s) \<noteq> 0"
    if "\<not> acceptable (rd32 b s) (elf_entry b s) filesize (PHYSADDR28 start) (PHYSADDR28 stop) (elf_segments b s)"
    using that assms(1,2) spec(2,4)
    by (simp add: check_sections_def check_sections32_def check_sections64_def elf_segments_def elf_entry_def elf_span_def Let_def split: if_splits)
qed

lemma elf_agree:
  assumes "agree n b s t" "elf_span b s \<le> n"
  shows "elf_class b t = elf_class b s" "rd32 b t = rd32 b s" "elf_entry b t = elf_entry b s" "elf_segments b t = elf_segments b s"
proof -
  have n: "52 \<le> n" using assms(2) by (simp add: elf_span_def split: if_splits)
  show c: "elf_class b t = elf_class b s" using agree_ldb [OF assms(1), of 4] n by (simp add: elf_class_def)
  show "rd32 b t = rd32 b s" using agree_rd(2) [OF assms(1), of 0] n by simp
  show "elf_entry b t = elf_entry b s"
    using agree_rd(2,3) [OF assms(1), of 24] n by (simp add: elf_entry_def c)
  have h32: "elf_class b s \<noteq> 2 \<Longrightarrow> 52 + unat (eh_phnum elf32 b s) * 32 \<le> n" and h64: "elf_class b s = 2 \<Longrightarrow> 64 + unat (eh_phnum elf64 b s) * 56 \<le> n"
    using assms(2) by (simp_all add: elf_span_def elf32_def elf64_def)
  show "elf_segments b t = elf_segments b s"
    using e32.header_agree(3,4) [OF assms(1) h32] e64.header_agree(3,4) [OF assms(1) h64]
    by (auto simp: elf_segments_def c file_segments_def intro!: arg_cong [where f = "map seg_of"] arg_cong [where f = "filter loadable"])
qed


section \<open>Properties\<close>


text \<open>What an accepted file promises to the code that copies it.\<close>

lemma accepted:
  assumes "fst (check_sections b filesize start stop high destaddr s) = 0" "\<forall>sg \<in> set (elf_segments b s). wf_seg sg" "elf_span b s \<le> n"
    and "image_apart n b (PHYSADDR28 start) (PHYSADDR28 stop) destaddr"
  shows "acceptable (rd32 b s) (elf_entry b s) filesize (PHYSADDR28 start) (PHYSADDR28 stop) (elf_segments b s)"
  using check_sections_spec(2) [OF assms(2-4)] assms(1) by blast

lemma fits_bounds:
  assumes "\<forall>sg \<in> set sgs. seg_fits filesize start (PHYSADDR28 stop) sg" "\<forall>sg \<in> set sgs. wf_seg sg" "unat filesize \<le> n"
  shows "\<forall>sg \<in> set sgs. wf_seg sg \<and> sg_memsz sg < 2 ^ 29 \<and> (sg_filesz sg \<noteq> 0 \<longrightarrow> sg_off sg + sg_filesz sg \<le> n)"
proof
  fix sg
  assume sg: "sg \<in> set sgs"
  have "unat (PHYSADDR28 stop) < 2 ^ 28" by (simp add: unat_PHYSADDR28)
  then show "wf_seg sg \<and> sg_memsz sg < 2 ^ 29 \<and> (sg_filesz sg \<noteq> 0 \<longrightarrow> sg_off sg + sg_filesz sg \<le> n)"
    using assms sg by (fastforce simp: seg_fits_def)
qed


text \<open>Copying and verifying, for either class.\<close>

lemma copy_sections_spec:
  assumes "rd32 b s = ELFMAGIC" "elf_span b s \<le> n" "bytes_apart n b (unat stop - unat start) start"
    and wf: "\<forall>sg \<in> set (elf_segments b s). wf_seg sg \<and> seg_fits filesize start stop sg"
    and copied: "copy_sections b s = (entry, t)"
  shows "t = put_segments sg_dest b (elf_segments b s) s \<and> agree n b s t
    \<and> entry = (if elf_class b s = 2 then PHYSADDR28 (elf_entry b s) else elf_entry b s)"
proof -
  have m: "eh_magic elf32 b s = ELFMAGIC" "eh_magic elf64 b s = ELFMAGIC" "eh_entry elf32 b s = rd32 (b + 24) s" "eh_entry elf64 b s = rd64 (b + 24) s"
    using assms(1) by (simp_all add: elf32_def elf64_def)
  show ?thesis
  proof (cases "elf_class b s = 2")
    case True
    have sg: "elf_segments b s = file_segments elf64 b s" and sp: "64 + unat (eh_phnum elf64 b s) * 56 \<le> n"
      using True assms(2) by (simp_all add: elf_segments_def elf_span_def elf64_def)
    show ?thesis
      using e64.copy_phdrs_spec [OF assms(3) sp, of 0, folded file_segments_def, folded sg, OF wf agree_refl] copied m True
      by (auto simp: copy_sections_def copy_sections64_def elf_entry_def)
  next
    case False
    have sg: "elf_segments b s = file_segments elf32 b s" and sp: "52 + unat (eh_phnum elf32 b s) * 32 \<le> n"
      using False assms(2) by (simp_all add: elf_segments_def elf_span_def elf32_def)
    show ?thesis
      using e32.copy_phdrs_spec [OF assms(3) sp, of 0, folded file_segments_def, folded sg, OF wf agree_refl] copied m False
      by (auto simp: copy_sections_def copy_sections32_def elf_entry_def)
  qed
qed

lemma ldb_phys: "PHYSADDR a = PHYSADDR c \<Longrightarrow> ldb a s = ldb c s"
  using PHYSADDR_split [of a c] by (simp add: ldb_def ldw_def)

lemma verify_sections_all:
  assumes "rd32 b t = ELFMAGIC"
    and all: "\<forall>sg \<in> set (elf_segments b t). wf_seg sg \<and> accessible (sg_dest sg)
      \<and> (\<forall>i < sg_memsz sg. ldb (sg_dest sg + of_nat i) t = seg_byte b sg i t)"
  shows "verify_sections b t = Some ()"
proof (cases "elf_class b t = 2")
  case True
  have phys: "ldb (PHYSADDR28 d + of_nat i) t = ldb (d + of_nat i) t" if "accessible d" for d i
    using accessible_phys [OF that] by (rule ldb_phys)
  have "\<forall>sg \<in> set (elf_segments b t). wf_seg sg \<and> (\<forall>i < sg_memsz sg. ldb (PHYSADDR28 (sg_dest sg) + of_nat i) t = seg_byte b sg i t)"
    using all by (auto simp: phys)
  then have "verify_phdrs PHYSADDR28 elf64 b [0..<unat (eh_phnum elf64 b t)] t = Some ()"
    using True by (intro e64.verify_phdrs_all) (simp add: elf_segments_def file_segments_def)
  then show ?thesis using True assms(1) by (simp add: verify_sections_def verify_sections64_def) (simp add: elf64_def)
next
  case False
  have "verify_phdrs id elf32 b [0..<unat (eh_phnum elf32 b t)] t = Some ()"
    using all False by (intro e32.verify_phdrs_all) (simp add: elf_segments_def file_segments_def)
  then show ?thesis using False assms(1) by (simp add: verify_sections_def verify_sections32_def) (simp add: elf32_def)
qed



text \<open>A header of a 32-bit file as a header of a 64-bit file.\<close>

definition widen :: "32 word phdr \<Rightarrow> 64 word phdr" where
  "widen ph = \<lparr>ph_type = ph_type ph, ph_offset = ucast (ph_offset ph), ph_vaddr = ucast (ph_vaddr ph), ph_paddr = ucast (ph_paddr ph),
     ph_filesz = ucast (ph_filesz ph), ph_memsz = ucast (ph_memsz ph), ph_flags = ph_flags ph, ph_align = ucast (ph_align ph)\<rparr>"

lemma ucast_down_up [simp]: "(ucast (ucast (a :: u32) :: u64) :: u32) = a"
  by (rule bit_word_eqI) (auto simp: bit_simps dest: bit_imp_le_length)

lemma widened:
  "(ucast (a :: u32) :: u64) = 0 \<longleftrightarrow> a = 0" "(ucast a :: u64) < ucast b \<longleftrightarrow> a < b"
  "128 * 1024 * 1024 < (ucast a :: u64) \<longleftrightarrow> 128 * 1024 * 1024 < a" "(ucast (ucast a + ucast b :: u64) :: u32) = a + b"
proof -
  have u: "unat (ucast x :: u64) = unat x" for x :: u32 by (simp add: unat_ucast_up)
  show "(ucast a :: u64) = 0 \<longleftrightarrow> a = 0" using u [of a] by (metis unat_eq_0)
  show "(ucast a :: u64) < ucast b \<longleftrightarrow> a < b" by (simp only: word_less_nat_alt u)
  show "128 * 1024 * 1024 < (ucast a :: u64) \<longleftrightarrow> 128 * 1024 * 1024 < a" by (simp add: word_less_nat_alt u)
  have "unat a < 2 ^ LENGTH(32)" "unat b < 2 ^ LENGTH(32)" by (rule unsigned_less)+
  then have "unat (ucast a + ucast b :: u64) = unat a + unat b" by (simp add: unat_word_ariths u)
  then have "unat (ucast (ucast a + ucast b :: u64) :: u32) = unat (a + b)"
    by (simp add: unsigned_ucast_eq take_bit_eq_mod unat_word_ariths)
  then show "(ucast (ucast a + ucast b :: u64) :: u32) = a + b" by (simp only: word_unat_eq_iff)
qed

lemma check_phdr_widen:
  "check_phdr b' filesize start stop entry 0 (widen ph) c s = check_phdr b filesize start stop entry 0 ph c s"
proof -
  have sel: "ph_type (widen ph) = ph_type ph" "ph_offset (widen ph) = ucast (ph_offset ph)" "ph_paddr (widen ph) = ucast (ph_paddr ph)"
    "ph_filesz (widen ph) = ucast (ph_filesz ph)" "ph_memsz (widen ph) = ucast (ph_memsz ph)" by (simp_all add: widen_def)
  have "place_segment b' start stop entry 0 d sz (widen ph) c s = place_segment b start stop entry 0 d sz ph c s" for d sz
    by (simp add: place_segment_def Let_def)
  then show ?thesis by (simp only: check_phdr_def Let_def sel widened ucast_id ucast_down_up)
qed

lemma check_phdrs_widen:
  assumes "eh_phnum elf64 b' s = eh_phnum elf32 b s" "\<forall>i < unat (eh_phnum elf32 b s). eh_phdr elf64 b' i s = widen (eh_phdr elf32 b i s)"
  shows "check_phdrs elf64 b' filesize start stop entry 0 i c s = check_phdrs elf32 b filesize start stop entry 0 i c s"
proof (induction "unat (eh_phnum elf32 b s) - i" arbitrary: i c)
  case 0
  then show ?case using assms(1) by (simp add: check_phdrs.simps [of _ _ _ _ _ _ _ i])
next
  case (Suc k)
  then have i: "i < unat (eh_phnum elf32 b s)" by simp
  obtain r c' t where r: "check_phdr b filesize start stop entry 0 (eh_phdr elf32 b i s) c s = (r, c', t)" by (metis prod_cases3)
  have "t = s" using r by (auto simp: check_phdr_def place_segment_def Let_def split: if_splits)
  moreover have "k = unat (eh_phnum elf32 b s) - (i + 1)" using Suc.hyps(2) by simp
  ultimately show ?case
    using Suc.hyps(1) [of "i + 1" c'] r i assms check_phdr_widen [of b' filesize start stop entry "eh_phdr elf32 b i s" c s b]
    by (subst (1 2) check_phdrs.simps) simp
qed

text \<open>
  The checks of 32-bit and of 64-bit files are the same check: a 64-bit file whose headers hold the values
  of a 32-bit file gets the same answer, error codes and highest address included.
\<close>

theorem check_sections64_widens:
  assumes "rd32 b' s = rd32 b s" "rd64 (b' + 24) s = ucast (rd32 (b + 24) s)" "rd16 (b' + 56) s = rd16 (b + 44) s"
    and "\<forall>i < unat (rd16 (b + 44) s). Elf64_Phdr b' i s = widen (Elf32_Phdr b i s)"
  shows "check_sections64 b' filesize start stop high 0 s = check_sections32 b filesize start stop high 0 s"
proof -
  have "eh_phnum elf64 b' s = eh_phnum elf32 b s" "\<forall>i < unat (eh_phnum elf32 b s). eh_phdr elf64 b' i s = widen (eh_phdr elf32 b i s)"
    using assms(3,4) by (simp_all add: elf32_def elf64_def)
  note loop = check_phdrs_widen [OF this]
  have "eh_magic elf64 b' s = eh_magic elf32 b s" "eh_entry elf64 b' s = ucast (eh_entry elf32 b s)"
    using assms(1,2) by (simp_all add: elf32_def elf64_def)
  then show ?thesis by (simp add: check_sections64_def check_sections32_def check_file_def loop Let_def)
qed

text \<open>
  The check can be passed by a segment far larger than the range: the end address is a 32-bit sum, so a header that claims
  nearly four gigabytes of memory wraps around to an end before its start. Loaded into the SBIOS image (60 kilobytes) such a
  segment makes the check copy 128 megabytes over whatever follows the image.
\<close>

definition wrapping_phdr :: "32 word phdr" where
  "wrapping_phdr = \<lparr>ph_type = PT_LOAD, ph_offset = 0, ph_vaddr = 0x80002000, ph_paddr = 0x80002000,
     ph_filesz = 0x8000000, ph_memsz = 0xfffff000, ph_flags = 7, ph_align = 1\<rparr>"

theorem check_sections_end_wraps:
  "\<exists>c'. check_phdr b 0x9000000 0x1000 0x10000 entry destaddr wrapping_phdr c s
     = (0, c', if destaddr = 0 then s else memcpy (128 * 1024 * 1024) (destaddr + 0x1000) b s)"
proof -
  have "sint (0x8000000 :: u32) = 128 * 1024 * 1024" "\<not> 0 < sint (0xf7fff000 :: u32)" by code_simp+
  then show ?thesis
    by (simp add: check_phdr_def place_segment_def wrapping_phdr_def PT_LOAD_def accessible_def PHYSADDR28_def copy_segment_def kmemcpy_def Let_def)
qed


section \<open>Witnesses\<close>

lemma unat_phys_offset: "unat p + i < 2 ^ 29 \<Longrightarrow> unat (PHYSADDR (p + of_nat i)) = unat p + i"
  by (simp add: PHYSADDR_take_bit unat_take_bit_mod unat_word_ariths unat_of_nat_lt)

lemma bytes_apart_ranges:
  assumes "unat p + m \<le> unat q \<or> unat q + n \<le> unat p" "unat p + m \<le> 2 ^ 29" "unat q + n \<le> 2 ^ 29"
  shows "bytes_apart m p n q"
  unfolding bytes_apart_def
proof (intro allI impI)
  fix i j
  assume "i < m" "j < n"
  then have "unat (PHYSADDR (p + of_nat i)) = unat p + i" "unat (PHYSADDR (q + of_nat j)) = unat q + j" "unat p + i \<noteq> unat q + j"
    using assms by (auto intro!: unat_phys_offset)
  then show "PHYSADDR (p + of_nat i) \<noteq> PHYSADDR (q + of_nat j)" by metis
qed

text \<open>A small file of each class, with one segment of four bytes from the file and four zero bytes.\<close>

definition sample_file32 :: "u32 list" where
  "sample_file32 = [0x464c457f, 0x101, 0, 0, 0x80002, 1, 0x80010000, 52, 0, 0, 0x200034, 1, 0,
     1, 84, 0x80010000, 0x80010000, 4, 8, 7, 4, 0x11223344, 0]"

definition sample_file64 :: "u32 list" where
  "sample_file64 = [0x464c457f, 0x102, 0, 0, 0x80002, 1, 0x80010000, 0, 64, 0, 0, 0, 0, 0x380040, 1, 0,
     1, 7, 84, 0, 0x80010000, 0, 0x80010000, 0, 4, 0, 8, 0, 4, 0]"

definition sample_mem :: "u32 \<Rightarrow> u32" where
  "sample_mem a =
     (if 0x1000000 \<le> a \<and> a < 0x100005c then sample_file32 ! unat (drop_bit 2 (a - 0x1000000))
      else if 0x1001000 \<le> a \<and> a < 0x1001078 then sample_file64 ! unat (drop_bit 2 (a - 0x1001000)) else 0)"

definition sample_hw :: hwst where
  "sample_hw = \<lparr>cp0_status = 0, hwreg = \<lambda>_. 0, mem = sample_mem, dcache_wb = []\<rparr>"

lemma sample_segments:
  "elf_segments 0x1000000 sample_hw = [\<lparr>sg_dest = 0x80010000, sg_off = 84, sg_filesz = 4, sg_memsz = 8\<rparr>]"
  by code_simp

lemma sample_header:
  "rd32 0x1000000 sample_hw = ELFMAGIC" "elf_entry 0x1000000 sample_hw = 0x80010000" "elf_span 0x1000000 sample_hw = 84"
  "elf_class 0x1000000 sample_hw = 1"
  by code_simp+

lemma sample_acceptable:
  "acceptable (rd32 0x1000000 sample_hw) (elf_entry 0x1000000 sample_hw) 92 0x10000 0x10010 (elf_segments 0x1000000 sample_hw)"
  by (simp add: sample_segments sample_header acceptable_def seg_fits_def seg_holds_def seg_start_def PHYSADDR28_def accessible_def)


lemma sample_wf: "\<forall>sg \<in> set (elf_segments 0x1000000 sample_hw). wf_seg sg"
  by (simp add: sample_segments wf_seg_def)

lemma sample_range: "PHYSADDR28 0x80010000 = 0x10000" "PHYSADDR28 0x80010010 = 0x10010"
  by (simp_all add: PHYSADDR28_def)

lemma sample_check:
  assumes "image_apart 92 0x1000000 0x10000 0x10010 destaddr"
  shows "check_sections 0x1000000 92 0x80010000 0x80010010 (Some 0) destaddr sample_hw
    = (0, Some 0x10008, placed_all 0x1000000 0x10000 destaddr (elf_segments 0x1000000 sample_hw) sample_hw)"
  using check_sections_spec(1) [OF sample_wf, of 92 "0x80010000" "0x80010010" destaddr 92 "Some 0"] assms sample_acceptable sample_header(3)
  by (simp add: sample_range sample_segments seg_top_def seg_start_def PHYSADDR28_def)




theorem check_sections64_widens_witness:
  "check_sections64 0x1001000 92 0x10000 0x10010 (Some 0) 0 sample_hw = check_sections32 0x1000000 92 0x10000 0x10010 (Some 0) 0 sample_hw"
proof (rule check_sections64_widens)
  show "\<forall>i < unat (rd16 (0x1000000 + 44) sample_hw). Elf64_Phdr 0x1001000 i sample_hw = widen (Elf32_Phdr 0x1000000 i sample_hw)"
    by code_simp
qed code_simp+

end
