(* ===== verification/SbiosLoad.thy ===== *)
theory SbiosLoad
  imports Elf
begin

text \<open>
  Loading the SBIOS (\<open>getSBIOSCallTable\<close> and \<open>load_sbios\<close> of \<open>loader/loader.c\<close>, \<open>disableSBIOSCalls\<close> of
  \<open>loader/loadermenu.cpp\<close>). The file comes as an ELF file or as a raw image. The loader looks for the magic word, then reads
  the machine code at the entry point to find out where the code keeps its table of calls, and zeroes the
  entries of the calls that are switched off.

  The file that was found, in the ROM file system or elsewhere, is an argument (\<open>None\<close> if there is none).
  Messages, and the release of the buffer the file was read into, are left out. A null table is the address 0, and the result
  of \<open>load_sbios\<close> is \<open>None\<close> where the code returns a null pointer.
\<close>

section \<open>Model\<close>

subsection \<open>Finding the call table in machine code\<close>

definition SBIOS_START_ADDRESS :: u32 where "SBIOS_START_ADDRESS = 0x80001000"
definition MAX_SBIOS_SIZE :: u32 where "MAX_SBIOS_SIZE = 0xf000"
definition NUMBER_OF_INSTRUCTIONS_CHECKED :: nat where "NUMBER_OF_INSTRUCTIONS_CHECKED = 128"
definition magic_check :: u32 where "magic_check = 0x62325350"

record scan =
  regs :: "u32 \<Rightarrow> u32"
  loads :: "u32 \<Rightarrow> u32"

definition f_op :: "u32 \<Rightarrow> u32" where "f_op v = drop_bit 26 v"
definition f_rs :: "u32 \<Rightarrow> u32" where "f_rs v = drop_bit 21 v AND 0x1f"
definition f_rt :: "u32 \<Rightarrow> u32" where "f_rt v = drop_bit 16 v AND 0x1f"
definition f_rd :: "u32 \<Rightarrow> u32" where "f_rd v = drop_bit 11 v AND 0x1f"
definition f_sa :: "u32 \<Rightarrow> u32" where "f_sa v = drop_bit 6 v AND 0x1f"
definition f_imm :: "u32 \<Rightarrow> u32" where "f_imm v = scast (ucast v :: 16 word)"

definition set_reg :: "u32 \<Rightarrow> u32 \<Rightarrow> scan \<Rightarrow> scan" where
  "set_reg r x c = c\<lparr>regs := (regs c)(r := x)\<rparr>"

text \<open>One round of the scan: the tracked registers, and \<open>jumpBase\<close> if the loop is left.\<close>

definition scan_step :: "u32 \<Rightarrow> scan \<Rightarrow> scan \<times> u32 option" where
  "scan_step v c =
     (if f_op v = 9 then (set_reg (f_rt v) (regs c (f_rs v) + f_imm v) c, None)
      else if f_op v = 15 then (if f_rs v = 0 then set_reg (f_rt v) (push_bit 16 (f_imm v)) c else c, None)
      else if f_op v = 0 then
        (if v AND 0x3f = 35 then (set_reg (f_rd v) (regs c (f_rs v) - regs c (f_rt v)) c, None)
         else if v AND 0x3f = 33 then (set_reg (f_rd v) (regs c (f_rs v) + regs c (f_rt v)) c, None)
         else if v AND 0x3f = 0 then
           (if f_rd v \<noteq> 0 then set_reg (f_rd v) (push_bit (unat (f_sa v)) (regs c (f_rt v))) c else c, None)
         else if v AND 0x3f = 8 then (c, if loads c (f_rs v) \<noteq> 0 then Some (loads c (f_rs v)) else None)
         else if v AND 0x3f = 9 then (c, if f_rt v = 0 then Some (loads c (f_rs v)) else None)
         else (c, None))
      else if f_op v = 35 then (c\<lparr>loads := (loads c)(f_rt v := regs c (f_rs v) + f_imm v)\<rparr>, None)
      else (c, None))"

primrec scan_code :: "nat \<Rightarrow> u32 \<Rightarrow> scan \<Rightarrow> 'a hwst_scheme \<Rightarrow> u32" where
  "scan_code 0 code c s = 0"
| "scan_code (Suc n) code c s = (case scan_step (rd32 code s) c of
      (c, Some jumpBase) \<Rightarrow> jumpBase
    | (c, None) \<Rightarrow> scan_code n (code + 4) c s)"

definition getSBIOSCallTable :: "u32 \<Rightarrow> 'a hwst_scheme \<Rightarrow> u32" where
  "getSBIOSCallTable addr s =
     (if rd32 (addr + 4) s \<noteq> magic_check then 0
      else let entrypoint = (rd32 addr s - SBIOS_START_ADDRESS) + addr;
               jumpBase = scan_code NUMBER_OF_INSTRUCTIONS_CHECKED entrypoint \<lparr>regs = \<lambda>_. 0, loads = \<lambda>_. 0\<rparr> s
        in if jumpBase \<noteq> 0 then jumpBase - SBIOS_START_ADDRESS + addr else 0)"

subsection \<open>Switching calls off\<close>

definition wr32 :: "u32 \<Rightarrow> u32 \<Rightarrow> 'a hwst_scheme \<Rightarrow> 'a hwst_scheme" where
  "wr32 v a s = foldl (\<lambda>s k. stb (ucast (drop_bit (8 * k) v)) (a + of_nat k) s) s [0..<4]"

definition disableSBIOSCalls :: "bool list \<Rightarrow> u32 \<Rightarrow> 'a hwst_scheme \<Rightarrow> 'a hwst_scheme" where
  "disableSBIOSCalls sbiosCallEnabled SBIOSCallTable s =
     foldl (\<lambda>s i. if \<not> sbiosCallEnabled ! i then wr32 0 (SBIOSCallTable + of_nat (4 * i)) s else s) s [0..<length sbiosCallEnabled]"

subsection \<open>Loading\<close>

record bootpage =
  sbios_base :: u32
  ver_model_ptr :: u32
  ver_model :: string

text \<open>The search for the magic word, from word \<open>i\<close> on; the second component is the table.\<close>

primrec find_sbios :: "nat \<Rightarrow> nat \<Rightarrow> u32 \<Rightarrow> 'a hwst_scheme \<Rightarrow> u32 \<Rightarrow> u32 \<times> u32" where
  "find_sbios 0 i sbiosbin s base = (base, 0)"
| "find_sbios (Suc n) i sbiosbin s base =
     (if rd32 (sbiosbin + of_nat (4 * i)) s = magic_check
      then let base = SBIOS_START_ADDRESS + (of_nat i - 1) * 4;
               table = getSBIOSCallTable (sbiosbin + of_nat (4 * (i - 1))) s
        in if table \<noteq> 0 then (base, table) else find_sbios n (i + 1) sbiosbin s base
      else find_sbios n (i + 1) sbiosbin s base)"

definition sbios_image :: "u32 \<Rightarrow> u32 \<Rightarrow> u32 \<Rightarrow> 'a hwst_scheme \<Rightarrow> (u32 \<times> 'a hwst_scheme) option" where
  "sbios_image sbios sbios_size sbiosbin s =
     (if sint sbios_size < 8 \<or> rd32 (sbios + 4) s \<noteq> magic_check
      then case check_sections sbios sbios_size SBIOS_START_ADDRESS (SBIOS_START_ADDRESS + MAX_SBIOS_SIZE) (Some 0) sbiosbin s of
          (rv, high, s) \<Rightarrow> if rv \<noteq> 0 then None else Some (the high - PHYSADDR28 SBIOS_START_ADDRESS, s)
      else if sint sbios_size \<ge> sint MAX_SBIOS_SIZE then None
      else Some (sbios_size, kmemcpy sbiosbin sbios sbios_size s))"

definition load_sbios ::
  "(u32 \<times> u32) option \<Rightarrow> bool list \<Rightarrow> string \<Rightarrow> u32 \<Rightarrow> u32 \<Rightarrow> bootpage \<Rightarrow> 'a hwst_scheme \<Rightarrow> (u32 \<times> bootpage \<times> 'a hwst_scheme) option" where
  "load_sbios src sbiosCallEnabled ps2_console_type oldaddr sbiosbin bp s =
     (let s = memset (unat MAX_SBIOS_SIZE) 0 sbiosbin s
      in case src of
          None \<Rightarrow> None
        | Some (sbios, sbios_size) \<Rightarrow>
            (case sbios_image sbios sbios_size sbiosbin s of
              None \<Rightarrow> None
            | Some (sbios_size, s) \<Rightarrow>
                (let (base, table) = find_sbios (nat (sint sbios_size div 4) - 1) 1 sbiosbin s (sbios_base bp)
                 in if table = 0 then None
                    else Some (sbiosbin, bp\<lparr>sbios_base := base, ver_model_ptr := oldaddr OR 0x80000000, ver_model := take 31 ps2_console_type\<rparr>,
                           disableSBIOSCalls sbiosCallEnabled table s))))"

section \<open>Reading instructions\<close>

text \<open>The instructions of a dispatcher, as the assembler encodes them.\<close>

definition itype :: "6 word \<Rightarrow> 5 word \<Rightarrow> 5 word \<Rightarrow> 16 word \<Rightarrow> u32" where
  "itype opc rs rt imm = push_bit 26 (ucast opc) OR push_bit 21 (ucast rs) OR push_bit 16 (ucast rt) OR ucast imm"

definition rtype :: "5 word \<Rightarrow> 5 word \<Rightarrow> 5 word \<Rightarrow> 5 word \<Rightarrow> 6 word \<Rightarrow> u32" where
  "rtype rs rt rd sa fn = push_bit 21 (ucast rs) OR push_bit 16 (ucast rt) OR push_bit 11 (ucast rd) OR push_bit 6 (ucast sa) OR ucast fn"

lemma masks: "(0x1f :: u32) = mask 5" "(0x3f :: u32) = mask 6"
  by (simp_all add: mask_eq_exp_minus_1)

lemma itype_fields:
  "f_op (itype opc rs rt imm) = ucast opc" "f_rs (itype opc rs rt imm) = ucast rs" "f_rt (itype opc rs rt imm) = ucast rt"
  "f_imm (itype opc rs rt imm) = scast imm"
proof -
  show "f_op (itype opc rs rt imm) = ucast opc" "f_rs (itype opc rs rt imm) = ucast rs" "f_rt (itype opc rs rt imm) = ucast rt"
    by (rule bit_word_eqI; auto simp: f_op_def f_rs_def f_rt_def itype_def masks bit_simps dest: bit_imp_le_length)+
  have "(ucast (itype opc rs rt imm) :: 16 word) = imm"
    by (rule bit_word_eqI) (auto simp: itype_def bit_simps)
  then show "f_imm (itype opc rs rt imm) = scast imm" by (simp add: f_imm_def)
qed

lemma rtype_fields:
  "f_op (rtype rs rt rd sa fn) = 0" "f_rs (rtype rs rt rd sa fn) = ucast rs" "f_rt (rtype rs rt rd sa fn) = ucast rt"
  "f_rd (rtype rs rt rd sa fn) = ucast rd" "f_sa (rtype rs rt rd sa fn) = ucast sa" "rtype rs rt rd sa fn AND 0x3f = ucast fn"
  by (rule bit_word_eqI; auto simp: f_op_def f_rs_def f_rt_def f_rd_def f_sa_def rtype_def masks bit_simps dest: bit_imp_le_length)+


definition dispatch :: "5 word \<Rightarrow> 5 word \<Rightarrow> 5 word \<Rightarrow> 16 word \<Rightarrow> 16 word \<Rightarrow> u32 list" where
  "dispatch b x j hi lo = [itype 15 0 b hi, rtype 0 x x 2 0, itype 9 b b lo, rtype x b x 0 33, itype 35 x j 0]"

definition table_addr :: "16 word \<Rightarrow> 16 word \<Rightarrow> u32" where
  "table_addr hi lo = push_bit 16 (ucast hi) + scast lo"

text \<open>An instruction that neither jumps through a register nor names the index register as a target.\<close>

definition quiet :: "5 word \<Rightarrow> u32 \<Rightarrow> bool" where
  "quiet x v \<longleftrightarrow> \<not> (f_op v = 0 \<and> (v AND 0x3f = 8 \<or> v AND 0x3f = 9)) \<and> f_rt v \<noteq> ucast x \<and> f_rd v \<noteq> ucast x"

definition code_at :: "u32 \<Rightarrow> u32 list \<Rightarrow> 'a hwst_scheme \<Rightarrow> bool" where
  "code_at a ws s \<longleftrightarrow> (\<forall>i < length ws. rd32 (a + of_nat (4 * i)) s = ws ! i)"

fun scan_words :: "u32 list \<Rightarrow> scan \<Rightarrow> scan \<times> u32 option" where
  "scan_words [] c = (c, None)"
| "scan_words (v # vs) c = (case scan_step v c of (c, Some jb) \<Rightarrow> (c, Some jb) | (c, None) \<Rightarrow> scan_words vs c)"

lemma code_at_Cons: "code_at a (v # vs) s \<longleftrightarrow> rd32 a s = v \<and> code_at (a + 4) vs s"
  by (auto simp: code_at_def less_Suc_eq_0_disj ac_simps)

lemma scan_code_words:
  "code_at a ws s \<Longrightarrow> scan_code (length ws + n) a c s
     = (case scan_words ws c of (c, Some jb) \<Rightarrow> jb | (c, None) \<Rightarrow> scan_code n (a + of_nat (4 * length ws)) c s)"
proof (induction ws arbitrary: a c)
  case (Cons v ws)
  then show ?case by (auto simp: code_at_Cons ac_simps split: option.split prod.split)
qed simp

lemma quiet_step:
  assumes "quiet x v"
  shows "\<exists>c'. scan_step v c = (c', None) \<and> regs c' (ucast x) = regs c (ucast x)"
  using assms by (auto simp: quiet_def scan_step_def set_reg_def)

lemma quiet_words:
  "\<forall>v \<in> set p. quiet x v \<Longrightarrow> \<exists>c'. scan_words (p @ ws) c = scan_words ws c' \<and> regs c' (ucast x) = regs c (ucast x)"
proof (induction p arbitrary: c)
  case (Cons v p)
  obtain c' where c': "scan_step v c = (c', None)" "regs c' (ucast x) = regs c (ucast x)" using quiet_step [of x v c] Cons.prems by auto
  then show ?case using Cons.IH [of c'] Cons.prems by simp
qed auto

lemma ucast_reg [simp]: "(ucast (a :: 5 word) :: u32) = ucast b \<longleftrightarrow> a = b"
proof
  assume "(ucast a :: u32) = ucast b"
  from arg_cong [OF this, of unat] have "unat a = unat b" by (simp add: unat_ucast_up)
  then show "a = b" by (rule word_unat_eq_iff [THEN iffD2])
qed simp

lemma push_bit_scast: "push_bit 16 (scast (h :: 16 word) :: u32) = push_bit 16 (ucast h)"
  by (rule bit_word_eqI) (auto simp: bit_simps)

lemma scan_step_simps:
  "scan_step (itype 15 0 b hi) c = (set_reg (ucast b) (push_bit 16 (ucast hi)) c, None)"
  "scan_step (itype 9 a b lo) c = (set_reg (ucast b) (regs c (ucast a) + scast lo) c, None)"
  "scan_step (itype 35 a b lo) c = (c\<lparr>loads := (loads c)(ucast b := regs c (ucast a) + scast lo)\<rparr>, None)"
  "scan_step (rtype a b d 0 33) c = (set_reg (ucast d) (regs c (ucast a) + regs c (ucast b)) c, None)"
  "scan_step (rtype 0 b d 2 0) c = (if ucast d \<noteq> (0 :: u32) then set_reg (ucast d) (push_bit 2 (regs c (ucast b))) c else c, None)"
  "loads c (ucast a) \<noteq> 0 \<Longrightarrow> scan_step (rtype a 0 0 0 8) c = (c, Some (loads c (ucast a)))"
  "scan_step (rtype a 0 31 0 9) c = (c, Some (loads c (ucast a)))"
  by (simp_all add: scan_step_def itype_fields rtype_fields push_bit_scast)

lemma dispatch_scan:
  assumes "regs c (ucast x) = 0" "b \<noteq> x" "table_addr hi lo \<noteq> 0" "jump = rtype j 0 0 0 8 \<or> jump = rtype j 0 31 0 9"
  shows "\<exists>c'. scan_words (dispatch b x j hi lo @ [jump]) c = (c', Some (table_addr hi lo))"
proof -
  have ne: "ucast b = (0 :: u32) \<Longrightarrow> ucast x \<noteq> (0 :: u32)" using assms(2) ucast_reg [of b x] by metis
  have "\<exists>c'. scan_words (dispatch b x j hi lo @ [jump]) c = scan_words [jump] c' \<and> loads c' (ucast j) = table_addr hi lo"
    using assms(1,2) ne by (auto simp: dispatch_def scan_step_simps set_reg_def table_addr_def)
  then show ?thesis using assms(3,4) by (auto simp: scan_step_simps)
qed


section \<open>Disabled calls\<close>

lemma wr32_0: "wr32 0 a s = memset 4 0 a s"
  by (simp add: wr32_def memset_def)

lemma disable_bytes:
  assumes "n \<le> length en"
  shows "ldb b (foldl (\<lambda>s i. if \<not> en ! i then wr32 0 (tbl + of_nat (4 * i)) s else s) s [0..<n])
    = (if \<exists>i < n. \<not> en ! i \<and> within b (tbl + of_nat (4 * i)) 4 then 0 else ldb b s)"
  using assms by (induction n) (auto simp: wr32_0 memset_byte within_def less_Suc_eq)

lemma rd32_agree: "agree 4 a s t \<Longrightarrow> rd32 a s = rd32 a t"
  using agree_rd(2) [of 4 a s t 0] by simp

lemma rd32_zero:
  assumes "\<forall>k < 4. ldb (a + of_nat k) s = 0"
  shows "rd32 a s = 0"
  using assms [rule_format, of 0] assms [rule_format, of 1] assms [rule_format, of 2] assms [rule_format, of 3]
  by (simp add: rd32_def rd16_def add.assoc)

lemma disable_entries:
  assumes "4 * length en < 2 ^ 29" "i < length en"
  shows "rd32 (tbl + of_nat (4 * i)) (disableSBIOSCalls en tbl s) = (if en ! i then rd32 (tbl + of_nat (4 * i)) s else 0)"
proof -
  have hit: "within (tbl + of_nat (4 * i) + of_nat k) (tbl + of_nat (4 * j)) 4 \<longleftrightarrow> i = j" if "k < 4" "j < length en" for k j
  proof -
    have "PHYSADDR (tbl + of_nat (4 * i) + of_nat k) = PHYSADDR (tbl + of_nat (4 * j) + of_nat l) \<longleftrightarrow> 4 * i + k = 4 * j + l" if "l < 4" for l
      using PHYSADDR_offset_eq_iff [of "4 * i + k" "4 * j + l" tbl] \<open>k < 4\<close> \<open>j < length en\<close> that assms by (simp add: add.assoc)
    moreover have "4 * i + k = 4 * j + l \<longleftrightarrow> i = j \<and> k = l" if "l < 4" for l using that \<open>k < 4\<close> by presburger
    ultimately show ?thesis using that by (auto simp: within_def)
  qed
  have byte: "ldb (tbl + of_nat (4 * i) + of_nat k) (disableSBIOSCalls en tbl s)
      = (if en ! i then ldb (tbl + of_nat (4 * i) + of_nat k) s else 0)" if "k < 4" for k
    unfolding disableSBIOSCalls_def disable_bytes [OF order_refl] using hit [OF that] assms(2) by auto
  show ?thesis
  proof (cases "en ! i")
    case True
    then show ?thesis using byte by (auto intro!: rd32_agree simp: agree_def)
  qed (use byte in \<open>auto intro!: rd32_zero\<close>)
qed

section \<open>The size of an image\<close>

lemma place_segment_highest:
  assumes "place_segment b start stop entry destaddr d sz ph c s = (0, c', t)" "highest c = Some h" "h < stop" "copied_entry c \<longrightarrow> entry < h"
  shows "\<exists>h'. highest c' = Some h' \<and> h' < stop \<and> (copied_entry c' \<longrightarrow> entry < h')"
proof -
  let ?l = "PHYSADDR28 d + sz"
  have l: "?l < stop" and c': "c' = (if PHYSADDR28 d \<le> entry \<and> entry < ?l
      then c\<lparr>highest := Some (if h < ?l then ?l else h), copied_entry := True\<rparr> else c\<lparr>highest := Some (if h < ?l then ?l else h)\<rparr>)"
    using assms(1,2) by (auto simp: place_segment_def Let_def split: if_splits)
  show ?thesis
  proof (cases "h < ?l")
    case True
    then show ?thesis using l c' assms(4) by (auto intro: less_trans)
  next
    case False
    then show ?thesis using c' assms(2-4) by (auto intro: less_le_trans)
  qed
qed

lemma check_phdr_highest:
  assumes "check_phdr b filesize start stop entry destaddr ph c s = (0, c', t)" "highest c = Some h" "h < stop" "copied_entry c \<longrightarrow> entry < h"
  shows "\<exists>h'. highest c' = Some h' \<and> h' < stop \<and> (copied_entry c' \<longrightarrow> entry < h')"
proof -
  have "c' = c \<or> (\<exists>d sz. place_segment b start stop entry destaddr d sz ph c s = (0, c', t))"
    using assms(1) by (auto simp: check_phdr_def Let_def split: if_splits)
  then show ?thesis using place_segment_highest assms(2-4) by blast
qed

lemma check_phdrs_highest:
  assumes "check_phdrs F b filesize start stop entry destaddr i c s = (0, c', t)" "highest c = Some h" "h < stop" "copied_entry c \<longrightarrow> entry < h"
  shows "\<exists>h'. highest c' = Some h' \<and> h' < stop \<and> entry < h'"
  using assms
proof (induction F b filesize start stop entry destaddr i c s arbitrary: h rule: check_phdrs.induct)
  case (1 F b filesize start stop entry destaddr i c s)
  show ?case
  proof (cases "i < unat (eh_phnum F b s)")
    case False
    then show ?thesis using "1.prems" by (subst (asm) check_phdrs.simps) (auto split: if_splits)
  next
    case True
    obtain r c1 s1 where st: "check_phdr b filesize start stop entry destaddr (eh_phdr F b i s) c s = (r, c1, s1)" by (metis prod_cases3)
    have r: "r = 0" and rest: "check_phdrs F b filesize start stop entry destaddr (i + 1) c1 s1 = (0, c', t)"
      using "1.prems"(1) True st by (subst (asm) check_phdrs.simps; auto split: if_splits)+
    obtain h1 where "highest c1 = Some h1" "h1 < stop" "copied_entry c1 \<longrightarrow> entry < h1"
      using check_phdr_highest [OF st [unfolded r] "1.prems"(2-4)] by blast
    then show ?thesis using "1.IH" [OF True st [symmetric] refl _ rest] r by blast
  qed
qed

lemma check_file_highest:
  assumes "check_file F b filesize start stop (Some h0) destaddr s = (0, high, t)"
  shows "\<exists>h. high = Some h \<and> start < h \<and> h < stop"
proof -
  let ?c = "\<lparr>copied_entry = False, highest = Some 0\<rparr>" and ?e = "PHYSADDR28 (ucast (eh_entry F b s))"
  from assms obtain c' where c': "check_phdrs F b filesize start stop ?e destaddr 0 ?c s = (0, c', t)" "highest c' = high" "start \<le> ?e" "?e < stop"
    by (auto simp: check_file_def Let_def not_le not_less split: if_splits prod.splits)
  moreover have "0 < stop" using c'(4) by (auto simp: word_less_nat_alt)
  ultimately show ?thesis using check_phdrs_highest [of F b filesize start stop ?e destaddr 0 ?c s c' t 0] by (auto intro: le_less_trans)
qed

lemma check_sections_highest:
  assumes "check_sections b filesize start stop (Some h0) destaddr s = (0, high, t)"
  shows "\<exists>h. high = Some h \<and> PHYSADDR28 start < h \<and> h < PHYSADDR28 stop"
proof (cases "elf_class b s = 2")
  case True
  then show ?thesis using assms check_file_highest [of elf64] by (auto simp: check_sections_def check_sections64_def Let_def)
next
  case False
  then show ?thesis using assms check_file_highest [of elf32] by (auto simp: check_sections_def check_sections32_def Let_def)
qed

lemma sbios_image_size:
  assumes "sbios_image sbios sz bin s = Some (n, t)"
  shows "0 < sint n" "sint n < 0xf000"
proof -
  have ad: "PHYSADDR28 SBIOS_START_ADDRESS = 0x1000" "PHYSADDR28 (SBIOS_START_ADDRESS + MAX_SBIOS_SIZE) = 0x10000"
    by (simp_all add: PHYSADDR28_def SBIOS_START_ADDRESS_def MAX_SBIOS_SIZE_def)
  have "0 < sint n \<and> sint n < 0xf000"
  proof (cases "sint sz < 8 \<or> rd32 (sbios + 4) s \<noteq> magic_check")
    case True
    then obtain high where c: "check_sections sbios sz SBIOS_START_ADDRESS (SBIOS_START_ADDRESS + MAX_SBIOS_SIZE) (Some 0) bin s = (0, high, t)"
        and n: "n = the high - 0x1000"
      using assms by (auto simp: sbios_image_def ad split: prod.splits if_splits)
    from check_sections_highest [OF c] ad obtain h where h: "high = Some h" "0x1000 < h" "h < 0x10000" by auto
    then have "unat n = unat h - 0x1000" by (simp add: n unat_sub word_less_nat_alt word_le_nat_alt)
    then have "0 < unat n" "unat n < 0xf000" using h by (simp_all add: word_less_nat_alt)
    moreover have "sint n = int (unat n)" by (rule sint_small) (use \<open>unat n < 0xf000\<close> in simp)
    ultimately show ?thesis by linarith
  next
    case False
    then show ?thesis using assms by (auto simp: sbios_image_def MAX_SBIOS_SIZE_def split: if_splits)
  qed
  then show "0 < sint n" "sint n < 0xf000" by auto
qed


lemma find_sbios_first:
  assumes "find_sbios n i bin s base0 = (base, table)" "table \<noteq> 0" "0 < i"
  shows "\<exists>k. i \<le> k \<and> k < i + n \<and> rd32 (bin + of_nat (4 * k)) s = magic_check \<and> base = SBIOS_START_ADDRESS + of_nat (4 * (k - 1))
    \<and> table = getSBIOSCallTable (bin + of_nat (4 * (k - 1))) s
    \<and> (\<forall>l. i \<le> l \<and> l < k \<and> rd32 (bin + of_nat (4 * l)) s = magic_check \<longrightarrow> getSBIOSCallTable (bin + of_nat (4 * (l - 1))) s = 0)"
  using assms
proof (induction n arbitrary: i base0)
  case (Suc n)
  let ?found = "rd32 (bin + of_nat (4 * i)) s = magic_check" and ?t = "getSBIOSCallTable (bin + of_nat (4 * (i - 1))) s"
  show ?case
  proof (cases "?found \<and> ?t \<noteq> 0")
    case True
    have "(of_nat i - 1) * 4 = (of_nat (4 * (i - 1)) :: u32)" using Suc.prems(3) by (simp add: of_nat_diff)
    then show ?thesis using Suc.prems True by (intro exI [of _ i]) (auto simp: Let_def)
  next
    case False
    then obtain base1 where "find_sbios n (i + 1) bin s base1 = (base, table)" using Suc.prems(1) by (auto simp: Let_def split: if_splits)
    from Suc.IH [OF this Suc.prems(2)] obtain k where k: "i + 1 \<le> k" "k < i + 1 + n" "rd32 (bin + of_nat (4 * k)) s = magic_check"
      "base = SBIOS_START_ADDRESS + of_nat (4 * (k - 1))" "table = getSBIOSCallTable (bin + of_nat (4 * (k - 1))) s"
      "\<forall>l. i + 1 \<le> l \<and> l < k \<and> rd32 (bin + of_nat (4 * l)) s = magic_check \<longrightarrow> getSBIOSCallTable (bin + of_nat (4 * (l - 1))) s = 0"
      by auto
    have "getSBIOSCallTable (bin + of_nat (4 * (l - 1))) s = 0" if "i \<le> l" "l < k" "rd32 (bin + of_nat (4 * l)) s = magic_check" for l
      using k(6) that False by (cases "l = i") auto
    then show ?thesis using k(1-5) by (intro exI [of _ k]) auto
  qed
qed simp

lemma scan_finds:
  assumes "rd32 (addr + 4) s = magic_check"
    and "code_at (rd32 addr s - SBIOS_START_ADDRESS + addr) (prologue @ dispatch b x j hi lo @ [jump]) s"
    and "length prologue + 6 \<le> 128" "\<forall>v \<in> set prologue. quiet x v" "b \<noteq> x" "table_addr hi lo \<noteq> 0"
    and "jump = rtype j 0 0 0 8 \<or> jump = rtype j 0 31 0 9"
  shows "getSBIOSCallTable addr s = table_addr hi lo - SBIOS_START_ADDRESS + addr"
proof -
  let ?ws = "prologue @ dispatch b x j hi lo @ [jump]" and ?c = "\<lparr>regs = \<lambda>_. 0, loads = \<lambda>_. 0\<rparr>"
  obtain c' where "scan_words ?ws ?c = scan_words (dispatch b x j hi lo @ [jump]) c'" "regs c' (ucast x) = 0"
    using quiet_words [OF assms(4), of "dispatch b x j hi lo @ [jump]" ?c] by auto
  then obtain c'' where ws: "scan_words ?ws ?c = (c'', Some (table_addr hi lo))" using dispatch_scan [OF _ assms(5-7)] by metis
  have len: "128 = length ?ws + (122 - length prologue)" using assms(3) by (simp add: dispatch_def)
  have "scan_code 128 (rd32 addr s - SBIOS_START_ADDRESS + addr) ?c s = table_addr hi lo"
    by (subst len, subst scan_code_words [OF assms(2)]) (simp add: ws)
  then show ?thesis using assms(1,6) by (simp add: getSBIOSCallTable_def NUMBER_OF_INSTRUCTIONS_CHECKED_def Let_def)
qed

section \<open>Properties\<close>

text \<open>
  C19. The scan of the machine code finds the table of calls: if the code at the entry point loads the table address with
  the usual pair of instructions, adds the scaled call number, loads from there and jumps (\<open>jr\<close> as new compilers do, or \<open>jalr\<close>),
  and the instructions before do not touch the index register, the result is the table in the image.
\<close>

theorem getSBIOSCallTable_finds:
  assumes "rd32 (addr + 4) s = magic_check"
    and "code_at (rd32 addr s - SBIOS_START_ADDRESS + addr) (prologue @ dispatch b x j hi lo @ [jump]) s"
    and "length prologue + 6 \<le> 128" "\<forall>v \<in> set prologue. quiet x v" "b \<noteq> x" "table_addr hi lo \<noteq> 0"
    and "jump = rtype j 0 0 0 8 \<or> jump = rtype j 0 31 0 9"
  shows "getSBIOSCallTable addr s = table_addr hi lo - SBIOS_START_ADDRESS + addr"
  using assms by (rule scan_finds)


section \<open>Witnesses\<close>

text \<open>A raw image: its entry point, the magic word, a dispatcher after one other instruction, and a table of two calls.\<close>

definition sample_sbios :: "u32 list" where
  "sample_sbios = [0x80001008, 0x62325350, 0x27bdffe0, 0x3c038000, 0x00021080, 0x24631028, 0x00431021, 0x8c590000, 0x03200008,
     0, 0x80001100, 0x80001200]"

definition sbios_hw :: hwst where
  "sbios_hw = \<lparr>cp0_status = 0, hwreg = \<lambda>_. 0,
     mem = \<lambda>a. if 0x1000000 \<le> a \<and> a < 0x1000030 then sample_sbios ! unat (drop_bit 2 (a - 0x1000000)) else 0, dcache_wb = []\<rparr>"

lemma sbios_words: "\<forall>i < 12. rd32 (0x1000000 + of_nat (4 * i)) sbios_hw = sample_sbios ! i"
  by code_simp

lemma sample_code:
  assumes "\<forall>i < 12. rd32 (a + of_nat (4 * i)) s = sample_sbios ! i"
  shows "rd32 a s = 0x80001008" "rd32 (a + 4) s = magic_check"
    and "code_at (rd32 a s - SBIOS_START_ADDRESS + a) ([0x27bdffe0] @ dispatch 3 2 25 0x8000 0x1028 @ [rtype 25 0 0 0 8]) s"
proof -
  have w: "sample_sbios ! 0 = 0x80001008" "sample_sbios ! 1 = magic_check" "length (dispatch 3 2 25 0x8000 0x1028) = 5"
    and d: "take 7 (drop 2 sample_sbios) = [0x27bdffe0] @ dispatch 3 2 25 0x8000 0x1028 @ [rtype 25 0 0 0 8]" by code_simp+
  show "rd32 a s = 0x80001008" "rd32 (a + 4) s = magic_check"
    using assms [rule_format, of 0] assms [rule_format, of 1] w by simp_all
  have "rd32 (a + 8 + of_nat (4 * i)) s = sample_sbios ! (i + 2)" if "i < 7" for i
    using assms [rule_format, of "i + 2"] that by (simp add: ac_simps)
  moreover have "sample_sbios ! (i + 2) = ([0x27bdffe0] @ dispatch 3 2 25 0x8000 0x1028 @ [rtype 25 0 0 0 8]) ! i" if "i < 7" for i
    using that nth_drop [of 2 sample_sbios i] unfolding d [symmetric] by (simp add: add.commute) (simp add: sample_sbios_def)
  ultimately show "code_at (rd32 a s - SBIOS_START_ADDRESS + a) ([0x27bdffe0] @ dispatch 3 2 25 0x8000 0x1028 @ [rtype 25 0 0 0 8]) s"
    using \<open>rd32 a s = 0x80001008\<close> w(3) by (simp add: code_at_def SBIOS_START_ADDRESS_def add.commute)
qed

lemma sample_quiet: "\<forall>v \<in> set [0x27bdffe0]. quiet 2 v" "table_addr 0x8000 0x1028 = 0x80001028" "length [0x27bdffe0 :: u32] + 6 \<le> 128"
  by code_simp+

theorem getSBIOSCallTable_finds_witness: "getSBIOSCallTable 0x1000000 sbios_hw = 0x1000028"
proof -
  have "getSBIOSCallTable 0x1000000 sbios_hw = table_addr 0x8000 0x1028 - SBIOS_START_ADDRESS + 0x1000000"
    by (rule getSBIOSCallTable_finds [OF sample_code(2,3) [OF sbios_words] sample_quiet(3,1)]) (simp_all add: sample_quiet(2))
  then show ?thesis by (simp add: sample_quiet(2) SBIOS_START_ADDRESS_def)
qed

lemma rd32_copied:
  assumes "n < 2 ^ 29" "bytes_apart n src n dst" "k + 4 \<le> n"
  shows "rd32 (dst + of_nat k) (memcpy n dst src s) = rd32 (src + of_nat k) s"
proof -
  have b: "ldb (dst + of_nat (k + j)) (memcpy n dst src s) = ldb (src + of_nat (k + j)) s" if "j < 4" for j
    using assms that by (intro memcpy_copied) simp_all
  show ?thesis using b [of 0] b [of 1] b [of 2] b [of 3] by (simp add: rd32_def rd16_def ac_simps)
qed


end
