(* ===== verification/Boot.thy ===== *)
theory Boot
  imports Prelude "HOL-Library.Sublist"
begin

text \<open>
  Preparing a boot (\<open>loader/loader.c\<close>): the search for an option on the kernel command line and the option the loader adds,
  reading a compressed kernel into memory, and reading the IOP modules.

  C strings are lists of characters without their terminator. The file functions are arguments: \<open>memalign\<close> gives the address of a
  block of a size or 0, \<open>gz pos k\<close> is the number of bytes \<open>gzread\<close> delivers at position \<open>pos\<close> when asked for
  \<open>k\<close> (likewise \<open>fread\<close>), and \<open>rom_getFile\<close> gives the address and the size of a file in the loader. What the bytes are is
  left to them: the model follows positions and sizes.
  Messages, the display and the drive light are left out. \<open>None\<close> is a search that does not end, or a division by zero.
\<close>

section \<open>Model\<close>

subsection \<open>The kernel command line\<close>

text \<open>\<open>strstr\<close> from position \<open>p\<close>: the first position at which the option is found.\<close>

definition strstr :: "string \<Rightarrow> nat \<Rightarrow> string \<Rightarrow> nat option" where
  "strstr cmdline p option = find (\<lambda>i. prefix option (drop i cmdline)) [p..<length cmdline + 1]"

partial_function (option) has_option_loop :: "string \<Rightarrow> string \<Rightarrow> nat \<Rightarrow> nat option" where
  "has_option_loop cmdline option p =
     (case strstr cmdline p option of
       None \<Rightarrow> Some 0
     | Some p \<Rightarrow>
         if p = 0 \<or> cmdline ! (p - 1) = CHR '' '' then Some 1
         else has_option_loop cmdline option (p + length option))"

definition hasCommandlineOption :: "string \<Rightarrow> string \<Rightarrow> nat option" where
  "hasCommandlineOption cmdline option = has_option_loop cmdline option 0"

definition COMMANDLINE_SIZE :: nat where "COMMANDLINE_SIZE = 2 * 1024"

text \<open>What \<open>real_loader\<close> does to the command line when Linux is told that there is no network device.\<close>

definition finish_commandline :: "u32 \<Rightarrow> string \<Rightarrow> string option" where
  "finish_commandline pccard_type commandline =
     (if pccard_type = 0
      then case hasCommandlineOption commandline ''ip='' of
          None \<Rightarrow> None
        | Some found \<Rightarrow> Some (if found = 0
            then commandline @ take (COMMANDLINE_SIZE - length commandline - 1) '' ip=off''
            else commandline)
      else Some commandline)"

subsection \<open>Reading a compressed kernel\<close>

text \<open>Memory is asked for in steps of 512 kilobytes, until there is enough or less than a megabyte is left.\<close>

function alloc_kernel :: "(int \<Rightarrow> u32) \<Rightarrow> int \<Rightarrow> u32 \<times> int" where
  "alloc_kernel memalign maxsize =
     (let buffer = memalign maxsize;
          maxsize = if buffer = 0 then maxsize - 512 * 1024 else maxsize
      in if buffer = 0 \<and> maxsize > 1024 * 1024 then alloc_kernel memalign maxsize else (buffer, maxsize))"
  by auto
termination by (relation "measure (\<lambda>(_, m). nat m)") (auto simp: Let_def)

declare alloc_kernel.simps [simp del]

datatype load_result = Loaded u32 int | CannotOpen | NoMemory | Unusable | TooBig

text \<open>
  The read loop: the calls of \<open>gzread\<close> that were made, as pairs of the position in the buffer and the number of
  bytes asked for, and the number of bytes read or \<open>None\<close> if there was no room left. A read of no
  bytes ends it, and so does a full buffer, so the room that is left bounds the number of rounds.
\<close>

function read_kernel :: "(int \<Rightarrow> int \<Rightarrow> int) \<Rightarrow> int \<Rightarrow> int \<Rightarrow> int \<Rightarrow> (int \<times> int) list \<times> int option" where
  "read_kernel gz maxsize pos nxt =
     (let n = gz pos nxt
      in if n > 0
         then let pos' = pos + n;
                  nxt' = if pos' + nxt > maxsize then maxsize - pos' else nxt
           in if nxt' \<le> 0 then ([(pos, nxt)], None)
              else case read_kernel gz maxsize pos' nxt' of (calls, r) \<Rightarrow> ((pos, nxt) # calls, r)
         else ([(pos, nxt)], Some pos))"
  by auto
termination by (relation "measure (\<lambda>(_, maxsize, pos, _). nat (maxsize - pos))") (auto simp: Let_def split: if_splits)

declare read_kernel.simps [simp del]

definition load_kernel_file ::
  "bool \<Rightarrow> (int \<Rightarrow> u32) \<Rightarrow> u32 \<Rightarrow> (int \<Rightarrow> int \<Rightarrow> int) \<Rightarrow> (u32 \<Rightarrow> int \<Rightarrow> u32) \<Rightarrow> load_result" where
  "load_kernel_file opened memalign end_of_loader gz realloc =
     (if \<not> opened then CannotOpen
      else let (buffer, maxsize) = alloc_kernel memalign (128 * 1024 * 1024)
        in if buffer = 0 then NoMemory
           else if buffer < end_of_loader then Unusable
           else case snd (read_kernel gz maxsize 0 (256 * 1024)) of
               None \<Rightarrow> TooBig
             | Some pos \<Rightarrow> Loaded (realloc buffer pos) pos)"

subsection \<open>Reading a file\<close>

text \<open>
  The read loop of \<open>load_file\<close>: \<open>todo\<close> is what is left of the file size. The progress display divides by a hundredth of the file size, which
  is zero for a small file; it is reached only if a read delivers less than the whole file.
\<close>

function read_file :: "(int \<Rightarrow> int \<Rightarrow> int) \<Rightarrow> int \<Rightarrow> int \<Rightarrow> int \<Rightarrow> int \<Rightarrow> int option" where
  "read_file fread filesize pos todo nxt =
     (let n = fread pos nxt
      in if n > 0
         then let pos = pos + n; todo = todo - n; nxt = if todo < nxt then todo else nxt
           in if nxt \<le> 0 then Some pos
              else if filesize div 100 = 0 then None
              else read_file fread filesize pos todo nxt
         else Some pos)"
  by auto
termination by (relation "measure (\<lambda>(_, _, _, todo, _). nat todo)") (auto simp: Let_def split: if_splits)

declare read_file.simps [simp del]

text \<open>
  \<open>fopen\<close> gives the size of the file. The result is the buffer, 0 if there is none, and the size that was stored; the buffer \<open>addr\<close> is used if it
  is given and large enough.
\<close>

definition load_file ::
  "int option \<Rightarrow> (int \<Rightarrow> u32) \<Rightarrow> u32 \<Rightarrow> (int \<Rightarrow> int \<Rightarrow> int) \<Rightarrow> u32 \<Rightarrow> int \<Rightarrow> (u32 \<times> int) option" where
  "load_file fopen memalign end_of_loader fread addr sz =
     (case fopen of
       None \<Rightarrow> Some (0, sz)
     | Some filesize \<Rightarrow>
         (let buffer = if addr \<noteq> 0 then (if filesize \<le> sz then addr else 0) else memalign filesize
          in if buffer = 0 then Some (0, filesize)
             else if addr = 0 \<and> buffer < end_of_loader then Some (0, filesize)
             else case read_file fread filesize 0 filesize (256 * 1024) of
                 None \<Rightarrow> None
               | Some pos \<Rightarrow> Some (buffer, filesize)))"

subsection \<open>Reading the IOP modules\<close>

record moduleEntry =
  mod_path :: string
  mod_buffer :: u32
  mod_size :: u32
  mod_buffered :: bool
  mod_load :: bool
  mod_allocated :: bool
  mod_libsd :: bool
  mod_network :: bool
  mod_dev9 :: int
  mod_optional :: bool

definition dev9Matches :: "bool \<Rightarrow> bool \<Rightarrow> int \<Rightarrow> moduleEntry \<Rightarrow> bool" where
  "dev9Matches isSlimPSTwo enableDev9 ps2dev9_probed module =
     (if mod_dev9 module = 0 then True
      else let available = if isSlimPSTwo then enableDev9 else enableDev9 \<and> ps2dev9_probed > 0
        in mod_dev9 module = (if available then 1 else - 1))"

record boot_env =
  hasNetworkSupport :: bool
  rom_getFile :: "string \<Rightarrow> (u32 \<times> u32) option"
  module_file :: "string \<Rightarrow> u32 \<Rightarrow> u32 \<times> u32"

text \<open>\<open>module_file\<close> is \<open>load_file\<close> on the path of a module: the buffer or 0, and the size that is stored.\<close>

text \<open>
  The clean-up of a failed load: the block that is released is that of the module that could not be loaded,
  a null pointer, and the blocks of the others are only forgotten.
\<close>

definition forget_modules :: "moduleEntry list \<Rightarrow> moduleEntry list" where
  "forget_modules ms = map (\<lambda>m. if mod_buffered m \<and> mod_load m \<and> mod_allocated m then m\<lparr>mod_allocated := False\<rparr> else m) ms"

text \<open>One module: its entry afterwards, or \<open>None\<close> if the load fails. The libsd patch is applied by the caller to the blocks read.\<close>

definition load_module :: "boot_env \<Rightarrow> moduleEntry \<Rightarrow> moduleEntry \<times> bool" where
  "load_module e m =
     (if mod_network m \<and> \<not> hasNetworkSupport e then (m, True)
      else if mod_buffered m \<and> mod_load m
      then case (if prefix ''host:'' (mod_path m) then rom_getFile e (drop 5 (mod_path m)) else None) of
          Some (start, sz) \<Rightarrow> (m\<lparr>mod_allocated := False, mod_buffer := start, mod_size := sz\<rparr>, True)
        | None \<Rightarrow> (case module_file e (mod_path m) (mod_size m) of
            (buffer, sz) \<Rightarrow>
              if buffer = 0 then (m\<lparr>mod_buffer := 0, mod_size := sz\<rparr>, mod_optional m)
              else (m\<lparr>mod_buffer := buffer, mod_size := sz, mod_allocated := True\<rparr>, True))
      else (m\<lparr>mod_buffer := 0\<rparr>, True))"

fun loadModules_from :: "boot_env \<Rightarrow> moduleEntry list \<Rightarrow> moduleEntry list \<Rightarrow> int \<times> moduleEntry list" where
  "loadModules_from e loaded [] = (0, loaded)"
| "loadModules_from e loaded (m # ms) =
     (case load_module e m of
       (m, ok) \<Rightarrow> if ok then loadModules_from e (loaded @ [m]) ms
                  else (- 1, forget_modules loaded @ m # ms))"

definition loadModules :: "boot_env \<Rightarrow> moduleEntry list \<Rightarrow> int \<times> moduleEntry list" where
  "loadModules e modules = loadModules_from e [] modules"


section \<open>Options on the command line\<close>

text \<open>An option at the beginning of the line or behind a blank.\<close>

definition option_at :: "string \<Rightarrow> string \<Rightarrow> nat \<Rightarrow> bool" where
  "option_at cmdline opt q \<longleftrightarrow> q \<le> length cmdline \<and> prefix opt (drop q cmdline) \<and> (q = 0 \<or> cmdline ! (q - 1) = CHR '' '')"

definition has_option :: "string \<Rightarrow> string \<Rightarrow> bool" where
  "has_option cmdline opt \<longleftrightarrow> (\<exists>pre post. cmdline = pre @ opt @ post \<and> (pre = [] \<or> last pre = CHR '' ''))"

lemma has_option_iff: "has_option cmdline opt \<longleftrightarrow> (\<exists>q. option_at cmdline opt q)"
proof
  assume "has_option cmdline opt"
  then obtain pre post where c: "cmdline = pre @ opt @ post" "pre = [] \<or> last pre = CHR '' ''" by (auto simp: has_option_def)
  then have "option_at cmdline opt (length pre)" by (cases pre rule: rev_cases) (auto simp: option_at_def nth_append)
  then show "\<exists>q. option_at cmdline opt q" ..
next
  assume "\<exists>q. option_at cmdline opt q"
  then obtain q where q: "q \<le> length cmdline" "prefix opt (drop q cmdline)" "q = 0 \<or> cmdline ! (q - 1) = CHR '' ''" by (auto simp: option_at_def)
  obtain post where "drop q cmdline = opt @ post" using q(2) by (auto simp: prefix_def)
  then have "cmdline = take q cmdline @ opt @ post" by (metis append_take_drop_id)
  moreover have "take q cmdline = [] \<or> last (take q cmdline) = CHR '' ''" using q(1,3) by (cases "cmdline = []"; cases "q = 0") (simp_all add: last_conv_nth)
  ultimately show "has_option cmdline opt" by (auto simp: has_option_def)
qed

lemma strstr_Some:
  "strstr cmdline p opt = Some q \<Longrightarrow> p \<le> q \<and> q \<le> length cmdline \<and> prefix opt (drop q cmdline) \<and> (\<forall>i. p \<le> i \<and> i < q \<longrightarrow> \<not> prefix opt (drop i cmdline))"
proof -
  assume "strstr cmdline p opt = Some q"
  then obtain i where i: "i < length [p..<length cmdline + 1]" "prefix opt (drop ([p..<length cmdline + 1] ! i) cmdline)"
      "q = [p..<length cmdline + 1] ! i" "\<forall>j < i. \<not> prefix opt (drop ([p..<length cmdline + 1] ! j) cmdline)"
    by (auto simp: strstr_def find_Some_iff)
  have q: "q = p + i" using i(1,3) by (simp del: upt_Suc)
  have "\<not> prefix opt (drop k cmdline)" if "p \<le> k" "k < q" for k
    using i(4) [rule_format, of "k - p"] that i(1) q by (simp del: upt_Suc)
  then show ?thesis using i q by (auto simp del: upt_Suc)
qed

lemma strstr_None: "strstr cmdline p opt = None \<Longrightarrow> p \<le> q \<Longrightarrow> q \<le> length cmdline \<Longrightarrow> \<not> prefix opt (drop q cmdline)"
  by (auto simp: strstr_def find_None_iff)

text \<open>Skipping a match loses nothing: a position inside it is behind a character of the option, which is not a blank.\<close>

lemma has_option_loop_spec:
  assumes "opt \<noteq> []" "CHR '' '' \<notin> set opt"
  shows "has_option_loop cmdline opt p = Some (if \<exists>q \<ge> p. option_at cmdline opt q then 1 else 0)"
proof (induction "length cmdline + 1 - p" arbitrary: p rule: less_induct)
  case less
  show ?case
  proof (cases "strstr cmdline p opt")
    case None
    then have "\<not> (\<exists>q \<ge> p. option_at cmdline opt q)" using strstr_None by (auto simp: option_at_def)
    then show ?thesis using None by (subst has_option_loop.simps) simp
  next
    case (Some q)
    note q = strstr_Some [OF Some]
    show ?thesis
    proof (cases "q = 0 \<or> cmdline ! (q - 1) = CHR '' ''")
      case True
      then have "option_at cmdline opt q" using q by (auto simp: option_at_def)
      then show ?thesis using Some True q by (subst has_option_loop.simps) auto
    next
      case False
      have inside: "cmdline ! (q + k) = opt ! k" if "k < length opt" for k
      proof -
        obtain post where "drop q cmdline = opt @ post" using q by (auto simp: prefix_def)
        then have "(opt @ post) ! k = cmdline ! (q + k)" using q by (metis nth_drop)
        then show ?thesis using that by (simp add: nth_append)
      qed
      have "\<not> option_at cmdline opt r" if "p \<le> r" "r < q + length opt" for r
      proof
        assume r: "option_at cmdline opt r"
        consider "r < q" | "r = q" | "q < r" by linarith
        then show False
        proof cases
          case 3
          then have "r - 1 - q < length opt" "r - 1 = q + (r - 1 - q)" using that by simp_all
          then have "cmdline ! (r - 1) = opt ! (r - 1 - q)" using inside by metis
          then show False using r 3 assms(2) \<open>r - 1 - q < length opt\<close> by (auto simp: option_at_def in_set_conv_nth)
        qed (use q r that False in \<open>auto simp: option_at_def\<close>)
      qed
      then have "(\<exists>r \<ge> p. option_at cmdline opt r) \<longleftrightarrow> (\<exists>r \<ge> q + length opt. option_at cmdline opt r)"
        using q by (meson le_trans le_add1 not_less)
      moreover have "length cmdline + 1 - (q + length opt) < length cmdline + 1 - p" using q assms(1) by (cases opt) auto
      ultimately show ?thesis using less [of "q + length opt"] Some False by (subst has_option_loop.simps) simp
    qed
  qed
qed

lemma hasCommandlineOption_spec:
  assumes "CHR '' '' \<notin> set opt"
  shows "hasCommandlineOption cmdline opt = Some (if has_option cmdline opt then 1 else 0)"
proof (cases "opt = []")
  case True
  have "strstr cmdline 0 [] = Some 0" by (simp add: strstr_def upt_conv_Cons del: upt_Suc)
  moreover have "has_option cmdline []" unfolding has_option_def by (rule exI [of _ "[]"]) simp
  ultimately show ?thesis using True by (simp add: hasCommandlineOption_def has_option_loop.simps)
next
  case False
  then show ?thesis using has_option_loop_spec [OF False assms] by (simp add: hasCommandlineOption_def has_option_iff)
qed


section \<open>Sizes\<close>

text \<open>A file of \<open>len\<close> bytes: a read delivers something, never more than was asked for or is there, until the end.\<close>

definition reads :: "(int \<Rightarrow> int \<Rightarrow> int) \<Rightarrow> int \<Rightarrow> bool" where
  "reads rd len \<longleftrightarrow> (\<forall>p k. 0 \<le> p \<and> p \<le> len \<and> 0 < k \<longrightarrow> (if p < len then 0 < rd p k \<and> rd p k \<le> min k (len - p) else rd p k = 0))"

lemma readsD:
  assumes "reads rd len" "0 \<le> p" "p \<le> len" "0 < k"
  shows "p < len \<Longrightarrow> 0 < rd p k" "p < len \<Longrightarrow> rd p k \<le> k" "p < len \<Longrightarrow> rd p k \<le> len - p" "p = len \<Longrightarrow> rd p k = 0"
  using assms(1) [unfolded reads_def, rule_format, of p k] assms(2-4) by (simp_all split: if_splits)

lemma read_kernel_spec:
  assumes "reads gz len" "0 \<le> pos" "pos \<le> len" "0 < nxt" "pos + nxt \<le> maxsize"
  shows "(\<forall>(p, k) \<in> set (fst (read_kernel gz maxsize pos nxt)). 0 \<le> p \<and> 0 < k \<and> p + k \<le> maxsize)
    \<and> snd (read_kernel gz maxsize pos nxt) = (if len < maxsize then Some len else None)"
  using assms
proof (induction gz maxsize pos nxt rule: read_kernel.induct)
  case (1 gz maxsize pos nxt)
  note rd = readsD [OF "1.prems"(1-4)]
  show ?case
  proof (cases "pos < len")
    case False
    then have "pos = len" using "1.prems"(3) by simp
    then show ?thesis using rd(4) "1.prems" by (subst (1 2) read_kernel.simps) simp
  next
    case True
    define n where "n = gz pos nxt"
    define nxt' where "nxt' = (if pos + n + nxt > maxsize then maxsize - (pos + n) else nxt)"
    have n: "0 < n" "n \<le> nxt" "n \<le> len - pos" using rd True by (simp_all add: n_def)
    have eq: "read_kernel gz maxsize pos nxt = (if nxt' \<le> 0 then ([(pos, nxt)], None)
        else case read_kernel gz maxsize (pos + n) nxt' of (calls, r) \<Rightarrow> ((pos, nxt) # calls, r))"
      using n(1) by (subst read_kernel.simps) (simp add: Let_def n_def nxt'_def)
    show ?thesis
    proof (cases "nxt' \<le> 0")
      case True
      then have "\<not> len < maxsize" using n "1.prems"(4,5) by (auto simp: nxt'_def split: if_splits)
      then show ?thesis using eq True "1.prems" by simp
    next
      case False
      then have "pos + n + nxt' \<le> maxsize" by (simp add: nxt'_def split: if_splits)
      then show ?thesis
        using "1.IH" [OF n_def n(1) refl, of nxt'] False n "1.prems" eq
        by (simp add: nxt'_def [symmetric] nxt'_def [THEN eq_reflection, symmetric] split: prod.splits)
    qed
  qed
qed

text \<open>The block for the kernel is the largest that can be had in steps of 512 kilobytes, and has more than a megabyte.\<close>

lemma alloc_kernel_spec:
  assumes "alloc_kernel memalign m = (buffer, maxsize)" "buffer \<noteq> 0" "1024 * 1024 < m"
  shows "memalign maxsize = buffer \<and> 1024 * 1024 < maxsize \<and> maxsize \<le> m \<and> (\<forall>k :: nat. maxsize < m - 524288 * int k \<longrightarrow> memalign (m - 524288 * int k) = 0)"
  using assms
proof (induction memalign m rule: alloc_kernel.induct)
  case (1 memalign m)
  show ?case
  proof (cases "memalign m = 0 \<and> 1024 * 1024 < m - 524288")
    case True
    then have "alloc_kernel memalign (m - 524288) = (buffer, maxsize)" using "1.prems"(1) by (subst (asm) alloc_kernel.simps) (simp add: Let_def)
    then have ih: "memalign maxsize = buffer" "1024 * 1024 < maxsize" "maxsize \<le> m - 524288"
        "\<And>k :: nat. maxsize < m - 524288 - 524288 * int k \<Longrightarrow> memalign (m - 524288 - 524288 * int k) = 0"
      using "1.IH" [OF refl refl] "1.prems"(2) True by (auto simp: Let_def)
    have "memalign (m - 524288 * int k) = 0" if "maxsize < m - 524288 * int k" for k
      using ih(4) [of "k - 1"] that True by (cases k) (auto simp: algebra_simps)
    then show ?thesis using ih(1-3) by simp
  next
    case False
    then have "maxsize = m \<and> memalign m = buffer" using "1.prems"(1,2) by (subst (asm) alloc_kernel.simps) (auto simp: Let_def split: if_splits)
    then show ?thesis using "1.prems"(3) by auto
  qed
qed

lemma read_file_spec:
  assumes "reads rd len" "0 \<le> pos" "pos + todo = len" "0 < nxt" "0 \<le> todo" "100 \<le> len"
  shows "read_file rd len pos todo nxt = Some len"
  using assms
proof (induction rd len pos todo nxt rule: read_file.induct)
  case (1 rd len pos todo nxt)
  have le: "pos \<le> len" using "1.prems" by simp
  note r = readsD [OF "1.prems"(1,2) le "1.prems"(4)]
  show ?case
  proof (cases "pos < len")
    case False
    then show ?thesis using r(4) "1.prems" by (subst read_file.simps) simp
  next
    case True
    define n where "n = rd pos nxt"
    define nxt' where "nxt' = (if todo - n < nxt then todo - n else nxt)"
    have n: "0 < n" "n \<le> todo" using r True "1.prems"(3) by (simp_all add: n_def)
    have big: "len div 100 \<noteq> 0" using "1.prems"(6) by presburger
    have eq: "read_file rd len pos todo nxt = (if nxt' \<le> 0 then Some (pos + n) else read_file rd len (pos + n) (todo - n) nxt')"
      using n(1) big by (subst read_file.simps) (simp add: Let_def n_def nxt'_def)
    show ?thesis
    proof (cases "nxt' \<le> 0")
      case True
      then show ?thesis using eq n "1.prems"(3,4) by (auto simp: nxt'_def split: if_splits)
    next
      case False
      then show ?thesis
        using "1.IH" [OF n_def n(1) refl refl nxt'_def _ big] n "1.prems" eq by simp
    qed
  qed
qed


section \<open>Modules\<close>

definition module_ok :: "boot_env \<Rightarrow> moduleEntry \<Rightarrow> bool" where
  "module_ok e m \<longleftrightarrow> snd (load_module e m)"

lemma loadModules_from_ok:
  "\<forall>m \<in> set ms. module_ok e m \<Longrightarrow> loadModules_from e loaded ms = (0, loaded @ map (\<lambda>m. fst (load_module e m)) ms)"
  by (induction ms arbitrary: loaded) (auto simp: module_ok_def split: prod.splits)

lemma loadModules_from_fails:
  "\<forall>m \<in> set pre. module_ok e m \<Longrightarrow> \<not> module_ok e m \<Longrightarrow>
     loadModules_from e loaded (pre @ m # post)
       = (- 1, forget_modules (loaded @ map (\<lambda>m. fst (load_module e m)) pre) @ fst (load_module e m) # post)"
  by (induction pre arbitrary: loaded) (auto simp: module_ok_def split: prod.splits)

section \<open>Properties\<close>

text \<open>
  C37. The loader recognises an option of the kernel command line exactly when it stands at the beginning or behind a blank, never inside
  another word; the search always ends. So the line that is finished for a console without network device carries an \<open>ip=\<close>
  option: the one of the user unchanged, or the appended \<open>ip=off\<close> if there is room for it.
\<close>

theorem finish_commandline_ip:
  assumes "CHR '' '' \<notin> set opt" "length cmdline + 7 < COMMANDLINE_SIZE"
  shows "hasCommandlineOption cmdline opt = Some (if has_option cmdline opt then 1 else 0)
    \<and> finish_commandline pccard cmdline = Some (if pccard = 0 \<and> \<not> has_option cmdline ''ip='' then cmdline @ '' ip=off'' else cmdline)
    \<and> has_option (the (finish_commandline 0 cmdline)) ''ip=''"
proof -
  have fin: "finish_commandline pc cmdline = Some (if pc = 0 \<and> \<not> has_option cmdline ''ip='' then cmdline @ '' ip=off'' else cmdline)" for pc
    using assms(2) hasCommandlineOption_spec [of "''ip=''" cmdline] by (simp add: finish_commandline_def COMMANDLINE_SIZE_def)
  have "has_option (cmdline @ '' ip=off'') ''ip=''"
    unfolding has_option_def by (intro exI [of _ "cmdline @ '' ''"] exI [of _ "''off''"]) simp
  then show ?thesis using fin hasCommandlineOption_spec [OF assms(1), of cmdline] by simp
qed


text \<open>A complete file of at least a hundred bytes is read completely by \<open>load_file\<close>.\<close>

lemma load_file_outcome:
  assumes "reads fread len" "100 \<le> len" "memalign len = buffer" "buffer \<noteq> 0" "end_of_loader \<le> buffer"
  shows "load_file (Some len) memalign end_of_loader fread 0 sz = Some (buffer, len)" "read_file fread len 0 len (256 * 1024) = Some len"
proof -
  show r: "read_file fread len 0 len (256 * 1024) = Some len" by (rule read_file_spec) (use assms in simp_all)
  show "load_file (Some len) memalign end_of_loader fread 0 sz = Some (buffer, len)" using r assms(3-5) by (simp add: load_file_def)
qed

text \<open>
  Loading the IOP modules succeeds exactly if each module that has to be there is found; then every module has the buffer and the
  size of its file, or no buffer if it is not wanted. If one is missing, the blocks of the modules before it are
  lost: their entries keep the addresses and are marked as not allocated, and nothing is released.
\<close>

theorem loadModules_outcome:
  "(\<forall>m \<in> set ms. module_ok e m) \<and> loadModules e ms = (0, map (\<lambda>m. fst (load_module e m)) ms)
   \<or> (\<exists>pre m post. ms = pre @ m # post \<and> (\<forall>m \<in> set pre. module_ok e m) \<and> \<not> module_ok e m
       \<and> loadModules e ms = (- 1, forget_modules (map (\<lambda>m. fst (load_module e m)) pre) @ fst (load_module e m) # post)
       \<and> map mod_buffer (forget_modules (map (\<lambda>m. fst (load_module e m)) pre)) = map (\<lambda>m. mod_buffer (fst (load_module e m))) pre
       \<and> (\<forall>m \<in> set (forget_modules (map (\<lambda>m. fst (load_module e m)) pre)). mod_buffered m \<and> mod_load m \<longrightarrow> \<not> mod_allocated m))"
proof (cases "\<forall>m \<in> set ms. module_ok e m")
  case True
  then show ?thesis using loadModules_from_ok [OF True, of "[]"] by (simp add: loadModules_def)
next
  case False
  then obtain pre m post where sp: "ms = pre @ m # post" "\<not> module_ok e m" "\<forall>m \<in> set pre. module_ok e m"
    using split_list_first_prop [of ms "\<lambda>m. \<not> module_ok e m"] by blast
  let ?l = "map (\<lambda>m. fst (load_module e m)) pre"
  show ?thesis
  proof (rule disjI2, intro exI conjI)
    show "loadModules e ms = (- 1, forget_modules ?l @ fst (load_module e m) # post)"
      using loadModules_from_fails [OF sp(3,2), of "[]" post] unfolding sp(1) loadModules_def by simp
    show "map mod_buffer (forget_modules ?l) = map (\<lambda>m. mod_buffer (fst (load_module e m))) pre"
      by (auto simp: forget_modules_def)
    show "\<forall>m \<in> set (forget_modules ?l). mod_buffered m \<and> mod_load m \<longrightarrow> \<not> mod_allocated m"
      by (auto simp: forget_modules_def)
  qed (fact sp)+
qed

section \<open>Witnesses\<close>

theorem finish_commandline_ip_witness:
  "finish_commandline 0 ''root=/dev/ram0 noip=1'' = Some ''root=/dev/ram0 noip=1 ip=off''"
proof -
  have "option_at ''root=/dev/ram0 noip=1'' ''ip='' q \<longleftrightarrow> False" for q
  proof -
    have "q \<in> set [0..<22]" if "q \<le> length ''root=/dev/ram0 noip=1''" using that by simp
    moreover have "\<forall>q \<in> set [0..<22]. \<not> option_at ''root=/dev/ram0 noip=1'' ''ip='' q" by code_simp
    ultimately show ?thesis by (auto simp: option_at_def simp del: set_upt)
  qed
  then have "\<not> has_option ''root=/dev/ram0 noip=1'' ''ip=''" by (simp add: has_option_iff)
  then show ?thesis
    using finish_commandline_ip [of "''ip=''" "''root=/dev/ram0 noip=1''" 0] by (simp add: COMMANDLINE_SIZE_def)
qed



definition sample_modules :: "moduleEntry list" where
  "sample_modules = map (\<lambda>(p, opt). \<lparr>mod_path = p, mod_buffer = 0, mod_size = 0, mod_buffered = True, mod_load = True, mod_allocated = False,
     mod_libsd = False, mod_network = False, mod_dev9 = 0, mod_optional = opt\<rparr>)
     [(''mc0:a.irx'', False), (''mc0:b.irx'', True), (''mc0:c.irx'', False)]"

definition sample_env :: boot_env where
  "sample_env = \<lparr>hasNetworkSupport = True, rom_getFile = \<lambda>_. None,
     module_file = \<lambda>p sz. if p = ''mc0:a.irx'' then (0x300000, 1000) else (0, sz)\<rparr>"

text \<open>The second module may be missing, the third may not.\<close>

theorem loadModules_outcome_witness:
  "fst (loadModules sample_env sample_modules) = - 1 \<and> \<not> module_ok sample_env (sample_modules ! 2)
   \<and> mod_buffer (hd (snd (loadModules sample_env sample_modules))) = 0x300000"
proof -
  have "\<not> (\<forall>m \<in> set sample_modules. module_ok sample_env m)" "\<not> module_ok sample_env (sample_modules ! 2)"
    "mod_buffer (hd (snd (loadModules sample_env sample_modules))) = 0x300000" by code_simp+
  then show ?thesis using loadModules_outcome [of sample_modules sample_env] by auto
qed

end
