(* ===== verification/Buffers.thy ===== *)
theory Buffers
  imports Services Bytes
begin

text \<open>
  Buffers of the services: blocks of memory outside the table of RPC packets. Filling them, word by word or byte by byte,
  leaves everything alone that the RPC layer looks at.
\<close>

section \<open>Blocks outside the packet table\<close>

lemma calm_stb: "off_table (rd_pkt_table s) (a AND NOT 3) \<Longrightarrow> calm s (stb v a s)"
  unfolding stb_def by (rule calm_stw)

text \<open>\<open>n\<close> words from \<open>a\<close> on lie outside the packet table at \<open>b\<close>.\<close>

definition words_off :: "u32 \<Rightarrow> nat \<Rightarrow> u32 \<Rightarrow> bool" where
  "words_off b n a \<longleftrightarrow> a AND 3 = 0 \<and> (\<forall>k < n. off_table b (a + of_nat (4 * k)))"

lemma words_offD: "words_off b n a \<Longrightarrow> k < n \<Longrightarrow> off_table b (a + of_nat (4 * k))"
  by (simp add: words_off_def)

lemma words_off_byte: "words_off b n a \<Longrightarrow> k < 4 * n \<Longrightarrow> off_table b ((a + of_nat k) AND NOT 3)"
  using word_of_byte [of a k] words_offD [of b n a "k div 4"] by (simp add: words_off_def)

lemma calm_table: "calm s t \<Longrightarrow> rd_pkt_table t = rd_pkt_table s"
  by (simp add: calm_def)

lemma calm_memset:
  assumes "words_off (rd_pkt_table s) n a" "m \<le> 4 * n"
  shows "calm s (memset m v a s)"
  using assms(2)
proof (induction m)
  case (Suc m)
  then have c: "calm s (memset m v a s)" by simp
  have "off_table (rd_pkt_table (memset m v a s)) ((a + of_nat m) AND NOT 3)"
    using words_off_byte [OF assms(1)] Suc.prems calm_table [OF c] by simp
  then show ?case unfolding memset_Suc by (rule calm_trans [OF c calm_stb])
qed (simp add: calm_refl)

lemma calm_memcpy:
  assumes "words_off (rd_pkt_table s) n a" "m \<le> 4 * n"
  shows "calm s (memcpy m a src s)"
  using assms(2)
proof (induction m)
  case (Suc m)
  then have c: "calm s (memcpy m a src s)" by simp
  have "off_table (rd_pkt_table (memcpy m a src s)) ((a + of_nat m) AND NOT 3)"
    using words_off_byte [OF assms(1)] Suc.prems calm_table [OF c] by simp
  then show ?case unfolding memcpy_Suc by (rule calm_trans [OF c calm_stb])
qed (simp add: calm_refl)

lemma calm_stb_last: "calm s t \<Longrightarrow> off_table (rd_pkt_table s) (a AND NOT 3) \<Longrightarrow> calm s (stb v a t)"
  by (rule calm_trans [OF _ calm_stb]) (simp_all add: calm_table)

lemma calm_more: "calm s t \<Longrightarrow> services.more t = services.more s"
  by (simp add: calm_def)

lemma words_offI:
  assumes "a AND 3 = 0" "2048 \<le> unat (PHYSADDR (a - b))" "unat (PHYSADDR (a - b)) + 4 * n \<le> 2 ^ 29"
  shows "words_off b n a"
proof -
  have "off_table b (a + of_nat (4 * k))" if "k < n" for k
  proof (rule off_tableI)
    let ?d = "unat (PHYSADDR (a - b))"
    have "PHYSADDR (a + of_nat (4 * k) - b) = PHYSADDR (PHYSADDR (a - b) + of_nat (4 * k))"
      using PHYSADDR_add_left [of "a - b" "of_nat (4 * k)"] by (simp add: algebra_simps)
    also have "\<dots> = PHYSADDR (of_nat (?d + 4 * k))" by simp
    also have "unat \<dots> = ?d + 4 * k"
      using assms(3) that unat_take_bit_mod [of 29 "of_nat (?d + 4 * k) :: u32"] unat_of_nat_lt [of "?d + 4 * k", where 'a = 32]
      by (simp add: PHYSADDR_take_bit del: of_nat_add)
    finally show "2048 \<le> unat (PHYSADDR (a + of_nat (4 * k) - b))" using assms(2) by simp
  qed
  then show ?thesis using assms(1) by (simp add: words_off_def)
qed

section \<open>Names\<close>

text \<open>\<open>strncpy\<close> copies up to the terminator and fills the rest with zeros.\<close>

primrec strncpy :: "nat \<Rightarrow> u32 \<Rightarrow> u32 \<Rightarrow> 'a hwst_scheme \<Rightarrow> 'a hwst_scheme" where
  "strncpy 0 dst src s = s"
| "strncpy (Suc n) dst src s =
     (if ldb src s = 0 then memset (Suc n) 0 dst s else strncpy n (dst + 1) (src + 1) (stb (ldb src s) dst s))"

lemma calm_strncpy:
  assumes "words_off (rd_pkt_table s) n a" "k + m \<le> 4 * n"
  shows "calm s (strncpy m (a + of_nat k) src s)"
  using assms
proof (induction m arbitrary: k src s)
  case (Suc m)
  have st: "calm s (stb v (a + of_nat j) s)" if "j < 4 * n" for v j
    using words_off_byte [OF Suc.prems(1) that] by (rule calm_stb)
  show ?case
  proof (cases "ldb src s = 0")
    case True
    have "calm s (memset i 0 (a + of_nat k) s)" if "i \<le> Suc m" for i
      using that
    proof (induction i)
      case (Suc i)
      then have c: "calm s (memset i 0 (a + of_nat k) s)" by simp
      have "off_table (rd_pkt_table s) ((a + of_nat k + of_nat i) AND NOT 3)"
        using words_off_byte [OF \<open>words_off (rd_pkt_table s) n a\<close>, of "k + i"] Suc.prems \<open>k + Suc m \<le> 4 * n\<close> by (simp add: add.assoc)
      then show ?case unfolding memset_Suc by (rule calm_stb_last [OF c])
    qed (simp add: calm_refl)
    then show ?thesis using True by simp
  next
    case False
    let ?t = "stb (ldb src s) (a + of_nat k) s"
    have c: "calm s ?t" using st Suc.prems(2) by simp
    then have "calm ?t (strncpy m (a + of_nat (Suc k)) (src + 1) ?t)"
      using Suc.prems by (intro Suc.IH) (simp_all add: calm_table)
    then show ?thesis using False calm_trans [OF c] by (simp add: ac_simps)
  qed
qed (simp add: calm_refl)

section \<open>Requests through one buffer\<close>

lemma region_distinct: "j < 2 ^ 27 \<Longrightarrow> k < 2 ^ 27 \<Longrightarrow> PHYSADDR (d + of_nat (4 * j)) = PHYSADDR (d + of_nat (4 * k)) \<longleftrightarrow> j = k"
  using PHYSADDR_offset_eq_iff [of "4 * j" "4 * k" d] by simp

text \<open>
  A service that keeps one buffer for its requests: \<open>put\<close> stores words into it by their index, and \<open>send\<close> hands it to the server. The place of
  the buffer, the client and the place of the answer belong to the part of the state that the module keeps.
\<close>

locale request_buffer =
  fixes base client answer :: "'a services_scheme \<Rightarrow> u32" and put :: "(nat \<times> u32) list \<Rightarrow> 'a services_scheme \<Rightarrow> 'a services_scheme"
    and number ssize rsize :: u32
    and send :: "u32 \<Rightarrow> u32 \<Rightarrow> 'a services_scheme \<Rightarrow> (u32 \<times> 'a services_scheme) option"
  assumes places: "services.more t = services.more s \<Longrightarrow> base t = base s \<and> client t = client s \<and> answer t = answer s"
    and put_Nil: "put [] s = s"
    and put_snoc: "put (ws @ [(k, v)]) s = stw v (base (put ws s) + of_nat (4 * k)) (put ws s)"
    and sizes: "ssize \<le> 0xfffffff0"
    and send_law: "send stage2 carg s =
      (case SifCallRpc [] (client s) number SIF_RPC_M_NOWAIT (base s) ssize (answer s) rsize stage2 carg s of
         None \<Rightarrow> None
       | Some (r, s) \<Rightarrow> if sint r < 0 then Some (- SIF_RPCE_SENDP, s) else Some (0, s))"
begin

lemma put_more: "services.more (put ws s) = services.more s"
proof (induction ws rule: rev_induct)
  case (snoc x ws)
  then show ?case by (cases x) (simp add: put_snoc stw_def)
qed (simp add: put_Nil)

lemma put_places: "base (put ws s) = base s" "client (put ws s) = client s" "answer (put ws s) = answer s"
  using places [OF put_more] by simp_all

lemma put_calm:
  assumes "words_off (rd_pkt_table s) n (base s)" "\<forall>x \<in> set ws. fst x < n"
  shows "calm s (put ws s)"
  using assms(2)
proof (induction ws rule: rev_induct)
  case (snoc x ws)
  obtain k v where x: "x = (k, v)" by (cases x)
  have c: "calm s (put ws s)" using snoc by simp
  have "off_table (rd_pkt_table (put ws s)) (base (put ws s) + of_nat (4 * k))"
    using snoc.prems x words_offD [OF assms(1), of k] calm_table [OF c] by (simp add: put_places)
  then show ?case unfolding x put_snoc by (rule calm_stw_last [OF c])
qed (simp add: put_Nil calm_refl)

lemma put_other: "\<forall>x \<in> set ws. PHYSADDR a \<noteq> PHYSADDR (base s + of_nat (4 * fst x)) \<Longrightarrow> ldw a (put ws s) = ldw a s"
proof (induction ws rule: rev_induct)
  case (snoc x ws)
  then show ?case by (cases x) (simp add: put_snoc put_places)
qed (simp add: put_Nil)

lemma put_get:
  assumes "distinct (map fst ws)" "\<forall>x \<in> set ws. fst x < 64" "(k, v) \<in> set ws"
  shows "ldw (base s + of_nat (4 * k)) (put ws s) = v"
  using assms
proof (induction ws rule: rev_induct)
  case (snoc x ws)
  obtain k' v' where x: "x = (k', v')" by (cases x)
  have "k < 64" "k' < 64" using snoc.prems(2,3) x by auto
  then have "PHYSADDR (base s + of_nat (4 * k)) = PHYSADDR (base s + of_nat (4 * k')) \<longleftrightarrow> k = k'" by (intro region_distinct) simp_all
  then show ?case using snoc x by (auto simp: put_snoc put_places image_iff)
qed simp

text \<open>A request that fills words of the buffer and sends it.\<close>

lemma request_effect:
  assumes "rpc_ready s" "words_off (rd_pkt_table s) n (base s)" "answer s AND 0x0f = 0" "n \<le> 64"
    and "distinct (map fst ws)" "\<forall>x \<in> set ws. fst x < n"
  shows "\<exists>r s'. send stage2 carg (put ws s) = Some (r, s') \<and> services.more s' = services.more s
    \<and> (if rpc_busy (client s) ssize s then r = - SIF_RPCE_SENDP
       else r = 0 \<and> requested (client s) number (base s) ssize (answer s) rsize stage2 carg s s')
    \<and> (\<forall>x \<in> set ws. ldw (base s + of_nat (4 * fst x)) s' = snd x)
    \<and> (\<forall>a. off_table (rd_pkt_table s) a \<and> (\<forall>k < n. PHYSADDR a \<noteq> PHYSADDR (base s + of_nat (4 * k))) \<longrightarrow> ldw a s' = ldw a s)"
proof -
  let ?t = "put ws s"
  have c: "calm s ?t" by (rule put_calm [OF assms(2,6)])
  have t: "rpc_ready ?t" "rd_pkt_table ?t = rd_pkt_table s" "answer ?t AND 0x0f = 0"
    using c assms(1,3) by (simp_all add: calm_def put_places)
  have rpc: "rpc_busy (client ?t) m ?t = rpc_busy (client s) m s"
      "requested (client ?t) number (base ?t) ssize (answer ?t) rsize stage2 carg ?t u = requested (client s) number (base s) ssize (answer s) rsize stage2 carg s u" for m u
    using c by (simp_all add: calm_def rpc_busy_def requested_def put_places)
  obtain r u where u: "SifCallRpc [] (client ?t) number SIF_RPC_M_NOWAIT (base ?t) ssize (answer ?t) rsize stage2 carg ?t = Some (r, u)"
      "same_services (rd_pkt_table ?t) ?t u" "rpc_busy (client ?t) ssize ?t \<longleftrightarrow> sint r < 0"
      "rpc_busy (client ?t) ssize ?t \<or> r = 0 \<and> requested (client ?t) number (base ?t) ssize (answer ?t) rsize stage2 carg ?t u"
    by (rule service_call [OF t(1) sizes t(3)]) auto
  have more: "services.more u = services.more s" using u(2) services_more(3) [of u ?t] put_more by (simp add: same_services_def)
  have mem: "ldw a u = ldw a ?t" if "off_table (rd_pkt_table s) a" for a using u(2) t(2) that by (simp add: same_services_def)
  have "ldw (base s + of_nat (4 * fst x)) u = snd x" if "x \<in> set ws" for x
    using mem [OF words_offD [OF assms(2), of "fst x"]] put_get [OF assms(5), of "fst x" "snd x" s] that assms(4,6) by fastforce
  moreover have "ldw a u = ldw a s" if "off_table (rd_pkt_table s) a" "\<forall>k < n. PHYSADDR a \<noteq> PHYSADDR (base s + of_nat (4 * k))" for a
    using mem [OF that(1)] put_other [of ws a s] that(2) assms(6) by simp
  ultimately show ?thesis using u(1,3,4) more unfolding send_law rpc by auto
qed

end

end
