(* ===== verification/Pad.thy ===== *)
theory Pad
  imports Buffers
begin

text \<open>
  The controller service (\<open>TGE/sbios/pad.c\<close>, in the build for the newer pad module, and the argument blocks of
  \<open>TGE/include/tge_sbios.h\<close>). The IOP writes the state of a controller into a
  double buffer the caller provides; queries look at the half with the newer frame. Everything that changes a
  controller is a request to the IOP through one shared buffer of 128 bytes.

  The table of ports has two rows of eight entries; an index outside it is undefined behaviour and gives \<open>None\<close>.
  The addresses of the module's objects and functions are fields of the state. \<open>SyncDCache\<close> has no effect on the coherent memory of the model.
\<close>

section \<open>State\<close>

record pad_state =
  pad_open :: u32
  pad_port :: u32
  pad_slot :: u32
  padData :: u32
  padBuf :: u32

record pad = services +
  padInitialiseCounter :: nat
  PadState :: "nat \<times> nat \<Rightarrow> pad_state"
  a_padsif0 :: u32
  a_padsif1 :: u32
  a_padbuffer :: u32
  a_openSlot :: u32
  a_padCallback :: u32
  a_padInitCallback :: u32
  a_padEndCallback :: u32
  a_padPortOpenCallback :: u32
  a_padSetMainModeCallback :: u32
  a_padInfoPressModeCallback :: u32
  a_padSetButtonInfoCallback :: u32
  a_padSetActAlignCallback :: u32
  a_padSetActDirectCallback :: u32

definition PAD_BIND_RPC_ID1 :: u32 where "PAD_BIND_RPC_ID1 = 0x80000100"
definition PAD_BIND_RPC_ID2 :: u32 where "PAD_BIND_RPC_ID2 = 0x80000101"
definition PAD_RPCCMD_OPEN :: u32 where "PAD_RPCCMD_OPEN = 0x01"
definition PAD_RPCCMD_SET_MMODE :: u32 where "PAD_RPCCMD_SET_MMODE = 0x06"
definition PAD_RPCCMD_SET_ACTDIR :: u32 where "PAD_RPCCMD_SET_ACTDIR = 0x07"
definition PAD_RPCCMD_SET_ACTALIGN :: u32 where "PAD_RPCCMD_SET_ACTALIGN = 0x08"
definition PAD_RPCCMD_GET_BTNMASK :: u32 where "PAD_RPCCMD_GET_BTNMASK = 0x09"
definition PAD_RPCCMD_SET_BTNINFO :: u32 where "PAD_RPCCMD_SET_BTNINFO = 0x0A"
definition PAD_RPCCMD_CLOSE :: u32 where "PAD_RPCCMD_CLOSE = 0x0E"
definition PAD_RPCCMD_END :: u32 where "PAD_RPCCMD_END = 0x0F"
definition PAD_RPCCMD_INIT :: u32 where "PAD_RPCCMD_INIT = 0x10"
definition PAD_RPCCMD_GET_MODVER :: u32 where "PAD_RPCCMD_GET_MODVER = 0x12"

definition PAD_STATE_EXECCMD :: u8 where "PAD_STATE_EXECCMD = 5"
definition PAD_STATE_STABLE :: u8 where "PAD_STATE_STABLE = 6"
definition PAD_RSTAT_BUSY :: u8 where "PAD_RSTAT_BUSY = 2"
definition PAD_MODECURID :: u32 where "PAD_MODECURID = 1"
definition PAD_MODECUREXID :: u32 where "PAD_MODECUREXID = 2"
definition PAD_MODECUROFFS :: u32 where "PAD_MODECUROFFS = 3"
definition PAD_MODETABLE :: u32 where "PAD_MODETABLE = 4"

text \<open>Offsets of the fields of \<open>struct pad_data\<close>, of which the double buffer has two in a row.\<close>

definition pd_actData :: u32 where "pd_actData = 48"
definition pd_modeTable :: u32 where "pd_modeTable = 80"
definition pd_frame :: u32 where "pd_frame = 88"
definition pd_length :: u32 where "pd_length = 96"
definition pd_modeConfig :: u32 where "pd_modeConfig = 100"
definition pd_modeCurId :: u32 where "pd_modeCurId = 101"
definition pd_buttonDataReady :: u32 where "pd_buttonDataReady = 103"
definition pd_nrOfModes :: u32 where "pd_nrOfModes = 104"
definition pd_modeCurOffs :: u32 where "pd_modeCurOffs = 105"
definition pd_nrOfActuators :: u32 where "pd_nrOfActuators = 106"
definition pd_state :: u32 where "pd_state = 112"
definition pd_reqState :: u32 where "pd_reqState = 113"
definition pd_currentTask :: u32 where "pd_currentTask = 114"
definition pd_size :: u32 where "pd_size = 128"

section \<open>Queries\<close>

definition pad_index :: "u32 \<Rightarrow> u32 \<Rightarrow> (nat \<times> nat) option" where
  "pad_index port slot = (if port < 2 \<and> slot < 8 then Some (unat port, unat slot) else None)"

definition upd_pad :: "nat \<times> nat \<Rightarrow> (pad_state \<Rightarrow> pad_state) \<Rightarrow> 'a pad_scheme \<Rightarrow> 'a pad_scheme" where
  "upd_pad i f s = s\<lparr>PadState := (PadState s)(i := f (PadState s i))\<rparr>"

definition padGetDmaStr :: "u32 \<Rightarrow> u32 \<Rightarrow> 'a pad_scheme \<Rightarrow> u32 option" where
  "padGetDmaStr port slot s =
     (case pad_index port slot of
       None \<Rightarrow> None
     | Some i \<Rightarrow>
         (let pdata = padData (PadState s i)
          in if ldw (pdata + pd_frame) s < ldw (pdata + pd_size + pd_frame) s then Some (pdata + pd_size) else Some pdata))"

definition sbcall_padread :: "u32 \<Rightarrow> 'a pad_scheme \<Rightarrow> (u32 \<times> 'a pad_scheme) option" where
  "sbcall_padread arg s =
     (case padGetDmaStr (ldw arg s) (ldw (arg + 4) s) s of
       None \<Rightarrow> None
     | Some pdata \<Rightarrow>
         (let n = ldw (pdata + pd_length) s;
              s = memcpy (unat n) (ldw (arg + 8) s) pdata s
          in Some (ldw (pdata + pd_length) s, s)))"

definition padGetReqState :: "u32 \<Rightarrow> u32 \<Rightarrow> 'a pad_scheme \<Rightarrow> u8 option" where
  "padGetReqState port slot s = map_option (\<lambda>pdata. ldb (pdata + pd_reqState) s) (padGetDmaStr port slot s)"

definition sbcall_padgetstate :: "u32 \<Rightarrow> 'a pad_scheme \<Rightarrow> u8 option" where
  "sbcall_padgetstate arg s =
     (case padGetDmaStr (ldw arg s) (ldw (arg + 4) s) s of
       None \<Rightarrow> None
     | Some pdata \<Rightarrow>
         (let state = ldb (pdata + pd_state) s
          in if state = PAD_STATE_STABLE
             then case padGetReqState (ldw arg s) (ldw (arg + 4) s) s of
                 None \<Rightarrow> None
               | Some r \<Rightarrow> Some (if r = PAD_RSTAT_BUSY then PAD_STATE_EXECCMD else state)
             else Some state))"

definition sbcall_padgetreqstate :: "u32 \<Rightarrow> 'a pad_scheme \<Rightarrow> u8 option" where
  "sbcall_padgetreqstate arg s = padGetReqState (ldw arg s) (ldw (arg + 4) s) s"

definition padSetReqState :: "u32 \<Rightarrow> u32 \<Rightarrow> u8 \<Rightarrow> 'a pad_scheme \<Rightarrow> 'a pad_scheme option" where
  "padSetReqState port slot state s = map_option (\<lambda>pdata. stb state (pdata + pd_reqState) s) (padGetDmaStr port slot s)"

definition sbcall_padinfomode :: "u32 \<Rightarrow> 'a pad_scheme \<Rightarrow> u32 option" where
  "sbcall_padinfomode arg s =
     (case padGetDmaStr (ldw arg s) (ldw (arg + 4) s) s of
       None \<Rightarrow> None
     | Some pdata \<Rightarrow>
         (let trm = ldw (arg + 8) s; offset = ldw (arg + 12) s;
              modeConfig = ldb (pdata + pd_modeConfig) s;
              nrOfModes = ldb (pdata + pd_nrOfModes) s
          in Some (
            if ldb (pdata + pd_currentTask) s \<noteq> 1 then 0
            else if ldb (pdata + pd_reqState) s = PAD_RSTAT_BUSY then 0
            else if trm = PAD_MODECURID then
              (let cur = ldb (pdata + pd_modeCurId) s in if cur = 0xF3 then 0 else ucast (drop_bit 4 cur))
            else if trm = PAD_MODECUREXID then
              (if modeConfig = ldb (pdata + pd_currentTask) s then 0
               else ucast (rd16 (pdata + pd_modeTable + 2 * ucast (ldb (pdata + pd_modeCurOffs) s)) s))
            else if trm = PAD_MODECUROFFS then
              (if modeConfig \<noteq> 0 then ucast (ldb (pdata + pd_modeCurOffs) s) else 0)
            else if trm = PAD_MODETABLE then
              (if modeConfig \<noteq> 0
               then if offset = - 1 then ucast nrOfModes
                 else if sint offset < int (unat nrOfModes) then ucast (rd16 (pdata + pd_modeTable + 2 * offset) s)
                 else 0
               else 0)
            else 0)))"

definition sbcall_padinfoact :: "u32 \<Rightarrow> 'a pad_scheme \<Rightarrow> u32 option" where
  "sbcall_padinfoact arg s =
     (case padGetDmaStr (ldw arg s) (ldw (arg + 4) s) s of
       None \<Rightarrow> None
     | Some pdata \<Rightarrow>
         (let actno = ldw (arg + 8) s; trm = ldw (arg + 12) s;
              n = ldb (pdata + pd_nrOfActuators) s
          in Some (
            if ldb (pdata + pd_currentTask) s \<noteq> 1 then 0
            else if ldb (pdata + pd_modeConfig) s < 2 then 0
            else if sint actno \<ge> int (unat n) then 0
            else if actno = - 1 then ucast n
            else if sint trm \<ge> 4 then 0
            else ucast (ldb (pdata + pd_actData + (actno * 4 + trm)) s))))"

text \<open>
  The names of states for debugging output. The second table has three entries although its index is tested against four, so
  state 3, like a negative state, reads outside the table.
\<close>

definition padStateString :: "string list" where
  "padStateString = [''DISCONNECT'', ''FINDPAD'', ''FINDCTP1'', '''', '''', ''EXECCMD'', ''STABLE'', ''ERROR'']"

definition padReqStateString :: "string list" where
  "padReqStateString = [''COMPLETE'', ''FAILED'', ''BUSY'']"

definition padStateInt2String :: "int \<Rightarrow> string \<Rightarrow> string option" where
  "padStateInt2String state buf =
     (if state < 8 then if 0 \<le> state then Some (padStateString ! nat state) else None else Some buf)"

definition padReqStateInt2String :: "int \<Rightarrow> string \<Rightarrow> string option" where
  "padReqStateInt2String state buf =
     (if state < 4 then if 0 \<le> state \<and> state < 3 then Some (padReqStateString ! nat state) else None else Some buf)"

section \<open>Requests\<close>

text \<open>Every request goes to the first server as function 1 with the shared buffer for both directions.\<close>

definition pad_send :: "u32 \<Rightarrow> u32 \<Rightarrow> 'a pad_scheme \<Rightarrow> (u32 \<times> 'a pad_scheme) option" where
  "pad_send stage2 carg s =
     (case SifCallRpc [] (a_padsif0 s) 1 SIF_RPC_M_NOWAIT (a_padbuffer s) 128 (a_padbuffer s) 128 stage2 carg s of
       None \<Rightarrow> None
     | Some (r, s) \<Rightarrow> if sint r < 0 then Some (- SIF_RPCE_SENDP, s) else Some (0, s))"

text \<open>The words of the buffer, by their index.\<close>

definition put_words :: "(nat \<times> u32) list \<Rightarrow> 'a pad_scheme \<Rightarrow> 'a pad_scheme" where
  "put_words ws s = foldl (\<lambda>s (k, v). stw v (a_padbuffer s + of_nat (4 * k)) s) s ws"

definition buffer_word :: "nat \<Rightarrow> 'a pad_scheme \<Rightarrow> u32" where
  "buffer_word k s = ldw (a_padbuffer s + of_nat (4 * k)) s"

definition padCallback ::
  "(u32 \<Rightarrow> u32 \<Rightarrow> u32 \<Rightarrow> 'a pad_scheme \<Rightarrow> 'a pad_scheme option) \<Rightarrow> u32 \<Rightarrow> 'a pad_scheme \<Rightarrow> 'a pad_scheme option" where
  "padCallback notify carg s = deliver notify carg (set_result carg (buffer_word 3 s) s)"

definition padInitCallback ::
  "(u32 \<Rightarrow> u32 \<Rightarrow> u32 \<Rightarrow> 'a pad_scheme \<Rightarrow> 'a pad_scheme option) \<Rightarrow> u32 \<Rightarrow> 'a pad_scheme \<Rightarrow> 'a pad_scheme option" where
  "padInitCallback notify carg s =
     (let c = padInitialiseCounter s;
          s = (if c = 0 then
                 (if cl_server (clients s (a_padsif0 s)) = 0 then set_result carg 0 s
                  else (set_result carg 0 s)\<lparr>padInitialiseCounter := c + 1\<rparr>)
               else if c = 1 then
                 (if cl_server (clients s (a_padsif1 s)) = 0 then set_result carg 0 s
                  else (set_result carg 0 s)\<lparr>padInitialiseCounter := c + 1\<rparr>)
               else if c = 2 then
                 (if 0 < sint (buffer_word 3 s) then (set_result carg 0 s)\<lparr>padInitialiseCounter := c + 1\<rparr>
                  else set_result carg (- 6) s)
               else if c = 3 then (set_result carg 1 s)\<lparr>padInitialiseCounter := c + 1\<rparr>
               else set_result carg (- 20) s)
      in deliver notify carg s)"

definition set_server :: "u32 \<Rightarrow> u32 \<Rightarrow> 'a pad_scheme \<Rightarrow> 'a pad_scheme" where
  "set_server cd v s = upd_client cd (\<lambda>c. c\<lparr>cl_server := v\<rparr>) s"

definition clear_ports :: "'a pad_scheme \<Rightarrow> 'a pad_scheme" where
  "clear_ports s = s\<lparr>PadState := \<lambda>i. if fst i < 2 \<and> snd i < 8
     then (PadState s i)\<lparr>pad_open := 0, pad_port := 0, pad_slot := 0\<rparr> else PadState s i\<rparr>"

definition pad_bind :: "u32 \<Rightarrow> u32 \<Rightarrow> u32 \<Rightarrow> 'a pad_scheme \<Rightarrow> (u32 \<times> 'a pad_scheme) option" where
  "pad_bind cd sid carg s =
     (case SifBindRpc [] cd sid SIF_RPC_M_NOWAIT (a_padInitCallback s) carg s of
       None \<Rightarrow> None
     | Some (r, s) \<Rightarrow> if sint r < 0 then Some (- SIF_RPCE_SENDP, s) else Some (0, s))"

definition sbcall_padinit ::
  "(u32 \<Rightarrow> u32 \<Rightarrow> u32 \<Rightarrow> 'a pad_scheme \<Rightarrow> 'a pad_scheme option) \<Rightarrow> u32 \<Rightarrow> 'a pad_scheme \<Rightarrow> (u32 \<times> 'a pad_scheme) option" where
  "sbcall_padinit notify carg s =
     (let c = padInitialiseCounter s
      in if c = 0 then
           let s = clear_ports (set_server (a_padsif1 s) 0 (set_server (a_padsif0 s) 0 s))
           in pad_bind (a_padsif0 s) PAD_BIND_RPC_ID1 carg s
         else if c = 1 then pad_bind (a_padsif1 s) PAD_BIND_RPC_ID2 carg s
         else if c = 2 then pad_send (a_padInitCallback s) carg (put_words [(0, PAD_RPCCMD_GET_MODVER)] s)
         else if c = 3 then pad_send (a_padInitCallback s) carg (put_words [(0, PAD_RPCCMD_INIT), (4, a_openSlot s)] s)
         else map_option (Pair 0) (deliver notify carg (set_result carg 1 s)))"

definition padReset :: "'a pad_scheme \<Rightarrow> 'a pad_scheme" where
  "padReset s = set_server (a_padsif1 s) 0 (set_server (a_padsif0 s) 0 (s\<lparr>padInitialiseCounter := 0\<rparr>))"

definition padEndCallback ::
  "(u32 \<Rightarrow> u32 \<Rightarrow> u32 \<Rightarrow> 'a pad_scheme \<Rightarrow> 'a pad_scheme option) \<Rightarrow> u32 \<Rightarrow> 'a pad_scheme \<Rightarrow> 'a pad_scheme option" where
  "padEndCallback notify carg s =
     (let ret = buffer_word 3 s;
          s = if ret = 1 then padReset s else s
      in deliver notify carg (set_result carg ret s))"

definition sbcall_padend :: "u32 \<Rightarrow> 'a pad_scheme \<Rightarrow> (u32 \<times> 'a pad_scheme) option" where
  "sbcall_padend carg s = pad_send (a_padEndCallback s) carg (put_words [(0, PAD_RPCCMD_END)] s)"

definition padPortOpenCallback ::
  "(u32 \<Rightarrow> u32 \<Rightarrow> u32 \<Rightarrow> 'a pad_scheme \<Rightarrow> 'a pad_scheme option) \<Rightarrow> u32 \<Rightarrow> 'a pad_scheme \<Rightarrow> 'a pad_scheme option" where
  "padPortOpenCallback notify carg s =
     (let arg = ra_sbarg (rpc_args s carg);
          s = set_result carg (buffer_word 3 s) s
      in case pad_index (ldw arg s) (ldw (arg + 4) s) of
           None \<Rightarrow> None
         | Some i \<Rightarrow> deliver notify carg (upd_pad i (\<lambda>p. p\<lparr>padBuf := buffer_word 5 s\<rparr>) s))"

definition clear_half :: "u32 \<Rightarrow> 'a pad_scheme \<Rightarrow> 'a pad_scheme" where
  "clear_half d s =
     (let s = memset 32 0xff d s;
          s = stw 0 (d + pd_frame) s;
          s = stw 0 (d + pd_length) s;
          s = stb PAD_STATE_EXECCMD (d + pd_state) s;
          s = stb PAD_RSTAT_BUSY (d + pd_reqState) s;
          s = stw 0 (d + pd_length) s;
          s = stb 0 (d + pd_currentTask) s
      in stb 0 (d + pd_buttonDataReady) s)"

definition sbcall_padportopen :: "u32 \<Rightarrow> 'a pad_scheme \<Rightarrow> (u32 \<times> 'a pad_scheme) option" where
  "sbcall_padportopen carg s =
     (let arg = ra_sbarg (rpc_args s carg);
          addr = ldw (arg + 8) s
      in if addr AND 0x3f \<noteq> 0 then Some (- 1, s)
         else
           let s = clear_half (addr + pd_size) (clear_half addr s);
               s = put_words [(0, PAD_RPCCMD_OPEN), (1, ldw arg s), (2, ldw (arg + 4) s), (4, ldw (arg + 8) s)] s
           in case pad_send (a_padPortOpenCallback s) carg s of
                None \<Rightarrow> None
              | Some (r, s) \<Rightarrow>
                  (if r \<noteq> 0 then Some (r, s)
                   else case pad_index (ldw arg s) (ldw (arg + 4) s) of
                       None \<Rightarrow> None
                     | Some i \<Rightarrow> Some (0, upd_pad i (\<lambda>p. p\<lparr>pad_open := 1, padData := ldw (arg + 8) s\<rparr>) s)))"

definition sbcall_padportclose :: "u32 \<Rightarrow> 'a pad_scheme \<Rightarrow> (u32 \<times> 'a pad_scheme) option" where
  "sbcall_padportclose carg s =
     (let arg = ra_sbarg (rpc_args s carg)
      in case pad_send (a_padCallback s) carg
                (put_words [(0, PAD_RPCCMD_CLOSE), (1, ldw arg s), (2, ldw (arg + 4) s), (4, 1)] s) of
           None \<Rightarrow> None
         | Some (r, s) \<Rightarrow>
             (if r \<noteq> 0 then Some (r, s)
              else case pad_index (ldw arg s) (ldw (arg + 4) s) of
                  None \<Rightarrow> None
                | Some i \<Rightarrow> Some (0, upd_pad i (\<lambda>p. p\<lparr>pad_open := 0\<rparr>) s)))"

text \<open>A completed parameter change marks the controller as busy until the IOP reports again.\<close>

definition busy_callback ::
  "nat \<Rightarrow> (u32 \<Rightarrow> u32 \<Rightarrow> u32 \<Rightarrow> 'a pad_scheme \<Rightarrow> 'a pad_scheme option) \<Rightarrow> u32 \<Rightarrow> 'a pad_scheme \<Rightarrow> 'a pad_scheme option" where
  "busy_callback k notify carg s =
     (let arg = ra_sbarg (rpc_args s carg)
      in case (if buffer_word k s = 1 then padSetReqState (ldw arg s) (ldw (arg + 4) s) PAD_RSTAT_BUSY s else Some s) of
           None \<Rightarrow> None
         | Some s \<Rightarrow> deliver notify carg (set_result carg (buffer_word k s) s))"

definition padSetMainModeCallback where
  "padSetMainModeCallback = busy_callback 5"

definition sbcall_padsetmainmode :: "u32 \<Rightarrow> 'a pad_scheme \<Rightarrow> (u32 \<times> 'a pad_scheme) option" where
  "sbcall_padsetmainmode carg s =
     (let arg = ra_sbarg (rpc_args s carg)
      in pad_send (a_padSetMainModeCallback s) carg
           (put_words [(0, PAD_RPCCMD_SET_MMODE), (1, ldw arg s), (2, ldw (arg + 4) s), (3, ldw (arg + 8) s), (4, ldw (arg + 12) s)] s))"

definition padInfoPressModeCallback ::
  "(u32 \<Rightarrow> u32 \<Rightarrow> u32 \<Rightarrow> 'a pad_scheme \<Rightarrow> 'a pad_scheme option) \<Rightarrow> u32 \<Rightarrow> 'a pad_scheme \<Rightarrow> 'a pad_scheme option" where
  "padInfoPressModeCallback notify carg s =
     deliver notify carg (set_result carg (if buffer_word 3 s XOR 0x3ffff \<noteq> 0 then 0 else 1) s)"

definition sbcall_padinfopressmode :: "u32 \<Rightarrow> 'a pad_scheme \<Rightarrow> (u32 \<times> 'a pad_scheme) option" where
  "sbcall_padinfopressmode carg s =
     (let arg = ra_sbarg (rpc_args s carg)
      in pad_send (a_padInfoPressModeCallback s) carg
           (put_words [(0, PAD_RPCCMD_GET_BTNMASK), (1, ldw arg s), (2, ldw (arg + 4) s)] s))"

definition padSetButtonInfoCallback where
  "padSetButtonInfoCallback = busy_callback 4"

definition padSetButtonInfo :: "u32 \<Rightarrow> u32 \<Rightarrow> 'a pad_scheme \<Rightarrow> (u32 \<times> 'a pad_scheme) option" where
  "padSetButtonInfo carg buttonInfo s =
     (let arg = ra_sbarg (rpc_args s carg)
      in pad_send (a_padSetButtonInfoCallback s) carg
           (put_words [(0, PAD_RPCCMD_SET_BTNINFO), (1, ldw arg s), (2, ldw (arg + 4) s), (3, buttonInfo)] s))"

definition sbcall_padenterpressmode :: "u32 \<Rightarrow> 'a pad_scheme \<Rightarrow> (u32 \<times> 'a pad_scheme) option" where
  "sbcall_padenterpressmode carg s = padSetButtonInfo carg 0xFFF s"

definition sbcall_padexitpressmode :: "u32 \<Rightarrow> 'a pad_scheme \<Rightarrow> (u32 \<times> 'a pad_scheme) option" where
  "sbcall_padexitpressmode carg s = padSetButtonInfo carg 0 s"

definition padSetActAlignCallback where
  "padSetActAlignCallback = busy_callback 5"

definition put_acts :: "u32 \<Rightarrow> 'a pad_scheme \<Rightarrow> 'a pad_scheme" where
  "put_acts actAlign s = memcpy 6 (a_padbuffer s + 12) actAlign s"

definition sbcall_padsetactalign :: "u32 \<Rightarrow> 'a pad_scheme \<Rightarrow> (u32 \<times> 'a pad_scheme) option" where
  "sbcall_padsetactalign carg s =
     (let arg = ra_sbarg (rpc_args s carg); actAlign = ldw (arg + 8) s;
          s = put_words [(0, PAD_RPCCMD_SET_ACTALIGN), (1, ldw arg s), (2, ldw (arg + 4) s)] s
      in pad_send (a_padSetActAlignCallback s) carg (put_acts actAlign s))"

definition padSetActDirectCallback ::
  "(u32 \<Rightarrow> u32 \<Rightarrow> u32 \<Rightarrow> 'a pad_scheme \<Rightarrow> 'a pad_scheme option) \<Rightarrow> u32 \<Rightarrow> 'a pad_scheme \<Rightarrow> 'a pad_scheme option" where
  "padSetActDirectCallback notify carg s = deliver notify carg (set_result carg (buffer_word 5 s) s)"

definition sbcall_padsetactdirect :: "u32 \<Rightarrow> 'a pad_scheme \<Rightarrow> (u32 \<times> 'a pad_scheme) option" where
  "sbcall_padsetactdirect carg s =
     (let arg = ra_sbarg (rpc_args s carg); actAlign = ldw (arg + 8) s;
          s = put_words [(0, PAD_RPCCMD_SET_ACTDIR), (1, ldw arg s), (2, ldw (arg + 4) s)] s
      in pad_send (a_padSetActDirectCallback s) carg (put_acts actAlign s))"


section \<open>Preparing the double buffer\<close>

lemmas pd_defs = pd_actData_def pd_modeTable_def pd_frame_def pd_length_def pd_modeConfig_def pd_modeCurId_def
  pd_buttonDataReady_def pd_nrOfModes_def pd_modeCurOffs_def pd_nrOfActuators_def pd_state_def pd_reqState_def
  pd_currentTask_def pd_size_def

lemma calm_clear_half:
  assumes "words_off (rd_pkt_table s) 32 d"
  shows "calm s (clear_half d s)"
proof -
  have b: "off_table (rd_pkt_table s) ((d + of_nat k) AND NOT 3)" if "k < 128" for k
    using words_off_byte [OF assms] that by simp
  have w: "off_table (rd_pkt_table s) (d + of_nat (4 * k))" if "k < 32" for k using words_offD [OF assms that] .
  have st: "calm s t \<Longrightarrow> calm s (stw 0 (d + of_nat (4 * k)) t)" if "k < 32" for k t
    using calm_stw_last [of s t "d + of_nat (4 * k)"] w [OF that] calm_table [of s t] by simp
  have sb: "calm s t \<Longrightarrow> calm s (stb v (d + of_nat k) t)" if "k < 128" for k t v
    using calm_stb_last [of s t "d + of_nat k"] b [OF that] by simp
  have m: "calm s (memset 32 0xff d s)" by (rule calm_memset [OF assms]) simp
  show ?thesis
    using sb [of 103, OF _ sb [of 114, OF _ st [of 24, OF _ sb [of 113, OF _ sb [of 112, OF _ st [of 24, OF _ st [of 22, OF _ m]]]]]]]
    by (simp add: clear_half_def pd_defs Let_def)
qed

text \<open>What clearing one half of a double buffer leaves.\<close>

lemma clear_half_other:
  assumes "d AND 3 = 0" "\<forall>j < 32. PHYSADDR a \<noteq> PHYSADDR (d + of_nat (4 * j))"
  shows "ldw a (clear_half d s) = ldw a s"
proof -
  have w: "PHYSADDR a \<noteq> PHYSADDR (d + of_nat (4 * j))" if "j < 32" for j using assms(2) that by blast
  have b: "PHYSADDR a \<noteq> PHYSADDR ((d + of_nat k) AND NOT 3)" if "k < 128" for k
    using word_of_byte [OF assms(1), of k] w [of "k div 4"] that by simp
  have "ldw a (memset 32 0xff d s) = ldw a s" by (rule memset_word) (use b in simp)
  moreover have "ldw a (stb v (d + of_nat k) t) = ldw a t" if "k < 128" for k v and t :: "'a pad_scheme"
    using ldw_stb [OF b [OF that]] .
  from this [of 103] this [of 114] this [of 113] this [of 112]
  have "ldw a (stb v (d + 103) t) = ldw a t" "ldw a (stb v (d + 114) t) = ldw a t" "ldw a (stb v (d + 113) t) = ldw a t"
    "ldw a (stb v (d + 112) t) = ldw a t" for v and t :: "'a pad_scheme" by simp_all
  ultimately show ?thesis using w [of 22] w [of 24] by (simp add: clear_half_def pd_defs Let_def)
qed

lemma clear_half_words:
  assumes "d AND 3 = 0"
  shows "ldw (d + pd_frame) (clear_half d s) = 0" "ldw (d + pd_length) (clear_half d s) = 0"
    "ldb (d + pd_state) (clear_half d s) = PAD_STATE_EXECCMD" "ldb (d + pd_reqState) (clear_half d s) = PAD_RSTAT_BUSY"
    "ldb (d + pd_currentTask) (clear_half d s) = 0"
proof -
  have al: "(d + 103) AND NOT 3 = d + 100" "(d + 114) AND NOT 3 = d + 112" "(d + 113) AND NOT 3 = d + 112" "(d + 112) AND NOT 3 = d + 112"
    using word_of_byte [OF assms, of 103] word_of_byte [OF assms, of 114] word_of_byte [OF assms, of 113] word_of_byte [OF assms, of 112] by simp_all
  have ne: "PHYSADDR (d + 88) \<noteq> PHYSADDR (d + 100)" "PHYSADDR (d + 88) \<noteq> PHYSADDR (d + 112)" "PHYSADDR (d + 88) \<noteq> PHYSADDR (d + 96)"
    "PHYSADDR (d + 96) \<noteq> PHYSADDR (d + 100)" "PHYSADDR (d + 96) \<noteq> PHYSADDR (d + 112)"
    using region_distinct [of 22 25 d] region_distinct [of 22 28 d] region_distinct [of 22 24 d] region_distinct [of 24 25 d] region_distinct [of 24 28 d]
    by simp_all
  have st: "PHYSADDR a \<noteq> PHYSADDR (d + 100) \<Longrightarrow> ldw a (stb v (d + 103) t) = ldw a t"
    "PHYSADDR a \<noteq> PHYSADDR (d + 112) \<Longrightarrow> ldw a (stb v (d + 114) t) = ldw a t"
    "PHYSADDR a \<noteq> PHYSADDR (d + 112) \<Longrightarrow> ldw a (stb v (d + 113) t) = ldw a t"
    "PHYSADDR a \<noteq> PHYSADDR (d + 112) \<Longrightarrow> ldw a (stb v (d + 112) t) = ldw a t" for a v and t :: "'a pad_scheme"
    using ldw_stb [of a _ v t] al by metis+
  show "ldw (d + pd_frame) (clear_half d s) = 0" "ldw (d + pd_length) (clear_half d s) = 0"
    using ne by (simp_all add: clear_half_def pd_defs Let_def st)
  have byte: "PHYSADDR (d + of_nat j) = PHYSADDR (d + of_nat k) \<longleftrightarrow> j = k" if "j < 128" "k < 128" for j k
    using PHYSADDR_offset_eq_iff [of j k d] that by simp
  have bn: "PHYSADDR (d + 103) \<noteq> PHYSADDR (d + 112)" "PHYSADDR (d + 114) \<noteq> PHYSADDR (d + 112)" "PHYSADDR (d + 113) \<noteq> PHYSADDR (d + 112)"
    "PHYSADDR (d + 103) \<noteq> PHYSADDR (d + 113)" "PHYSADDR (d + 114) \<noteq> PHYSADDR (d + 113)" "PHYSADDR (d + 103) \<noteq> PHYSADDR (d + 114)"
    using byte [of 103 112] byte [of 114 112] byte [of 113 112] byte [of 103 113] byte [of 114 113] byte [of 103 114] by simp_all
  have wo: "ldb (d + of_nat k) (stw v (d + 96) t) = ldb (d + of_nat k) t" if "112 \<le> k" "k < 128" for k v and t :: "'a pad_scheme"
  proof (rule ldb_stw_other, intro allI impI)
    fix i :: nat
    assume "i < 4"
    then show "PHYSADDR (d + of_nat k) \<noteq> PHYSADDR (d + 96 + of_nat i)" using byte [of k "96 + i"] that by (simp add: add.assoc)
  qed
  show "ldb (d + pd_state) (clear_half d s) = PAD_STATE_EXECCMD" "ldb (d + pd_reqState) (clear_half d s) = PAD_RSTAT_BUSY"
    "ldb (d + pd_currentTask) (clear_half d s) = 0"
    using bn wo [of 112] wo [of 113] by (simp_all add: clear_half_def pd_defs Let_def ldb_stb)
qed


section \<open>Requests through the shared buffer\<close>

lemma pad_more:
  assumes "services.more t = services.more s"
  shows "a_padsif0 t = a_padsif0 s" "a_padsif1 t = a_padsif1 s" "a_padbuffer t = a_padbuffer s" "a_openSlot t = a_openSlot s"
    "PadState t = PadState s" "padInitialiseCounter t = padInitialiseCounter s" "a_padCallback t = a_padCallback s"
    "a_padInitCallback t = a_padInitCallback s" "a_padEndCallback t = a_padEndCallback s" "a_padPortOpenCallback t = a_padPortOpenCallback s"
    "a_padSetMainModeCallback t = a_padSetMainModeCallback s" "a_padInfoPressModeCallback t = a_padInfoPressModeCallback s"
    "a_padSetButtonInfoCallback t = a_padSetButtonInfoCallback s" "a_padSetActAlignCallback t = a_padSetActAlignCallback s"
    "a_padSetActDirectCallback t = a_padSetActDirectCallback s"
  using assms by (cases s; cases t; simp)+

text \<open>The module's buffer is where the code puts it: aligned, and not in the packet table.\<close>

definition pad_placed :: "'a pad_scheme \<Rightarrow> bool" where
  "pad_placed s \<longleftrightarrow> a_padbuffer s AND 0x0f = 0 \<and> words_off (rd_pkt_table s) 32 (a_padbuffer s)"

text \<open>The module's requests go through this buffer, which also takes the answers.\<close>

interpretation pad_buffer: request_buffer a_padbuffer a_padsif0 a_padbuffer put_words 1 128 128 pad_send
proof unfold_locales
  show "a_padbuffer t = a_padbuffer s \<and> a_padsif0 t = a_padsif0 s \<and> a_padbuffer t = a_padbuffer s"
    if "services.more t = services.more s" for s t :: "'a pad_scheme" using pad_more [OF that] by simp
qed (simp_all add: put_words_def pad_send_def)

lemma pad_request_effect:
  fixes s :: "'a pad_scheme"
  assumes "rpc_ready s" "pad_placed s" "distinct (map fst ws)" "\<forall>x \<in> set ws. fst x < 32"
  shows "\<exists>r s'. pad_send stage2 carg (put_words ws s) = Some (r, s') \<and> services.more s' = services.more s
    \<and> (if rpc_busy (a_padsif0 s) 128 s then r = - SIF_RPCE_SENDP
       else r = 0 \<and> requested (a_padsif0 s) 1 (a_padbuffer s) 128 (a_padbuffer s) 128 stage2 carg s s')
    \<and> (\<forall>x \<in> set ws. buffer_word (fst x) s' = snd x)
    \<and> (\<forall>a. off_table (rd_pkt_table s) a \<and> (\<forall>k < 32. PHYSADDR a \<noteq> PHYSADDR (a_padbuffer s + of_nat (4 * k))) \<longrightarrow> ldw a s' = ldw a s)"
proof -
  have "words_off (rd_pkt_table s) 32 (a_padbuffer s)" "a_padbuffer s AND 0x0f = 0" using assms(2) by (simp_all add: pad_placed_def)
  from pad_buffer.request_effect [OF assms(1) this _ assms(3,4), of stage2 carg]
  obtain r s' where s': "pad_send stage2 carg (put_words ws s) = Some (r, s')" "services.more s' = services.more s"
      "if rpc_busy (a_padsif0 s) 128 s then r = - SIF_RPCE_SENDP
       else r = 0 \<and> requested (a_padsif0 s) 1 (a_padbuffer s) 128 (a_padbuffer s) 128 stage2 carg s s'"
      "\<forall>x \<in> set ws. ldw (a_padbuffer s + of_nat (4 * fst x)) s' = snd x"
      "\<forall>a. off_table (rd_pkt_table s) a \<and> (\<forall>k < 32. PHYSADDR a \<noteq> PHYSADDR (a_padbuffer s + of_nat (4 * k))) \<longrightarrow> ldw a s' = ldw a s"
    by auto
  have "\<forall>x \<in> set ws. buffer_word (fst x) s' = snd x" using s'(4) pad_more(3) [OF s'(2)] by (simp add: buffer_word_def)
  then show ?thesis using s'(1-3,5) by blast
qed

section \<open>Opening a port\<close>

definition cleared :: "u32 \<Rightarrow> 'a pad_scheme \<Rightarrow> 'a pad_scheme" where
  "cleared addr s = clear_half (addr + pd_size) (clear_half addr s)"

text \<open>A double buffer at \<open>addr\<close> on which no query can report a finished operation.\<close>

definition pad_pending :: "u32 \<Rightarrow> 'a pad_scheme \<Rightarrow> bool" where
  "pad_pending d s \<longleftrightarrow> ldw (d + pd_frame) s = 0 \<and> ldw (d + pd_size + pd_frame) s = 0 \<and> ldw (d + pd_length) s = 0
     \<and> ldb (d + pd_state) s = PAD_STATE_EXECCMD \<and> ldb (d + pd_reqState) s = PAD_RSTAT_BUSY \<and> ldb (d + pd_currentTask) s = 0"

lemma pad_pending_queries:
  assumes "pad_index (ldw q s) (ldw (q + 4) s) = Some i" "padData (PadState s i) = d" "pad_pending d s"
  shows "sbcall_padgetstate q s = Some PAD_STATE_EXECCMD" "sbcall_padgetreqstate q s = Some PAD_RSTAT_BUSY"
    "sbcall_padread q s = Some (0, s)" "sbcall_padinfomode q s = Some 0" "sbcall_padinfoact q s = Some 0"
proof -
  have g: "padGetDmaStr (ldw q s) (ldw (q + 4) s) s = Some d" using assms by (simp add: padGetDmaStr_def pad_pending_def Let_def)
  show "sbcall_padgetstate q s = Some PAD_STATE_EXECCMD" "sbcall_padgetreqstate q s = Some PAD_RSTAT_BUSY"
    "sbcall_padread q s = Some (0, s)" "sbcall_padinfomode q s = Some 0" "sbcall_padinfoact q s = Some 0"
    using assms(3) by (simp_all add: sbcall_padgetstate_def sbcall_padgetreqstate_def padGetReqState_def sbcall_padread_def
        sbcall_padinfomode_def sbcall_padinfoact_def g pad_pending_def PAD_STATE_EXECCMD_def PAD_STATE_STABLE_def Let_def)
qed

lemma pad_pending_cong:
  assumes "d AND 3 = 0" "\<forall>j < 64. ldw (d + of_nat (4 * j)) t = ldw (d + of_nat (4 * j)) s"
  shows "pad_pending d t = pad_pending d s"
proof -
  have w: "ldw (d + of_nat (4 * j)) t = ldw (d + of_nat (4 * j)) s" if "j < 64" for j using assms(2) that by blast
  have b: "ldb (d + of_nat k) t = ldb (d + of_nat k) s" if "k < 256" for k
    using ldb_word [OF assms(1), of k t] ldb_word [OF assms(1), of k s] w [of "k div 4"] that by simp
  show ?thesis
    using w [of 22] w [of 54] w [of 24] b [of 112] b [of 113] b [of 114] by (simp add: pad_pending_def pd_defs add.assoc)
qed

lemma words_off_half:
  assumes "words_off b 64 a"
  shows "words_off b 32 a" "words_off b 32 (a + pd_size)"
proof -
  have "off_table b (a + pd_size + of_nat (4 * k))" if "k < 32" for k
    using words_offD [OF assms, of "k + 32"] that by (simp add: pd_defs add.commute add.left_commute)
  moreover have "(a + 128) AND 3 = 0"
    using assms word_of_byte [of a 128] by (simp add: words_off_def) (metis unat_eq_zero)
  ultimately show "words_off b 32 (a + pd_size)" by (simp add: words_off_def pd_defs)
qed (use assms in \<open>simp add: words_off_def\<close>)

lemma cleared_facts:
  assumes "words_off (rd_pkt_table s) 64 addr"
  shows "calm s (cleared addr s)" "pad_pending addr (cleared addr s)"
    "\<forall>j < 64. PHYSADDR a \<noteq> PHYSADDR (addr + of_nat (4 * j)) \<Longrightarrow> ldw a (cleared addr s) = ldw a s"
proof -
  let ?h = "clear_half addr s"
  note half = words_off_half [OF assms]
  have al: "addr AND 3 = 0" "(addr + pd_size) AND 3 = 0" using half by (simp_all add: words_off_def)
  have c: "calm s ?h" by (rule calm_clear_half [OF half(1)])
  show "calm s (cleared addr s)"
    unfolding cleared_def by (rule calm_trans [OF c calm_clear_half]) (simp add: calm_table [OF c] half(2))
  have first: "ldw (addr + of_nat (4 * j)) (cleared addr s) = ldw (addr + of_nat (4 * j)) ?h" if "j < 32" for j
  proof -
    have "PHYSADDR (addr + of_nat (4 * j)) \<noteq> PHYSADDR (addr + pd_size + of_nat (4 * k))" if "k < 32" for k
      using region_distinct [of j "k + 32" addr] that \<open>j < 32\<close> by (simp add: pd_defs add.commute add.left_commute)
    then show ?thesis unfolding cleared_def by (intro clear_half_other [OF al(2)]) blast
  qed
  have byte: "ldb (addr + of_nat k) (cleared addr s) = ldb (addr + of_nat k) ?h" if "k < 128" for k
    using ldb_word [OF al(1), of k ?h] ldb_word [OF al(1), of k "cleared addr s"] first [of "k div 4"] that by simp
  show "pad_pending addr (cleared addr s)"
    using clear_half_words [OF al(1), of s] clear_half_words(1) [OF al(2), of ?h] first [of 22] first [of 24] byte [of 112] byte [of 113] byte [of 114]
    by (simp add: pad_pending_def) (simp add: pd_defs cleared_def)
  show "ldw a (cleared addr s) = ldw a s" if "\<forall>j < 64. PHYSADDR a \<noteq> PHYSADDR (addr + of_nat (4 * j))"
  proof -
    have "PHYSADDR a \<noteq> PHYSADDR (addr + pd_size + of_nat (4 * k))" if "k < 32" for k
      using \<open>\<forall>j < 64. _ j\<close> [rule_format, of "k + 32"] that by (simp add: pd_defs add.commute add.left_commute)
    then have "ldw a (cleared addr s) = ldw a ?h" unfolding cleared_def by (intro clear_half_other [OF al(2)]) blast
    moreover have "ldw a ?h = ldw a s" using that by (intro clear_half_other [OF al(1)]) simp
    ultimately show ?thesis by simp
  qed
qed


text \<open>The caller's blocks: arguments, double buffer and the module's buffer do not overlap each other or the packet table.\<close>

definition open_layout :: "u32 \<Rightarrow> u32 \<Rightarrow> 'a pad_scheme \<Rightarrow> bool" where
  "open_layout arg addr s \<longleftrightarrow> words_off (rd_pkt_table s) 64 addr \<and> words_off (rd_pkt_table s) 3 arg
     \<and> words_apart 64 addr 32 (a_padbuffer s) \<and> words_apart 3 arg 64 addr \<and> words_apart 3 arg 32 (a_padbuffer s)"

lemma open_layout_arg:
  assumes "open_layout arg addr s" "j < 3"
  shows "off_table (rd_pkt_table s) (arg + of_nat (4 * j))"
    "\<forall>k < 64. PHYSADDR (arg + of_nat (4 * j)) \<noteq> PHYSADDR (addr + of_nat (4 * k))"
    "\<forall>k < 32. PHYSADDR (arg + of_nat (4 * j)) \<noteq> PHYSADDR (a_padbuffer s + of_nat (4 * k))"
  using assms words_offD [of "rd_pkt_table s" 3 arg j] unfolding open_layout_def words_apart_def by blast+

definition open_words :: "u32 \<Rightarrow> 'a pad_scheme \<Rightarrow> (nat \<times> u32) list" where
  "open_words arg s = [(0, PAD_RPCCMD_OPEN), (1, ldw arg s), (2, ldw (arg + 4) s), (4, ldw (arg + 8) s)]"

lemma padportopen_effect:
  fixes s :: "'a pad_scheme"
  assumes "rpc_ready s" "pad_placed s" "arg = ra_sbarg (rpc_args s carg)" "addr = ldw (arg + 8) s" "addr AND 0x3f = 0"
    and "open_layout arg addr s" "pad_index (ldw arg s) (ldw (arg + 4) s) = Some i"
  shows "\<exists>r t. sbcall_padportopen carg s = Some (r, t) \<and> pad_pending addr t \<and> (\<forall>x \<in> set (open_words arg s). buffer_word (fst x) t = snd x)
    \<and> (if rpc_busy (a_padsif0 s) 128 s then r = - SIF_RPCE_SENDP \<and> PadState t = PadState s
       else r = 0 \<and> PadState t = (PadState s)(i := (PadState s i)\<lparr>pad_open := 1, padData := addr\<rparr>)
         \<and> (\<exists>u. requested (a_padsif0 s) 1 (a_padbuffer s) 128 (a_padbuffer s) 128 (a_padPortOpenCallback s) carg s u
              \<and> t = u\<lparr>PadState := (PadState s)(i := (PadState s i)\<lparr>pad_open := 1, padData := addr\<rparr>)\<rparr>))"
proof -
  let ?u = "cleared addr s"
  have off: "words_off (rd_pkt_table s) 64 addr" and ap: "words_apart 64 addr 32 (a_padbuffer s)" using assms(6) by (simp_all add: open_layout_def)
  note u = cleared_facts [OF off]
  note um = pad_more [OF calm_more [OF u(1)]]
  have ur: "rpc_ready ?u" "rd_pkt_table ?u = rd_pkt_table s" "pad_placed ?u"
    using u(1) assms(1,2) um(3) by (simp_all add: calm_def pad_placed_def)
  have rpc: "rpc_busy cd n ?u = rpc_busy cd n s" "requested cd m w a b n e x ?u v = requested cd m w a b n e x s v" for cd m w a b n e x v
    using u(1) by (simp_all add: calm_def rpc_busy_def requested_def)
  have arg: "ldw (arg + of_nat (4 * j)) ?u = ldw (arg + of_nat (4 * j)) s" if "j < 3" for j
    using u(3) open_layout_arg(2) [OF assms(6) that] by blast
  have words: "open_words arg ?u = open_words arg s" using arg [of 0] arg [of 1] arg [of 2] by (simp add: open_words_def)
  have "distinct (map fst (open_words arg s))" "\<forall>x \<in> set (open_words arg s). fst x < 32" by (simp_all add: open_words_def)
  from pad_request_effect [OF ur(1,3) this, of "a_padPortOpenCallback s" carg]
  obtain r t where t: "pad_send (a_padPortOpenCallback s) carg (put_words (open_words arg s) ?u) = Some (r, t)" "services.more t = services.more ?u"
      "if rpc_busy (a_padsif0 s) 128 s then r = - SIF_RPCE_SENDP
       else r = 0 \<and> requested (a_padsif0 s) 1 (a_padbuffer s) 128 (a_padbuffer s) 128 (a_padPortOpenCallback s) carg s t"
      "\<forall>x \<in> set (open_words arg s). buffer_word (fst x) t = snd x"
      "\<And>a. off_table (rd_pkt_table s) a \<Longrightarrow> \<forall>k < 32. PHYSADDR a \<noteq> PHYSADDR (a_padbuffer s + of_nat (4 * k)) \<Longrightarrow> ldw a t = ldw a ?u"
    unfolding rpc um ur(2) by blast
  have targ: "ldw (arg + of_nat (4 * j)) t = ldw (arg + of_nat (4 * j)) s" if "j < 3" for j
    using t(5) [OF open_layout_arg(1) [OF assms(6) that]] open_layout_arg(3) [OF assms(6) that] arg [OF that] by simp
  have "\<forall>j < 64. ldw (addr + of_nat (4 * j)) t = ldw (addr + of_nat (4 * j)) ?u"
    using t(5) [OF words_offD [OF off]] ap by (auto simp: words_apart_def)
  then have pend: "pad_pending addr t" using pad_pending_cong [of addr t ?u] off u(2) by (simp add: words_off_def)
  have tp: "PadState t = PadState s" using pad_more(5) [OF t(2)] um(5) by simp
  let ?t = "upd_pad i (\<lambda>p. p\<lparr>pad_open := 1, padData := addr\<rparr>) t"
  have put: "put_words [(0, PAD_RPCCMD_OPEN), (1, ldw arg ?u), (2, ldw (arg + 4) ?u), (4, ldw (arg + 8) ?u)] ?u = put_words (open_words arg s) ?u"
    unfolding open_words_def [symmetric] words ..
  have cb: "a_padPortOpenCallback (put_words ws v) = a_padPortOpenCallback v" for ws and v :: "'a pad_scheme"
    by (induction ws arbitrary: v) (auto simp: put_words_def stw_def)
  have open_eq: "sbcall_padportopen carg s = Some (if r \<noteq> 0 then (r, t) else (0, ?t))"
    unfolding sbcall_padportopen_def Let_def assms(3) [symmetric] assms(4) [symmetric] cleared_def [symmetric] put cb um(10) t(1)
    using assms(4,5,7) targ [of 0] targ [of 1] targ [of 2] by simp
  show ?thesis
  proof (cases "rpc_busy (a_padsif0 s) 128 s")
    case True
    then show ?thesis using open_eq t(3,4) pend tp by (auto simp: SIF_RPCE_SENDP_def)
  next
    case False
    have "pad_pending addr ?t = pad_pending addr t" by (simp add: pad_pending_def upd_pad_def ldw_def ldb_def)
    moreover have "buffer_word k ?t = buffer_word k t" for k by (simp add: buffer_word_def upd_pad_def ldw_def)
    moreover have "?t = t\<lparr>PadState := (PadState s)(i := (PadState s i)\<lparr>pad_open := 1, padData := addr\<rparr>)\<rparr>"
      using tp by (simp add: upd_pad_def)
    ultimately show ?thesis using False open_eq t(3,4) pend tp by (auto simp: upd_pad_def)
  qed
qed

section \<open>Properties\<close>


text \<open>
  The other requests to the controller module return on every path: \<open>-SIF_RPCE_SENDP\<close> if no request can be sent, else 0 with a request on its
  way that names the end function of the command. The words of the command are in the shared buffer afterwards in both cases, so a refused
  command has overwritten the buffer of the one that is out.
\<close>

theorem pad_request_outcome:
  fixes s :: "'a pad_scheme"
  assumes "rpc_ready s" "pad_placed s" "arg = ra_sbarg (rpc_args s carg)"
    and "(op, stage2, ws) \<in> {(sbcall_padend, a_padEndCallback s, [(0, PAD_RPCCMD_END)]),
      (sbcall_padsetmainmode, a_padSetMainModeCallback s,
         [(0, PAD_RPCCMD_SET_MMODE), (1, ldw arg s), (2, ldw (arg + 4) s), (3, ldw (arg + 8) s), (4, ldw (arg + 12) s)]),
      (sbcall_padinfopressmode, a_padInfoPressModeCallback s, [(0, PAD_RPCCMD_GET_BTNMASK), (1, ldw arg s), (2, ldw (arg + 4) s)]),
      (sbcall_padenterpressmode, a_padSetButtonInfoCallback s,
         [(0, PAD_RPCCMD_SET_BTNINFO), (1, ldw arg s), (2, ldw (arg + 4) s), (3, 0xFFF)]),
      (sbcall_padexitpressmode, a_padSetButtonInfoCallback s,
         [(0, PAD_RPCCMD_SET_BTNINFO), (1, ldw arg s), (2, ldw (arg + 4) s), (3, 0)])}"
  shows "\<exists>r s'. op carg s = Some (r, s') \<and> PadState s' = PadState s
    \<and> (if rpc_busy (a_padsif0 s) 128 s then r = - SIF_RPCE_SENDP
       else r = 0 \<and> requested (a_padsif0 s) 1 (a_padbuffer s) 128 (a_padbuffer s) 128 stage2 carg s s')
    \<and> (\<forall>x \<in> set ws. buffer_word (fst x) s' = snd x)"
proof -
  have "op carg s = pad_send stage2 carg (put_words ws s)" "distinct (map fst ws)" "\<forall>x \<in> set ws. fst x < 32"
    using assms(3,4)
    by (auto simp: sbcall_padend_def sbcall_padsetmainmode_def sbcall_padinfopressmode_def sbcall_padenterpressmode_def
        sbcall_padexitpressmode_def padSetButtonInfo_def Let_def)
  then show ?thesis using pad_request_effect [OF assms(1,2), of ws stage2 carg] pad_more(5) by metis
qed

section \<open>Witnesses\<close>

text \<open>A request to open port 1, slot 0 with the double buffer at \<open>0x80670000\<close>; the module's buffer is at \<open>0x80672000\<close>.\<close>

definition sample_pad :: pad where
  "sample_pad = services.extend
     (sifrpc.extend (sample_rpc\<lparr>clients := \<lambda>_. sample_client, mem := (\<lambda>_. 0)(0x651000 := 1, 0x651008 := 0x80670000)\<rparr>)
       (services.fields (\<lambda>_. 0)
         (\<lambda>_. \<lparr>ra_result = 0, ra_sbarg = 0x80651000, ra_endfunc = 0x80014000, ra_efarg = 6\<rparr>)))
     (pad.fields 4 (\<lambda>_. \<lparr>pad_open = 0, pad_port = 0, pad_slot = 0, padData = 0, padBuf = 0\<rparr>)
        0x80612000 0x80612100 0x80672000 0x80673000 1 2 3 4 5 6 7 8 9)"

lemma sample_pad_facts:
  "rpc_ready sample_pad" "a_padbuffer sample_pad = 0x80672000" "rd_pkt_table sample_pad = 0xa0700000" "a_padsif0 sample_pad = 0x80612000"
  "cl_pkt_addr (clients sample_pad 0x80612000) = 0" "unat (sif_get_number_of_free_dma_tags sample_pad) = 28" "cmd_tags 128 = 3"
  "\<not> pkt_allocated sample_pad 1" "ra_sbarg (rpc_args sample_pad 0x80651000) = 0x80651000"
  "ldw 0x80651000 sample_pad = 1" "ldw 0x80651004 sample_pad = 0" "ldw 0x80651008 sample_pad = 0x80670000"
  "padData (PadState sample_pad (1, 0)) = 0"
  by code_simp+

lemma sample_pad_placed: "pad_placed sample_pad"
  unfolding pad_placed_def sample_pad_facts(2,3)
  using words_offI [of "0x80672000" "0xa0700000" 32] by (simp add: PHYSADDR_def)

lemma sample_pad_layout: "open_layout 0x80651000 0x80670000 sample_pad"
  unfolding open_layout_def sample_pad_facts(2,3)
  using words_offI [of "0x80670000" "0xa0700000" 64] words_offI [of "0x80651000" "0xa0700000" 3]
    words_apartI(1) [of 64 32 "0x80672000" "0x80670000"] words_apartI(1) [of 3 64 "0x80670000" "0x80651000"]
    words_apartI(1) [of 3 32 "0x80672000" "0x80651000"]
  by (simp add: PHYSADDR_def)

lemma sample_pad_free: "\<not> rpc_busy (a_padsif0 sample_pad) 128 sample_pad"
proof -
  have "1 \<notin> pkts_used sample_pad" "1 \<in> {..<32 :: nat}" using sample_pad_facts(8) by (simp_all add: pkts_used_def)
  then have "pkts_used sample_pad \<noteq> {..<32}" by metis
  then show ?thesis unfolding rpc_busy_def using sample_pad_facts(4-7) by simp
qed


theorem pad_request_outcome_witness:
  "\<exists>t. sbcall_padend 0x80651000 sample_pad = Some (0, t) \<and> buffer_word 0 t = PAD_RPCCMD_END"
  using pad_request_outcome [OF sample_pad_facts(1) sample_pad_placed sample_pad_facts(9) [symmetric],
      of sbcall_padend "a_padEndCallback sample_pad" "[(0, PAD_RPCCMD_END)]"] sample_pad_free
  by auto

end
