(* ===== verification/IopMem.thy ===== *)
theory IopMem
  imports Bytes
begin

text \<open>
  What the EE sees of the IOP's memory (\<open>TGE/sbios/iopmem.c\<close>, \<open>smod.c\<close>, \<open>iopmemdebug.c\<close>, and their copies
  \<open>kernel/iopmem.c\<close> and \<open>kernel/smod.c\<close>): the list of loaded modules, and the debug console, a two-byte mailbox
  in the module \<open>sharedmem\<close> (\<open>iop/sharedmem/sharedmem.c\<close>) that the EE fills and a thread of the IOP empties.

  The IOP's memory appears at \<open>SUB_VIRT_MEM\<close> in the address space of the EE. Local objects that \<open>iop_read\<close>
  fills are values. A search through a module list that never ends gives \<open>None\<close>, and so does a comparison past the end of
  a local array.
\<close>

section \<open>Modules\<close>

definition SUB_VIRT_MEM :: u32 where "SUB_VIRT_MEM = 0xbc000000"

definition iop_read :: "u32 \<Rightarrow> nat \<Rightarrow> 'a hwst_scheme \<Rightarrow> u8 list" where
  "iop_read addr n s = map (\<lambda>i. ldb (addr + SUB_VIRT_MEM + of_nat i) s) [0..<n]"

definition iop_write :: "u32 \<Rightarrow> u8 list \<Rightarrow> 'a hwst_scheme \<Rightarrow> 'a hwst_scheme" where
  "iop_write addr bs s = foldl (\<lambda>s i. stb (bs ! i) (addr + SUB_VIRT_MEM + of_nat i) s) s [0..<length bs]"

record smod_mod_info =
  sm_next :: u32
  sm_name :: u32
  sm_version :: u16
  sm_newflags :: u16
  sm_id :: u16
  sm_flags :: u16
  sm_entry :: u32
  sm_gp :: u32
  sm_text_start :: u32
  sm_text_size :: u32
  sm_data_size :: u32
  sm_bss_size :: u32
  sm_unused1 :: u32
  sm_unused2 :: u32

text \<open>The object that \<open>iop_read(addr, &info, sizeof info)\<close> leaves in \<open>info\<close>.\<close>

definition iop_mod :: "u32 \<Rightarrow> 'a hwst_scheme \<Rightarrow> smod_mod_info" where
  "iop_mod addr s =
     (let a = addr + SUB_VIRT_MEM
      in \<lparr>sm_next = rd32 a s, sm_name = rd32 (a + 4) s, sm_version = rd16 (a + 8) s, sm_newflags = rd16 (a + 10) s,
          sm_id = rd16 (a + 12) s, sm_flags = rd16 (a + 14) s, sm_entry = rd32 (a + 16) s, sm_gp = rd32 (a + 20) s,
          sm_text_start = rd32 (a + 24) s, sm_text_size = rd32 (a + 28) s, sm_data_size = rd32 (a + 32) s,
          sm_bss_size = rd32 (a + 36) s, sm_unused1 = rd32 (a + 40) s, sm_unused2 = rd32 (a + 44) s\<rparr>)"

definition smod_get_next_mod ::
  "smod_mod_info option \<Rightarrow> smod_mod_info \<Rightarrow> 'a hwst_scheme \<Rightarrow> u32 \<times> smod_mod_info" where
  "smod_get_next_mod cur_mod next_mod s =
     (case cur_mod of
        None \<Rightarrow> let m = iop_mod 0x800 s in (ucast (sm_id m), m)
      | Some c \<Rightarrow> if sm_next c = 0 then (0, next_mod) else let m = iop_mod (sm_next c) s in (ucast (sm_id m), m))"

text \<open>\<open>memcmp\<close> of a local array with a text; past the end of the array it has no result.\<close>

definition same_start :: "u8 list \<Rightarrow> u8 list \<Rightarrow> bool option" where
  "same_start text buf = (if length text \<le> length buf then Some (take (length text) buf = text) else None)"

partial_function (option) smod_search ::
  "u8 list \<Rightarrow> 'a hwst_scheme \<Rightarrow> smod_mod_info \<Rightarrow> (u32 \<times> smod_mod_info) option" where
  "smod_search name s info =
     (case same_start name (iop_read (sm_name info) 60 s) of
        None \<Rightarrow> None
      | Some found \<Rightarrow>
          (if found then Some (ucast (sm_id info), info)
           else let (r, info) = smod_get_next_mod (Some info) info s
                in if r \<noteq> 0 then smod_search name s info else Some (0, info)))"

definition smod_get_mod_by_name ::
  "u8 list \<Rightarrow> smod_mod_info \<Rightarrow> 'a hwst_scheme \<Rightarrow> (u32 \<times> smod_mod_info) option" where
  "smod_get_mod_by_name name info s =
     (let (r, info) = smod_get_next_mod None info s
      in if r = 0 then Some (0, info) else smod_search name s info)"

partial_function (option) find_from ::
  "u8 list \<Rightarrow> 'a hwst_scheme \<Rightarrow> smod_mod_info option \<Rightarrow> smod_mod_info \<Rightarrow> (int \<times> smod_mod_info) option" where
  "find_from searchtext s current module =
     (let (r, module) = smod_get_next_mod current module s
      in if r = 0 then Some (- 1, module)
         else case same_start searchtext ((iop_read (sm_name module) 32 s)[31 := 0]) of
             None \<Rightarrow> None
           | Some found \<Rightarrow> if found then Some (0, module) else find_from searchtext s (Some module) module)"

definition find_module :: "u8 list \<Rightarrow> smod_mod_info \<Rightarrow> 'a hwst_scheme \<Rightarrow> (int \<times> smod_mod_info) option" where
  "find_module searchtext module s = find_from searchtext s None module"

section \<open>The console\<close>

definition str_bytes :: "string \<Rightarrow> u8 list" where
  "str_bytes = map of_char"

definition SHAREDMEM_MODULE_NAME :: "u8 list" where
  "SHAREDMEM_MODULE_NAME = str_bytes ''sharedmem''"

definition SHAREDMEM_MAGIC :: "u8 list" where
  "SHAREDMEM_MAGIC = str_bytes ''sharedmem debug area structure.'' @ [0]"

text \<open>The processors, each at a point of its loop: \<open>iop_putc\<close> on the EE and \<open>ioThread\<close> on the IOP.\<close>

datatype ee_pc = Poll | Put_data | Put_flag
datatype iop_pc = Listen | Print | Clear

record iopmem = hwst +
  sharedMem :: u32
  initialized :: nat
  ee_todo :: "u8 list"
  ee_at :: ee_pc
  iop_at :: iop_pc
  iop_out :: "u8 list"

text \<open>\<open>memcmp\<close> looks at as many characters of the magic text as the module name has, its terminator included.\<close>

partial_function (option) scan_magic :: "u32 \<Rightarrow> u32 \<Rightarrow> 'a hwst_scheme \<Rightarrow> u32 option option" where
  "scan_magic addr e s =
     (if addr < e
      then if take (length SHAREDMEM_MODULE_NAME + 1) (iop_read addr 32 s) = take (length SHAREDMEM_MODULE_NAME + 1) SHAREDMEM_MAGIC
        then Some (Some addr)
        else scan_magic (addr + 16) e s
      else Some None)"

definition iop_init_shared :: "smod_mod_info \<Rightarrow> 'a iopmem_scheme \<Rightarrow> 'a iopmem_scheme option" where
  "iop_init_shared module s =
     (case find_module SHAREDMEM_MODULE_NAME module s of
        None \<Rightarrow> None
      | Some (r, module) \<Rightarrow>
          (if r = 0
           then let addr = sm_text_start module + sm_text_size module;
                    e = addr + sm_data_size module + sm_bss_size module
                in case scan_magic ((addr + 16 - 1) AND NOT (16 - 1)) e s of
                     None \<Rightarrow> None
                   | Some None \<Rightarrow> Some (s\<lparr>initialized := 1\<rparr>)
                   | Some (Some dbg) \<Rightarrow> Some (s\<lparr>sharedMem := dbg + 32, initialized := 2\<rparr>)
           else Some (s\<lparr>initialized := 1\<rparr>)))"

text \<open>One access of \<open>iop_putc\<close> to the mailbox, for the first character that is left.\<close>

definition ee_act :: "'a iopmem_scheme \<Rightarrow> 'a iopmem_scheme" where
  "ee_act s =
     (case ee_todo s of
        [] \<Rightarrow> s
      | c # cs \<Rightarrow>
          (case ee_at s of
             Poll \<Rightarrow> if iop_read (sharedMem s) 1 s = [0] then s\<lparr>ee_at := Put_data\<rparr> else s
           | Put_data \<Rightarrow> (iop_write (sharedMem s + 1) [c] s)\<lparr>ee_at := Put_flag\<rparr>
           | Put_flag \<Rightarrow> (iop_write (sharedMem s) [0xFF] s)\<lparr>ee_at := Poll, ee_todo := cs\<rparr>))"

text \<open>One access of the IOP's thread; \<open>shared\<close> is an array in its own memory.\<close>

definition shared :: "nat \<Rightarrow> 'a iopmem_scheme \<Rightarrow> u8" where
  "shared i s = ldb (sharedMem s + SUB_VIRT_MEM + of_nat i) s"

definition iop_act :: "'a iopmem_scheme \<Rightarrow> 'a iopmem_scheme" where
  "iop_act s =
     (case iop_at s of
        Listen \<Rightarrow> if shared 0 s = 0 then s else s\<lparr>iop_at := Print\<rparr>
      | Print \<Rightarrow> s\<lparr>iop_out := iop_out s @ [shared 1 s], iop_at := Clear\<rparr>
      | Clear \<Rightarrow> (stb 0 (sharedMem s + SUB_VIRT_MEM) s)\<lparr>iop_at := Listen\<rparr>)"

text \<open>The output functions call \<open>iop_putc\<close> for these characters, one after the other.\<close>

definition printx_text :: "u32 \<Rightarrow> u8 list" where
  "printx_text val = map (\<lambda>i. let v = ucast (drop_bit (4 * (7 - i)) val AND 0xF) :: u8
     in if v < 10 then 0x30 + v else 0x41 + v - 10) [0..<8]"

definition ensure_shared :: "smod_mod_info \<Rightarrow> 'a iopmem_scheme \<Rightarrow> 'a iopmem_scheme option" where
  "ensure_shared module s = (if initialized s = 0 then iop_init_shared module s else Some s)"

definition iop_puts :: "u8 list \<Rightarrow> smod_mod_info \<Rightarrow> 'a iopmem_scheme \<Rightarrow> (int \<times> 'a iopmem_scheme) option" where
  "iop_puts text module s =
     (case ensure_shared module s of
        None \<Rightarrow> None
      | Some s \<Rightarrow> if initialized s = 1 then Some (- 1, s) else Some (0, s\<lparr>ee_todo := ee_todo s @ text\<rparr>))"

definition iop_printx :: "u32 \<Rightarrow> smod_mod_info \<Rightarrow> 'a iopmem_scheme \<Rightarrow> 'a iopmem_scheme option" where
  "iop_printx val module s = map_option snd (iop_puts (printx_text val) module s)"

definition iop_prints :: "u8 list \<Rightarrow> smod_mod_info \<Rightarrow> 'a iopmem_scheme \<Rightarrow> (int \<times> 'a iopmem_scheme) option" where
  "iop_prints text module s = iop_puts (takeWhile (\<lambda>c. c \<noteq> 0) text) module s"

inductive console_step :: "'a iopmem_scheme \<Rightarrow> 'a iopmem_scheme \<Rightarrow> bool" where
  ee: "console_step s (ee_act s)"
| iop: "console_step s (iop_act s)"

section \<open>The mailbox\<close>

lemma iop_write_one: "iop_write a [v] s = stb v (a + SUB_VIRT_MEM) s"
  by (simp add: iop_write_def)

lemma iop_read_one: "iop_read a 1 s = [ldb (a + SUB_VIRT_MEM) s]"
  by (simp add: iop_read_def)

lemma stb_iopmem [simp]:
  "sharedMem (stb v a s) = sharedMem s" "initialized (stb v a s) = initialized s" "ee_todo (stb v a s) = ee_todo s"
  "ee_at (stb v a s) = ee_at s" "iop_at (stb v a s) = iop_at s" "iop_out (stb v a s) = iop_out s"
  by (simp_all add: stb_def stw_def)

lemma shared_stb:
  assumes "i < 2" "j < 2"
  shows "shared i (stb v (sharedMem s + SUB_VIRT_MEM + of_nat j) s) = (if i = j then v else shared i s)"
  using assms PHYSADDR_offset_eq_iff [of j i "sharedMem s + SUB_VIRT_MEM"] by (auto simp: shared_def ldb_stb)

lemmas shared_stores = shared_stb [of _ 0, simplified] shared_stb [of _ 1, simplified]

lemma shared_upd [simp]:
  "shared i (s\<lparr>ee_at := p\<rparr>) = shared i s" "shared i (s\<lparr>ee_at := p, ee_todo := t\<rparr>) = shared i s" "shared i (s\<lparr>iop_at := q\<rparr>) = shared i s"
  "shared i (s\<lparr>iop_out := x\<rparr>) = shared i s" "shared i (s\<lparr>ee_todo := t\<rparr>) = shared i s"
  by (simp_all add: shared_def ldb_def ldw_def)

lemma ee_act_eq:
  "ee_act s =
     (case ee_todo s of
        [] \<Rightarrow> s
      | c # cs \<Rightarrow>
          (case ee_at s of
             Poll \<Rightarrow> if shared 0 s = 0 then s\<lparr>ee_at := Put_data\<rparr> else s
           | Put_data \<Rightarrow> (stb c (sharedMem s + SUB_VIRT_MEM + 1) s)\<lparr>ee_at := Put_flag\<rparr>
           | Put_flag \<Rightarrow> (stb 0xFF (sharedMem s + SUB_VIRT_MEM) s)\<lparr>ee_at := Poll, ee_todo := cs\<rparr>))"
  by (simp add: ee_act_def iop_write_one iop_read_one [simplified] shared_def ac_simps split: list.split ee_pc.split)

text \<open>
  What is on its way: nothing, or one character, which is in the mailbox while the IOP has not printed it. The EE is past its
  poll only while the mailbox is empty and the IOP listens.
\<close>

definition in_flight :: "'a iopmem_scheme \<Rightarrow> u8 list" where
  "in_flight s = (case iop_at s of Listen \<Rightarrow> if shared 0 s = 0 then [] else [shared 1 s] | Print \<Rightarrow> [shared 1 s] | Clear \<Rightarrow> [])"

definition mailbox_inv :: "u8 list \<Rightarrow> 'a iopmem_scheme \<Rightarrow> bool" where
  "mailbox_inv text s \<longleftrightarrow> iop_out s @ in_flight s @ ee_todo s = text \<and> (iop_at s \<noteq> Listen \<longrightarrow> shared 0 s \<noteq> 0)
     \<and> (ee_at s \<noteq> Poll \<longrightarrow> shared 0 s = 0 \<and> iop_at s = Listen \<and> ee_todo s \<noteq> [])
     \<and> (ee_at s = Put_flag \<longrightarrow> shared 1 s = hd (ee_todo s))"

text \<open>How many accesses are left until everything is printed.\<close>

definition accesses_left :: "'a iopmem_scheme \<Rightarrow> nat" where
  "accesses_left s = 6 * length (ee_todo s) - (case ee_at s of Poll \<Rightarrow> 0 | Put_data \<Rightarrow> 1 | Put_flag \<Rightarrow> 2)
     + (case iop_at s of Listen \<Rightarrow> if shared 0 s = 0 then 0 else 3 | Print \<Rightarrow> 2 | Clear \<Rightarrow> 1)"

lemma ee_act_inv:
  assumes "mailbox_inv text s"
  shows "mailbox_inv text (ee_act s) \<and> (ee_act s = s \<or> accesses_left (ee_act s) < accesses_left s)"
proof (cases "ee_todo s")
  case (Cons c cs)
  then show ?thesis
    using assms by (cases "ee_at s"; cases "iop_at s")
      (auto simp: ee_act_eq mailbox_inv_def in_flight_def accesses_left_def shared_stores)
qed (use assms in \<open>simp add: ee_act_eq\<close>)

lemma iop_act_inv:
  assumes "mailbox_inv text s"
  shows "mailbox_inv text (iop_act s) \<and> (iop_act s = s \<or> accesses_left (iop_act s) < accesses_left s)"
proof (cases "iop_at s")
  case Listen
  then show ?thesis
    using assms by (cases "shared 0 s = 0"; cases "ee_at s") (simp_all add: iop_act_def mailbox_inv_def in_flight_def accesses_left_def)
next
  case Print
  then show ?thesis
    using assms by (cases "ee_at s") (simp_all add: iop_act_def mailbox_inv_def in_flight_def accesses_left_def)
next
  case Clear
  then show ?thesis
    using assms by (cases "ee_at s") (simp_all add: iop_act_def mailbox_inv_def in_flight_def accesses_left_def shared_stores)
qed

lemma console_progress:
  assumes "mailbox_inv text s" "accesses_left s \<noteq> 0"
  shows "ee_act s \<noteq> s \<or> iop_act s \<noteq> s"
proof -
  have "ee_act s \<noteq> s" if "ee_todo s \<noteq> []" "shared 0 s = 0" "iop_at s = Listen"
  proof -
    from that(1) obtain c cs where cs: "ee_todo s = c # cs" by (cases "ee_todo s") auto
    have "ee_at (ee_act s) \<noteq> ee_at s" using that cs by (cases "ee_at s") (simp_all add: ee_act_eq)
    then show ?thesis by metis
  qed
  moreover have "iop_act s \<noteq> s" if "iop_at s \<noteq> Listen \<or> shared 0 s \<noteq> 0"
  proof -
    have "iop_at (iop_act s) \<noteq> iop_at s" using that by (cases "iop_at s") (simp_all add: iop_act_def)
    then show ?thesis by metis
  qed
  ultimately show ?thesis
    using assms(2) by (cases "iop_at s"; cases "ee_todo s"; cases "shared 0 s = 0") (auto simp: accesses_left_def)
qed

lemma console_done:
  assumes "mailbox_inv text s" "accesses_left s = 0"
  shows "iop_out s = text" "ee_act s = s" "iop_act s = s"
proof -
  have "ee_todo s = [] \<and> iop_at s = Listen \<and> shared 0 s = 0"
    using assms(2) by (cases "ee_at s"; cases "ee_todo s"; cases "iop_at s") (auto simp: accesses_left_def split: if_splits)
  then show "iop_out s = text" "ee_act s = s" "iop_act s = s"
    using assms(1) by (simp_all add: mailbox_inv_def in_flight_def ee_act_eq iop_act_def)
qed

lemma console_steps_inv:
  assumes "console_step\<^sup>*\<^sup>* s t" "mailbox_inv text s"
  shows "mailbox_inv text t \<and> accesses_left t \<le> accesses_left s"
  using assms
proof (induction rule: rtranclp_induct)
  case (step t u)
  then have t: "mailbox_inv text t" "accesses_left t \<le> accesses_left s" by simp_all
  from step(2) show ?case
    using ee_act_inv [OF t(1)] iop_act_inv [OF t(1)] t by (cases rule: console_step.cases) (auto intro: less_imp_le order_trans)
qed simp

text \<open>One turn of each processor.\<close>

definition console_round :: "'a iopmem_scheme \<Rightarrow> 'a iopmem_scheme" where
  "console_round s = iop_act (ee_act s)"

lemma console_round_inv:
  assumes "mailbox_inv text s"
  shows "mailbox_inv text (console_round s)
    \<and> (accesses_left (console_round s) < accesses_left s \<or> accesses_left s = 0 \<and> console_round s = s)"
proof -
  note e = ee_act_inv [OF assms]
  note i = iop_act_inv [OF conjunct1 [OF e]]
  show ?thesis
  proof (cases "accesses_left s = 0")
    case True
    then show ?thesis using console_done [OF assms True] assms by (simp add: console_round_def)
  next
    case False
    then show ?thesis
      using e i console_progress [OF assms False] by (auto simp: console_round_def intro: order_less_trans)
  qed
qed

lemma console_rounds_finish:
  "mailbox_inv text s \<Longrightarrow> accesses_left s \<le> n \<Longrightarrow> iop_out ((console_round ^^ n) s) = text"
proof (induction n arbitrary: s)
  case 0
  then show ?case using console_done(1) by auto
next
  case (Suc n)
  note r = console_round_inv [OF Suc.prems(1)]
  then have "accesses_left (console_round s) \<le> n" using Suc.prems(2) by auto
  then show ?case using Suc.IH [of "console_round s"] r by (simp add: funpow_Suc_right del: funpow.simps)
qed

section \<open>Searching the module list\<close>

text \<open>\<open>as\<close> are the addresses of the modules linked from \<open>p\<close> on; a null pointer or an identifier 0 ends the list.\<close>

primrec linked :: "'a hwst_scheme \<Rightarrow> u32 \<Rightarrow> u32 list \<Rightarrow> bool" where
  "linked s p [] \<longleftrightarrow> p = 0 \<or> sm_id (iop_mod p s) = 0"
| "linked s p (a # as) \<longleftrightarrow> a = p \<and> p \<noteq> 0 \<and> sm_id (iop_mod p s) \<noteq> 0 \<and> linked s (sm_next (iop_mod p s)) as"

definition named :: "u8 list \<Rightarrow> nat \<Rightarrow> 'a hwst_scheme \<Rightarrow> u32 \<Rightarrow> bool" where
  "named name n s a \<longleftrightarrow> take (length name) (iop_read (sm_name (iop_mod a s)) n s) = name"

lemma length_iop_read [simp]: "length (iop_read a n s) = n"
  by (simp add: iop_read_def)

lemma ucast_id_eq_0: "(ucast (i :: u16) :: u32) = 0 \<longleftrightarrow> i = 0"
  using unat_ucast_up [of i, where 'b = 32] by (simp add: word_unat_eq_iff)

lemma same_start_named:
  "length name \<le> n \<Longrightarrow> same_start name (iop_read (sm_name (iop_mod a s)) n s) = Some (named name n s a)"
  "length name \<le> 31 \<Longrightarrow> same_start name ((iop_read (sm_name (iop_mod a s)) 32 s)[31 := 0]) = Some (named name 32 s a)"
  by (simp_all add: same_start_def named_def)

lemma next_mod_cases:
  assumes "linked s (sm_next c) as"
  shows "smod_get_next_mod (Some c) m s
    = (case as of [] \<Rightarrow> (0, if sm_next c = 0 then m else iop_mod (sm_next c) s) | a # _ \<Rightarrow> (ucast (sm_id (iop_mod a s)), iop_mod a s))"
  using assms by (cases as) (auto simp: smod_get_next_mod_def Let_def)

lemma smod_search_finds:
  assumes "linked s p (a # as)" "length name \<le> 60"
  shows "\<exists>m. smod_search name s (iop_mod a s)
    = Some (case find (named name 60 s) (a # as) of Some b \<Rightarrow> (ucast (sm_id (iop_mod b s)), iop_mod b s) | None \<Rightarrow> (0, m))"
  using assms(1)
proof (induction as arbitrary: a p)
  case Nil
  then show ?case
    using assms(2) next_mod_cases [of s "iop_mod a s" "[]" "iop_mod a s"]
    by (subst smod_search.simps) (auto simp: same_start_named)
next
  case (Cons b as)
  have l: "linked s (sm_next (iop_mod a s)) (b # as)" using Cons.prems by simp
  have "sm_id (iop_mod b s) \<noteq> 0" using l by simp
  then show ?case
    using assms(2) next_mod_cases [OF l, of "iop_mod a s"] Cons.IH [OF l]
    by (subst smod_search.simps) (auto simp: same_start_named ucast_id_eq_0)
qed

lemma find_from_finds:
  assumes "linked s (sm_next c) as" "length name \<le> 31"
  shows "\<exists>m'. find_from name s (Some c) m
    = Some (case find (named name 32 s) as of Some b \<Rightarrow> (0, iop_mod b s) | None \<Rightarrow> (- 1, m'))"
  using assms(1)
proof (induction as arbitrary: c m)
  case Nil
  then show ?case using next_mod_cases [OF Nil] by (subst find_from.simps) simp
next
  case (Cons b as)
  have "sm_id (iop_mod b s) \<noteq> 0" "linked s (sm_next (iop_mod b s)) as" using Cons.prems by auto
  then show ?case
    using assms(2) next_mod_cases [OF Cons.prems, of m] Cons.IH [of "iop_mod b s" "iop_mod b s"]
    by (subst find_from.simps) (auto simp: same_start_named ucast_id_eq_0)
qed

lemma first_mod: "smod_get_next_mod None m s = (ucast (sm_id (iop_mod 0x800 s)), iop_mod 0x800 s)"
  by (simp add: smod_get_next_mod_def Let_def)

lemma smod_by_name_finds:
  assumes "linked s 0x800 as" "length name \<le> 60"
  shows "\<exists>m. smod_get_mod_by_name name info s
    = Some (case find (named name 60 s) as of Some b \<Rightarrow> (ucast (sm_id (iop_mod b s)), iop_mod b s) | None \<Rightarrow> (0, m))"
proof (cases as)
  case Nil
  then show ?thesis using assms(1) by (simp add: smod_get_mod_by_name_def first_mod)
next
  case (Cons a as')
  then have "a = 0x800" "sm_id (iop_mod 0x800 s) \<noteq> 0" using assms(1) by auto
  then show ?thesis
    using smod_search_finds [of s "0x800" a as' name] assms Cons by (simp add: smod_get_mod_by_name_def first_mod ucast_id_eq_0)
qed

lemma find_module_finds:
  assumes "linked s 0x800 as" "length name \<le> 31"
  shows "\<exists>m'. find_module name m s
    = Some (case find (named name 32 s) as of Some b \<Rightarrow> (0, iop_mod b s) | None \<Rightarrow> (- 1, m'))"
proof (cases as)
  case Nil
  then show ?thesis using assms(1) unfolding find_module_def by (subst find_from.simps) (simp add: first_mod)
next
  case (Cons a as')
  then have "a = 0x800" "sm_id (iop_mod 0x800 s) \<noteq> 0" "linked s (sm_next (iop_mod 0x800 s)) as'" using assms(1) by auto
  then show ?thesis
    using find_from_finds [of s "iop_mod 0x800 s" as' name "iop_mod 0x800 s"] assms Cons
    unfolding find_module_def by (subst find_from.simps) (auto simp: first_mod same_start_named ucast_id_eq_0)
qed

text \<open>The slots of 16 bytes that are searched for the magic text.\<close>

definition has_magic :: "'a hwst_scheme \<Rightarrow> u32 \<Rightarrow> bool" where
  "has_magic s a \<longleftrightarrow> take (length SHAREDMEM_MODULE_NAME + 1) (iop_read a 32 s) = take (length SHAREDMEM_MODULE_NAME + 1) SHAREDMEM_MAGIC"

lemma scan_magic_first:
  assumes "e \<le> 0xfffffff0"
  shows "scan_magic a e s = Some (map_option (\<lambda>k. a + 16 * of_nat k)
    (find (\<lambda>k. has_magic s (a + 16 * of_nat k)) [0..<(unat e - unat a + 15) div 16]))"
proof (induction "(unat e - unat a + 15) div 16" arbitrary: a)
  case 0
  then have "\<not> a < e" by (simp add: word_less_nat_alt)
  then show ?case using 0 by (subst scan_magic.simps) simp
next
  case (Suc n)
  have lt: "a < e" using Suc(2) by (cases "a < e") (auto simp: word_less_nat_alt)
  have u: "unat (a + 16) = unat a + 16"
    using lt assms by (simp add: word_less_nat_alt word_le_nat_alt unat_word_ariths)
  then have n: "n = (unat e - unat (a + 16) + 15) div 16" using Suc(2) lt by (simp add: word_less_nat_alt)
  have s: "[0..<Suc n] = 0 # map Suc [0..<n]" by (simp add: map_Suc_upt upt_conv_Cons del: upt_Suc)
  have f: "find P (map Suc xs) = map_option Suc (find (\<lambda>k. P (Suc k)) xs)" for P xs by (induction xs) auto
  have eq: "scan_magic a e s = (if has_magic s a then Some (Some a) else scan_magic (a + 16) e s)"
    using lt by (subst scan_magic.simps) (simp add: has_magic_def)
  have k: "a + 16 * of_nat (Suc k) = a + 16 + 16 * of_nat k" for k by (simp add: algebra_simps)
  show ?case
    unfolding Suc(2) [symmetric] s eq Suc(1) [OF n] n [symmetric] find.simps f k
    by (simp add: option.map_comp comp_def ac_simps)
qed

section \<open>Properties\<close>

text \<open>
  C12. The console between the two processors loses, duplicates and reorders nothing. Whatever the interleaving of the accesses of
  \<open>iop_putc\<close> and of the IOP's thread, the text is always what the IOP has printed, then the character in the mailbox if it is not yet printed, then
  what the EE has still to send. After six turns of each processor for every character all of it is printed.
\<close>

theorem console_in_order:
  fixes s :: "'a iopmem_scheme"
  assumes "shared 0 s = 0" "ee_at s = Poll" "iop_at s = Listen" "iop_out s = []"
    and "console_step\<^sup>*\<^sup>* s t" "6 * length (ee_todo s) \<le> n"
  shows "iop_out t @ in_flight t @ ee_todo t = ee_todo s \<and> length (in_flight t) \<le> 1 \<and> iop_out ((console_round ^^ n) t) = ee_todo s"
proof -
  have s: "mailbox_inv (ee_todo s) s" "accesses_left s = 6 * length (ee_todo s)"
    using assms(1-4) by (simp_all add: mailbox_inv_def in_flight_def accesses_left_def)
  then have t: "mailbox_inv (ee_todo s) t" "accesses_left t \<le> n"
    using console_steps_inv [OF assms(5) s(1)] assms(6) by simp_all
  have "iop_out t @ in_flight t @ ee_todo t = ee_todo s" using t(1) by (simp add: mailbox_inv_def)
  moreover have "length (in_flight t) \<le> 1" by (simp add: in_flight_def split: iop_pc.split)
  ultimately show ?thesis using console_rounds_finish [OF t] by blast
qed

text \<open>
  Looking for a module by its name ends for every list of modules that ends, and finds the first module whose name starts with the
  text. \<open>find_module\<close> and \<open>smod_get_mod_by_name\<close> agree on which module that is although they fetch 32 and 60 bytes of each name.
\<close>

theorem modules_found:
  fixes s :: "'a hwst_scheme"
  assumes "linked s 0x800 as" "length name \<le> 31"
  shows "\<exists>m m'. smod_get_mod_by_name name info s
      = Some (case find (named name 32 s) as of Some b \<Rightarrow> (ucast (sm_id (iop_mod b s)), iop_mod b s) | None \<Rightarrow> (0, m))
    \<and> find_module name info s = Some (case find (named name 32 s) as of Some b \<Rightarrow> (0, iop_mod b s) | None \<Rightarrow> (- 1, m'))"
proof -
  have "named name 60 s = named name 32 s" using assms(2) by (simp add: fun_eq_iff named_def iop_read_def take_map)
  moreover have "length name \<le> 60" using assms(2) by simp
  ultimately show ?thesis
    using smod_by_name_finds [OF assms(1), of name info] find_module_finds [OF assms, of info] by simp
qed

text \<open>
  Setting up the console: in a module list with the module \<open>sharedmem\<close> whose memory ends below the top of the address space, the search of its data
  in steps of 16 bytes ends. It takes the first place that carries the magic text, and gives up exactly when there is none.
\<close>

theorem iop_init_shared_finds:
  fixes s :: "'a iopmem_scheme"
  assumes "linked s 0x800 as" "find (named SHAREDMEM_MODULE_NAME 32 s) as = Some b"
    and "addr = sm_text_start (iop_mod b s) + sm_text_size (iop_mod b s)"
    and "e = addr + sm_data_size (iop_mod b s) + sm_bss_size (iop_mod b s)" "e \<le> 0xfffffff0"
    and "first = (addr + 15) AND NOT 15"
  shows "iop_init_shared info s = Some (case find (\<lambda>k. has_magic s (first + 16 * of_nat k)) [0..<(unat e - unat first + 15) div 16] of
      None \<Rightarrow> s\<lparr>initialized := 1\<rparr> | Some k \<Rightarrow> s\<lparr>sharedMem := first + 16 * of_nat k + 32, initialized := 2\<rparr>)"
proof -
  have "length SHAREDMEM_MODULE_NAME \<le> 31" by (simp add: SHAREDMEM_MODULE_NAME_def str_bytes_def)
  then have "find_module SHAREDMEM_MODULE_NAME info s = Some (0, iop_mod b s)"
    using find_module_finds [OF assms(1), of SHAREDMEM_MODULE_NAME info] assms(2) by simp
  moreover have "(addr + 16 - 1) AND NOT (16 - 1) = first" using assms(6) by (simp add: algebra_simps)
  ultimately show ?thesis
    using scan_magic_first [OF assms(5), of first s]
    by (simp add: iop_init_shared_def Let_def assms(3,4) [symmetric] split: option.split)
qed

section \<open>Witnesses\<close>

text \<open>Two modules, the second of which is \<open>sharedmem\<close> with the magic text in its second slot.\<close>

definition sample_iopmem :: iopmem where
  "sample_iopmem = \<lparr>cp0_status = 0, hwreg = \<lambda>_. 0,
     mem = (\<lambda>_. 0)(0x1c000800 := 0x900, 0x1c000804 := 0xa00, 0x1c00080c := 1, 0x1c000904 := 0xa40, 0x1c00090c := 2,
       0x1c000918 := 0x1000, 0x1c00091c := 0x18, 0x1c000920 := 0x60, 0x1c000a40 := 0x72616873, 0x1c000a44 := 0x656d6465, 0x1c000a48 := 0x6d,
       0x1c001030 := 0x72616873, 0x1c001034 := 0x656d6465, 0x1c001038 := 0x6564206d),
     dcache_wb = [], sharedMem = 0, initialized = 0, ee_todo = [0x4f, 0x4b], ee_at = Poll, iop_at = Listen, iop_out = []\<rparr>"

lemma rd_aligned:
  assumes "a AND 3 = 0"
  shows "rd16 a s = ucast (ldw a s)" "rd32 a s = ldw a s"
proof -
  have b: "ldb a s = ucast (ldw a s)" "ldb (a + 1) s = ucast (drop_bit 8 (ldw a s))" "ldb (a + 2) s = ucast (drop_bit 16 (ldw a s))"
    "ldb (a + 3) s = ucast (drop_bit 24 (ldw a s))"
    using ldb_word [OF assms, of 0 s] ldb_word [OF assms, of 1 s] ldb_word [OF assms, of 2 s] ldb_word [OF assms, of 3 s] by simp_all
  show "rd16 a s = ucast (ldw a s)"
    by (rule bit_word_eqI) (auto simp: rd16_def b bit_simps)
  show "rd32 a s = ldw a s"
  proof (rule bit_word_eqI)
    fix n
    assume "n < LENGTH(32)"
    then consider "n < 8" | "8 \<le> n" "n < 16" | "16 \<le> n" "n < 24" | "24 \<le> n" "n < 32" by fastforce
    then show "bit (rd32 a s) n = bit (ldw a s) n"
      by cases (simp_all add: rd32_def rd16_def b bit_simps add.assoc, auto)
  qed
qed

lemma sample_iopmem_fields:
  "sm_next (iop_mod 0x800 sample_iopmem) = 0x900" "sm_id (iop_mod 0x800 sample_iopmem) = 1" "sm_name (iop_mod 0x800 sample_iopmem) = 0xa00"
  "sm_next (iop_mod 0x900 sample_iopmem) = 0" "sm_id (iop_mod 0x900 sample_iopmem) = 2" "sm_name (iop_mod 0x900 sample_iopmem) = 0xa40"
  "sm_text_start (iop_mod 0x900 sample_iopmem) = 0x1000" "sm_text_size (iop_mod 0x900 sample_iopmem) = 0x18"
  "sm_data_size (iop_mod 0x900 sample_iopmem) = 0x60" "sm_bss_size (iop_mod 0x900 sample_iopmem) = 0"
  by (simp_all add: iop_mod_def Let_def SUB_VIRT_MEM_def rd_aligned ldw_def PHYSADDR_def sample_iopmem_def)

lemma sample_iopmem_names:
  "take 9 (iop_read 0xa00 32 sample_iopmem) = SHAREDMEM_MODULE_NAME \<longleftrightarrow> False"
  "take 9 (iop_read 0xa40 32 sample_iopmem) = SHAREDMEM_MODULE_NAME" "length SHAREDMEM_MODULE_NAME = 9"
  "has_magic sample_iopmem 0x1020 = False" "has_magic sample_iopmem 0x1030 = True"
  by code_simp+

lemma sample_iopmem_list:
  "linked sample_iopmem 0x800 [0x800, 0x900]" "find (named SHAREDMEM_MODULE_NAME 32 sample_iopmem) [0x800, 0x900] = Some 0x900"
  using sample_iopmem_fields sample_iopmem_names by (simp_all add: named_def)

lemma sample_iopmem_facts:
  "shared 0 sample_iopmem = 0" "ee_todo sample_iopmem = [0x4f, 0x4b]" "ee_at sample_iopmem = Poll" "iop_at sample_iopmem = Listen"
  "iop_out sample_iopmem = []"
  by code_simp+

theorem console_in_order_witness: "iop_out ((console_round ^^ 12) (ee_act sample_iopmem)) = [0x4f, 0x4b]"
proof -
  have "console_step\<^sup>*\<^sup>* sample_iopmem (ee_act sample_iopmem)" by (intro r_into_rtranclp console_step.ee)
  then show ?thesis
    using console_in_order [OF sample_iopmem_facts(1,3-5), of "ee_act sample_iopmem" 12] sample_iopmem_facts(2) by simp
qed

theorem modules_found_witness:
  "find_module SHAREDMEM_MODULE_NAME (iop_mod 0x800 sample_iopmem) sample_iopmem = Some (0, iop_mod 0x900 sample_iopmem)"
  using modules_found [OF sample_iopmem_list(1), of SHAREDMEM_MODULE_NAME "iop_mod 0x800 sample_iopmem"] sample_iopmem_list(2)
    sample_iopmem_names(3) by simp

theorem iop_init_shared_finds_witness:
  "\<exists>t. iop_init_shared (iop_mod 0x900 sample_iopmem) sample_iopmem = Some t \<and> initialized t = 2 \<and> sharedMem t = 0x1050"
proof -
  have "unat (0x1078 :: u32) - unat (0x1020 :: u32) = 88" by simp
  then have "find (\<lambda>k. has_magic sample_iopmem (0x1020 + 16 * of_nat k)) [0..<(unat (0x1078 :: u32) - unat (0x1020 :: u32) + 15) div 16] = Some 1"
    using sample_iopmem_names(4,5) by (simp add: upt_conv_Cons)
  then show ?thesis
    using iop_init_shared_finds [OF sample_iopmem_list refl refl _ refl, of "iop_mod 0x900 sample_iopmem"] sample_iopmem_fields(7-10)
    by simp
qed

end
