(* ===== verification/Mc.thy ===== *)
theory Mc
  imports Buffers IopMem
begin

text \<open>
  The memory card service (\<open>TGE/sbios/mc.c\<close>; argument blocks in \<open>TGE/include/tge_sbios.h\<close>). All commands use one RPC client and
  three command blocks in memory; \<open>lastCmd\<close> is the lock that keeps a second command away until the end function of the first has run.

  The addresses of the module's objects and functions are fields of the state. \<open>FlushCache\<close> has no effect on the coherent memory of the
  model. An index outside the table of function numbers is undefined behaviour and gives \<open>None\<close>.
\<close>

section \<open>State\<close>

record mc = services +
  mcInitializeCounter :: nat
  lastCmd :: u32
  mcType :: int
  typeAddr :: u32
  freeAddr :: u32
  formatAddr :: u32
  a_cdata :: u32
  a_rdata :: u32
  a_endParameter :: u32
  a_buffFileInfo :: u32
  a_mcCmd :: u32
  a_mcFileCmd :: u32
  a_mcInfoCmd :: u32
  a_mcCallback :: u32
  a_mcGetInfoApdx :: u32
  a_mcReadFixAlign :: u32
  a_mcInitCallback :: u32

definition MC_INITIALIZED :: nat where "MC_INITIALIZED = 2"
definition MC_TYPE_MC :: int where "MC_TYPE_MC = 0"
definition MC_TYPE_XMC :: int where "MC_TYPE_XMC = 1"

definition MC_RPCCMD_INIT :: nat where "MC_RPCCMD_INIT = 0x00"
definition MC_RPCCMD_GET_INFO :: nat where "MC_RPCCMD_GET_INFO = 0x01"
definition MC_RPCCMD_OPEN :: nat where "MC_RPCCMD_OPEN = 0x02"
definition MC_RPCCMD_CLOSE :: nat where "MC_RPCCMD_CLOSE = 0x03"
definition MC_RPCCMD_SEEK :: nat where "MC_RPCCMD_SEEK = 0x04"
definition MC_RPCCMD_READ :: nat where "MC_RPCCMD_READ = 0x05"
definition MC_RPCCMD_WRITE :: nat where "MC_RPCCMD_WRITE = 0x06"
definition MC_RPCCMD_FLUSH :: nat where "MC_RPCCMD_FLUSH = 0x07"
definition MC_RPCCMD_GET_DIR :: nat where "MC_RPCCMD_GET_DIR = 0x09"
definition MC_RPCCMD_SET_INFO :: nat where "MC_RPCCMD_SET_INFO = 0x0A"
definition MC_RPCCMD_DELETE :: nat where "MC_RPCCMD_DELETE = 0x0B"
definition MC_RPCCMD_FORMAT :: nat where "MC_RPCCMD_FORMAT = 0x0C"
definition MC_RPCCMD_UNFORMAT :: nat where "MC_RPCCMD_UNFORMAT = 0x0D"
definition MC_RPCCMD_GET_ENT :: nat where "MC_RPCCMD_GET_ENT = 0x0E"
definition MC_RPCCMD_CHG_PRITY :: nat where "MC_RPCCMD_CHG_PRITY = 0x0F"

definition MC_FUNC_GET_INFO :: u32 where "MC_FUNC_GET_INFO = 0x01"
definition MC_FUNC_OPEN :: u32 where "MC_FUNC_OPEN = 0x02"
definition MC_FUNC_CLOSE :: u32 where "MC_FUNC_CLOSE = 0x03"
definition MC_FUNC_SEEK :: u32 where "MC_FUNC_SEEK = 0x04"
definition MC_FUNC_READ :: u32 where "MC_FUNC_READ = 0x05"
definition MC_FUNC_WRITE :: u32 where "MC_FUNC_WRITE = 0x06"
definition MC_FUNC_FLUSH :: u32 where "MC_FUNC_FLUSH = 0x0A"
definition MC_FUNC_MK_DIR :: u32 where "MC_FUNC_MK_DIR = 0x0B"
definition MC_FUNC_GET_DIR :: u32 where "MC_FUNC_GET_DIR = 0x0D"
definition MC_FUNC_SET_INFO :: u32 where "MC_FUNC_SET_INFO = 0x0E"
definition MC_FUNC_DELETE :: u32 where "MC_FUNC_DELETE = 0x0F"
definition MC_FUNC_FORMAT :: u32 where "MC_FUNC_FORMAT = 0x10"
definition MC_FUNC_UNFORMAT :: u32 where "MC_FUNC_UNFORMAT = 0x11"
definition MC_FUNC_GET_ENT :: u32 where "MC_FUNC_GET_ENT = 0x12"
definition MC_FUNC_RENAME :: u32 where "MC_FUNC_RENAME = 0x13"
definition MC_FUNC_CHG_PRITY :: u32 where "MC_FUNC_CHG_PRITY = 0x14"

definition mcRpcCmd :: "u32 list list" where
  "mcRpcCmd =
     [[0x70, 0x78, 0x71, 0x72, 0x75, 0x73, 0x74, 0x7A, 0x7B, 0x76, 0x7C, 0x79, 0x77, 0x80, 0x7E, 0x7D, 0x7F],
      [0xFE, 0x01, 0x02, 0x03, 0x04, 0x05, 0x06, 0x0A, 0x0C, 0x0D, 0x0E, 0x0F, 0x10, 0x11, 0x12, 0x14, 0x33]]"

definition rpc_number :: "int \<Rightarrow> nat \<Rightarrow> u32 option" where
  "rpc_number type cmd = (if 0 \<le> type \<and> type < 2 \<and> cmd < 17 then Some (mcRpcCmd ! nat type ! cmd) else None)"

section \<open>End functions\<close>

definition mcCallback ::
  "(u32 \<Rightarrow> u32 \<Rightarrow> u32 \<Rightarrow> 'a mc_scheme \<Rightarrow> 'a mc_scheme option) \<Rightarrow> u32 \<Rightarrow> 'a mc_scheme \<Rightarrow> 'a mc_scheme option" where
  "mcCallback notify carg s =
     (let s = s\<lparr>lastCmd := 0\<rparr>
      in deliver notify carg (set_result carg (ldw (a_rdata s) s) s))"

definition store_info :: "'a mc_scheme \<Rightarrow> 'a mc_scheme" where
  "store_info s =
     (let endp = KSEG1ADDR (a_endParameter s);
          s = (if typeAddr s \<noteq> 0 then stw (ldw endp s) (typeAddr s) s else s);
          s = (if freeAddr s \<noteq> 0 then stw (ldw (endp + 4) s) (freeAddr s) s else s)
      in if formatAddr s \<noteq> 0
         then if mcType s = MC_TYPE_MC then stw (if ldw endp s = 0 then 0 else 1) (formatAddr s) s
           else if mcType s = MC_TYPE_XMC then stw (ldw (endp + 144) s) (formatAddr s) s
           else s
         else s)"

definition mcGetInfoApdx ::
  "(u32 \<Rightarrow> u32 \<Rightarrow> u32 \<Rightarrow> 'a mc_scheme \<Rightarrow> 'a mc_scheme option) \<Rightarrow> u32 \<Rightarrow> 'a mc_scheme \<Rightarrow> 'a mc_scheme option" where
  "mcGetInfoApdx notify carg s =
     (let s = (store_info s)\<lparr>lastCmd := 0\<rparr>
      in deliver notify carg (set_result carg (ldw (a_rdata s) s) s))"

lemma below_sint:
  fixes w :: u32
  assumes "int i < sint w"
  shows "i < 2 ^ 31"
proof -
  have "int i < int (2 ^ 31)" using assms sint_lt [of w] by simp
  then show ?thesis by (simp only: of_nat_less_iff)
qed

text \<open>The byte loop of \<open>mcReadFixAlign\<close>, which looks at the count in memory in every round.\<close>

function copy_counted :: "u32 \<Rightarrow> nat \<Rightarrow> u32 \<Rightarrow> u32 \<Rightarrow> 'a hwst_scheme \<Rightarrow> 'a hwst_scheme" where
  "copy_counted count i dest src s =
     (if int i < sint (ldw count s)
      then copy_counted count (i + 1) dest src (stb (ldb (src + of_nat i) s) (dest + of_nat i) s)
      else s)"
  by pat_completeness auto
termination
proof (relation "measure (\<lambda>(count, i, dest, src, s). 2 ^ 31 - i)")
  fix count i dest src
  fix s :: "'a hwst_scheme"
  assume "int i < sint (ldw count s)"
  then have "i < 2 ^ 31" by (rule below_sint)
  then show "((count, i + 1, dest, src, stb (ldb (src + of_nat i) s) (dest + of_nat i) s), count, i, dest, src, s)
      \<in> measure (\<lambda>(count, i, dest, src, s). 2 ^ 31 - i)" by simp
qed simp

declare copy_counted.simps [simp del]

definition mcReadFixAlign ::
  "(u32 \<Rightarrow> u32 \<Rightarrow> u32 \<Rightarrow> 'a mc_scheme \<Rightarrow> 'a mc_scheme option) \<Rightarrow> u32 \<Rightarrow> 'a mc_scheme \<Rightarrow> 'a mc_scheme option" where
  "mcReadFixAlign notify carg s =
     (let pkt = KSEG1ADDR (a_endParameter s);
          dest = ldw (pkt + 8) s; src = pkt + 16;
          s = (if dest \<noteq> 0 then copy_counted pkt 0 dest src s else s);
          dest = ldw (pkt + 12) s;
          src = (if mcType s = MC_TYPE_MC then pkt + 32 else if mcType s = MC_TYPE_XMC then pkt + 80 else src);
          s = (if dest \<noteq> 0 then copy_counted (pkt + 4) 0 dest src s else s)
      in mcCallback notify carg s)"

section \<open>Initialisation\<close>

definition init_finished ::
  "(u32 \<Rightarrow> u32 \<Rightarrow> u32 \<Rightarrow> 'a mc_scheme \<Rightarrow> 'a mc_scheme option) \<Rightarrow> u32 \<Rightarrow> 'a mc_scheme \<Rightarrow> 'a mc_scheme option" where
  "init_finished notify carg s =
     (if mcType s = MC_TYPE_XMC \<and> sint (ldw (a_rdata s + 4) s) < 0x200 then deliver notify carg (set_result carg (- 120) s)
      else if mcType s = MC_TYPE_XMC \<and> sint (ldw (a_rdata s + 8) s) < 0x200 then deliver notify carg (set_result carg (- 121) s)
      else
        let s = set_result carg (if mcType s = MC_TYPE_XMC then ldw (a_rdata s) s else 1) s
        in deliver notify carg (s\<lparr>lastCmd := 0, mcInitializeCounter := mcInitializeCounter s + 1\<rparr>))"

definition mcInitCallback ::
  "(u32 \<Rightarrow> u32 \<Rightarrow> u32 \<Rightarrow> 'a mc_scheme \<Rightarrow> 'a mc_scheme option) \<Rightarrow> u32 \<Rightarrow> 'a mc_scheme \<Rightarrow> 'a mc_scheme option" where
  "mcInitCallback notify carg s =
     (if mcInitializeCounter s = 0
      then if cl_server (clients s (a_cdata s)) = 0 then deliver notify carg (set_result carg (- 1) s)
        else let s = set_result carg 0 (s\<lparr>mcInitializeCounter := 1\<rparr>)
          in if mcType s = MC_TYPE_MC then init_finished notify carg s else deliver notify carg s
      else if mcInitializeCounter s = 1 then init_finished notify carg s
      else deliver notify carg s)"

definition mcInit ::
  "(u32 \<Rightarrow> u32 \<Rightarrow> u32 \<Rightarrow> 'a mc_scheme \<Rightarrow> 'a mc_scheme option) \<Rightarrow> u32 \<Rightarrow> 'a mc_scheme \<Rightarrow> (u32 \<times> 'a mc_scheme) option" where
  "mcInit notify carg s =
     (if mcInitializeCounter s = 0
      then case SifBindRpc [] (a_cdata s) 0x80000400 SIF_RPC_M_NOWAIT (a_mcInitCallback s) carg s of
          None \<Rightarrow> None
        | Some (ret, s) \<Rightarrow> if sint ret < 0 then Some (- SIF_RPCE_SENDP, s) else Some (ret, s)
      else if mcInitializeCounter s = 1
      then if mcType s = MC_TYPE_XMC
        then case rpc_number (mcType s) MC_RPCCMD_INIT of
            None \<Rightarrow> None
          | Some n \<Rightarrow>
              (case SifCallRpc [] (a_cdata s) n SIF_RPC_M_NOWAIT (a_mcCmd s) 48 (a_rdata s) 12 (a_mcInitCallback s) carg s of
                 None \<Rightarrow> None
               | Some (ret, s) \<Rightarrow> if sint ret < 0 then Some (- SIF_RPCE_SENDP, s) else Some (ret, s))
        else Some (0, s)
      else map_option (Pair 0) (deliver notify carg (set_result carg 1 s)))"

definition sbcall_mcinit ::
  "(u32 \<Rightarrow> u32 \<Rightarrow> u32 \<Rightarrow> 'a mc_scheme \<Rightarrow> 'a mc_scheme option) \<Rightarrow> smod_mod_info \<Rightarrow> u32 \<Rightarrow> 'a mc_scheme
     \<Rightarrow> (u32 \<times> 'a mc_scheme) option" where
  "sbcall_mcinit notify info carg s =
     (if mcType s < 0
      then case smod_get_mod_by_name (str_bytes ''mcserv'') info s of
          None \<Rightarrow> None
        | Some (r, info) \<Rightarrow>
            (if 0 < sint r
             then mcInit notify carg (s\<lparr>mcType := if drop_bit 8 (sm_version info) > 1 then MC_TYPE_XMC else MC_TYPE_MC\<rparr>)
             else Some (- 1, s))
      else mcInit notify carg s)"

section \<open>Commands\<close>

text \<open>The checks at the start of every command, and the request at its end.\<close>

definition mc_enter :: "u32 \<Rightarrow> 'a mc_scheme \<Rightarrow> u32 \<times> 'a mc_scheme" where
  "mc_enter func s =
     (if mcInitializeCounter s \<noteq> MC_INITIALIZED then (- 1, s)
      else
        let (status, s) = core_save_disable s
        in if lastCmd s \<noteq> 0 then (- SIF_RPCE_SENDP, core_restore status s)
           else (0, core_restore status (s\<lparr>lastCmd := func\<rparr>)))"

definition mc_call :: "nat \<Rightarrow> u32 \<Rightarrow> u32 \<Rightarrow> u32 \<Rightarrow> u32 \<Rightarrow> 'a mc_scheme \<Rightarrow> (u32 \<times> 'a mc_scheme) option" where
  "mc_call cmd sendbuf ssize stage2 carg s =
     (case rpc_number (mcType s) cmd of
        None \<Rightarrow> None
      | Some n \<Rightarrow>
          (case SifCallRpc [] (a_cdata s) n 1 sendbuf ssize (a_rdata s) 4 stage2 carg s of
             None \<Rightarrow> None
           | Some (ret, s) \<Rightarrow> if ret \<noteq> 0 then Some (- SIF_RPCE_SENDP, s\<lparr>lastCmd := 0\<rparr>) else Some (ret, s)))"

definition set_name :: "u32 \<Rightarrow> 'a mc_scheme \<Rightarrow> 'a mc_scheme" where
  "set_name name s = stb 0 (a_mcCmd s + 20 + 1023) (strncpy 1023 (a_mcCmd s + 20) name s)"

definition flag_word :: "u32 \<Rightarrow> u32" where
  "flag_word p = (if p \<noteq> 0 then 1 else 0)"

definition prep_getinfo :: "u32 \<Rightarrow> 'a mc_scheme \<Rightarrow> 'a mc_scheme" where
  "prep_getinfo arg s =
     (let (third, fifth) = if mcType s = MC_TYPE_MC then (8, 16) else (16, 8);
          s = stw (ldw arg s) (a_mcInfoCmd s + 4) s;
          s = stw (ldw (arg + 4) s) (a_mcInfoCmd s + 8) s;
          s = stw (flag_word (ldw (arg + third) s)) (a_mcInfoCmd s + 12) s;
          s = stw (flag_word (ldw (arg + 12) s)) (a_mcInfoCmd s + 16) s;
          s = stw (flag_word (ldw (arg + fifth) s)) (a_mcInfoCmd s + 20) s;
          s = stw (a_endParameter s) (a_mcInfoCmd s + 28) s
      in SifWriteBackDCache (a_endParameter s) 192
           (s\<lparr>typeAddr := ldw (arg + 8) s, freeAddr := ldw (arg + 12) s, formatAddr := ldw (arg + 16) s\<rparr>))"

definition sbcall_mcgetinfo :: "u32 \<Rightarrow> 'a mc_scheme \<Rightarrow> (u32 \<times> 'a mc_scheme) option" where
  "sbcall_mcgetinfo carg s =
     (let arg = ra_sbarg (rpc_args s carg); (e, s) = mc_enter MC_FUNC_GET_INFO s
      in if e \<noteq> 0 then Some (e, s)
         else let s = prep_getinfo arg s in mc_call MC_RPCCMD_GET_INFO (a_mcInfoCmd s) 48 (a_mcGetInfoApdx s) carg s)"

definition prep_open :: "u32 \<Rightarrow> 'a mc_scheme \<Rightarrow> 'a mc_scheme" where
  "prep_open arg s =
     (let s = stw (ldw arg s) (a_mcCmd s) s;
          s = stw (ldw (arg + 4) s) (a_mcCmd s + 4) s;
          s = stw (ldw (arg + 12) s) (a_mcCmd s + 8) s
      in set_name (ldw (arg + 8) s) s)"

definition sbcall_mcopen :: "u32 \<Rightarrow> 'a mc_scheme \<Rightarrow> (u32 \<times> 'a mc_scheme) option" where
  "sbcall_mcopen carg s =
     (let arg = ra_sbarg (rpc_args s carg); (e, s) = mc_enter MC_FUNC_OPEN s
      in if e \<noteq> 0 then Some (e, s)
         else let s = prep_open arg s in mc_call MC_RPCCMD_OPEN (a_mcCmd s) 0x414 (a_mcCallback s) carg s)"

definition set_fd :: "u32 \<Rightarrow> 'a mc_scheme \<Rightarrow> 'a mc_scheme" where
  "set_fd arg s = stw (ldw arg s) (a_mcFileCmd s) s"

definition sbcall_mcclose :: "u32 \<Rightarrow> 'a mc_scheme \<Rightarrow> (u32 \<times> 'a mc_scheme) option" where
  "sbcall_mcclose carg s =
     (let arg = ra_sbarg (rpc_args s carg); (e, s) = mc_enter MC_FUNC_CLOSE s
      in if e \<noteq> 0 then Some (e, s)
         else let s = set_fd arg s in mc_call MC_RPCCMD_CLOSE (a_mcFileCmd s) 48 (a_mcCallback s) carg s)"

definition prep_seek :: "u32 \<Rightarrow> 'a mc_scheme \<Rightarrow> 'a mc_scheme" where
  "prep_seek arg s =
     (let s = stw (ldw arg s) (a_mcFileCmd s) s;
          s = stw (ldw (arg + 4) s) (a_mcFileCmd s + 16) s
      in stw (ldw (arg + 8) s) (a_mcFileCmd s + 20) s)"

definition sbcall_mcseek :: "u32 \<Rightarrow> 'a mc_scheme \<Rightarrow> (u32 \<times> 'a mc_scheme) option" where
  "sbcall_mcseek carg s =
     (let arg = ra_sbarg (rpc_args s carg); (e, s) = mc_enter MC_FUNC_SEEK s
      in if e \<noteq> 0 then Some (e, s)
         else let s = prep_seek arg s in mc_call MC_RPCCMD_SEEK (a_mcFileCmd s) 48 (a_mcCallback s) carg s)"

definition prep_read :: "u32 \<Rightarrow> 'a mc_scheme \<Rightarrow> 'a mc_scheme" where
  "prep_read arg s =
     (let s = stw (ldw arg s) (a_mcFileCmd s) s;
          s = stw (ldw (arg + 8) s) (a_mcFileCmd s + 12) s;
          s = stw (ldw (arg + 4) s) (a_mcFileCmd s + 24) s;
          s = stw (a_endParameter s) (a_mcFileCmd s + 28) s;
          s = SifWriteBackDCache (ldw (arg + 4) s) (ldw (arg + 8) s) s
      in SifWriteBackDCache (a_endParameter s) 192 s)"

definition sbcall_mcread :: "u32 \<Rightarrow> 'a mc_scheme \<Rightarrow> (u32 \<times> 'a mc_scheme) option" where
  "sbcall_mcread carg s =
     (let arg = ra_sbarg (rpc_args s carg); (e, s) = mc_enter MC_FUNC_READ s
      in if e \<noteq> 0 then Some (e, s)
         else let s = prep_read arg s in mc_call MC_RPCCMD_READ (a_mcFileCmd s) 48 (a_mcReadFixAlign s) carg s)"

text \<open>The bytes up to the next multiple of 16 travel in the command block itself.\<close>

definition unaligned_head :: "u32 \<Rightarrow> u32" where
  "unaligned_head buf = ((buf - 1) AND 0xFFFFFFF0) - (buf - 16)"

function copy_head :: "nat \<Rightarrow> u32 \<Rightarrow> 'a mc_scheme \<Rightarrow> 'a mc_scheme" where
  "copy_head i arg s =
     (if int i < sint (ldw (a_mcFileCmd s + 20) s)
      then copy_head (i + 1) arg (stb (ldb (ldw (arg + 4) s + of_nat i) s) (a_mcFileCmd s + 32 + of_nat i) s)
      else s)"
  by pat_completeness auto
termination
proof (relation "measure (\<lambda>(i, arg, s). 2 ^ 31 - i)")
  fix i arg
  fix s :: "'a mc_scheme"
  assume "int i < sint (ldw (a_mcFileCmd s + 20) s)"
  then have "i < 2 ^ 31" by (rule below_sint)
  then show "((i + 1, arg, stb (ldb (ldw (arg + 4) s + of_nat i) s) (a_mcFileCmd s + 32 + of_nat i) s), i, arg, s)
      \<in> measure (\<lambda>(i, arg, s). 2 ^ 31 - i)" by simp
qed simp

declare copy_head.simps [simp del]

definition prep_write :: "u32 \<Rightarrow> 'a mc_scheme \<Rightarrow> 'a mc_scheme" where
  "prep_write arg s =
     (let s = stw (ldw arg s) (a_mcFileCmd s) s;
          s = (if ldw (arg + 8) s < 17
               then
                 let s = stw 0 (a_mcFileCmd s + 12) s;
                     s = stw (ldw (arg + 8) s) (a_mcFileCmd s + 20) s
                 in stw 0 (a_mcFileCmd s + 24) s
               else
                 let s = stw (ldw (arg + 8) s - unaligned_head (ldw (arg + 4) s)) (a_mcFileCmd s + 12) s;
                     s = stw (unaligned_head (ldw (arg + 4) s)) (a_mcFileCmd s + 20) s
                 in stw (ldw (arg + 4) s + unaligned_head (ldw (arg + 4) s)) (a_mcFileCmd s + 24) s)
      in copy_head 0 arg s)"

definition sbcall_mcwrite :: "u32 \<Rightarrow> 'a mc_scheme \<Rightarrow> (u32 \<times> 'a mc_scheme) option" where
  "sbcall_mcwrite carg s =
     (let arg = ra_sbarg (rpc_args s carg); (e, s) = mc_enter MC_FUNC_WRITE s
      in if e \<noteq> 0 then Some (e, s)
         else let s = prep_write arg s in mc_call MC_RPCCMD_WRITE (a_mcFileCmd s) 48 (a_mcCallback s) carg s)"

definition sbcall_mcflush :: "u32 \<Rightarrow> 'a mc_scheme \<Rightarrow> (u32 \<times> 'a mc_scheme) option" where
  "sbcall_mcflush carg s =
     (let arg = ra_sbarg (rpc_args s carg); (e, s) = mc_enter MC_FUNC_FLUSH s
      in if e \<noteq> 0 then Some (e, s)
         else let s = set_fd arg s in mc_call MC_RPCCMD_FLUSH (a_mcFileCmd s) 48 (a_mcCallback s) carg s)"

definition prep_mkdir :: "u32 \<Rightarrow> 'a mc_scheme \<Rightarrow> 'a mc_scheme" where
  "prep_mkdir arg s =
     (let s = stw (ldw arg s) (a_mcCmd s) s;
          s = stw (ldw (arg + 4) s) (a_mcCmd s + 4) s;
          s = stw 0x40 (a_mcCmd s + 8) s
      in set_name (ldw (arg + 8) s) s)"

definition sbcall_mcmkdir :: "u32 \<Rightarrow> 'a mc_scheme \<Rightarrow> (u32 \<times> 'a mc_scheme) option" where
  "sbcall_mcmkdir carg s =
     (let arg = ra_sbarg (rpc_args s carg); (e, s) = mc_enter MC_FUNC_MK_DIR s
      in if e \<noteq> 0 then Some (e, s)
         else let s = prep_mkdir arg s in mc_call MC_RPCCMD_OPEN (a_mcCmd s) 0x414 (a_mcCallback s) carg s)"

definition prep_getdir :: "u32 \<Rightarrow> 'a mc_scheme \<Rightarrow> 'a mc_scheme" where
  "prep_getdir arg s =
     (let s = stw (ldw arg s) (a_mcCmd s) s;
          s = stw (ldw (arg + 4) s) (a_mcCmd s + 4) s;
          s = stw (ldw (arg + 12) s) (a_mcCmd s + 8) s;
          s = stw (ldw (arg + 16) s) (a_mcCmd s + 12) s;
          s = stw (ldw (arg + 20) s) (a_mcCmd s + 16) s;
          s = set_name (ldw (arg + 8) s) s
      in SifWriteBackDCache (ldw (arg + 20) s) (ldw (arg + 16) s * 64) s)"

definition sbcall_mcgetdir :: "u32 \<Rightarrow> 'a mc_scheme \<Rightarrow> (u32 \<times> 'a mc_scheme) option" where
  "sbcall_mcgetdir carg s =
     (let arg = ra_sbarg (rpc_args s carg); (e, s) = mc_enter MC_FUNC_GET_DIR s
      in if e \<noteq> 0 then Some (e, s)
         else let s = prep_getdir arg s in mc_call MC_RPCCMD_GET_DIR (a_mcCmd s) 0x414 (a_mcCallback s) carg s)"

definition prep_setfileinfo :: "u32 \<Rightarrow> 'a mc_scheme \<Rightarrow> 'a mc_scheme" where
  "prep_setfileinfo arg s =
     (let s = stw (ldw arg s) (a_mcCmd s) s;
          s = stw (ldw (arg + 4) s) (a_mcCmd s + 4) s;
          s = stw (ldw (arg + 16) s) (a_mcCmd s + 8) s;
          s = stw (a_buffFileInfo s) (a_mcCmd s + 16) s;
          s = memcpy 64 (a_buffFileInfo s) (ldw (arg + 12) s) s
      in set_name (ldw (arg + 8) s) s)"

definition sbcall_mcsetfileinfo :: "u32 \<Rightarrow> 'a mc_scheme \<Rightarrow> (u32 \<times> 'a mc_scheme) option" where
  "sbcall_mcsetfileinfo carg s =
     (let arg = ra_sbarg (rpc_args s carg); (e, s) = mc_enter MC_FUNC_SET_INFO s
      in if e \<noteq> 0 then Some (e, s)
         else let s = prep_setfileinfo arg s in mc_call MC_RPCCMD_SET_INFO (a_mcCmd s) 0x414 (a_mcCallback s) carg s)"

definition prep_delete :: "u32 \<Rightarrow> 'a mc_scheme \<Rightarrow> 'a mc_scheme" where
  "prep_delete arg s =
     (let s = stw (ldw arg s) (a_mcCmd s) s;
          s = stw (ldw (arg + 4) s) (a_mcCmd s + 4) s;
          s = stw 0 (a_mcCmd s + 8) s
      in set_name (ldw (arg + 8) s) s)"

definition sbcall_mcdelete :: "u32 \<Rightarrow> 'a mc_scheme \<Rightarrow> (u32 \<times> 'a mc_scheme) option" where
  "sbcall_mcdelete carg s =
     (let arg = ra_sbarg (rpc_args s carg); (e, s) = mc_enter MC_FUNC_DELETE s
      in if e \<noteq> 0 then Some (e, s)
         else let s = prep_delete arg s in mc_call MC_RPCCMD_DELETE (a_mcCmd s) 0x414 (a_mcCallback s) carg s)"

definition set_card :: "u32 \<Rightarrow> 'a mc_scheme \<Rightarrow> 'a mc_scheme" where
  "set_card arg s =
     (let s = stw (ldw arg s) (a_mcCmd s) s
      in stw (ldw (arg + 4) s) (a_mcCmd s + 4) s)"

definition sbcall_mcformat :: "u32 \<Rightarrow> 'a mc_scheme \<Rightarrow> (u32 \<times> 'a mc_scheme) option" where
  "sbcall_mcformat carg s =
     (let arg = ra_sbarg (rpc_args s carg); (e, s) = mc_enter MC_FUNC_FORMAT s
      in if e \<noteq> 0 then Some (e, s)
         else let s = set_card arg s in mc_call MC_RPCCMD_FORMAT (a_mcCmd s) 48 (a_mcCallback s) carg s)"

definition sbcall_mcunformat :: "u32 \<Rightarrow> 'a mc_scheme \<Rightarrow> (u32 \<times> 'a mc_scheme) option" where
  "sbcall_mcunformat carg s =
     (let arg = ra_sbarg (rpc_args s carg); (e, s) = mc_enter MC_FUNC_UNFORMAT s
      in if e \<noteq> 0 then Some (e, s)
         else let s = set_card arg s in mc_call MC_RPCCMD_UNFORMAT (a_mcCmd s) 48 (a_mcCallback s) carg s)"

definition prep_getentspace :: "u32 \<Rightarrow> 'a mc_scheme \<Rightarrow> 'a mc_scheme" where
  "prep_getentspace arg s =
     (let s = set_card arg s
      in set_name (ldw (arg + 8) s) s)"

definition sbcall_mcgetentspace :: "u32 \<Rightarrow> 'a mc_scheme \<Rightarrow> (u32 \<times> 'a mc_scheme) option" where
  "sbcall_mcgetentspace carg s =
     (let arg = ra_sbarg (rpc_args s carg); (e, s) = mc_enter MC_FUNC_GET_ENT s
      in if e \<noteq> 0 then Some (e, s)
         else let s = prep_getentspace arg s in mc_call MC_RPCCMD_GET_ENT (a_mcCmd s) 0x414 (a_mcCallback s) carg s)"

definition prep_rename :: "u32 \<Rightarrow> 'a mc_scheme \<Rightarrow> 'a mc_scheme" where
  "prep_rename arg s =
     (let s = stw (ldw arg s) (a_mcCmd s) s;
          s = stw (ldw (arg + 4) s) (a_mcCmd s + 4) s;
          s = stw 0x10 (a_mcCmd s + 8) s;
          s = stw (a_buffFileInfo s) (a_mcCmd s + 16) s;
          s = set_name (ldw (arg + 8) s) s;
          s = strncpy 31 (a_buffFileInfo s + 0x20) (ldw (arg + 12) s) s
      in stb 0 (a_buffFileInfo s + 63) s)"

definition sbcall_mcrename :: "u32 \<Rightarrow> 'a mc_scheme \<Rightarrow> (u32 \<times> 'a mc_scheme) option" where
  "sbcall_mcrename carg s =
     (let arg = ra_sbarg (rpc_args s carg); (e, s) = mc_enter MC_FUNC_RENAME s
      in if e \<noteq> 0 then Some (e, s)
         else let s = prep_rename arg s in mc_call MC_RPCCMD_SET_INFO (a_mcCmd s) 0x414 (a_mcCallback s) carg s)"

text \<open>The request of this one names no end function.\<close>

definition mcChangeThreadPriority :: "u32 \<Rightarrow> 'a mc_scheme \<Rightarrow> (u32 \<times> 'a mc_scheme) option" where
  "mcChangeThreadPriority level s =
     (let (e, s) = mc_enter MC_FUNC_CHG_PRITY s
      in if e \<noteq> 0 then Some (e, s)
         else let s = stw level (a_mcCmd s + 20) s in mc_call MC_RPCCMD_CHG_PRITY (a_mcCmd s) 48 0 0 s)"

section \<open>Filling the command blocks\<close>

text \<open>The module's objects are where the code puts them: aligned, and not in the packet table.\<close>

definition mc_placed :: "'a mc_scheme \<Rightarrow> bool" where
  "mc_placed s \<longleftrightarrow> words_off (rd_pkt_table s) 261 (a_mcCmd s) \<and> words_off (rd_pkt_table s) 12 (a_mcFileCmd s)
     \<and> words_off (rd_pkt_table s) 12 (a_mcInfoCmd s) \<and> words_off (rd_pkt_table s) 16 (a_buffFileInfo s) \<and> a_rdata s AND 0x0f = 0"

lemma mc_more:
  assumes "services.more t = services.more s"
  shows "mcInitializeCounter t = mcInitializeCounter s" "lastCmd t = lastCmd s" "mcType t = mcType s" "a_cdata t = a_cdata s"
    "a_rdata t = a_rdata s" "a_endParameter t = a_endParameter s" "a_buffFileInfo t = a_buffFileInfo s" "a_mcCmd t = a_mcCmd s"
    "a_mcFileCmd t = a_mcFileCmd s" "a_mcInfoCmd t = a_mcInfoCmd s" "a_mcCallback t = a_mcCallback s" "a_mcGetInfoApdx t = a_mcGetInfoApdx s"
    "a_mcReadFixAlign t = a_mcReadFixAlign s"
  using assms by (cases s; cases t; simp)+

lemma calm_placed:
  assumes "calm s t" "mc_placed s"
  shows "mc_placed t"
  using assms mc_more [OF calm_more [OF assms(1)]] by (simp add: mc_placed_def calm_table)

lemma calm_word:
  assumes "calm s t" "words_off (rd_pkt_table t) n a" "k < n"
  shows "calm s (stw v (a + of_nat (4 * k)) t)"
  using calm_stw_last [OF assms(1) words_offD [OF assms(2,3)]] .

lemma calm_blocks:
  assumes "mc_placed s" "calm s t"
  shows "k < 261 \<Longrightarrow> calm s (stw v (a_mcCmd t + of_nat (4 * k)) t)" "k < 12 \<Longrightarrow> calm s (stw v (a_mcFileCmd t + of_nat (4 * k)) t)"
    "k < 12 \<Longrightarrow> calm s (stw v (a_mcInfoCmd t + of_nat (4 * k)) t)"
  using calm_word [OF assms(2), of 261 "a_mcCmd t"] calm_word [OF assms(2), of 12 "a_mcFileCmd t"] calm_word [OF assms(2), of 12 "a_mcInfoCmd t"]
    calm_placed [OF assms(2,1)] unfolding mc_placed_def by blast+

lemmas calm_cmd = calm_blocks(1) [of _ _ 0, simplified] calm_blocks(1) [of _ _ 1, simplified] calm_blocks(1) [of _ _ 2, simplified]
  calm_blocks(1) [of _ _ 3, simplified] calm_blocks(1) [of _ _ 4, simplified] calm_blocks(1) [of _ _ 5, simplified]

lemmas calm_file = calm_blocks(2) [of _ _ 0, simplified] calm_blocks(2) [of _ _ 3, simplified] calm_blocks(2) [of _ _ 4, simplified]
  calm_blocks(2) [of _ _ 5, simplified] calm_blocks(2) [of _ _ 6, simplified] calm_blocks(2) [of _ _ 7, simplified]

lemmas calm_info = calm_blocks(3) [of _ _ 1, simplified] calm_blocks(3) [of _ _ 2, simplified] calm_blocks(3) [of _ _ 3, simplified]
  calm_blocks(3) [of _ _ 4, simplified] calm_blocks(3) [of _ _ 5, simplified] calm_blocks(3) [of _ _ 7, simplified]

lemma calm_byte:
  assumes "calm s t" "words_off (rd_pkt_table t) n a" "k < 4 * n"
  shows "calm s (stb v (a + of_nat k) t)"
  using calm_trans [OF assms(1) calm_stb [OF words_off_byte [OF assms(2,3)]]] .

lemma calm_name:
  assumes "mc_placed s" "calm s t"
  shows "calm s (set_name p t)"
proof -
  have off: "words_off (rd_pkt_table t) 261 (a_mcCmd t)" using calm_placed [OF assms(2,1)] by (simp add: mc_placed_def)
  let ?u = "strncpy 1023 (a_mcCmd t + 20) p t"
  have c: "calm t ?u" using calm_strncpy [OF off, of 20 1023 p] by simp
  have "calm t (stb 0 (a_mcCmd t + of_nat 1043) ?u)" by (rule calm_byte [OF c, of 261]) (use off calm_table [OF c] in simp_all)
  then show ?thesis using calm_trans [OF assms(2)] by (simp add: set_name_def add.assoc)
qed

lemma calm_file_info:
  assumes "mc_placed s" "calm s t"
  shows "calm s (memcpy 64 (a_buffFileInfo t) p t)" "calm s (strncpy 31 (a_buffFileInfo t + 0x20) p t)"
    "calm s (stb 0 (a_buffFileInfo t + 63) t)"
proof -
  have off: "words_off (rd_pkt_table t) 16 (a_buffFileInfo t)" using calm_placed [OF assms(2,1)] by (simp add: mc_placed_def)
  show "calm s (memcpy 64 (a_buffFileInfo t) p t)" using calm_trans [OF assms(2) calm_memcpy [OF off]] by simp
  show "calm s (strncpy 31 (a_buffFileInfo t + 0x20) p t)" using calm_trans [OF assms(2) calm_strncpy [OF off, of 32 31]] by simp
  show "calm s (stb 0 (a_buffFileInfo t + 63) t)" using calm_byte [OF assms(2) off, of 63] by simp
qed

section \<open>Every command\<close>

text \<open>What the request needs of the preparation of its command block.\<close>

definition mc_same :: "'a mc_scheme \<Rightarrow> 'a mc_scheme \<Rightarrow> bool" where
  "mc_same s t \<longleftrightarrow> rpc_ready t = rpc_ready s \<and> rd_pkt_table t = rd_pkt_table s \<and> clients t = clients s \<and> pkts_used t = pkts_used s
     \<and> sif_get_number_of_free_dma_tags t = sif_get_number_of_free_dma_tags s \<and> lastCmd t = lastCmd s \<and> mcType t = mcType s
     \<and> a_cdata t = a_cdata s \<and> a_rdata t = a_rdata s \<and> a_mcCallback t = a_mcCallback s \<and> a_mcGetInfoApdx t = a_mcGetInfoApdx s
     \<and> a_mcReadFixAlign t = a_mcReadFixAlign s \<and> mcInitializeCounter t = mcInitializeCounter s
     \<and> a_mcCmd t = a_mcCmd s \<and> a_mcFileCmd t = a_mcFileCmd s \<and> a_mcInfoCmd t = a_mcInfoCmd s"

lemma calm_mc_same:
  assumes "calm s t"
  shows "mc_same s t"
  using assms mc_more [OF calm_more [OF assms]] by (simp add: mc_same_def calm_def)

lemma mc_same_trans: "mc_same s t \<Longrightarrow> mc_same t u \<Longrightarrow> mc_same s u"
  by (simp add: mc_same_def)

definition mc_command ::
  "u32 \<Rightarrow> ('a mc_scheme \<Rightarrow> 'a mc_scheme) \<Rightarrow> nat \<Rightarrow> ('a mc_scheme \<Rightarrow> u32) \<Rightarrow> u32 \<Rightarrow> ('a mc_scheme \<Rightarrow> u32) \<Rightarrow> u32 \<Rightarrow> 'a mc_scheme
     \<Rightarrow> (u32 \<times> 'a mc_scheme) option" where
  "mc_command func prep cmd sendbuf ssize stage2 carg s =
     (let (e, s) = mc_enter func s
      in if e \<noteq> 0 then Some (e, s) else let s = prep s in mc_call cmd (sendbuf s) ssize (stage2 s) carg s)"

definition mc_outcome ::
  "u32 \<Rightarrow> u32 \<Rightarrow> u32 \<Rightarrow> u32 \<Rightarrow> u32 \<Rightarrow> u32 \<Rightarrow> 'a mc_scheme \<Rightarrow> u32 \<Rightarrow> 'a mc_scheme \<Rightarrow> bool" where
  "mc_outcome func number sendbuf ssize stage2 carg s r s' \<longleftrightarrow>
     (if mcInitializeCounter s \<noteq> MC_INITIALIZED then r = - 1 \<and> s' = s
      else if lastCmd s \<noteq> 0 then r = - SIF_RPCE_SENDP \<and> s' = s
      else if rpc_busy (a_cdata s) ssize s then r = - SIF_RPCE_SENDP \<and> lastCmd s' = 0
      else r = 0 \<and> lastCmd s' = func \<and> requested (a_cdata s) number sendbuf ssize (a_rdata s) 4 stage2 carg s s')"

lemma mc_enter_eq:
  "mc_enter func s =
     (if mcInitializeCounter s \<noteq> MC_INITIALIZED then (- 1, s)
      else if lastCmd s \<noteq> 0 then (- SIF_RPCE_SENDP, s) else (0, s\<lparr>lastCmd := func\<rparr>))"
  by (cases s) (simp add: mc_enter_def core_save_disable_def Let_def core_restore_id)

lemma lastCmd_frame [simp]:
  "rpc_ready (s\<lparr>lastCmd := f\<rparr>) = rpc_ready s" "rd_pkt_table (s\<lparr>lastCmd := f\<rparr>) = rd_pkt_table s" "pkts_used (s\<lparr>lastCmd := f\<rparr>) = pkts_used s"
  "sif_get_number_of_free_dma_tags (s\<lparr>lastCmd := f\<rparr>) = sif_get_number_of_free_dma_tags s" "mc_placed (s\<lparr>lastCmd := f\<rparr>) = mc_placed s"
  "ldw a (s\<lparr>lastCmd := f\<rparr>) = ldw a s"
proof -
  have "services.truncate (s\<lparr>lastCmd := f\<rparr>) = services.truncate s" by (simp add: services.defs)
  note t = truncate_frame [OF this]
  show "rpc_ready (s\<lparr>lastCmd := f\<rparr>) = rpc_ready s" "rd_pkt_table (s\<lparr>lastCmd := f\<rparr>) = rd_pkt_table s" "pkts_used (s\<lparr>lastCmd := f\<rparr>) = pkts_used s"
    "sif_get_number_of_free_dma_tags (s\<lparr>lastCmd := f\<rparr>) = sif_get_number_of_free_dma_tags s" by (fact t)+
  show "mc_placed (s\<lparr>lastCmd := f\<rparr>) = mc_placed s" by (simp add: mc_placed_def)
  show "ldw a (s\<lparr>lastCmd := f\<rparr>) = ldw a s" by (simp add: ldw_def)
qed

lemma mc_command_effect:
  fixes s :: "'a mc_scheme"
  assumes "rpc_ready s" "a_rdata s AND 0x0f = 0" "rpc_number (mcType s) cmd = Some number" "ssize \<le> 0xfffffff0"
    and "mc_same (s\<lparr>lastCmd := func\<rparr>) (prep (s\<lparr>lastCmd := func\<rparr>))" "stage2 (prep (s\<lparr>lastCmd := func\<rparr>)) = st"
    and "sendbuf (prep (s\<lparr>lastCmd := func\<rparr>)) = sb"
  shows "\<exists>r s'. mc_command func prep cmd sendbuf ssize stage2 carg s = Some (r, s') \<and> mc_outcome func number sb ssize st carg s r s'
    \<and> (r = 0 \<longrightarrow> (\<forall>a. off_table (rd_pkt_table s) a \<longrightarrow> ldw a s' = ldw a (prep (s\<lparr>lastCmd := func\<rparr>))))"
proof (cases "mcInitializeCounter s \<noteq> MC_INITIALIZED \<or> lastCmd s \<noteq> 0")
  case True
  then show ?thesis by (auto simp: mc_command_def mc_enter_eq mc_outcome_def SIF_RPCE_SENDP_def)
next
  case False
  let ?t = "prep (s\<lparr>lastCmd := func\<rparr>)"
  have t: "rpc_ready ?t" "rd_pkt_table ?t = rd_pkt_table s" "clients ?t = clients s" "pkts_used ?t = pkts_used s"
      "sif_get_number_of_free_dma_tags ?t = sif_get_number_of_free_dma_tags s" "lastCmd ?t = func" "mcType ?t = mcType s"
      "a_cdata ?t = a_cdata s" "a_rdata ?t = a_rdata s" "a_rdata ?t AND 0x0f = 0"
    using assms(1,2,5) by (simp_all add: mc_same_def)
  obtain r u where u: "SifCallRpc [] (a_cdata ?t) number SIF_RPC_M_NOWAIT sb ssize (a_rdata ?t) 4 st carg ?t = Some (r, u)"
      "same_services (rd_pkt_table ?t) ?t u" "rpc_busy (a_cdata ?t) ssize ?t \<longleftrightarrow> sint r < 0"
      "rpc_busy (a_cdata ?t) ssize ?t \<or> r = 0 \<and> requested (a_cdata ?t) number sb ssize (a_rdata ?t) 4 st carg ?t u"
    by (rule service_call [OF t(1) assms(4) t(10)]) auto
  have rpc: "rpc_busy (a_cdata ?t) ssize ?t = rpc_busy (a_cdata s) ssize s"
      "requested (a_cdata ?t) number sb ssize (a_rdata ?t) 4 st carg ?t u = requested (a_cdata s) number sb ssize (a_rdata s) 4 st carg s u"
    using t by (simp_all add: rpc_busy_def requested_def)
  have more: "services.more u = services.more ?t" using u(2) services_more [of u ?t] by (simp add: same_services_def)
  have mem: "ldw a u = ldw a ?t" if "off_table (rd_pkt_table s) a" for a using u(2) t(2) that by (simp add: same_services_def)
  have eq: "mc_command func prep cmd sendbuf ssize stage2 carg s
      = Some (if r \<noteq> 0 then (- SIF_RPCE_SENDP, u\<lparr>lastCmd := 0\<rparr>) else (0, u))"
    using False u(1) t(7) assms(3,6,7) by (simp add: mc_command_def mc_enter_eq mc_call_def SIF_RPC_M_NOWAIT_def)
  show ?thesis
  proof (cases "rpc_busy (a_cdata s) ssize s")
    case True
    then have "r \<noteq> 0" using u(3) rpc(1) by auto
    then show ?thesis using False True eq by (simp add: mc_outcome_def SIF_RPCE_SENDP_def)
  next
    case nb: False
    then have "r = 0" "requested (a_cdata s) number sb ssize (a_rdata s) 4 st carg s u" using u(4) rpc by auto
    then show ?thesis using False nb eq mem mc_more(2) [OF more] t(6) by (auto simp: mc_outcome_def)
  qed
qed

text \<open>Each operation as an instance.\<close>

lemma stw_mc [simp]:
  "a_mcCmd (stw v a s) = a_mcCmd s" "a_mcFileCmd (stw v a s) = a_mcFileCmd s" "a_mcInfoCmd (stw v a s) = a_mcInfoCmd s"
  "a_buffFileInfo (stw v a s) = a_buffFileInfo s" "a_endParameter (stw v a s) = a_endParameter s" "mcType (stw v a s) = mcType s"
  "a_mcCallback (stw v a s) = a_mcCallback s" "a_mcGetInfoApdx (stw v a s) = a_mcGetInfoApdx s"
  "a_mcReadFixAlign (stw v a s) = a_mcReadFixAlign s" "a_cdata (stw v a s) = a_cdata s" "a_rdata (stw v a s) = a_rdata s"
  by (simp_all add: stw_def)

lemma calm_card:
  assumes "mc_placed s" "calm s t"
  shows "calm s (set_card arg t)"
  unfolding set_card_def Let_def by (intro calm_cmd assms)

lemma calm_pad_word: "calm s t \<Longrightarrow> int i < 16 \<Longrightarrow> mc_placed s \<Longrightarrow> calm s (stb v (a_mcFileCmd t + 32 + of_nat i) t)"
  using calm_byte [of s t 12 "a_mcFileCmd t" "32 + i" v] calm_placed [of s t] by (simp add: mc_placed_def add.assoc)

lemma origin_kept:
  fixes t :: "'a mc_scheme"
  assumes "a_mcFileCmd t AND 3 = 0" "i < 16" "k < 8"
  shows "ldw (a_mcFileCmd t + of_nat (4 * k)) (stb v (a_mcFileCmd t + 32 + of_nat i) t) = ldw (a_mcFileCmd t + of_nat (4 * k)) t"
proof -
  have "(a_mcFileCmd t + 32 + of_nat i) AND NOT 3 = a_mcFileCmd t + of_nat (4 * ((32 + i) div 4))"
    using word_of_byte [OF assms(1), of "32 + i"] by (simp add: add.assoc del: of_nat_mult)
  then show ?thesis
    using PHYSADDR_offset_eq_iff [of "4 * k" "4 * ((32 + i) div 4)" "a_mcFileCmd t"] assms(2,3) by (intro ldw_stb) auto
qed

lemma calm_head:
  fixes t :: "'a mc_scheme"
  assumes "mc_placed s" "calm s t" "sint (ldw (a_mcFileCmd t + 20) t) \<le> 16"
  shows "calm s (copy_head i arg t)"
  using assms
proof (induction i arg t rule: copy_head.induct)
  case (1 i arg t)
  show ?case
  proof (cases "int i < sint (ldw (a_mcFileCmd t + 20) t)")
    case True
    let ?u = "stb (ldb (ldw (arg + 4) t + of_nat i) t) (a_mcFileCmd t + 32 + of_nat i) t"
    have i: "i < 16" using True 1(4) by linarith
    have c: "calm s ?u" using calm_pad_word [OF 1(3) _ 1(2)] i by simp
    have "a_mcFileCmd t AND 3 = 0" using calm_placed [OF 1(3,2)] by (simp add: mc_placed_def words_off_def)
    then have "ldw (a_mcFileCmd ?u + 20) ?u = ldw (a_mcFileCmd t + 20) t"
      using origin_kept [of t i 5] i mc_more(9) [OF calm_more [OF c]] mc_more(9) [OF calm_more [OF 1(3)]] by simp
    then show ?thesis using 1(1) [OF True 1(2) c] 1(4) True by (subst copy_head.simps) simp
  next
    case False
    then show ?thesis using 1(3) by (subst copy_head.simps) simp
  qed
qed

lemma unaligned_head_bounds:
  "unat (unaligned_head p) < 16" "(p + unaligned_head p) AND 15 = 0"
proof -
  let ?r = "(p - 1) AND 15" and ?q = "(p - 1) AND NOT 15"
  have "(0xFFFFFFF0 :: u32) = NOT 15" by code_simp
  then have q: "(p - 1) AND 0xFFFFFFF0 = ?q" by (rule arg_cong)
  have "?q + ?r = ?q OR ?r" by (intro disjunctive_add) (auto simp: bit_simps)
  also have "\<dots> = p - 1" by (rule bit_word_eqI) (auto simp: bit_simps)
  finally have sum: "?q = p - 1 - ?r" by (simp add: algebra_simps)
  have h: "unaligned_head p = 15 - ?r" unfolding unaligned_head_def q sum by simp
  have "?r = take_bit 4 (p - 1)" by (simp add: take_bit_eq_mask mask_eq_exp_minus_1)
  then have r: "unat ?r < 16" using unat_take_bit_mod [of 4 "p - 1"] by simp
  then have "?r \<le> 15" by (simp add: word_le_nat_alt)
  then have "unat (15 - ?r) = 15 - unat ?r" by (simp add: unat_sub)
  then show "unat (unaligned_head p) < 16" unfolding h by simp
  have "p + unaligned_head p = ?q + 16" unfolding h sum by simp
  moreover have "(?q + 16) AND 15 = 0"
  proof -
    have "x AND 15 = take_bit 4 x" for x :: u32 by (simp add: take_bit_eq_mask mask_eq_exp_minus_1)
    moreover have "take_bit 4 (?q + 16) = take_bit 4 (take_bit 4 ?q + 16)" by (rule take_bit_add_left [symmetric]) simp
    moreover have "take_bit 4 ?q = 0" by (rule bit_word_eqI) (auto simp: bit_simps)
    ultimately show ?thesis by simp
  qed
  ultimately show "(p + unaligned_head p) AND 15 = 0" by simp
qed

lemma sint_le_16:
  assumes "unat (w :: u32) \<le> 16"
  shows "sint w = int (unat w)" "sint w \<le> 16"
proof -
  show "sint w = int (unat w)" using sint_small [of w] assms by simp
  then show "sint w \<le> 16" using assms by linarith
qed

definition fill_write :: "u32 \<Rightarrow> 'a mc_scheme \<Rightarrow> 'a mc_scheme" where
  "fill_write arg s =
     (let s = stw (ldw arg s) (a_mcFileCmd s) s
      in if ldw (arg + 8) s < 17
         then
           let s = stw 0 (a_mcFileCmd s + 12) s;
               s = stw (ldw (arg + 8) s) (a_mcFileCmd s + 20) s
           in stw 0 (a_mcFileCmd s + 24) s
         else
           let s = stw (ldw (arg + 8) s - unaligned_head (ldw (arg + 4) s)) (a_mcFileCmd s + 12) s;
               s = stw (unaligned_head (ldw (arg + 4) s)) (a_mcFileCmd s + 20) s
           in stw (ldw (arg + 4) s + unaligned_head (ldw (arg + 4) s)) (a_mcFileCmd s + 24) s)"

lemma prep_write_eq: "prep_write arg s = copy_head 0 arg (fill_write arg s)"
  unfolding prep_write_def fill_write_def Let_def ..

lemma fields_apart: "PHYSADDR (p + 20) \<noteq> PHYSADDR (p + 24)"
  using PHYSADDR_field [of 5 6 p] by simp

lemma fill_write_origin: "unat (ldw (a_mcFileCmd s + 20) (fill_write arg s)) \<le> 16"
  using unaligned_head_bounds(1) fields_apart [of "a_mcFileCmd s"]
  by (auto simp: fill_write_def Let_def word_less_nat_alt less_imp_le not_less)

lemma a_mcFileCmd_fill [simp]: "a_mcFileCmd (fill_write arg s) = a_mcFileCmd s"
  by (simp add: fill_write_def Let_def)

lemma calm_fill_write: "mc_placed s \<Longrightarrow> calm s (fill_write arg s)"
  unfolding fill_write_def Let_def by (split if_split, intro conjI impI) (intro calm_file calm_refl; assumption)+

lemma calm_prep_write: "mc_placed s \<Longrightarrow> calm s (prep_write arg s)"
  unfolding prep_write_eq
  by (rule calm_head [OF _ calm_fill_write]) (simp_all add: sint_le_16(2) [OF fill_write_origin])

lemma calm_preps:
  assumes "mc_placed s"
  shows "calm s (prep_open arg s)" "calm s (prep_seek arg s)" "calm s (prep_read arg s)" "calm s (prep_mkdir arg s)" "calm s (prep_getdir arg s)"
    "calm s (prep_setfileinfo arg s)" "calm s (prep_delete arg s)" "calm s (prep_getentspace arg s)" "calm s (prep_rename arg s)"
    "calm s (set_fd arg s)" "calm s (set_card arg s)" "calm s (stw level (a_mcCmd s + 20) s)"
  unfolding prep_open_def prep_seek_def prep_read_def prep_mkdir_def prep_getdir_def prep_setfileinfo_def prep_delete_def
    prep_getentspace_def prep_rename_def set_fd_def Let_def
  by (intro calm_writeback_last calm_file_info calm_name calm_card calm_cmd calm_file calm_refl assms)+

lemma mc_same_pointers: "mc_same s (s\<lparr>typeAddr := x, freeAddr := y, formatAddr := z\<rparr>)"
proof -
  have "services.truncate (s\<lparr>typeAddr := x, freeAddr := y, formatAddr := z\<rparr>) = services.truncate s" by (simp add: services.defs)
  from truncate_frame [OF this] show ?thesis by (simp add: mc_same_def)
qed

definition fill_info :: "u32 \<Rightarrow> u32 \<times> u32 \<Rightarrow> 'a mc_scheme \<Rightarrow> 'a mc_scheme" where
  "fill_info arg p s =
     (let s = stw (ldw arg s) (a_mcInfoCmd s + 4) s;
          s = stw (ldw (arg + 4) s) (a_mcInfoCmd s + 8) s;
          s = stw (flag_word (ldw (arg + fst p) s)) (a_mcInfoCmd s + 12) s;
          s = stw (flag_word (ldw (arg + 12) s)) (a_mcInfoCmd s + 16) s;
          s = stw (flag_word (ldw (arg + snd p) s)) (a_mcInfoCmd s + 20) s
      in stw (a_endParameter s) (a_mcInfoCmd s + 28) s)"

lemma same_prep_getinfo:
  assumes "mc_placed s"
  shows "mc_same s (prep_getinfo arg s)"
proof -
  let ?p = "if mcType s = MC_TYPE_MC then (8, 16) else (16, 8)"
  let ?t = "fill_info arg ?p s"
  have c: "calm s ?t" unfolding fill_info_def Let_def by (intro calm_info calm_refl assms)
  let ?u = "?t\<lparr>typeAddr := ldw (arg + 8) ?t, freeAddr := ldw (arg + 12) ?t, formatAddr := ldw (arg + 16) ?t\<rparr>"
  have "prep_getinfo arg s = SifWriteBackDCache (a_endParameter ?t) 192 ?u"
    unfolding prep_getinfo_def fill_info_def Let_def by (simp only: split_beta)
  then show ?thesis
    using mc_same_trans [OF calm_mc_same [OF c] mc_same_trans [OF mc_same_pointers calm_mc_same [OF calm_writeback]]] by simp
qed

text \<open>The operations with their function, number, block, its size and the end function.\<close>

definition mc_table ::
  "'a mc_scheme \<Rightarrow> ((u32 \<Rightarrow> 'a mc_scheme \<Rightarrow> (u32 \<times> 'a mc_scheme) option) \<times> u32 \<times> nat \<times> u32 \<times> u32 \<times> u32) list" where
  "mc_table s =
     [(sbcall_mcgetinfo, MC_FUNC_GET_INFO, MC_RPCCMD_GET_INFO, a_mcInfoCmd s, 48, a_mcGetInfoApdx s),
      (sbcall_mcopen, MC_FUNC_OPEN, MC_RPCCMD_OPEN, a_mcCmd s, 0x414, a_mcCallback s),
      (sbcall_mcclose, MC_FUNC_CLOSE, MC_RPCCMD_CLOSE, a_mcFileCmd s, 48, a_mcCallback s),
      (sbcall_mcseek, MC_FUNC_SEEK, MC_RPCCMD_SEEK, a_mcFileCmd s, 48, a_mcCallback s),
      (sbcall_mcread, MC_FUNC_READ, MC_RPCCMD_READ, a_mcFileCmd s, 48, a_mcReadFixAlign s),
      (sbcall_mcwrite, MC_FUNC_WRITE, MC_RPCCMD_WRITE, a_mcFileCmd s, 48, a_mcCallback s),
      (sbcall_mcflush, MC_FUNC_FLUSH, MC_RPCCMD_FLUSH, a_mcFileCmd s, 48, a_mcCallback s),
      (sbcall_mcmkdir, MC_FUNC_MK_DIR, MC_RPCCMD_OPEN, a_mcCmd s, 0x414, a_mcCallback s),
      (sbcall_mcgetdir, MC_FUNC_GET_DIR, MC_RPCCMD_GET_DIR, a_mcCmd s, 0x414, a_mcCallback s),
      (sbcall_mcsetfileinfo, MC_FUNC_SET_INFO, MC_RPCCMD_SET_INFO, a_mcCmd s, 0x414, a_mcCallback s),
      (sbcall_mcdelete, MC_FUNC_DELETE, MC_RPCCMD_DELETE, a_mcCmd s, 0x414, a_mcCallback s),
      (sbcall_mcformat, MC_FUNC_FORMAT, MC_RPCCMD_FORMAT, a_mcCmd s, 48, a_mcCallback s),
      (sbcall_mcunformat, MC_FUNC_UNFORMAT, MC_RPCCMD_UNFORMAT, a_mcCmd s, 48, a_mcCallback s),
      (sbcall_mcgetentspace, MC_FUNC_GET_ENT, MC_RPCCMD_GET_ENT, a_mcCmd s, 0x414, a_mcCallback s),
      (sbcall_mcrename, MC_FUNC_RENAME, MC_RPCCMD_SET_INFO, a_mcCmd s, 0x414, a_mcCallback s)]"

lemma mc_ops:
  "sbcall_mcgetinfo carg s = mc_command MC_FUNC_GET_INFO (prep_getinfo (ra_sbarg (rpc_args s carg))) MC_RPCCMD_GET_INFO a_mcInfoCmd 48 a_mcGetInfoApdx carg s"
  "sbcall_mcopen carg s = mc_command MC_FUNC_OPEN (prep_open (ra_sbarg (rpc_args s carg))) MC_RPCCMD_OPEN a_mcCmd 0x414 a_mcCallback carg s"
  "sbcall_mcclose carg s = mc_command MC_FUNC_CLOSE (set_fd (ra_sbarg (rpc_args s carg))) MC_RPCCMD_CLOSE a_mcFileCmd 48 a_mcCallback carg s"
  "sbcall_mcseek carg s = mc_command MC_FUNC_SEEK (prep_seek (ra_sbarg (rpc_args s carg))) MC_RPCCMD_SEEK a_mcFileCmd 48 a_mcCallback carg s"
  "sbcall_mcread carg s = mc_command MC_FUNC_READ (prep_read (ra_sbarg (rpc_args s carg))) MC_RPCCMD_READ a_mcFileCmd 48 a_mcReadFixAlign carg s"
  "sbcall_mcwrite carg s = mc_command MC_FUNC_WRITE (prep_write (ra_sbarg (rpc_args s carg))) MC_RPCCMD_WRITE a_mcFileCmd 48 a_mcCallback carg s"
  "sbcall_mcflush carg s = mc_command MC_FUNC_FLUSH (set_fd (ra_sbarg (rpc_args s carg))) MC_RPCCMD_FLUSH a_mcFileCmd 48 a_mcCallback carg s"
  "sbcall_mcmkdir carg s = mc_command MC_FUNC_MK_DIR (prep_mkdir (ra_sbarg (rpc_args s carg))) MC_RPCCMD_OPEN a_mcCmd 0x414 a_mcCallback carg s"
  "sbcall_mcgetdir carg s = mc_command MC_FUNC_GET_DIR (prep_getdir (ra_sbarg (rpc_args s carg))) MC_RPCCMD_GET_DIR a_mcCmd 0x414 a_mcCallback carg s"
  "sbcall_mcsetfileinfo carg s = mc_command MC_FUNC_SET_INFO (prep_setfileinfo (ra_sbarg (rpc_args s carg))) MC_RPCCMD_SET_INFO a_mcCmd 0x414 a_mcCallback carg s"
  "sbcall_mcdelete carg s = mc_command MC_FUNC_DELETE (prep_delete (ra_sbarg (rpc_args s carg))) MC_RPCCMD_DELETE a_mcCmd 0x414 a_mcCallback carg s"
  "sbcall_mcformat carg s = mc_command MC_FUNC_FORMAT (set_card (ra_sbarg (rpc_args s carg))) MC_RPCCMD_FORMAT a_mcCmd 48 a_mcCallback carg s"
  "sbcall_mcunformat carg s = mc_command MC_FUNC_UNFORMAT (set_card (ra_sbarg (rpc_args s carg))) MC_RPCCMD_UNFORMAT a_mcCmd 48 a_mcCallback carg s"
  "sbcall_mcgetentspace carg s = mc_command MC_FUNC_GET_ENT (prep_getentspace (ra_sbarg (rpc_args s carg))) MC_RPCCMD_GET_ENT a_mcCmd 0x414 a_mcCallback carg s"
  "sbcall_mcrename carg s = mc_command MC_FUNC_RENAME (prep_rename (ra_sbarg (rpc_args s carg))) MC_RPCCMD_SET_INFO a_mcCmd 0x414 a_mcCallback carg s"
  unfolding sbcall_mcgetinfo_def sbcall_mcopen_def sbcall_mcclose_def sbcall_mcseek_def sbcall_mcread_def sbcall_mcwrite_def sbcall_mcflush_def sbcall_mcmkdir_def sbcall_mcgetdir_def sbcall_mcsetfileinfo_def sbcall_mcdelete_def sbcall_mcformat_def sbcall_mcunformat_def sbcall_mcgetentspace_def sbcall_mcrename_def mc_command_def Let_def by (rule refl)+

definition mc_entry ::
  "u32 \<Rightarrow> 'a mc_scheme \<Rightarrow> (u32 \<Rightarrow> 'a mc_scheme \<Rightarrow> (u32 \<times> 'a mc_scheme) option) \<times> u32 \<times> nat \<times> u32 \<times> u32 \<times> u32 \<Rightarrow> bool" where
  "mc_entry carg s = (\<lambda>(op, func, cmd, sb, ssize, st). \<exists>prep sendbuf stage2. op carg s = mc_command func prep cmd sendbuf ssize stage2 carg s
     \<and> mc_same (s\<lparr>lastCmd := func\<rparr>) (prep (s\<lparr>lastCmd := func\<rparr>)) \<and> stage2 (prep (s\<lparr>lastCmd := func\<rparr>)) = st
     \<and> sendbuf (prep (s\<lparr>lastCmd := func\<rparr>)) = sb \<and> ssize \<le> 0x414 \<and> cmd < 17)"

lemma mc_entryI:
  assumes "op carg s = mc_command func prep cmd sendbuf ssize stage2 carg s" "\<And>s. mc_placed s \<Longrightarrow> mc_same s (prep s)" "mc_placed s"
    and "stage2 = a_mcCallback \<or> stage2 = a_mcGetInfoApdx \<or> stage2 = a_mcReadFixAlign" "ssize \<le> 0x414" "cmd < 17"
    and "sendbuf = a_mcCmd \<or> sendbuf = a_mcFileCmd \<or> sendbuf = a_mcInfoCmd"
  shows "mc_entry carg s (op, func, cmd, sendbuf s, ssize, stage2 s)"
proof -
  have c: "mc_same (s\<lparr>lastCmd := func\<rparr>) (prep (s\<lparr>lastCmd := func\<rparr>))" using assms(2,3) by simp
  then have "stage2 (prep (s\<lparr>lastCmd := func\<rparr>)) = stage2 s" "sendbuf (prep (s\<lparr>lastCmd := func\<rparr>)) = sendbuf s"
    using assms(4,7) by (auto simp: mc_same_def)
  then show ?thesis using assms(1,5,6) c unfolding mc_entry_def by blast
qed

lemmas mc_cmd_defs = MC_RPCCMD_GET_INFO_def MC_RPCCMD_OPEN_def MC_RPCCMD_CLOSE_def MC_RPCCMD_SEEK_def MC_RPCCMD_READ_def
  MC_RPCCMD_WRITE_def MC_RPCCMD_FLUSH_def MC_RPCCMD_GET_DIR_def MC_RPCCMD_SET_INFO_def MC_RPCCMD_DELETE_def
  MC_RPCCMD_FORMAT_def MC_RPCCMD_UNFORMAT_def MC_RPCCMD_GET_ENT_def MC_RPCCMD_CHG_PRITY_def

lemma mc_table_entries:
  assumes "mc_placed s" "x \<in> set (mc_table s)"
  shows "mc_entry carg s x"
proof -
  note i = mc_entryI [OF _ _ assms(1)] and p = calm_mc_same [OF calm_preps(1)] calm_mc_same [OF calm_preps(2)] calm_mc_same [OF calm_preps(3)]
    calm_mc_same [OF calm_preps(4)] calm_mc_same [OF calm_preps(5)] calm_mc_same [OF calm_preps(6)] calm_mc_same [OF calm_preps(7)]
    calm_mc_same [OF calm_preps(8)] calm_mc_same [OF calm_preps(9)] calm_mc_same [OF calm_preps(10)] calm_mc_same [OF calm_preps(11)]
    same_prep_getinfo calm_mc_same [OF calm_prep_write]
  have "list_all (mc_entry carg s) (mc_table s)"
    unfolding mc_table_def list.pred_inject
    by (intro conjI TrueI
        i [of sbcall_mcgetinfo, OF mc_ops(1)]
        i [of sbcall_mcopen, OF mc_ops(2)]
        i [of sbcall_mcclose, OF mc_ops(3)]
        i [of sbcall_mcseek, OF mc_ops(4)]
        i [of sbcall_mcread, OF mc_ops(5)]
        i [of sbcall_mcwrite, OF mc_ops(6)]
        i [of sbcall_mcflush, OF mc_ops(7)]
        i [of sbcall_mcmkdir, OF mc_ops(8)]
        i [of sbcall_mcgetdir, OF mc_ops(9)]
        i [of sbcall_mcsetfileinfo, OF mc_ops(10)]
        i [of sbcall_mcdelete, OF mc_ops(11)]
        i [of sbcall_mcformat, OF mc_ops(12)]
        i [of sbcall_mcunformat, OF mc_ops(13)]
        i [of sbcall_mcgetentspace, OF mc_ops(14)]
        i [of sbcall_mcrename, OF mc_ops(15)]
        p; simp add: mc_cmd_defs)
  then show ?thesis using assms(2) by (simp add: list_all_iff)
qed

section \<open>Writing\<close>

lemma a_mcFileCmd_memcpy [simp]: "a_mcFileCmd (memcpy n dst src s) = a_mcFileCmd (s :: 'a mc_scheme)"
  using memcpy_mem [of n dst src s] by auto

lemma data_word:
  fixes d :: u32
  assumes "d AND 3 = 0"
  shows "(d + 32 + of_nat j) AND NOT 3 = d + of_nat (4 * (8 + j div 4))"
proof -
  have "d + 32 + of_nat j = d + of_nat (32 + j)" by simp
  moreover have "4 * ((32 + j) div 4) = 4 * (8 + j div 4)" by presburger
  ultimately show ?thesis using word_of_byte [OF assms, of "32 + j"] by presburger
qed

lemma head_memory:
  assumes "d AND 3 = 0" "n \<le> 16" "\<forall>k < 12. PHYSADDR a \<noteq> PHYSADDR (d + of_nat (4 * k))"
  shows "ldw a (memcpy n (d + 32) p t) = ldw a t"
proof (rule memcpy_word, intro allI impI)
  fix j
  assume "j < n"
  then have "8 + j div 4 < 12" using assms(2) by auto
  then show "PHYSADDR a \<noteq> PHYSADDR ((d + 32 + of_nat j) AND NOT 3)" using assms(3) unfolding data_word [OF assms(1)] by blast
qed

lemma head_fields:
  assumes "d AND 3 = 0" "n \<le> 16" "k < 8"
  shows "ldw (d + of_nat (4 * k)) (memcpy n (d + 32) p t) = ldw (d + of_nat (4 * k)) t"
proof (rule memcpy_word, intro allI impI)
  fix j
  show "PHYSADDR (d + of_nat (4 * k)) \<noteq> PHYSADDR ((d + 32 + of_nat j) AND NOT 3)" if "j < n"
    unfolding data_word [OF assms(1)] using PHYSADDR_field [of k "8 + j div 4" d] assms(2,3) that by simp
qed

lemma copy_head_eq:
  fixes t :: "'a mc_scheme"
  assumes "a_mcFileCmd t = d" "d AND 3 = 0" "unat (ldw (d + 20) t) = n" "n \<le> 16" "ldw (arg + 4) t = p"
    and "\<forall>k < 12. PHYSADDR (arg + 4) \<noteq> PHYSADDR (d + of_nat (4 * k))" "i \<le> n"
  shows "copy_head i arg (memcpy i (d + 32) p t) = memcpy n (d + 32) p t"
  using assms(7)
proof (induction "n - i" arbitrary: i)
  case 0
  then have i: "i = n" by simp
  have "sint (ldw (d + 20) (memcpy n (d + 32) p t)) = int n"
    using head_fields [OF assms(2,4), of 5 p t] sint_le_16(1) [of "ldw (d + 20) t"] assms(3,4) by simp
  then show ?case unfolding i using assms(1) by (subst copy_head.simps) simp
next
  case (Suc m)
  let ?u = "memcpy i (d + 32) p t"
  have i: "i \<le> 16" "i < n" using Suc(2) assms(4) by simp_all
  have "sint (ldw (d + 20) ?u) = int n"
    using head_fields [OF assms(2) i(1), of 5 p t] sint_le_16(1) [of "ldw (d + 20) t"] assms(3,4) by simp
  moreover have "ldw (arg + 4) ?u = p" using head_memory [OF assms(2) i(1) assms(6), of p t] assms(5) by simp
  ultimately have "copy_head i arg ?u = copy_head (i + 1) arg (memcpy (i + 1) (d + 32) p t)"
    using assms(1) i(2) by (subst copy_head.simps) (simp add: memcpy_Suc)
  then show ?case using Suc(1) [of "i + 1"] Suc(2) i(2) by simp
qed

text \<open>What the command block of a write says, once it is filled.\<close>

definition write_block :: "u32 \<Rightarrow> u32 \<Rightarrow> u32 \<Rightarrow> u32 \<Rightarrow> 'a mc_scheme \<Rightarrow> 'a mc_scheme \<Rightarrow> bool" where
  "write_block d fd p n s t \<longleftrightarrow>
     (let h = if n < 17 then n else unaligned_head p
      in ldw d t = fd \<and> ldw (d + 12) t = n - h \<and> ldw (d + 20) t = h \<and> ldw (d + 24) t = (if n < 17 then 0 else p + h)
        \<and> (\<forall>i < unat h. ldb (d + 32 + of_nat i) t = ldb (p + of_nat i) s))"

definition write_apart :: "u32 \<Rightarrow> 'a mc_scheme \<Rightarrow> bool" where
  "write_apart arg s \<longleftrightarrow> words_apart 3 arg 12 (a_mcFileCmd s) \<and> bytes_apart 16 (ldw (arg + 4) s) 48 (a_mcFileCmd s)"

lemma head_length: "unat (if n < 17 then n else unaligned_head p) \<le> 16"
  using unaligned_head_bounds(1) [of p] by (auto simp: word_less_nat_alt)

lemma fill_write_words:
  assumes "words_apart 3 arg 12 (a_mcFileCmd s)"
  shows "let d = a_mcFileCmd s; n = ldw (arg + 8) s; p = ldw (arg + 4) s; h = (if n < 17 then n else unaligned_head p); t = fill_write arg s
    in ldw d t = ldw arg s \<and> ldw (d + 12) t = n - h \<and> ldw (d + 20) t = h \<and> ldw (d + 24) t = (if n < 17 then 0 else p + h) \<and> ldw (arg + 4) t = p"
proof -
  let ?d = "a_mcFileCmd s"
  have ap: "PHYSADDR (arg + of_nat (4 * j)) \<noteq> PHYSADDR (?d + of_nat (4 * k))" if "j < 3" "k < 12" for j k
    using assms that by (simp add: words_apart_def)
  have a: "PHYSADDR (arg + 4) \<noteq> PHYSADDR ?d" "PHYSADDR (arg + 4) \<noteq> PHYSADDR (?d + 12)" "PHYSADDR (arg + 4) \<noteq> PHYSADDR (?d + 20)"
    "PHYSADDR (arg + 4) \<noteq> PHYSADDR (?d + 24)" "PHYSADDR (arg + 8) \<noteq> PHYSADDR ?d" "PHYSADDR (arg + 8) \<noteq> PHYSADDR (?d + 12)"
    using ap [of 1 0] ap [of 1 3] ap [of 1 5] ap [of 1 6] ap [of 2 0] ap [of 2 3] by simp_all
  have f: "PHYSADDR ?d \<noteq> PHYSADDR (?d + 12)" "PHYSADDR ?d \<noteq> PHYSADDR (?d + 20)" "PHYSADDR ?d \<noteq> PHYSADDR (?d + 24)"
    "PHYSADDR (?d + 12) \<noteq> PHYSADDR (?d + 20)" "PHYSADDR (?d + 12) \<noteq> PHYSADDR (?d + 24)" "PHYSADDR (?d + 20) \<noteq> PHYSADDR (?d + 24)"
    using PHYSADDR_field [of 0 3 ?d] PHYSADDR_field [of 0 5 ?d] PHYSADDR_field [of 0 6 ?d] PHYSADDR_field [of 3 5 ?d] PHYSADDR_field [of 3 6 ?d]
      PHYSADDR_field [of 5 6 ?d] by simp_all
  show ?thesis using a f by (cases "ldw (arg + 8) s < 17") (simp_all add: fill_write_def Let_def)
qed

lemma fill_write_byte:
  fixes s :: "'a mc_scheme"
  assumes "\<forall>j < 48. PHYSADDR b \<noteq> PHYSADDR (a_mcFileCmd s + of_nat j)"
  shows "ldb b (fill_write arg s) = ldb b s"
proof -
  have "ldb b (stw v (a_mcFileCmd s + of_nat k) t) = ldb b t" if "k < 44" for v k and t :: "'a mc_scheme"
  proof (rule ldb_stw_other, intro allI impI)
    fix i :: nat
    assume "i < 4"
    then show "PHYSADDR b \<noteq> PHYSADDR (a_mcFileCmd s + of_nat k + of_nat i)"
      using assms [rule_format, of "k + i"] that by (simp add: add.assoc)
  qed
  from this [of 0] this [of 12] this [of 20] this [of 24] show ?thesis by (simp add: fill_write_def Let_def)
qed

lemma prep_write_block:
  fixes s :: "'a mc_scheme"
  assumes "a_mcFileCmd s AND 3 = 0" "write_apart arg s"
  shows "write_block (a_mcFileCmd s) (ldw arg s) (ldw (arg + 4) s) (ldw (arg + 8) s) s (prep_write arg s)"
proof -
  let ?d = "a_mcFileCmd s" and ?n = "ldw (arg + 8) s" and ?p = "ldw (arg + 4) s" and ?t = "fill_write arg s"
  let ?h = "if ?n < 17 then ?n else unaligned_head ?p"
  have ap: "words_apart 3 arg 12 ?d" "bytes_apart 16 ?p 48 ?d" using assms(2) by (simp_all add: write_apart_def)
  have t: "ldw ?d ?t = ldw arg s" "ldw (?d + 12) ?t = ?n - ?h" "ldw (?d + 20) ?t = ?h" "ldw (?d + 24) ?t = (if ?n < 17 then 0 else ?p + ?h)"
      "ldw (arg + 4) ?t = ?p"
    using fill_write_words [OF ap(1)] by (simp_all only: Let_def)
  have h: "unat ?h \<le> 16" by (rule head_length)
  have "\<forall>k < 12. PHYSADDR (arg + 4) \<noteq> PHYSADDR (?d + of_nat (4 * k))"
    using ap(1) [unfolded words_apart_def, rule_format, of 1] by simp
  then have eq: "prep_write arg s = memcpy (unat ?h) (?d + 32) ?p ?t"
    using copy_head_eq [of ?t ?d "unat ?h" arg ?p 0] assms(1) t(3,5) h by (simp add: prep_write_eq)
  have w: "ldw (?d + of_nat (4 * k)) (prep_write arg s) = ldw (?d + of_nat (4 * k)) ?t" if "k < 8" for k
    unfolding eq by (rule head_fields [OF assms(1) h that])
  have "ldb (?d + 32 + of_nat i) (prep_write arg s) = ldb (?p + of_nat i) s" if "i < unat ?h" for i
  proof -
    have ba: "PHYSADDR (?p + of_nat j) \<noteq> PHYSADDR (?d + of_nat k)" if "j < 16" "k < 48" for j k
      using ap(2) that by (simp add: bytes_apart_def)
    have "PHYSADDR (?p + of_nat j) \<noteq> PHYSADDR (?d + 32 + of_nat k)" if "j < 16" "k < 16" for j k
      using ba [of j "32 + k"] that by (simp add: add.assoc)
    then have "bytes_apart (unat ?h) ?p (unat ?h) (?d + 32)" using h by (simp add: bytes_apart_def)
    then have "ldb (?d + 32 + of_nat i) (memcpy (unat ?h) (?d + 32) ?p ?t) = ldb (?p + of_nat i) ?t"
      using h that by (intro memcpy_copied) simp_all
    moreover have "ldb (?p + of_nat i) ?t = ldb (?p + of_nat i) s"
      by (rule fill_write_byte) (use ba h that in simp)
    ultimately show ?thesis by (simp add: eq)
  qed
  then show ?thesis
    using w [of 0] w [of 3] w [of 5] w [of 6] t(1-4) unfolding write_block_def Let_def by simp
qed

lemma rpc_number_eq: "mcType s \<in> {MC_TYPE_MC, MC_TYPE_XMC} \<Longrightarrow> cmd < 17 \<Longrightarrow> rpc_number (mcType s) cmd = Some (mcRpcCmd ! nat (mcType s) ! cmd)"
  by (auto simp: rpc_number_def MC_TYPE_MC_def MC_TYPE_XMC_def)

lemma write_block_cong:
  fixes t u :: "'a mc_scheme"
  assumes "write_block d fd p n s t" "d AND 3 = 0" "\<forall>k < 12. ldw (d + of_nat (4 * k)) u = ldw (d + of_nat (4 * k)) t"
  shows "write_block d fd p n s u"
proof -
  let ?h = "if n < 17 then n else unaligned_head p"
  have "ldb (d + 32 + of_nat i) u = ldb (d + 32 + of_nat i) t" if "i < unat ?h" for i
  proof -
    have "i < 16" using that head_length [of n p] by linarith
    then have "(32 + i) div 4 < 12" by auto
    then have "ldw (d + of_nat (4 * ((32 + i) div 4))) u = ldw (d + of_nat (4 * ((32 + i) div 4))) t" using assms(3) by blast
    then show ?thesis
      using ldb_word [OF assms(2), of "32 + i" u] ldb_word [OF assms(2), of "32 + i" t] by (simp add: add.assoc)
  qed
  moreover have "ldw d u = ldw d t" "ldw (d + 12) u = ldw (d + 12) t" "ldw (d + 20) u = ldw (d + 20) t" "ldw (d + 24) u = ldw (d + 24) t"
    using assms(3) [rule_format, of 0] assms(3) [rule_format, of 3] assms(3) [rule_format, of 5] assms(3) [rule_format, of 6] by simp_all
  ultimately show ?thesis using assms(1) unfolding write_block_def Let_def by simp
qed

section \<open>Properties\<close>

text \<open>
  C14. Every memory card command returns on every path. Before initialisation the result is \<open>-1\<close>; while another command is out it is \<open>-SIF_RPCE_SENDP\<close>;
  in both cases nothing has changed, in particular no command block. If no request can be sent the result is
  \<open>-SIF_RPCE_SENDP\<close> and the lock is free again; otherwise the lock is held for this command and the request on its way carries the number of the command in the
  table of the loaded module and its end function, and is preceded by the command's block.
\<close>

theorem mc_command_outcome:
  fixes s :: "'a mc_scheme"
  assumes "rpc_ready s" "mc_placed s" "mcType s \<in> {MC_TYPE_MC, MC_TYPE_XMC}"
    and "(op, func, cmd, sendbuf, ssize, stage2) \<in> set (mc_table s)"
  shows "\<exists>r s'. op carg s = Some (r, s') \<and> mc_outcome func (mcRpcCmd ! nat (mcType s) ! cmd) sendbuf ssize stage2 carg s r s'"
proof -
  obtain prep sb st where e: "op carg s = mc_command func prep cmd sb ssize st carg s"
      "mc_same (s\<lparr>lastCmd := func\<rparr>) (prep (s\<lparr>lastCmd := func\<rparr>))" "st (prep (s\<lparr>lastCmd := func\<rparr>)) = stage2" "ssize \<le> 0x414" "cmd < 17"
      "sb (prep (s\<lparr>lastCmd := func\<rparr>)) = sendbuf"
    using mc_table_entries [OF assms(2,4), of carg] by (auto simp: mc_entry_def)
  have "ssize \<le> 0xfffffff0" using e(4) by (simp add: word_le_nat_alt)
  then show ?thesis
    using mc_command_effect [of s cmd "mcRpcCmd ! nat (mcType s) ! cmd" ssize func prep st stage2 sb sendbuf carg] assms(1,2) e(1-3,6)
      rpc_number_eq [OF assms(3) e(5)] by (auto simp: mc_placed_def)
qed

text \<open>
  C13. A write is split without loss. The bytes up to the next multiple of 16, at most 16 of them, travel in the command block, which is large
  enough for them; the rest is described by an address that is a multiple of 16 and by the remaining length, so both parts together are
  the buffer of the caller. The block still says so when the request
  that sends it is on its way.
\<close>

theorem mcwrite_splits:
  fixes s :: "'a mc_scheme"
  assumes "rpc_ready s" "mc_placed s" "mcType s \<in> {MC_TYPE_MC, MC_TYPE_XMC}" "arg = ra_sbarg (rpc_args s carg)" "write_apart arg s"
    and "mcInitializeCounter s = MC_INITIALIZED" "lastCmd s = 0" "\<not> rpc_busy (a_cdata s) 48 s"
    and "p = ldw (arg + 4) s" "n = ldw (arg + 8) s" "d = a_mcFileCmd s"
  shows "\<exists>s' h. sbcall_mcwrite carg s = Some (0, s') \<and> ldw d s' = ldw arg s \<and> ldw (d + 20) s' = h \<and> ldw (d + 12) s' + h = n \<and> unat h \<le> 16
    \<and> (\<forall>i < unat h. ldb (d + 32 + of_nat i) s' = ldb (p + of_nat i) s)
    \<and> (if n < 17 then h = n else ldw (d + 24) s' = p + h \<and> ldw (d + 24) s' AND 15 = 0)
    \<and> requested (a_cdata s) (mcRpcCmd ! nat (mcType s) ! MC_RPCCMD_WRITE) d 48 (a_rdata s) 4 (a_mcCallback s) carg s s'"
proof -
  let ?u = "s\<lparr>lastCmd := MC_FUNC_WRITE\<rparr>"
  have ldb: "ldb a ?u = ldb a s" for a by (simp add: ldb_def)
  have pl: "mc_placed ?u" using assms(2) by simp
  have al: "d AND 3 = 0" "words_off (rd_pkt_table s) 12 d" using assms(2,11) by (simp_all add: mc_placed_def words_off_def)
  have blk: "write_block d (ldw arg s) p n ?u (prep_write arg ?u)"
    using prep_write_block [of ?u arg] al(1) assms(5,9-11) by (simp add: write_apart_def)
  obtain r s' where s': "sbcall_mcwrite carg s = Some (r, s')" "mc_outcome MC_FUNC_WRITE (mcRpcCmd ! nat (mcType s) ! MC_RPCCMD_WRITE) d 48 (a_mcCallback s) carg s r s'"
      "r = 0 \<longrightarrow> (\<forall>a. off_table (rd_pkt_table s) a \<longrightarrow> ldw a s' = ldw a (prep_write arg ?u))"
    using mc_command_effect [of s MC_RPCCMD_WRITE "mcRpcCmd ! nat (mcType s) ! MC_RPCCMD_WRITE" 48 MC_FUNC_WRITE "prep_write arg" a_mcCallback
        "a_mcCallback s" a_mcFileCmd d carg] rpc_number_eq [OF assms(3), of MC_RPCCMD_WRITE] calm_mc_same [OF calm_prep_write [OF pl, of arg]]
      mc_more(9,11) [OF calm_more [OF calm_prep_write [OF pl, of arg]]] assms(1,2,4,11)
    by (auto simp: mc_ops(6) mc_placed_def mc_cmd_defs)
  have r: "r = 0" "requested (a_cdata s) (mcRpcCmd ! nat (mcType s) ! MC_RPCCMD_WRITE) d 48 (a_rdata s) 4 (a_mcCallback s) carg s s'"
    using s'(2) assms(6-8) by (simp_all add: mc_outcome_def)
  have "\<forall>k < 12. ldw (d + of_nat (4 * k)) s' = ldw (d + of_nat (4 * k)) (prep_write arg ?u)"
    using s'(3) r words_offD [OF al(2)] by blast
  note b = write_block_cong [OF blk al(1) this, unfolded write_block_def Let_def ldb]
  show ?thesis
    using s'(1) r b head_length [of n p] unaligned_head_bounds(2) [of p]
    by (intro exI [of _ s'] exI [of _ "if n < 17 then n else unaligned_head p"]) simp
qed

text \<open>
  The request that changes the priority of the IOP's thread names no end function, so nothing clears the lock: after it every command is
  refused for good.
\<close>

theorem mc_priority_wedges:
  fixes s :: "'a mc_scheme"
  assumes "rpc_ready s" "mc_placed s" "mcType s \<in> {MC_TYPE_MC, MC_TYPE_XMC}" "mcInitializeCounter s = MC_INITIALIZED" "lastCmd s = 0"
    and "\<not> rpc_busy (a_cdata s) 48 s"
  shows "\<exists>s'. mcChangeThreadPriority level s = Some (0, s') \<and> lastCmd s' = MC_FUNC_CHG_PRITY
    \<and> requested (a_cdata s) (mcRpcCmd ! nat (mcType s) ! MC_RPCCMD_CHG_PRITY) (a_mcCmd s) 48 (a_rdata s) 4 0 0 s s'"
proof -
  have "mcChangeThreadPriority level s
      = mc_command MC_FUNC_CHG_PRITY (\<lambda>s. stw level (a_mcCmd s + 20) s) MC_RPCCMD_CHG_PRITY a_mcCmd 48 (\<lambda>_. 0) 0 s"
    unfolding mcChangeThreadPriority_def mc_command_def Let_def ..
  then show ?thesis
    using mc_command_effect [of s MC_RPCCMD_CHG_PRITY "mcRpcCmd ! nat (mcType s) ! MC_RPCCMD_CHG_PRITY" 48 MC_FUNC_CHG_PRITY
        "\<lambda>s. stw level (a_mcCmd s + 20) s" "\<lambda>_. 0" 0 a_mcCmd "a_mcCmd s" 0] rpc_number_eq [OF assms(3), of MC_RPCCMD_CHG_PRITY]
      calm_mc_same [OF calm_preps(12), of "s\<lparr>lastCmd := MC_FUNC_CHG_PRITY\<rparr>" level] assms
    by (auto simp: mc_outcome_def mc_placed_def mc_cmd_defs)
qed

section \<open>Witnesses\<close>

text \<open>The newer module is loaded and the service idle; the argument block at \<open>0x80651000\<close> asks for a write of 100 bytes from \<open>0x80657003\<close>.\<close>

definition sample_mc :: mc where
  "sample_mc = services.extend
     (sifrpc.extend (sample_rpc\<lparr>clients := \<lambda>_. sample_client,
         mem := (\<lambda>_. 0)(0x651000 := 3, 0x651004 := 0x80657003, 0x651008 := 100, 0x657000 := 0x11223344, 0x657004 := 0x55667788)\<rparr>)
       (services.fields (\<lambda>_. 0)
         (\<lambda>_. \<lparr>ra_result = 0, ra_sbarg = 0x80651000, ra_endfunc = 0x80014000, ra_efarg = 6\<rparr>)))
     (mc.fields 2 0 1 0 0 0 0x80612000 0x80663000 0x80664000 0x80662200 0x80660000 0x80662000 0x80662100 1 2 3 4)"

lemma sample_mc_facts:
  "rpc_ready sample_mc" "rd_pkt_table sample_mc = 0xa0700000" "a_mcCmd sample_mc = 0x80660000" "a_mcFileCmd sample_mc = 0x80662000"
  "a_mcInfoCmd sample_mc = 0x80662100" "a_buffFileInfo sample_mc = 0x80662200" "a_rdata sample_mc = 0x80663000" "a_cdata sample_mc = 0x80612000"
  "cl_pkt_addr (clients sample_mc 0x80612000) = 0" "unat (sif_get_number_of_free_dma_tags sample_mc) = 28" "cmd_tags 48 = 2"
  "cmd_tags 0x414 = 3" "\<not> pkt_allocated sample_mc 1" "ra_sbarg (rpc_args sample_mc 0x80651000) = 0x80651000"
  "ldw 0x80651000 sample_mc = 3" "ldw 0x80651004 sample_mc = 0x80657003" "ldw 0x80651008 sample_mc = 100"
  "ldb 0x80657003 sample_mc = 0x11" "mcType sample_mc = 1" "mcInitializeCounter sample_mc = 2" "lastCmd sample_mc = 0"
  by code_simp+

lemma sample_mc_placed: "mc_placed sample_mc"
  unfolding mc_placed_def sample_mc_facts(2-7)
  using words_offI [of "0x80660000" "0xa0700000" 261] words_offI [of "0x80662000" "0xa0700000" 12]
    words_offI [of "0x80662100" "0xa0700000" 12] words_offI [of "0x80662200" "0xa0700000" 16]
  by (simp add: PHYSADDR_def)

lemma sample_mc_free: "cmd_tags n \<le> 28 \<Longrightarrow> \<not> rpc_busy 0x80612000 n sample_mc"
proof -
  have "1 \<notin> pkts_used sample_mc" "1 \<in> {..<32 :: nat}" using sample_mc_facts(13) by (simp_all add: pkts_used_def)
  then have "pkts_used sample_mc \<noteq> {..<32}" by metis
  then show "cmd_tags n \<le> 28 \<Longrightarrow> \<not> rpc_busy 0x80612000 n sample_mc" unfolding rpc_busy_def using sample_mc_facts(9,10) by simp
qed

theorem mc_command_outcome_witness:
  "\<exists>s'. sbcall_mcopen 0x80651000 sample_mc = Some (0, s') \<and> lastCmd s' = MC_FUNC_OPEN"
  using mc_command_outcome [OF sample_mc_facts(1) sample_mc_placed, of sbcall_mcopen MC_FUNC_OPEN MC_RPCCMD_OPEN "a_mcCmd sample_mc" "0x414" "a_mcCallback sample_mc"
      "0x80651000"] sample_mc_free [of "0x414"] sample_mc_facts(8,12,19-21)
  by (auto simp: mc_table_def mc_outcome_def MC_TYPE_XMC_def MC_INITIALIZED_def)

theorem mcwrite_splits_witness:
  "\<exists>s'. sbcall_mcwrite 0x80651000 sample_mc = Some (0, s') \<and> ldw 0x80662000 s' = 3 \<and> ldw 0x80662018 s' AND 15 = 0"
proof -
  have "write_apart 0x80651000 sample_mc"
    unfolding write_apart_def sample_mc_facts(4)
    using words_apartI(1) [of 3 12 "0x80662000" "0x80651000"] bytes_apartI [of 16 48 "0x80662000" "0x80657003"] sample_mc_facts(16) by simp
  then show ?thesis
    using mcwrite_splits [OF sample_mc_facts(1) sample_mc_placed _ sample_mc_facts(14) [symmetric] _ _ _ _ refl refl refl]
      sample_mc_free [of 48] sample_mc_facts
    by (auto simp: MC_TYPE_XMC_def MC_INITIALIZED_def)
qed

theorem mc_priority_wedges_witness:
  "\<exists>s'. mcChangeThreadPriority 40 sample_mc = Some (0, s') \<and> lastCmd s' = MC_FUNC_CHG_PRITY"
  using mc_priority_wedges [OF sample_mc_facts(1) sample_mc_placed, of 40] sample_mc_free [of 48] sample_mc_facts(8,11,19-21)
  by (auto simp: MC_TYPE_XMC_def MC_INITIALIZED_def)

end
