(* ===== verification/Sound.thy ===== *)
theory Sound
  imports Buffers
begin

text \<open>
  The sound service (\<open>TGE/sbios/sound.c\<close>): bringing the driver on the IOP up and down again in stages, access to the table of sound
  registers, and the requests to the driver.

  The addresses of the module's objects and functions are fields of the state. A register of 16 bits is a cell of the register
  file of its own. The functions that the kernel registers for the end of a transfer are a parameter \<open>ext\<close>, and so is its notification \<open>notify\<close>.
\<close>

section \<open>State\<close>

record sound_reg =
  sr_addr :: u32
  sr_type :: u32

record sound = services +
  soundInitCounter :: nat
  soundInitialized :: int
  callback1 :: u32
  callback1_arg :: u32
  callback2 :: u32
  callback2_arg :: u32
  a_sdrsif :: u32
  a_soundRpcQueue :: u32
  a_soundRpcServerData :: u32
  a_soundBuffer :: u32
  a_rpcBuffer :: u32
  a_rpcResultBuffer :: u32
  a_sound_rpc_server :: u32
  a_soundInitCallback :: u32
  a_soundCallback :: u32
  a_soundEndCallback :: u32
  a_soundCallbackOk :: u32

definition SOUND_BIND_RPC_ID :: u32 where "SOUND_BIND_RPC_ID = 0x80000701"
definition SOUND_SERVER_INIT :: u32 where "SOUND_SERVER_INIT = 0x8000"
definition SOUND_GCORE_ATTR :: u32 where "SOUND_GCORE_ATTR = 0x8080"
definition SOUND_SCORE_ATTR :: u32 where "SOUND_SCORE_ATTR = 0x8070"
definition SOUND_SCORE_TRANS :: u32 where "SOUND_SCORE_TRANS = 0x80e0"
definition SOUND_SCORE_TRANS_STAT :: u32 where "SOUND_SCORE_TRANS_STAT = 0x8100"
definition SOUND_SCORE_TRANS_CALLBACK :: u32 where "SOUND_SCORE_TRANS_CALLBACK = 0x8110"
definition SOUND_SERVER_RPC_SID :: u32 where "SOUND_SERVER_RPC_SID = 0x80000704"
definition TGE_SB_SOUNDINIT_MODE_HOT :: u32 where "TGE_SB_SOUNDINIT_MODE_HOT = 1"

definition soundreg :: "sound_reg list" where
  "soundreg =
     [\<lparr>sr_addr = 0xbf8010c0, sr_type = 4\<rparr>, \<lparr>sr_addr = 0xbf801500, sr_type = 4\<rparr>, \<lparr>sr_addr = 0xbf8010c4, sr_type = 2\<rparr>,
      \<lparr>sr_addr = 0xbf801504, sr_type = 2\<rparr>, \<lparr>sr_addr = 0xbf8010c6, sr_type = 2\<rparr>, \<lparr>sr_addr = 0, sr_type = 0\<rparr>,
      \<lparr>sr_addr = 0xbf8010c8, sr_type = 4\<rparr>, \<lparr>sr_addr = 0, sr_type = 0\<rparr>, \<lparr>sr_addr = 0xbf900198, sr_type = 2\<rparr>,
      \<lparr>sr_addr = 0xbf900598, sr_type = 2\<rparr>, \<lparr>sr_addr = 0xbf9001b0, sr_type = 2\<rparr>, \<lparr>sr_addr = 0xbf9005b0, sr_type = 2\<rparr>,
      \<lparr>sr_addr = 0xbf900760, sr_type = 2\<rparr>, \<lparr>sr_addr = 0xbf900788, sr_type = 2\<rparr>, \<lparr>sr_addr = 0xbf900762, sr_type = 2\<rparr>,
      \<lparr>sr_addr = 0xbf90078a, sr_type = 2\<rparr>, \<lparr>sr_addr = 0xbf900764, sr_type = 1\<rparr>, \<lparr>sr_addr = 0xbf90078c, sr_type = 1\<rparr>,
      \<lparr>sr_addr = 0xbf900766, sr_type = 1\<rparr>, \<lparr>sr_addr = 0xbf90078e, sr_type = 1\<rparr>, \<lparr>sr_addr = 0xbf900768, sr_type = 1\<rparr>,
      \<lparr>sr_addr = 0xbf900790, sr_type = 1\<rparr>, \<lparr>sr_addr = 0xbf90076a, sr_type = 1\<rparr>, \<lparr>sr_addr = 0xbf900792, sr_type = 1\<rparr>,
      \<lparr>sr_addr = 0xbf90076c, sr_type = 1\<rparr>, \<lparr>sr_addr = 0xbf900794, sr_type = 1\<rparr>, \<lparr>sr_addr = 0xbf90076e, sr_type = 1\<rparr>,
      \<lparr>sr_addr = 0xbf900796, sr_type = 1\<rparr>]"

definition reg_lh :: "u32 \<Rightarrow> 'a hwst_scheme \<Rightarrow> u16" where
  "reg_lh a s = ucast (hwreg s a)"

definition reg_sh :: "u16 \<Rightarrow> u32 \<Rightarrow> 'a hwst_scheme \<Rightarrow> 'a hwst_scheme" where
  "reg_sh v a s = s\<lparr>hwreg := (hwreg s)(a := ucast v)\<rparr>"

section \<open>Transfers that end\<close>

definition sound_rpc_server ::
  "(u32 \<Rightarrow> u32 \<Rightarrow> u32 \<Rightarrow> 'a sound_scheme \<Rightarrow> (u32 \<times> 'a sound_scheme) option) \<Rightarrow> u32 \<Rightarrow> 'a sound_scheme \<Rightarrow> (u32 \<times> 'a sound_scheme) option" where
  "sound_rpc_server ext data s =
     (if ldw data s AND 0x01 \<noteq> 0 \<and> callback1 s \<noteq> 0 then ext (callback1 s) (callback1_arg s) 0 s
      else if ldw data s AND 0x02 \<noteq> 0 \<and> callback2 s \<noteq> 0 then ext (callback2 s) (callback2_arg s) 1 s
      else Some (0, s))"

section \<open>Bringing the driver up\<close>

definition result_word :: "'a sound_scheme \<Rightarrow> u32" where
  "result_word s = ldw (a_rpcResultBuffer s) s"

definition soundInitCallback ::
  "(u32 \<Rightarrow> u32 \<Rightarrow> u32 \<Rightarrow> 'a sound_scheme \<Rightarrow> 'a sound_scheme option) \<Rightarrow> u32 \<Rightarrow> 'a sound_scheme \<Rightarrow> 'a sound_scheme option" where
  "soundInitCallback notify carg s =
     (if soundInitCounter s = 0
      then if cl_server (clients s (a_sdrsif s)) \<noteq> 0
        then case SifSetRpcQueue (a_soundRpcQueue s) s of
            None \<Rightarrow> None
          | Some (_, s) \<Rightarrow>
              (case SifRegisterRpc (a_soundRpcServerData s) SOUND_SERVER_RPC_SID (a_sound_rpc_server s) (a_soundBuffer s) 0 0 (a_soundRpcQueue s) s of
                 None \<Rightarrow> None
               | Some (_, s) \<Rightarrow> deliver notify carg (set_result carg (- 1) (s\<lparr>soundInitCounter := 1\<rparr>)))
        else deliver notify carg (set_result carg (- 2) s)
      else if soundInitCounter s = 1
      then if result_word s \<noteq> 0 then deliver notify carg (set_result carg (- 2) s)
        else deliver notify carg (set_result carg (- 1) (s\<lparr>soundInitCounter := 2\<rparr>))
      else if soundInitCounter s = 2
      then if result_word s \<noteq> 0 then deliver notify carg (set_result carg (- 2) s)
        else deliver notify carg (set_result carg 0 (s\<lparr>soundInitCounter := 3, soundInitialized := - 1\<rparr>))
      else deliver notify carg (set_result carg 0 s))"

text \<open>A request to the driver: 64 bytes of the request buffer out, 16 bytes of result back.\<close>

definition sound_send :: "u32 \<Rightarrow> u32 \<Rightarrow> u32 \<Rightarrow> 'a sound_scheme \<Rightarrow> (u32 \<times> 'a sound_scheme) option" where
  "sound_send number stage2 carg s =
     (case SifCallRpc [] (a_sdrsif s) number SIF_RPC_M_NOWAIT (a_rpcBuffer s) 64 (a_rpcResultBuffer s) 16 stage2 carg s of
       None \<Rightarrow> None
     | Some (r, s) \<Rightarrow> if sint r < 0 then Some (- SIF_RPCE_SENDP, s) else Some (0, s))"

definition put_request :: "(nat \<times> u32) list \<Rightarrow> 'a sound_scheme \<Rightarrow> 'a sound_scheme" where
  "put_request ws s = foldl (\<lambda>s (k, v). stw v (a_rpcBuffer s + of_nat (4 * k)) s) s ws"

definition sbcall_soundinit ::
  "(u32 \<Rightarrow> u32 \<Rightarrow> u32 \<Rightarrow> 'a sound_scheme \<Rightarrow> 'a sound_scheme option) \<Rightarrow> u32 \<Rightarrow> 'a sound_scheme \<Rightarrow> (u32 \<times> 'a sound_scheme) option" where
  "sbcall_soundinit notify carg s =
     (if soundInitCounter s = 0
      then case SifBindRpc [] (a_sdrsif s) SOUND_BIND_RPC_ID SIF_RPC_M_NOWAIT (a_soundInitCallback s) carg s of
          None \<Rightarrow> None
        | Some (r, s) \<Rightarrow> if sint r < 0 then Some (- SIF_RPCE_SENDP, s) else Some (0, s)
      else if soundInitCounter s = 1
      then sound_send SOUND_SERVER_INIT (a_soundInitCallback s) carg
             (let s = put_request [(0, a_rpcResultBuffer s)] s in put_request [(1, ldw (ra_sbarg (rpc_args s carg)) s)] s)
      else if soundInitCounter s = 2 then sound_send 0xe620 (a_soundInitCallback s) carg s
      else map_option (Pair 0) (soundInitCallback notify carg s))"

definition soundCallback ::
  "(u32 \<Rightarrow> u32 \<Rightarrow> u32 \<Rightarrow> 'a sound_scheme \<Rightarrow> 'a sound_scheme option) \<Rightarrow> u32 \<Rightarrow> 'a sound_scheme \<Rightarrow> 'a sound_scheme option" where
  "soundCallback notify carg s = deliver notify carg (set_result carg (result_word s) s)"

definition soundEndCallback ::
  "(u32 \<Rightarrow> u32 \<Rightarrow> u32 \<Rightarrow> 'a sound_scheme \<Rightarrow> 'a sound_scheme option) \<Rightarrow> u32 \<Rightarrow> 'a sound_scheme \<Rightarrow> 'a sound_scheme option" where
  "soundEndCallback notify carg s =
     (if soundInitCounter s = 0 \<or> soundInitCounter s = 1 then deliver notify carg (set_result carg (- 2) s)
      else if soundInitCounter s = 2
      then let s = set_result carg (result_word s) s
        in deliver notify carg (if result_word s = 0 then s\<lparr>soundInitCounter := soundInitCounter s - 1\<rparr> else s)
      else deliver notify carg (set_result carg (- 1) (s\<lparr>soundInitCounter := soundInitCounter s - 1, soundInitialized := 0\<rparr>)))"

definition sbcall_soundend :: "u32 \<Rightarrow> 'a sound_scheme \<Rightarrow> (u32 \<times> 'a sound_scheme) option" where
  "sbcall_soundend carg s =
     (if soundInitCounter s = 0 \<or> soundInitCounter s = 1 then Some (- 1, s)
      else if soundInitCounter s = 2
      then sound_send SOUND_SERVER_INIT (a_soundEndCallback s) carg
             (put_request [(0, a_rpcResultBuffer s), (1, TGE_SB_SOUNDINIT_MODE_HOT)] s)
      else sound_send 0xe630 (a_soundEndCallback s) carg s)"

section \<open>Registers\<close>

text \<open>The argument block holds the index and the value.\<close>

definition sbcall_soundgetreg :: "u32 \<Rightarrow> 'a sound_scheme \<Rightarrow> u32 \<times> 'a sound_scheme" where
  "sbcall_soundgetreg arg s =
     (if soundInitialized s = 0 then (- 1, s)
      else if unat (ldw arg s) \<ge> length soundreg then (- 1, s)
      else
        let r = soundreg ! unat (ldw arg s)
        in if sr_type r = 1 \<or> sr_type r = 2 then (0, stw (ucast (reg_lh (sr_addr r) s)) (arg + 4) s)
           else if sr_type r = 3 \<or> sr_type r = 4 then (0, stw (reg_lw (sr_addr r) s) (arg + 4) s)
           else (- 1, s))"

definition sbcall_soundsetreg :: "u32 \<Rightarrow> 'a sound_scheme \<Rightarrow> u32 \<times> 'a sound_scheme" where
  "sbcall_soundsetreg arg s =
     (if soundInitialized s = 0 then (- 1, s)
      else if unat (ldw arg s) \<ge> length soundreg then (- 1, s)
      else
        let r = soundreg ! unat (ldw arg s)
        in if sr_type r = 1 \<or> sr_type r = 2 then (0, reg_sh (ucast (ldw (arg + 4) s)) (sr_addr r) s)
           else if sr_type r = 3 \<or> sr_type r = 4 then (0, reg_sw (ldw (arg + 4) s) (sr_addr r) s)
           else (- 1, s))"

section \<open>Requests\<close>

definition soundCallbackOk ::
  "(u32 \<Rightarrow> u32 \<Rightarrow> u32 \<Rightarrow> 'a sound_scheme \<Rightarrow> 'a sound_scheme option) \<Rightarrow> u32 \<Rightarrow> 'a sound_scheme \<Rightarrow> 'a sound_scheme option" where
  "soundCallbackOk notify carg s = deliver notify carg (set_result carg 0 s)"

definition sbcall_soundgcoreattr :: "u32 \<Rightarrow> 'a sound_scheme \<Rightarrow> (u32 \<times> 'a sound_scheme) option" where
  "sbcall_soundgcoreattr carg s =
     (let arg = ra_sbarg (rpc_args s carg)
      in if soundInitialized s = 0 then Some (- 1, s)
         else sound_send SOUND_GCORE_ATTR (a_soundCallback s) carg (put_request [(1, ldw arg s)] s))"

definition sbcall_soundscoreattr :: "u32 \<Rightarrow> 'a sound_scheme \<Rightarrow> (u32 \<times> 'a sound_scheme) option" where
  "sbcall_soundscoreattr carg s =
     (let arg = ra_sbarg (rpc_args s carg)
      in if soundInitialized s = 0 then Some (- 1, s)
         else sound_send SOUND_SCORE_ATTR (a_soundCallbackOk s) carg
                (let s = put_request [(1, ldw arg s)] s in put_request [(2, ldw (arg + 4) s)] s))"

definition sbcall_soundtrans :: "u32 \<Rightarrow> 'a sound_scheme \<Rightarrow> (u32 \<times> 'a sound_scheme) option" where
  "sbcall_soundtrans carg s =
     (let arg = ra_sbarg (rpc_args s carg)
      in if soundInitialized s = 0 then Some (- 1, s)
         else sound_send SOUND_SCORE_TRANS (a_soundCallback s) carg
                (let s = put_request [(1, ldw arg s)] s;
                     s = put_request [(2, ldw (arg + 4) s)] s;
                     s = put_request [(3, ldw (arg + 8) s)] s;
                     s = put_request [(4, ldw (arg + 12) s)] s
                 in put_request [(5, ldw (arg + 16) s)] s))"

definition sbcall_soundtransstat :: "u32 \<Rightarrow> 'a sound_scheme \<Rightarrow> (u32 \<times> 'a sound_scheme) option" where
  "sbcall_soundtransstat carg s =
     (let arg = ra_sbarg (rpc_args s carg)
      in if soundInitialized s = 0 then Some (- 1, s)
         else sound_send SOUND_SCORE_TRANS (a_soundCallback s) carg
                (let s = put_request [(1, ldw arg s)] s in put_request [(2, ldw (arg + 4) s)] s))"

definition exchange_callback :: "u32 \<Rightarrow> 'a sound_scheme \<Rightarrow> 'a sound_scheme option" where
  "exchange_callback arg s =
     (if ldw arg s = 0
      then let s = stw (callback1 s) (arg + 12) s; s = stw (callback1_arg s) (arg + 16) s; s = s\<lparr>callback1 := ldw (arg + 4) s\<rparr>
        in Some (s\<lparr>callback1_arg := ldw (arg + 8) s\<rparr>)
      else if ldw arg s = 1
      then let s = stw (callback2 s) (arg + 12) s; s = stw (callback2_arg s) (arg + 16) s; s = s\<lparr>callback2 := ldw (arg + 4) s\<rparr>
        in Some (s\<lparr>callback2_arg := ldw (arg + 8) s\<rparr>)
      else None)"

definition sbcall_soundtranscallback :: "u32 \<Rightarrow> 'a sound_scheme \<Rightarrow> (u32 \<times> 'a sound_scheme) option" where
  "sbcall_soundtranscallback carg s =
     (let arg = ra_sbarg (rpc_args s carg)
      in if soundInitialized s = 0 then Some (- 1, s)
         else case exchange_callback arg s of
             None \<Rightarrow> Some (- 1, s)
           | Some s \<Rightarrow> sound_send SOUND_SCORE_TRANS_CALLBACK (a_soundCallback s) carg (put_request [(1, ldw arg s)] s))"

definition sbcall_soundremote :: "u32 \<Rightarrow> 'a sound_scheme \<Rightarrow> u32 \<times> 'a sound_scheme" where
  "sbcall_soundremote carg s = (- 1, s)"

section \<open>The request buffer\<close>

lemma sound_more:
  assumes "services.more t = services.more s"
  shows "soundInitCounter t = soundInitCounter s" "soundInitialized t = soundInitialized s" "callback1 t = callback1 s"
    "callback2 t = callback2 s" "a_sdrsif t = a_sdrsif s" "a_rpcBuffer t = a_rpcBuffer s" "a_rpcResultBuffer t = a_rpcResultBuffer s"
    "a_soundCallback t = a_soundCallback s" "a_soundCallbackOk t = a_soundCallbackOk s" "callback1_arg t = callback1_arg s"
    "callback2_arg t = callback2_arg s"
  using assms by (cases s; cases t; simp)+

interpretation sound_buffer: request_buffer a_rpcBuffer a_sdrsif a_rpcResultBuffer put_request number 64 16 "sound_send number" for number
proof unfold_locales
  show "a_rpcBuffer t = a_rpcBuffer s \<and> a_sdrsif t = a_sdrsif s \<and> a_rpcResultBuffer t = a_rpcResultBuffer s"
    if "services.more t = services.more s" for s t :: "'a sound_scheme" using sound_more [OF that] by simp
qed (simp_all add: put_request_def sound_send_def)

lemma put_request_append: "put_request ws (put_request vs s) = put_request (vs @ ws) s"
  by (simp add: put_request_def)

text \<open>The module's objects are where the code puts them, and the argument block does not overlap the request buffer.\<close>

definition sound_placed :: "'a sound_scheme \<Rightarrow> bool" where
  "sound_placed s \<longleftrightarrow> words_off (rd_pkt_table s) 16 (a_rpcBuffer s) \<and> a_rpcResultBuffer s AND 0x0f = 0"

definition args_apart :: "nat \<Rightarrow> u32 \<Rightarrow> 'a sound_scheme \<Rightarrow> bool" where
  "args_apart n arg s \<longleftrightarrow> words_apart n arg 16 (a_rpcBuffer s)"

lemma args_kept:
  assumes "args_apart n arg s" "j < n" "\<forall>x \<in> set ws. fst x < 16"
  shows "ldw (arg + of_nat (4 * j)) (put_request ws s) = ldw (arg + of_nat (4 * j)) s"
  using assms by (intro sound_buffer.put_other) (auto simp: args_apart_def words_apart_def)

definition sound_outcome :: "u32 \<Rightarrow> u32 \<Rightarrow> (nat \<times> u32) list \<Rightarrow> u32 \<Rightarrow> 'a sound_scheme \<Rightarrow> u32 \<Rightarrow> 'a sound_scheme \<Rightarrow> bool" where
  "sound_outcome number stage2 ws carg s r s' \<longleftrightarrow>
     (if soundInitialized s = 0 then r = - 1 \<and> s' = s
      else (if rpc_busy (a_sdrsif s) 64 s then r = - SIF_RPCE_SENDP
            else r = 0 \<and> requested (a_sdrsif s) number (a_rpcBuffer s) 64 (a_rpcResultBuffer s) 16 stage2 carg s s')
        \<and> (\<forall>x \<in> set ws. ldw (a_rpcBuffer s + of_nat (4 * fst x)) s' = snd x) \<and> services.more s' = services.more s)"

lemma sound_request:
  assumes "rpc_ready s" "sound_placed s" "distinct (map fst ws)" "\<forall>x \<in> set ws. fst x < 16"
    and "op = (if soundInitialized s = 0 then Some (- 1, s) else sound_send number stage2 carg (put_request ws s))"
  shows "\<exists>r s'. op = Some (r, s') \<and> sound_outcome number stage2 ws carg s r s'"
proof (cases "soundInitialized s = 0")
  case True
  then show ?thesis using assms(5) by (simp add: sound_outcome_def)
next
  case False
  have p: "words_off (rd_pkt_table s) 16 (a_rpcBuffer s)" "a_rpcResultBuffer s AND 0x0f = 0" using assms(2) by (simp_all add: sound_placed_def)
  have n: "(16 :: nat) \<le> 64" by simp
  have "\<exists>r s'. sound_send number stage2 carg (put_request ws s) = Some (r, s') \<and> sound_outcome number stage2 ws carg s r s'"
    unfolding sound_outcome_def if_not_P [OF False] using sound_buffer.request_effect [OF assms(1) p n assms(3,4), of number stage2 carg] by blast
  then show ?thesis using False assms(5) by simp
qed

text \<open>The words each request carries.\<close>

definition arg_words :: "nat \<Rightarrow> u32 \<Rightarrow> 'a sound_scheme \<Rightarrow> (nat \<times> u32) list" where
  "arg_words n arg s = map (\<lambda>j. (j + 1, ldw (arg + of_nat (4 * j)) s)) [0..<n]"

lemma arg_words_simps: "distinct (map fst (arg_words n arg s))" "n < 16 \<Longrightarrow> \<forall>x \<in> set (arg_words n arg s). fst x < 16"
  by (auto simp: arg_words_def comp_def distinct_map inj_on_def)

lemma put_arg_Suc:
  assumes "args_apart m arg s" "n < m" "m < 16"
  shows "(let t = put_request (arg_words n arg s) s in put_request [(n + 1, ldw (arg + of_nat (4 * n)) t)] t) = put_request (arg_words (Suc n) arg s) s"
proof -
  have "ldw (arg + of_nat (4 * n)) (put_request (arg_words n arg s) s) = ldw (arg + of_nat (4 * n)) s"
    by (rule args_kept [OF assms(1,2) arg_words_simps(2)]) (use assms(2,3) in simp)
  then show ?thesis by (simp add: Let_def put_request_append arg_words_def)
qed

lemma put_args:
  assumes "args_apart n arg s" "n < 16"
  shows "n = 1 \<Longrightarrow> put_request [(1, ldw arg s)] s = put_request (arg_words n arg s) s"
    "n = 2 \<Longrightarrow> (let s = put_request [(1, ldw arg s)] s in put_request [(2, ldw (arg + 4) s)] s) = put_request (arg_words n arg s) s"
    "n = 5 \<Longrightarrow> (let s = put_request [(1, ldw arg s)] s; s = put_request [(2, ldw (arg + 4) s)] s;
         s = put_request [(3, ldw (arg + 8) s)] s; s = put_request [(4, ldw (arg + 12) s)] s
       in put_request [(5, ldw (arg + 16) s)] s) = put_request (arg_words n arg s) s"
proof -
  have one: "put_request [(1, ldw arg s)] s = put_request (arg_words 1 arg s) s" by (simp add: arg_words_def)
  note more = put_arg_Suc [OF assms(1) _ assms(2), unfolded Let_def]
  show "n = 1 \<Longrightarrow> put_request [(1, ldw arg s)] s = put_request (arg_words n arg s) s" using one by simp
  show "n = 2 \<Longrightarrow> (let s = put_request [(1, ldw arg s)] s in put_request [(2, ldw (arg + 4) s)] s) = put_request (arg_words n arg s) s"
    unfolding Let_def one using more [of 1] by (simp add: numeral_2_eq_2)
  show "n = 5 \<Longrightarrow> (let s = put_request [(1, ldw arg s)] s; s = put_request [(2, ldw (arg + 4) s)] s;
         s = put_request [(3, ldw (arg + 8) s)] s; s = put_request [(4, ldw (arg + 12) s)] s
       in put_request [(5, ldw (arg + 16) s)] s) = put_request (arg_words n arg s) s"
    unfolding Let_def one using more [of 1] more [of 2] more [of 3] more [of 4] by (simp add: eval_nat_numeral)
qed

section \<open>Stages\<close>

lemma server_more:
  "SifSetRpcQueue qd s = Some (r, t) \<Longrightarrow> services.more t = services.more s"
  "SifRegisterRpc sd sid func buff cfunc cbuff qd s = Some (r, t) \<Longrightarrow> services.more t = services.more s"
  by (auto simp: SifSetRpcQueue_def SifRegisterRpc_def Let_def core_save_disable_def core_restore_def upd_queue_def upd_server_def
      split: if_splits option.splits)

lemma send_more:
  assumes "sound_send number stage2 carg s = Some (r, t)"
  shows "services.more t = services.more s"
  using assms call_more(1) [of "[]" "a_sdrsif s" number "a_rpcBuffer s" 64 "a_rpcResultBuffer s" 16 stage2 carg s]
  by (auto simp: sound_send_def split: option.splits if_splits)

text \<open>The stage never leaves its range, and the driver counts as initialised exactly in the last stage.\<close>

definition sound_inv :: "'a sound_scheme \<Rightarrow> bool" where
  "sound_inv s \<longleftrightarrow> soundInitCounter s \<le> 3 \<and> (soundInitialized s \<noteq> 0 \<longleftrightarrow> soundInitCounter s = 3)"

lemma sound_inv_more: "services.more t = services.more s \<Longrightarrow> sound_inv t = sound_inv s"
  unfolding sound_inv_def using sound_more(1,2) [of t s] by simp

text \<open>
  What can happen, in any order: the kernel calls an operation, the answer to a request runs its end function, or something else runs
  that leaves the variables of the module alone.
\<close>

inductive sound_step ::
  "(u32 \<Rightarrow> u32 \<Rightarrow> u32 \<Rightarrow> 'a sound_scheme \<Rightarrow> 'a sound_scheme option) \<Rightarrow> 'a sound_scheme \<Rightarrow> 'a sound_scheme \<Rightarrow> bool" for notify where
  init: "sbcall_soundinit notify carg s = Some (r, t) \<Longrightarrow> sound_step notify s t"
| init_done: "soundInitCallback notify carg s = Some t \<Longrightarrow> sound_step notify s t"
| end_: "sbcall_soundend carg s = Some (r, t) \<Longrightarrow> sound_step notify s t"
| end_done: "soundEndCallback notify carg s = Some t \<Longrightarrow> sound_step notify s t"
| callback: "sbcall_soundtranscallback carg s = Some (r, t) \<Longrightarrow> sound_step notify s t"
| other: "services.more t = services.more s \<Longrightarrow> sound_step notify s t"

definition stage :: "'a sound_scheme \<Rightarrow> nat \<times> int" where
  "stage s = (soundInitCounter s, soundInitialized s)"

lemma stage_more: "services.more t = services.more s \<Longrightarrow> stage t = stage s"
  unfolding stage_def using sound_more(1,2) [of t s] by simp

lemma stage_simps [simp]:
  "stage (set_result c r s) = stage s" "stage (s\<lparr>soundInitCounter := n\<rparr>) = (n, soundInitialized s)"
  "stage (s\<lparr>soundInitCounter := n, soundInitialized := i\<rparr>) = (n, i)" "stage (stw v a s) = stage s" "stage (put_request ws s) = stage s"
  "stage (s\<lparr>callback1 := a\<rparr>) = stage s" "stage (s\<lparr>callback1_arg := a\<rparr>) = stage s" "stage (s\<lparr>callback2 := a\<rparr>) = stage s"
  "stage (s\<lparr>callback2_arg := a\<rparr>) = stage s"
  using stage_more [OF sound_buffer.put_more, of ws s] by (simp_all add: stage_def set_result_def stw_def)

lemma result_stage [simp]:
  "soundInitCounter (set_result c r s) = soundInitCounter s" "soundInitialized (set_result c r s) = soundInitialized s"
  by (simp_all add: set_result_def)

lemma sound_inv_stage: "sound_inv s \<longleftrightarrow> stage s \<in> {0..3} \<times> UNIV \<and> (snd (stage s) \<noteq> 0 \<longleftrightarrow> fst (stage s) = 3)"
  by (auto simp: sound_inv_def stage_def)

lemma deliver_stage: "good_notify notify \<Longrightarrow> deliver notify carg s = Some t \<Longrightarrow> stage t = stage s"
  by (rule stage_more [OF deliver_more])

lemma register_stage:
  "SifSetRpcQueue qd s = Some (r, t) \<Longrightarrow> stage t = stage s"
  "SifRegisterRpc sd sid func buff cfunc cbuff qd s = Some (r, t) \<Longrightarrow> stage t = stage s"
  by (rule stage_more [OF server_more(1)], assumption) (rule stage_more [OF server_more(2)], assumption)

lemma init_callback_stage:
  assumes "good_notify notify" "soundInitCallback notify carg s = Some t"
  shows "stage t \<in> {stage s} \<union> (if soundInitCounter s = 0 then {(1, soundInitialized s)} else if soundInitCounter s = 1 then {(2, soundInitialized s)}
    else if soundInitCounter s = 2 then {(3, - 1)} else {})"
  using assms(2)
  by (auto simp: soundInitCallback_def split: if_splits option.splits prod.splits dest!: deliver_stage [OF assms(1)] register_stage)
    (simp add: stage_def)

lemma end_callback_stage:
  assumes "good_notify notify" "soundEndCallback notify carg s = Some t"
  shows "stage t \<in> {stage s} \<union> (if soundInitCounter s \<le> 1 then {} else if soundInitCounter s = 2 then {(1, soundInitialized s)}
    else {(soundInitCounter s - 1, 0)})"
  using assms(2) deliver_stage [OF assms(1), of carg _ t]
  by (auto simp: soundEndCallback_def Let_def split: if_splits)

lemma request_stage: "sound_send number stage2 carg s = Some (r, t) \<Longrightarrow> stage t = stage s"
  by (rule stage_more [OF send_more])

lemma exchange_stage: "exchange_callback arg s = Some t \<Longrightarrow> stage t = stage s"
  by (auto simp: exchange_callback_def Let_def split: if_splits)

lemma soundinit_cases:
  assumes "sbcall_soundinit notify carg s = Some (r, t)"
  obtains (bind) u where "SifBindRpc [] (a_sdrsif s) SOUND_BIND_RPC_ID SIF_RPC_M_NOWAIT (a_soundInitCallback s) carg s = Some (u, t)"
    | (send) n ws where "sound_send n (a_soundInitCallback s) carg (put_request ws s) = Some (r, t)"
    | (full) "soundInitCallback notify carg s = Some t" "soundInitCounter s > 2"
proof -
  have e: "put_request [] s = s" by (simp add: put_request_def)
  show thesis
  proof (cases "soundInitCounter s \<le> 2")
    case True
    then consider "soundInitCounter s = 0" | "soundInitCounter s = 1" | "soundInitCounter s = 2" by linarith
    then show thesis
    proof cases
      case 1
      then show thesis using assms that(1) by (auto simp: sbcall_soundinit_def split: option.splits if_splits)
    next
      case 2
      then show thesis using assms that(2) by (auto simp: sbcall_soundinit_def Let_def put_request_append)
    next
      case 3
      then show thesis using assms that(2) [of _ "[]"] e by (auto simp: sbcall_soundinit_def)
    qed
  next
    case False
    then show thesis using assms that(3) by (auto simp: sbcall_soundinit_def)
  qed
qed

lemma sound_step_stage:
  assumes "good_notify notify" "sound_step notify s t" "sound_inv s"
  shows "sound_inv t \<and> soundInitCounter t \<le> soundInitCounter s + 1 \<and> soundInitCounter s \<le> soundInitCounter t + 1"
  using assms(2)
proof (cases rule: sound_step.cases)
  case (init carg r)
  consider (bind) u where "SifBindRpc [] (a_sdrsif s) SOUND_BIND_RPC_ID SIF_RPC_M_NOWAIT (a_soundInitCallback s) carg s = Some (u, t)"
    | (send) n ws where "sound_send n (a_soundInitCallback s) carg (put_request ws s) = Some (r, t)"
    | (full) "soundInitCallback notify carg s = Some t" "soundInitCounter s > 2"
    using init by (rule soundinit_cases)
  then have "stage t = stage s"
  proof cases
    case bind
    then show ?thesis by (rule stage_more [OF call_more(2)])
  next
    case send
    then show ?thesis using request_stage by fastforce
  next
    case full
    then show ?thesis using init_callback_stage [OF assms(1) full(1)] by auto
  qed
  then show ?thesis using assms(3) by (simp add: sound_inv_def stage_def)
next
  case (init_done carg)
  then show ?thesis
    using init_callback_stage [OF assms(1) init_done] assms(3) by (auto simp: sound_inv_def stage_def split: if_splits)
next
  case (end_ carg r)
  then have "stage t = stage s" by (auto simp: sbcall_soundend_def split: if_splits dest!: request_stage)
  then show ?thesis using assms(3) by (simp add: sound_inv_def stage_def)
next
  case (end_done carg)
  then show ?thesis
    using end_callback_stage [OF assms(1) end_done] assms(3) by (auto simp: sound_inv_def stage_def split: if_splits)
next
  case (callback carg r)
  then have "stage t = stage s"
    by (auto simp: sbcall_soundtranscallback_def Let_def split: if_splits option.splits dest!: request_stage exchange_stage)
  then show ?thesis using assms(3) by (simp add: sound_inv_def stage_def)
next
  case other
  then show ?thesis using assms(3) sound_inv_more [OF other] sound_more(1) [OF other] by simp
qed

lemma sound_reach:
  assumes "good_notify notify" "(sound_step notify)\<^sup>*\<^sup>* s t" "sound_inv s"
  shows "sound_inv t"
  using assms(2,3) by (induction rule: rtranclp_induct) (use sound_step_stage [OF assms(1)] in blast)+

section \<open>Properties\<close>

text \<open>
  C25. Whatever operations the kernel calls and whatever answers arrive, in any order and number, the sound service goes through its stages one at a
  time and never leaves them: from the power-on state the stage stays between 0 and 3, and the driver counts as initialised exactly in
  stage 3.
\<close>

theorem sound_stages:
  assumes "good_notify notify" "(sound_step notify)\<^sup>*\<^sup>* s t" "soundInitCounter s = 0" "soundInitialized s = 0"
  shows "soundInitCounter t \<le> 3 \<and> (soundInitialized t \<noteq> 0 \<longleftrightarrow> soundInitCounter t = 3)"
  using sound_reach [OF assms(1,2)] assms(3,4) by (simp add: sound_inv_def)

text \<open>
  C40. Every attribute and transfer request of the sound service returns. Before initialisation it is refused with \<open>-1\<close>
  and changes nothing; when no request can be sent the result is \<open>-SIF_RPCE_SENDP\<close>; otherwise a call with the request's number is on its
  way, with the words of the argument block in the words 1, 2, \<open>\<dots>\<close> of the request buffer. A status request goes out under the number of a transfer.
\<close>

theorem sound_request_outcome:
  assumes "rpc_ready s" "sound_placed s" "args_apart n (ra_sbarg (rpc_args s carg)) s"
    and "(op, number, n, stage2) \<in>
      {(sbcall_soundgcoreattr, SOUND_GCORE_ATTR, 1, a_soundCallback s), (sbcall_soundscoreattr, SOUND_SCORE_ATTR, 2, a_soundCallbackOk s),
       (sbcall_soundtrans, SOUND_SCORE_TRANS, 5, a_soundCallback s), (sbcall_soundtransstat, SOUND_SCORE_TRANS, 2, a_soundCallback s)}"
  shows "\<exists>r t. op carg s = Some (r, t) \<and> sound_outcome number stage2 (arg_words n (ra_sbarg (rpc_args s carg)) s) carg s r t"
proof -
  have n: "n < 16" using assms(4) by auto
  have "op carg s = (if soundInitialized s = 0 then Some (- 1, s)
      else sound_send number stage2 carg (put_request (arg_words n (ra_sbarg (rpc_args s carg)) s) s))"
    using assms(4) put_args [OF assms(3) n]
    unfolding sbcall_soundgcoreattr_def sbcall_soundscoreattr_def sbcall_soundtrans_def sbcall_soundtransstat_def Let_def by auto
  then show ?thesis by (rule sound_request [OF assms(1,2) arg_words_simps(1) arg_words_simps(2) [OF n]])
qed

lemma soundreg_named: "\<forall>r \<in> set soundreg. sr_type r \<noteq> 0 \<longrightarrow> sr_addr r \<noteq> 0"
proof -
  have "list_all (\<lambda>r. sr_type r = 0 \<or> sr_addr r \<noteq> 0) soundreg" by code_simp
  then show ?thesis by (auto simp: list_all_iff)
qed

text \<open>Setting a register reaches no hardware register but those of the table.\<close>

lemma setreg_cases:
  "(\<exists>x. sbcall_soundsetreg arg s = (x, s))
   \<or> unat (ldw arg s) < length soundreg \<and> sr_type (soundreg ! unat (ldw arg s)) \<noteq> 0
     \<and> (\<exists>v. hwreg (snd (sbcall_soundsetreg arg s)) = (hwreg s)(sr_addr (soundreg ! unat (ldw arg s)) := v))"
proof -
  define r where "r = soundreg ! unat (ldw arg s)"
  have regs: "hwreg (reg_sh u b s) = (hwreg s)(b := ucast u)" "hwreg (reg_sw v b s) = (hwreg s)(b := v)" for u v b
    by (simp_all add: reg_sh_def reg_sw_def)
  show ?thesis unfolding sbcall_soundsetreg_def Let_def r_def [symmetric] using regs by (simp add: not_le) blast
qed

theorem soundsetreg_confined:
  assumes "hwreg (snd (sbcall_soundsetreg arg s)) a \<noteq> hwreg s a"
  shows "a \<noteq> 0 \<and> a \<in> sr_addr ` set soundreg \<and> a = sr_addr (soundreg ! unat (ldw arg s))"
proof -
  have "\<not> (\<exists>x. sbcall_soundsetreg arg s = (x, s))" using assms by fastforce
  then obtain v where *: "unat (ldw arg s) < length soundreg" "sr_type (soundreg ! unat (ldw arg s)) \<noteq> 0"
    "hwreg (snd (sbcall_soundsetreg arg s)) = (hwreg s)(sr_addr (soundreg ! unat (ldw arg s)) := v)" using setreg_cases [of arg s] by blast
  have "a = sr_addr (soundreg ! unat (ldw arg s))" using assms *(3) by (metis fun_upd_other)
  then show ?thesis using bspec [OF soundreg_named nth_mem [OF *(1)]] *(2) imageI [OF nth_mem [OF *(1)], of sr_addr] by simp
qed

text \<open>When both channels end a transfer and both functions are registered, only the one of channel 0 is called.\<close>

theorem sound_both_channels:
  assumes "ldw data s AND 0x01 \<noteq> 0" "callback1 s \<noteq> 0"
  shows "sound_rpc_server ext data s = ext (callback1 s) (callback1_arg s) 0 s"
  using assms by (simp add: sound_rpc_server_def)

section \<open>Witnesses\<close>

text \<open>An initialised service and a request to transfer on channel 1.\<close>

definition sample_sound :: "nat \<Rightarrow> int \<Rightarrow> sound" where
  "sample_sound n i = services.extend
     (sifrpc.extend (sample_rpc\<lparr>clients := \<lambda>_. sample_client, mem := (\<lambda>_. 0)(0x651000 := 1, 0x651004 := 2)\<rparr>)
       (services.fields (\<lambda>_. 0)
         (\<lambda>_. \<lparr>ra_result = 0, ra_sbarg = 0x80651000, ra_endfunc = 0x80014000, ra_efarg = 6\<rparr>)))
     (sound.fields n i 0 0 0 0 0x80612000 0x80612100 0x80612200 0x80612300 0x80672000 0x80673000 1 2 3 4 5)"

lemma sample_sound_facts:
  "rpc_ready (sample_sound 3 (- 1))" "a_rpcBuffer (sample_sound 3 (- 1)) = 0x80672000" "rd_pkt_table (sample_sound 3 (- 1)) = 0xa0700000"
  "a_sdrsif (sample_sound 3 (- 1)) = 0x80612000" "cl_pkt_addr (clients (sample_sound 3 (- 1)) 0x80612000) = 0"
  "unat (sif_get_number_of_free_dma_tags (sample_sound 3 (- 1))) = 28" "cmd_tags 64 = 2" "\<not> pkt_allocated (sample_sound 3 (- 1)) 1"
  "ra_sbarg (rpc_args (sample_sound 3 (- 1)) 0x80651000) = 0x80651000" "ldw 0x80651000 (sample_sound 3 (- 1)) = 1"
  "ldw 0x80651004 (sample_sound 3 (- 1)) = 2" "a_rpcResultBuffer (sample_sound 3 (- 1)) = 0x80673000" "soundInitialized (sample_sound 3 (- 1)) = - 1"
  by code_simp+

lemma sample_sound_placed: "sound_placed (sample_sound 3 (- 1))"
  unfolding sound_placed_def sample_sound_facts(2,3,12)
  using words_offI [of "0x80672000" "0xa0700000" 16] by (simp add: PHYSADDR_def)

lemma sample_sound_apart: "args_apart 2 0x80651000 (sample_sound 3 (- 1))"
  unfolding args_apart_def sample_sound_facts(2) using words_apartI(1) [of 2 16 "0x80672000" "0x80651000"] by (simp add: PHYSADDR_def)

lemma sample_sound_free: "\<not> rpc_busy (a_sdrsif (sample_sound 3 (- 1))) 64 (sample_sound 3 (- 1))"
proof -
  have "1 \<notin> pkts_used (sample_sound 3 (- 1))" "1 \<in> {..<32 :: nat}" using sample_sound_facts(8) by (simp_all add: pkts_used_def)
  then have "pkts_used (sample_sound 3 (- 1)) \<noteq> {..<32}" by metis
  then show ?thesis unfolding rpc_busy_def using sample_sound_facts(4-7) by simp
qed

theorem sound_request_outcome_witness:
  "\<exists>t. sbcall_soundtransstat 0x80651000 (sample_sound 3 (- 1)) = Some (0, t)
     \<and> ldw 0x80672004 t = 1 \<and> ldw 0x80672008 t = 2"
  using sound_request_outcome [of "sample_sound 3 (- 1)" 2 "0x80651000" sbcall_soundtransstat SOUND_SCORE_TRANS
      "a_soundCallback (sample_sound 3 (- 1))"]
    sample_sound_free sample_sound_placed sample_sound_apart sample_sound_facts(1,2,9-11,13)
  by (auto simp: sound_outcome_def arg_words_def upt_conv_Cons)

lemma sample_sound_steps:
  "(sound_step (\<lambda>_ _ _ s. Some s))\<^sup>*\<^sup>* (sample_sound 0 0) (the (soundInitCallback (\<lambda>_ _ _ s. Some s) 0x80651000 (sample_sound 0 0)))"
proof -
  have "soundInitCallback (\<lambda>_ _ _ s. Some s) 0x80651000 (sample_sound 0 0) \<noteq> None" by code_simp
  then obtain t where "soundInitCallback (\<lambda>_ _ _ s. Some s) 0x80651000 (sample_sound 0 0) = Some t" by blast
  then show ?thesis by (simp add: r_into_rtranclp sound_step.init_done)
qed

theorem sound_stages_witness:
  "soundInitCounter (the (soundInitCallback (\<lambda>_ _ _ s. Some s) 0x80651000 (sample_sound 0 0))) \<le> 3"
  using sound_stages [OF _ sample_sound_steps] by (simp add: good_notify_def sample_sound_def services.extend_def sound.fields_def)

end
