(* ===== verification/Misc.thy ===== *)
theory Misc
  imports IopMem
begin

text \<open>
  The remaining calls of the SBIOS (\<open>TGE/sbios/misc.c\<close>): comparing texts, the search for the display driver in the boot ROM and the two display
  calls that depend on it, the serial port, and the cache calls.

  The ROM is part of the memory of the state. The driver found in the ROM, the display encoder (\<open>dve_reg.S\<close>) and the cache
  instructions (\<open>cache.S\<close>) are parameters. A value \<open>None\<close> means that a loop does not end.
\<close>

section \<open>Comparing texts\<close>

text \<open>A pointer to a text is the sequence of the bytes from there on; \<open>char\<close> is signed.\<close>

function strncmp_from :: "(nat \<Rightarrow> u8) \<Rightarrow> (nat \<Rightarrow> u8) \<Rightarrow> nat \<Rightarrow> nat \<Rightarrow> int" where
  "strncmp_from str1 str2 len n =
     (if str1 n \<noteq> 0 \<and> str2 n \<noteq> 0 \<and> n < len \<and> str1 n = str2 n then strncmp_from str1 str2 len (n + 1)
      else sint (str2 n) - sint (str1 n))"
  by pat_completeness auto
termination by (relation "measure (\<lambda>(_, _, len, n). len - n)") auto

declare strncmp_from.simps [simp del]

definition strncmp :: "(nat \<Rightarrow> u8) \<Rightarrow> (nat \<Rightarrow> u8) \<Rightarrow> nat \<Rightarrow> int" where
  "strncmp str1 str2 len = strncmp_from str1 str2 len 0"

definition at_addr :: "u32 \<Rightarrow> 'a hwst_scheme \<Rightarrow> nat \<Rightarrow> u8" where
  "at_addr p s n = ldb (p + of_nat n) s"

definition literal :: "string \<Rightarrow> nat \<Rightarrow> u8" where
  "literal t n = (if n < length t then of_char (t ! n) else 0)"

section \<open>The directory of the boot ROM\<close>

text \<open>An entry has 16 bytes: ten of name, two of extended information and four of size.\<close>

definition entry_size :: "u32 \<Rightarrow> 'a hwst_scheme \<Rightarrow> u32" where
  "entry_size romdir s = rd32 (romdir + 12) s"

definition file_room :: "u32 \<Rightarrow> u32" where
  "file_room sz = (sz + 16 - 1) AND NOT (16 - 1)"

function romdir_scan :: "u32 \<Rightarrow> u32 \<Rightarrow> 'a hwst_scheme \<Rightarrow> u32" where
  "romdir_scan romdir offset s =
     (if offset < 0x10000
      then if strncmp (at_addr romdir s) (literal ''RESET'') 6 = 0 \<and> file_room (entry_size romdir s) = offset then romdir
        else romdir_scan (romdir + 16) (offset + 16) s
      else 0)"
  by pat_completeness auto
termination
proof (relation "measure (\<lambda>(_, offset, _). 0x10000 - unat offset)")
  fix romdir offset :: u32 and s :: "'a hwst_scheme"
  assume "offset < 0x10000"
  then have "unat offset < 0x10000" by (simp add: word_less_nat_alt)
  moreover from this have "unat (offset + 16) = unat offset + 16" by (subst unat_add_lem [THEN iffD1]) auto
  ultimately show "((romdir + 16, offset + 16, s), romdir, offset, s) \<in> measure (\<lambda>(_, offset, _). 0x10000 - unat offset)" by simp
qed simp

declare romdir_scan.simps [simp del]

definition get_romdir :: "u32 \<Rightarrow> 'a hwst_scheme \<Rightarrow> u32" where
  "get_romdir rom_addr s = romdir_scan rom_addr 0 s"

partial_function (option) romgscrt_scan :: "u32 \<Rightarrow> u32 \<Rightarrow> 'a hwst_scheme \<Rightarrow> u32 option" where
  "romgscrt_scan addr romdir s =
     (if ldb romdir s \<noteq> 0
      then if strncmp (at_addr romdir s) (literal ''ROMGSCRT'') 9 = 0 then Some addr
        else romgscrt_scan (addr + file_room (entry_size romdir s)) (romdir + 16) s
      else Some 0)"

definition get_romgscrt :: "'a hwst_scheme \<Rightarrow> u32 option" where
  "get_romgscrt s =
     (let romdir = get_romdir 0xBFC00000 s in if romdir \<noteq> 0 then romgscrt_scan 0xBFC00000 romdir s else Some 0)"

section \<open>Display calls\<close>

record crtmode =
  cm_interlace :: u32
  cm_output_mode :: u32
  cm_field_frame_mode :: u32

record crtoffsets =
  co_output_mode :: u32
  co_dx1 :: u32
  co_dy1 :: u32
  co_dx2 :: u32
  co_dy2 :: u32

definition dve_regs :: "u32 \<Rightarrow> (u32 \<times> u32) list" where
  "dve_regs mode =
     (if mode = 2 then [(0x77, 0x11), (0x93, 0x01), (0x91, 0x01)]
      else if mode = 3 then [(0x77, 0x11), (0x93, 0x01), (0x91, 0x02)]
      else if mode = 4 then [(0x77, 0x11), (0x93, 0x01), (0x90, 0x04), (0x91, 0x03)]
      else if mode = 5 then [(0x77, 0x11), (0x93, 0x01), (0x90, 0x06), (0x91, 0x03)]
      else [])"

definition sbcall_setdve ::
  "('a hwst_scheme \<Rightarrow> 'a hwst_scheme) \<Rightarrow> (u32 \<Rightarrow> u32 \<Rightarrow> 'a hwst_scheme \<Rightarrow> 'a hwst_scheme) \<Rightarrow> u32 \<Rightarrow> 'a hwst_scheme
     \<Rightarrow> (int \<times> 'a hwst_scheme) option" where
  "sbcall_setdve dve_prepare_bus dve_set_reg arg s =
     (case get_romgscrt s of
        None \<Rightarrow> None
      | Some romgscrt \<Rightarrow>
          if romgscrt \<noteq> 0 then Some (- 1, s)
          else let s = dve_prepare_bus s in Some (0, foldl (\<lambda>s (r, v). dve_set_reg r v s) s (dve_regs (ldw arg s))))"

text \<open>The driver starts with a name of twelve bytes and the addresses of its two functions.\<close>

definition sbcall_setgscrt ::
  "(u32 \<Rightarrow> crtmode \<Rightarrow> 'a hwst_scheme \<Rightarrow> 'a hwst_scheme) \<Rightarrow> (u32 \<Rightarrow> crtoffsets \<Rightarrow> 'a hwst_scheme \<Rightarrow> 'a hwst_scheme) \<Rightarrow> u32
     \<Rightarrow> 'a hwst_scheme \<Rightarrow> (int \<times> 'a hwst_scheme) option" where
  "sbcall_setgscrt setcrtmode getcrtoffsets arg s =
     (case get_romgscrt s of
        None \<Rightarrow> None
      | Some romgscrt \<Rightarrow>
          if romgscrt \<noteq> 0
          then let s = setcrtmode (rd32 (romgscrt + 12) s)
                     \<lparr>cm_interlace = ldw arg s, cm_output_mode = ldw (arg + 4) s, cm_field_frame_mode = ldw (arg + 8) s\<rparr> s;
                   s = getcrtoffsets (rd32 (romgscrt + 16) s)
                     \<lparr>co_output_mode = ldw (arg + 4) s, co_dx1 = ldw (arg + 12) s, co_dy1 = ldw (arg + 16) s,
                      co_dx2 = ldw (arg + 20) s, co_dy2 = ldw (arg + 24) s\<rparr> s
               in Some (0, s)
          else Some (- 1, s))"

definition sbcall_setrgbyc :: "u32 \<Rightarrow> 'a hwst_scheme \<Rightarrow> int \<times> 'a hwst_scheme" where
  "sbcall_setrgbyc arg s = (0, s)"

section \<open>The serial port\<close>

text \<open>The values that reading the status register gives, one after the other; the result is what is left and the bytes sent.\<close>

definition EE_SIO_ISR :: u32 where "EE_SIO_ISR = 0xb000f130"
definition EE_SIO_RXFIFO :: u32 where "EE_SIO_RXFIFO = 0xb000f1c0"

fun sio_wait :: "u32 list \<Rightarrow> u32 list option" where
  "sio_wait [] = None"
| "sio_wait (isr # isrs) = (if isr AND 0x8000 \<noteq> 0 then sio_wait isrs else Some isrs)"

definition sio_send :: "u8 \<Rightarrow> u32 list \<times> u8 list \<Rightarrow> (u32 list \<times> u8 list) option" where
  "sio_send c x = (case sio_wait (fst x) of None \<Rightarrow> None | Some isrs \<Rightarrow> Some (isrs, snd x @ [c]))"

definition sio_putc :: "u8 \<Rightarrow> u32 list \<times> u8 list \<Rightarrow> (u32 list \<times> u8 list) option" where
  "sio_putc c x =
     (case (if c = of_char (CHR 0x0A) then sio_send (of_char (CHR 0x0D)) x else Some x) of None \<Rightarrow> None | Some x \<Rightarrow> sio_send c x)"

fun sio_puts :: "u8 list \<Rightarrow> u32 list \<times> u8 list \<Rightarrow> (u32 list \<times> u8 list) option" where
  "sio_puts [] x = Some x"
| "sio_puts (c # b) x = (case sio_putc c x of None \<Rightarrow> None | Some x \<Rightarrow> sio_puts b x)"

definition sbcall_getc :: "'a hwst_scheme \<Rightarrow> int" where
  "sbcall_getc s = (if reg_lw EE_SIO_ISR s AND 0xf00 \<noteq> 0 then uint (ucast (reg_lw EE_SIO_RXFIFO s) :: u8) else 0)"

section \<open>Caches\<close>

definition FlushCache :: "('a hwst_scheme \<Rightarrow> 'a hwst_scheme) \<Rightarrow> ('a hwst_scheme \<Rightarrow> 'a hwst_scheme) \<Rightarrow> int \<Rightarrow> 'a hwst_scheme \<Rightarrow> 'a hwst_scheme" where
  "FlushCache flushDCacheAll invalidateICacheAll operation s =
     (let (status, s) = core_save_disable s;
          s = (if operation = 0 then flushDCacheAll s
               else if operation = 2 \<or> operation = 3 then invalidateICacheAll s
               else s)
      in core_restore status s)"

definition SyncDCache :: "(u32 \<Rightarrow> u32 \<Rightarrow> 'a hwst_scheme \<Rightarrow> 'a hwst_scheme) \<Rightarrow> u32 \<Rightarrow> u32 \<Rightarrow> 'a hwst_scheme \<Rightarrow> 'a hwst_scheme" where
  "SyncDCache sync start stop s =
     (let (status, s) = core_save_disable s in core_restore status (sync (start AND 0xffffffc0) (stop AND 0xffffffc0) s))"

section \<open>Comparison with a text\<close>

lemma sint_eq_iff: "sint (a :: u8) - sint b = 0 \<longleftrightarrow> a = b"
  by (metis eq_iff_diff_eq_0 signed_word_eqI)

lemma strncmp_from_literal:
  assumes "(0 :: u8) \<notin> of_char ` set t" "length t < len" "n \<le> length t"
  shows "strncmp_from f (literal t) len n = 0 \<longleftrightarrow> (\<forall>i. n \<le> i \<and> i \<le> length t \<longrightarrow> f i = literal t i)"
  using assms(3)
proof (induction "length t - n" arbitrary: n)
  case 0
  then have n: "n = length t" by simp
  have z: "literal t (length t) = 0" by (simp add: literal_def)
  have "strncmp_from f (literal t) len n = sint (literal t n) - sint (f n)" by (subst strncmp_from.simps) (simp add: n z)
  then show ?case using sint_eq_iff [of "literal t n" "f n"] n by (metis le_antisym order_refl)
next
  case (Suc k)
  then have n: "n < length t" "n < len" using assms(2) by auto
  have "literal t n \<noteq> 0" using assms(1) n(1) by (auto simp: literal_def image_iff dest: nth_mem)
  moreover have "strncmp_from f (literal t) len (n + 1) = 0 \<longleftrightarrow> (\<forall>i. n + 1 \<le> i \<and> i \<le> length t \<longrightarrow> f i = literal t i)"
    using Suc(2) n(1) by (intro Suc(1)) auto
  moreover have "(\<forall>i. n \<le> i \<and> i \<le> length t \<longrightarrow> f i = literal t i) \<longleftrightarrow>
      f n = literal t n \<and> (\<forall>i. n + 1 \<le> i \<and> i \<le> length t \<longrightarrow> f i = literal t i)" using n(1)
    by (metis Suc_eq_plus1 Suc_leD le_antisym less_or_eq_imp_le not_less_eq_eq)
  ultimately show ?case using n(2) sint_eq_iff [of "literal t n" "f n"] by (simp add: strncmp_from.simps [of f _ _ n])
qed

lemma strncmp_literal:
  assumes "(0 :: u8) \<notin> of_char ` set t" "length t < len"
  shows "strncmp f (literal t) len = 0 \<longleftrightarrow> (\<forall>i \<le> length t. f i = literal t i)"
  using strncmp_from_literal [OF assms, of 0 f] by (simp add: strncmp_def)

lemma names_plain: "(0 :: u8) \<notin> of_char ` set ''RESET''" "(0 :: u8) \<notin> of_char ` set ''ROMGSCRT''"
  by code_simp+

section \<open>What a directory stands for\<close>

record rom_file =
  rf_name :: string
  rf_size :: u32

text \<open>An entry holds a name of one to nine characters and a size; a directory ends with an empty name.\<close>

definition named_at :: "'a hwst_scheme \<Rightarrow> u32 \<Rightarrow> string \<Rightarrow> bool" where
  "named_at s d t \<longleftrightarrow> (\<forall>i \<le> length t. ldb (d + of_nat i) s = literal t i)"

definition entry_at :: "'a hwst_scheme \<Rightarrow> u32 \<Rightarrow> rom_file \<Rightarrow> bool" where
  "entry_at s d e \<longleftrightarrow> rf_name e \<noteq> [] \<and> length (rf_name e) \<le> 9 \<and> (0 :: u8) \<notin> of_char ` set (rf_name e)
     \<and> named_at s d (rf_name e) \<and> entry_size d s = rf_size e"

fun directory_at :: "'a hwst_scheme \<Rightarrow> u32 \<Rightarrow> rom_file list \<Rightarrow> bool" where
  "directory_at s d [] \<longleftrightarrow> ldb d s = 0"
| "directory_at s d (e # es) \<longleftrightarrow> entry_at s d e \<and> directory_at s (d + 16) es"

text \<open>Files lie one behind the other from the start of the ROM, each rounded up to 16 bytes.\<close>

definition file_place :: "u32 \<Rightarrow> rom_file list \<Rightarrow> nat \<Rightarrow> u32" where
  "file_place base es i = base + sum_list (map (file_room \<circ> rf_size) (take i es))"

lemma of_char_u8_inj: "(of_char c :: u8) = of_char d \<longleftrightarrow> c = d"
proof -
  have "unat (of_char x :: u8) = of_char x" for x
  proof -
    have "(of_char x :: u8) = of_nat (of_char x)" by (simp only: of_nat_of_char)
    moreover have "(of_char x :: nat) < 2 ^ LENGTH(8)" using nat_of_char_less_256 [of x] by simp
    ultimately show ?thesis using unat_of_nat_lt [where 'a = 8] by metis
  qed
  then show ?thesis by (metis of_char_eq_iff)
qed

lemma literal_inj:
  assumes "(0 :: u8) \<notin> of_char ` set t" "(0 :: u8) \<notin> of_char ` set u" "\<forall>i \<le> length u. literal t i = literal u i"
  shows "t = u"
proof -
  have zero: "literal v i = 0 \<longleftrightarrow> length v \<le> i" if "(0 :: u8) \<notin> of_char ` set v" for v i
    using that by (auto simp: literal_def image_iff not_less dest: nth_mem)
  have "length t \<le> length u" using assms(3) zero [OF assms(1)] zero [OF assms(2)] by (metis order_refl)
  moreover have "length u \<le> length t"
    using assms(3) zero [OF assms(1), of "length t"] zero [OF assms(2), of "length t"] calculation by (metis order_refl)
  ultimately have "length t = length u" by simp
  moreover have "t ! i = u ! i" if "i < length u" for i
  proof -
    have "(of_char (t ! i) :: u8) = of_char (u ! i)" using assms(3) that calculation by (auto simp: literal_def dest: spec [of _ i])
    then show ?thesis by (simp add: of_char_u8_inj)
  qed
  ultimately show ?thesis by (simp add: list_eq_iff_nth_eq)
qed

lemma named_strncmp:
  assumes "(0 :: u8) \<notin> of_char ` set t" "length t < len"
  shows "strncmp (at_addr d s) (literal t) len = 0 \<longleftrightarrow> named_at s d t"
  using strncmp_literal [OF assms] by (simp add: named_at_def at_addr_def)

lemma entry_named:
  assumes "entry_at s d e" "(0 :: u8) \<notin> of_char ` set t"
  shows "named_at s d t \<longleftrightarrow> rf_name e = t"
proof
  assume "named_at s d t"
  have "literal (rf_name e) i = literal t i" if "i \<le> length t" for i
  proof (cases "i \<le> length (rf_name e)")
    case True
    then show ?thesis using \<open>named_at s d t\<close> assms(1) that by (auto simp: named_at_def entry_at_def)
  next
    case False
    then have "literal (rf_name e) (length (rf_name e)) = 0" "length (rf_name e) < length t" using that by (auto simp: literal_def)
    then have "literal t (length (rf_name e)) = 0" using \<open>named_at s d t\<close> assms(1)
      by (auto simp: named_at_def entry_at_def dest: spec [of _ "length (rf_name e)"])
    then show ?thesis using assms(2) \<open>length (rf_name e) < length t\<close> by (auto simp: literal_def image_iff dest: nth_mem)
  qed
  then show "rf_name e = t" using assms by (intro literal_inj) (auto simp: entry_at_def)
qed (use assms in \<open>auto simp: entry_at_def\<close>)

definition driver_place :: "u32 \<Rightarrow> rom_file list \<Rightarrow> u32" where
  "driver_place base es =
     (let i = length (takeWhile (\<lambda>e. rf_name e \<noteq> ''ROMGSCRT'') es) in if i < length es then file_place base es i else 0)"

lemma driver_place_simps:
  "driver_place base [] = 0"
  "driver_place base (e # es) = (if rf_name e = ''ROMGSCRT'' then base else driver_place (base + file_room (rf_size e)) es)"
  by (simp_all add: driver_place_def file_place_def Let_def)

lemma romgscrt_scan_finds: "directory_at s d es \<Longrightarrow> romgscrt_scan base d s = Some (driver_place base es)"
proof (induction es arbitrary: base d)
  case Nil
  then show ?case by (subst romgscrt_scan.simps) (simp add: driver_place_simps)
next
  case (Cons e es)
  then have e: "entry_at s d e" "directory_at s (d + 16) es" by auto
  have "ldb d s = of_char (rf_name e ! 0)" "rf_name e \<noteq> []" "(0 :: u8) \<notin> of_char ` set (rf_name e)"
    using e(1) by (auto simp: entry_at_def named_at_def literal_def dest: spec [of _ 0])
  then have "ldb d s \<noteq> 0" by (metis image_eqI length_greater_0_conv nth_mem)
  then show ?case
    using Cons.IH [OF e(2)] entry_named [OF e(1) names_plain(2)] named_strncmp [OF names_plain(2), of 9 d s] e(1)
    by (subst romgscrt_scan.simps) (simp add: driver_place_simps entry_at_def)
qed

text \<open>
  The directory stands in the ROM at the offset that the size of the first file gives, and no place before it looks like
  one.
\<close>

definition directory_start :: "'a hwst_scheme \<Rightarrow> u32 \<Rightarrow> nat \<Rightarrow> bool" where
  "directory_start s base k \<longleftrightarrow>
     named_at s (base + of_nat (16 * k)) ''RESET'' \<and> file_room (entry_size (base + of_nat (16 * k)) s) = of_nat (16 * k)"

definition boot_rom :: "'a hwst_scheme \<Rightarrow> u32 \<Rightarrow> nat \<Rightarrow> rom_file list \<Rightarrow> bool" where
  "boot_rom s base k es \<longleftrightarrow> k < 4096 \<and> directory_start s base k \<and> (\<forall>j < k. \<not> directory_start s base j)
     \<and> directory_at s (base + of_nat (16 * k)) es"

lemma romdir_scan_step:
  assumes "k < 4096"
  shows "romdir_scan (base + of_nat (16 * k)) (of_nat (16 * k)) s =
     (if directory_start s base k then base + of_nat (16 * k) else romdir_scan (base + of_nat (16 * Suc k)) (of_nat (16 * Suc k)) s)"
proof -
  have lt: "of_nat (16 * k) < (0x10000 :: u32)" using assms unat_of_nat_lt [of "16 * k", where 'a = 32] by (simp add: word_less_nat_alt)
  have test: "strncmp (at_addr (base + of_nat (16 * k)) s) (literal ''RESET'') 6 = 0 \<longleftrightarrow> named_at s (base + of_nat (16 * k)) ''RESET''"
    by (rule named_strncmp [OF names_plain(1)]) simp
  have next_entry: "base + of_nat (16 * k) + 16 = base + of_nat (16 * Suc k)" "of_nat (16 * k) + 16 = (of_nat (16 * Suc k) :: u32)" by simp_all
  show ?thesis unfolding romdir_scan.simps [of "base + of_nat (16 * k)"] if_P [OF lt] test directory_start_def next_entry ..
qed

lemma romdir_scan_finds:
  assumes "k < 4096" "directory_start s base k" "\<forall>j < k. \<not> directory_start s base j" "j \<le> k"
  shows "romdir_scan (base + of_nat (16 * j)) (of_nat (16 * j)) s = base + of_nat (16 * k)"
  using assms(4)
proof (induction "k - j" arbitrary: j)
  case 0
  then have "j = k" by simp
  then show ?case using romdir_scan_step [OF assms(1), of base s] assms(2) by argo
next
  case (Suc i)
  then have "j < k" "i = k - Suc j" "Suc j \<le> k" by simp_all
  then show ?case using Suc(1) [of "Suc j"] romdir_scan_step [of j base s] assms(1,3) by auto
qed

lemma rom_address: "k < 4096 \<Longrightarrow> (0xBFC00000 :: u32) + of_nat (16 * k) \<noteq> 0"
proof
  assume "k < 4096" "(0xBFC00000 :: u32) + of_nat (16 * k) = 0"
  then have "unat ((0xBFC00000 :: u32) + of_nat (16 * k)) = 0" by simp
  moreover have "unat (of_nat (16 * k) :: u32) = 16 * k" using \<open>k < 4096\<close> by (intro unat_of_nat_lt) simp
  ultimately show False using \<open>k < 4096\<close> by (subst (asm) unat_add_lem [THEN iffD1]) auto
qed

lemma get_romgscrt_place:
  assumes "boot_rom s 0xBFC00000 k es"
  shows "get_romgscrt s = Some (driver_place 0xBFC00000 es)"
proof -
  have "get_romdir 0xBFC00000 s = 0xBFC00000 + of_nat (16 * k)"
    using romdir_scan_finds [of k s "0xBFC00000" 0] assms by (simp add: get_romdir_def boot_rom_def)
  then show ?thesis
    using assms rom_address [of k] romgscrt_scan_finds [of s "0xBFC00000 + of_nat (16 * k)" es "0xBFC00000"]
    by (simp add: get_romgscrt_def Let_def boot_rom_def)
qed

section \<open>Properties\<close>

text \<open>
  C24. The search for the display driver always returns for a ROM with a directory, and finds the file: its address is the start of the ROM plus the sizes of the
  files before it, each rounded up to 16 bytes; when no file is called \<open>ROMGSCRT\<close> the result is \<open>NULL\<close>.
\<close>

theorem get_romgscrt_finds:
  assumes "boot_rom s 0xBFC00000 k es"
  shows "get_romgscrt s = Some (if \<exists>e \<in> set es. rf_name e = ''ROMGSCRT''
      then file_place 0xBFC00000 es (length (takeWhile (\<lambda>e. rf_name e \<noteq> ''ROMGSCRT'') es)) else 0)"
proof -
  have "length (takeWhile (\<lambda>e. rf_name e \<noteq> ''ROMGSCRT'') es) < length es \<longleftrightarrow> (\<exists>e \<in> set es. rf_name e = ''ROMGSCRT'')"
    by (induction es) auto
  then show ?thesis using get_romgscrt_place [OF assms] by (simp only: driver_place_def Let_def)
qed

text \<open>
  Exactly one of the two display calls works on a console: the one for the display encoder when the ROM has no driver, the
  other one when it has. The refused call changes nothing.
\<close>

theorem display_calls_exclusive:
  assumes "boot_rom s 0xBFC00000 k es"
  shows "\<exists>r t r' t'. sbcall_setdve bus setr arg s = Some (r, t) \<and> sbcall_setgscrt mode offs arg s = Some (r', t')
     \<and> (driver_place 0xBFC00000 es = 0 \<and> r = 0 \<and> r' = - 1 \<and> t' = s \<or> driver_place 0xBFC00000 es \<noteq> 0 \<and> r = - 1 \<and> r' = 0 \<and> t = s)"
  using get_romgscrt_place [OF assms] by (simp add: sbcall_setdve_def sbcall_setgscrt_def Let_def)

text \<open>Comparing fewer characters than the texts have also looks at the first one that should not count.\<close>

theorem strncmp_looks_past:
  "strncmp (literal ''rom0'') (literal ''rom1'') 3 = 1"
  by code_simp

text \<open>What the serial port gets is the text with a carriage return before every line feed, once it accepts that many bytes.\<close>

definition crlf :: "u8 list \<Rightarrow> u8 list" where
  "crlf b = concat (map (\<lambda>c. if c = of_char (CHR 0x0A) then [of_char (CHR 0x0D), c] else [c]) b)"

lemma sio_send_eq: "sio_send c (0 # isrs, out) = Some (isrs, out @ [c])"
  by (simp add: sio_send_def)

theorem sio_puts_text: "sio_puts b (replicate (length (crlf b)) 0 @ isrs, out) = Some (isrs, out @ crlf b)"
proof (induction b arbitrary: out)
  case Nil
  then show ?case by (simp add: crlf_def)
next
  case (Cons c b)
  then show ?case by (cases "c = of_char (CHR 0x0A)") (simp_all add: sio_putc_def sio_send_eq crlf_def)
qed

text \<open>The cache calls leave the interrupt state of the processor as they found it.\<close>

theorem cache_calls_keep_status:
  assumes "\<forall>s. cp0_status (flush s) = cp0_status s" "\<forall>s. cp0_status (inval s) = cp0_status s" "\<forall>a b s. cp0_status (sync a b s) = cp0_status s"
  shows "cp0_status (FlushCache flush inval op s) = cp0_status s \<and> cp0_status (SyncDCache sync a b s) = cp0_status s"
  using assms by (simp add: FlushCache_def SyncDCache_def Let_def core_save_disable_def core_restore_saved)

section \<open>Witnesses\<close>

text \<open>A ROM with the files \<open>RESET\<close> (40 bytes) and \<open>ROMGSCRT\<close>: the directory is at offset 48.\<close>

definition sample_rom :: hwst where
  "sample_rom = \<lparr>cp0_status = 0, hwreg = \<lambda>_. 0, mem = (\<lambda>_. 0)
     (0x1fc00030 := 0x45534552, 0x1fc00034 := 0x54, 0x1fc0003c := 40, 0x1fc00040 := 0x474d4f52, 0x1fc00044 := 0x54524353, 0x1fc0004c := 64),
     dcache_wb = []\<rparr>"

lemma sample_rom_words:
  "ldw 0xBFC00030 sample_rom = 0x45534552" "ldw 0xBFC00034 sample_rom = 0x54" "ldw 0xBFC0003C sample_rom = 40"
  "ldw 0xBFC00040 sample_rom = 0x474d4f52" "ldw 0xBFC00044 sample_rom = 0x54524353" "ldw 0xBFC00048 sample_rom = 0" "ldw 0xBFC0004C sample_rom = 64"
  "ldw 0xBFC00050 sample_rom = 0" "ldw 0xBFC00000 sample_rom = 0" "ldw 0xBFC00010 sample_rom = 0" "ldw 0xBFC00020 sample_rom = 0"
  by (simp_all add: sample_rom_def ldw_def PHYSADDR_def)

lemma named_at_bytes: "named_at s d t \<longleftrightarrow> (\<forall>i < Suc (length t). ldb (d + of_nat i) s = literal t i)"
  by (simp add: named_at_def less_Suc_eq_le)

lemma sample_rom_names:
  "named_at sample_rom 0xBFC00030 ''RESET''" "named_at sample_rom 0xBFC00040 ''ROMGSCRT''" "ldb 0xBFC00050 sample_rom = 0"
  "ldb 0xBFC00000 sample_rom = 0" "ldb 0xBFC00010 sample_rom = 0" "ldb 0xBFC00020 sample_rom = 0"
  by (simp_all add: named_at_bytes All_less_Suc literal_def ldb_def sample_rom_words)

lemma sample_rom_entries:
  "directory_at sample_rom 0xBFC00030 [\<lparr>rf_name = ''RESET'', rf_size = 40\<rparr>, \<lparr>rf_name = ''ROMGSCRT'', rf_size = 64\<rparr>]"
proof -
  have "entry_size 0xBFC00030 sample_rom = 40" "entry_size 0xBFC00040 sample_rom = 64"
    using rd_aligned(2) [of "0xBFC0003C" sample_rom] rd_aligned(2) [of "0xBFC0004C" sample_rom]
    by (simp_all add: entry_size_def sample_rom_words)
  then have "entry_at sample_rom 0xBFC00030 \<lparr>rf_name = ''RESET'', rf_size = 40\<rparr>"
    "entry_at sample_rom 0xBFC00040 \<lparr>rf_name = ''ROMGSCRT'', rf_size = 64\<rparr>"
    unfolding entry_at_def rom_file.simps using sample_rom_names(1,2) names_plain by (simp_all only: list.size list.distinct simp_thms)
  then show ?thesis using sample_rom_names(3) by simp
qed

lemma sample_rom_boot:
  "boot_rom sample_rom 0xBFC00000 3 [\<lparr>rf_name = ''RESET'', rf_size = 40\<rparr>, \<lparr>rf_name = ''ROMGSCRT'', rf_size = 64\<rparr>]"
proof -
  have empty: "\<not> named_at sample_rom d ''RESET''" if "ldb d sample_rom = 0" for d
  proof
    assume "named_at sample_rom d ''RESET''"
    then have "ldb (d + of_nat 0) sample_rom = literal ''RESET'' 0" unfolding named_at_def by blast
    then show False using that by (simp add: literal_def)
  qed
  have "\<not> directory_start sample_rom 0xBFC00000 j" if j: "j < 3" for j
  proof -
    consider "j = 0" | "j = 1" | "j = 2" using j by linarith
    then show ?thesis unfolding directory_start_def using empty [OF sample_rom_names(4)] empty [OF sample_rom_names(5)] empty [OF sample_rom_names(6)]
      by cases simp_all
  qed
  moreover have "directory_start sample_rom 0xBFC00000 3"
    using sample_rom_names(1) rd_aligned(2) [of "0xBFC0003C" sample_rom]
    by (simp add: directory_start_def entry_size_def sample_rom_words file_room_def)
  ultimately show ?thesis using sample_rom_entries by (simp add: boot_rom_def)
qed

theorem get_romgscrt_finds_witness: "get_romgscrt sample_rom = Some 0xBFC00030"
  using get_romgscrt_finds [OF sample_rom_boot] by (simp add: file_place_def file_room_def)

end
