(* ===== verification/KernelLoad.thy ===== *)
theory KernelLoad
  imports Elf Mmu
begin

text \<open>
  The kernel brings a program into user memory and starts it (\<open>kernel/loader.c\<close>, with \<open>memcpy\<close> and \<open>memset\<close> of \<open>kernel/string.c\<close>), and
  sets up the exception vectors (\<open>kernel/exception.c\<close>).

  The program goes to user addresses, so every access goes through the TLB that \<open>Mmu\<close> models. \<open>None\<close> is an
  exception, or a panic, that does not return.
\<close>

section \<open>Memory as the kernel sees it\<close>

text \<open>KSEG0 and KSEG1 are translated by the processor, other addresses by the TLB.\<close>

definition kaddr :: "mmu \<Rightarrow> u32 \<Rightarrow> u32 option" where
  "kaddr m v = (if 0x80000000 \<le> v \<and> v < 0xC0000000 then Some (PHYSADDR v) else map_option fst (translate v m))"

definition copy_byte :: "mmu \<Rightarrow> u32 \<Rightarrow> u32 \<Rightarrow> 'a hwst_scheme \<Rightarrow> 'a hwst_scheme option" where
  "copy_byte m dst src s =
     (case kaddr m src of None \<Rightarrow> None | Some p \<Rightarrow> case kaddr m dst of None \<Rightarrow> None | Some q \<Rightarrow> Some (stb (ldb p s) q s))"

definition zero_byte :: "mmu \<Rightarrow> u32 \<Rightarrow> 'a hwst_scheme \<Rightarrow> 'a hwst_scheme option" where
  "zero_byte m dst s = map_option (\<lambda>q. stb 0 q s) (kaddr m dst)"

definition user_memcpy :: "mmu \<Rightarrow> u32 \<Rightarrow> u32 \<Rightarrow> u32 \<Rightarrow> 'a hwst_scheme \<Rightarrow> 'a hwst_scheme option" where
  "user_memcpy m dst src n s =
     foldl (\<lambda>r i. Option.bind r (copy_byte m (dst + of_nat i) (src + of_nat i))) (Some s) [0..<unat n]"

definition user_zero :: "mmu \<Rightarrow> u32 \<Rightarrow> u32 \<Rightarrow> 'a hwst_scheme \<Rightarrow> 'a hwst_scheme option" where
  "user_zero m dst n s = foldl (\<lambda>r i. Option.bind r (zero_byte m (dst + of_nat i))) (Some s) [0..<unat n]"

section \<open>Loading\<close>

definition load_segment :: "mmu \<Rightarrow> u32 \<Rightarrow> 32 word phdr \<Rightarrow> 'a hwst_scheme \<Rightarrow> 'a hwst_scheme option" where
  "load_segment m buffer ph s =
     (let dest = ph_paddr ph
      in case (if ph_filesz ph \<noteq> 0 then user_memcpy m dest (buffer + ph_offset ph) (ph_filesz ph) s else Some s) of
           None \<Rightarrow> None
         | Some s \<Rightarrow>
             let n = ph_memsz ph - ph_filesz ph
             in if sint n > 0 then user_zero m (dest + ph_filesz ph) n s else Some s)"

text \<open>The file is in KSEG0, where the kernel reads its headers.\<close>

function load_phdrs :: "mmu \<Rightarrow> u32 \<Rightarrow> nat \<Rightarrow> 'a hwst_scheme \<Rightarrow> 'a hwst_scheme option" where
  "load_phdrs m buffer i s =
     (if i < unat (eh_phnum elf32 buffer s)
      then let ph = Elf32_Phdr buffer i s
        in case (if ph_type ph = PT_LOAD \<and> ph_memsz ph \<noteq> 0 then load_segment m buffer ph s else Some s) of
             None \<Rightarrow> None
           | Some s \<Rightarrow> load_phdrs m buffer (i + 1) s
      else Some s)"
  by auto
termination
  by (relation "measure (\<lambda>(_, _, i, _). 65536 - i)") (auto dest!: u16_bound)

declare load_phdrs.simps [simp del]

definition kernel_copy_sections :: "mmu \<Rightarrow> u32 \<Rightarrow> 'a hwst_scheme \<Rightarrow> (u32 \<times> 'a hwst_scheme) option" where
  "kernel_copy_sections m buffer s =
     (if eh_magic elf32 buffer s \<noteq> ELFMAGIC then Some (0, s)
      else map_option (Pair (eh_entry elf32 buffer s)) (load_phdrs m buffer 0 s))"

text \<open>Where the processor goes on: the status and program counter, the stack pointer and the first argument after \<open>eret\<close>.\<close>

record user_start =
  us_epc :: u32
  us_sp :: u32
  us_a0 :: u32

definition user_status :: "u32 \<Rightarrow> u32" where
  "user_status status =
     (status AND NOT (push_bit 3 3 OR push_bit 2 1 OR push_bit 1 1))
       OR (push_bit 3 2 OR push_bit 1 1 OR push_bit 0 1 OR push_bit 17 1)"

definition kernel_loader ::
  "('a hwst_scheme \<Rightarrow> 'a hwst_scheme) \<Rightarrow> ('a hwst_scheme \<Rightarrow> 'a hwst_scheme) \<Rightarrow> mmu \<Rightarrow> u32 \<Rightarrow> 'a hwst_scheme
     \<Rightarrow> (user_start \<times> 'a hwst_scheme) option" where
  "kernel_loader flushDCacheAll invalidateICacheAll m demo s =
     (case kernel_copy_sections m demo s of
        None \<Rightarrow> None
      | Some (entry, s) \<Rightarrow>
          if entry \<noteq> 0
          then let s = flushDCacheAll s; s = invalidateICacheAll s
            in Some (\<lparr>us_epc = entry, us_sp = 0x01e00000, us_a0 = 0\<rparr>, s\<lparr>cp0_status := user_status (cp0_status s)\<rparr>)
          else None)"

section \<open>Exception vectors\<close>

definition V_TLB_REFILL :: int where "V_TLB_REFILL = 0"
definition V_COUNTER :: int where "V_COUNTER = 1"
definition V_DEBUG :: int where "V_DEBUG = 2"
definition V_COMMON :: int where "V_COMMON = 3"
definition V_INTERRUPT :: int where "V_INTERRUPT = 4"

definition install_exception_handler ::
  "('a hwst_scheme \<Rightarrow> 'a hwst_scheme) \<Rightarrow> ('a hwst_scheme \<Rightarrow> 'a hwst_scheme) \<Rightarrow> int \<Rightarrow> u32 \<Rightarrow> 'a hwst_scheme \<Rightarrow> 'a hwst_scheme option" where
  "install_exception_handler flushDCacheAll invalidateICacheAll type addr s =
     (if type > V_INTERRUPT then None
      else
        let dest = KSEG0 + of_int (type * 0x80);
            s = stw 0 dest s;
            s = stw 0 (dest + 4) s;
            s = stw (0x08000000 OR (0x03ffffff AND drop_bit 2 addr)) (dest + 8) s;
            s = stw 0 (dest + 12) s
        in Some (invalidateICacheAll (flushDCacheAll s)))"

text \<open>The handler \<open>irq_init_module\<close> installs, and the part of \<open>start_kernel\<close> that installs the other four.\<close>

definition install_interrupt_handler ::
  "('a hwst_scheme \<Rightarrow> 'a hwst_scheme) \<Rightarrow> ('a hwst_scheme \<Rightarrow> 'a hwst_scheme) \<Rightarrow> u32 \<Rightarrow> 'a hwst_scheme \<Rightarrow> 'a hwst_scheme option" where
  "install_interrupt_handler flush inval interruptExceptionHandler s =
     install_exception_handler flush inval V_INTERRUPT interruptExceptionHandler s"

definition install_handlers ::
  "('a hwst_scheme \<Rightarrow> 'a hwst_scheme) \<Rightarrow> ('a hwst_scheme \<Rightarrow> 'a hwst_scheme) \<Rightarrow> u32 \<Rightarrow> u32 \<Rightarrow> u32 \<Rightarrow> u32 \<Rightarrow> 'a hwst_scheme \<Rightarrow> 'a hwst_scheme option" where
  "install_handlers flush inval tlbRefillExceptionHandler commonExceptionHandler counterExceptionHandler debugExceptionHandler s =
     Option.bind (install_exception_handler flush inval V_TLB_REFILL tlbRefillExceptionHandler s) (\<lambda>s.
       Option.bind (install_exception_handler flush inval V_COMMON commonExceptionHandler s) (\<lambda>s.
         Option.bind (install_exception_handler flush inval V_COUNTER counterExceptionHandler s) (\<lambda>s.
           install_exception_handler flush inval V_DEBUG debugExceptionHandler s)))"

section \<open>Direct windows\<close>

text \<open>Addresses for which the TLB gives the physical address that the processor would use in KSEG0.\<close>

definition direct :: "mmu \<Rightarrow> nat \<Rightarrow> u32 \<Rightarrow> bool" where
  "direct m n a \<longleftrightarrow> (\<forall>i < n. kaddr m (a + of_nat i) = Some (PHYSADDR (a + of_nat i)))"

lemma stb_phys: "stb v (PHYSADDR a) s = stb v a s"
proof -
  have "PHYSADDR (PHYSADDR a) = PHYSADDR a" by simp
  then have "PHYSADDR (PHYSADDR a AND NOT 3) = PHYSADDR (a AND NOT 3)" "PHYSADDR a AND 3 = a AND 3"
    using PHYSADDR_split [of "PHYSADDR a" a] by simp_all
  then show ?thesis by (simp add: stb_def stw_def ldw_def)
qed

lemma copy_byte_direct:
  "kaddr m dst = Some (PHYSADDR dst) \<Longrightarrow> kaddr m src = Some (PHYSADDR src) \<Longrightarrow> copy_byte m dst src s = Some (stb (ldb src s) dst s)"
  using ldb_phys [of "PHYSADDR src" src s] by (simp add: copy_byte_def stb_phys)

lemma user_memcpy_direct:
  assumes "direct m (unat n) dst" "direct m (unat n) src"
  shows "user_memcpy m dst src n s = Some (memcpy (unat n) dst src s)"
proof -
  have "foldl (\<lambda>r i. Option.bind r (copy_byte m (dst + of_nat i) (src + of_nat i))) (Some s) [0..<k] = Some (memcpy k dst src s)" if "k \<le> unat n" for k
    using that
  proof (induction k)
    case (Suc k)
    then have "kaddr m (dst + of_nat k) = Some (PHYSADDR (dst + of_nat k))" "kaddr m (src + of_nat k) = Some (PHYSADDR (src + of_nat k))"
      using assms by (auto simp: direct_def)
    then show ?case using Suc by (simp add: copy_byte_direct memcpy_Suc)
  qed simp
  then show ?thesis by (simp add: user_memcpy_def)
qed

lemma user_zero_direct:
  assumes "direct m (unat n) dst"
  shows "user_zero m dst n s = Some (memset (unat n) 0 dst s)"
proof -
  have "foldl (\<lambda>r i. Option.bind r (zero_byte m (dst + of_nat i))) (Some s) [0..<k] = Some (memset k 0 dst s)" if "k \<le> unat n" for k
    using that
  proof (induction k)
    case (Suc k)
    then have "kaddr m (dst + of_nat k) = Some (PHYSADDR (dst + of_nat k))" using assms by (auto simp: direct_def)
    then show ?case using Suc by (simp add: zero_byte_def stb_phys memset_Suc)
  qed simp
  then show ?thesis by (simp add: user_zero_def)
qed

section \<open>Segments that arrive\<close>

lemma direct_sub: "direct m n a \<Longrightarrow> i + k \<le> n \<Longrightarrow> direct m k (a + of_nat i)"
  unfolding direct_def
proof (intro allI impI)
  fix j
  assume all: "\<forall>i < n. kaddr m (a + of_nat i) = Some (PHYSADDR (a + of_nat i))" and "i + k \<le> n" "j < k"
  then have "i + j < n" by simp
  then have "kaddr m (a + of_nat (i + j)) = Some (PHYSADDR (a + of_nat (i + j)))" using all by blast
  then show "kaddr m (a + of_nat i + of_nat j) = Some (PHYSADDR (a + of_nat i + of_nat j))" by (simp add: add.assoc)
qed

text \<open>A segment that the TLB maps directly, whose bytes are in the file and whose place is apart from it.\<close>

definition user_seg :: "mmu \<Rightarrow> u32 \<Rightarrow> nat \<Rightarrow> segment \<Rightarrow> bool" where
  "user_seg m buffer n sg \<longleftrightarrow> wf_seg sg \<and> sg_memsz sg < 2 ^ 29 \<and> direct m (sg_memsz sg) (sg_dest sg)
     \<and> (sg_filesz sg \<noteq> 0 \<longrightarrow> sg_off sg + sg_filesz sg \<le> n) \<and> bytes_apart n buffer (sg_memsz sg) (sg_dest sg)"

lemma load_segment_eq:
  assumes "user_seg m buffer n (seg_of ph)" "direct m n buffer"
  shows "load_segment m buffer ph s = Some (put_segment (ph_paddr ph) buffer (seg_of ph) s)"
proof -
  define z f where "z = unat (ph_memsz ph)" and "f = unat (ph_filesz ph)"
  have zf: "f \<le> z" "z < 2 ^ 31" and d: "direct m z (ph_paddr ph)" and off: "f \<noteq> 0 \<longrightarrow> unat (ph_offset ph) + f \<le> n"
    using assms(1) by (simp_all add: user_seg_def wf_seg_def seg_of_def z_def f_def)
  have diff: "unat (ph_memsz ph - ph_filesz ph) = z - f" using zf(1) by (simp add: unat_sub word_le_nat_alt z_def f_def)
  then have size: "sint (ph_memsz ph - ph_filesz ph) = int (z - f)" using sint_small [of "ph_memsz ph - ph_filesz ph"] zf(2) by simp
  have copy: "(if ph_filesz ph \<noteq> 0 then user_memcpy m (ph_paddr ph) (buffer + ph_offset ph) (ph_filesz ph) s else Some s)
      = Some (memcpy f (ph_paddr ph) (buffer + ph_offset ph) s)"
  proof (cases "f = 0")
    case False
    have "direct m f (ph_paddr ph)" using direct_sub [OF d, of 0 f] zf(1) by simp
    moreover have "direct m f (buffer + ph_offset ph)" using direct_sub [OF assms(2), of "unat (ph_offset ph)" f] off False by simp
    ultimately show ?thesis using False by (auto simp: user_memcpy_direct f_def)
  qed (simp add: f_def unat_eq_0)
  have "direct m (z - f) (ph_paddr ph + ph_filesz ph)" using direct_sub [OF d, of f "z - f"] zf(1) by (simp add: f_def)
  then have zero: "user_zero m (ph_paddr ph + ph_filesz ph) (ph_memsz ph - ph_filesz ph) t = Some (memset (z - f) 0 (ph_paddr ph + ph_filesz ph) t)" for t
    using user_zero_direct [of m "ph_memsz ph - ph_filesz ph"] diff by simp
  have put: "put_segment (ph_paddr ph) buffer (seg_of ph) s
      = memset (z - f) 0 (ph_paddr ph + ph_filesz ph) (memcpy f (ph_paddr ph) (buffer + ph_offset ph) s)"
    by (simp add: put_segment_def seg_of_def z_def f_def)
  show ?thesis unfolding load_segment_def Let_def copy option.case zero size put by (cases "f < z") auto
qed

lemma load_phdrs_spec:
  fixes b s
  defines "rest i \<equiv> map seg_of (filter loadable (map (\<lambda>j. eh_phdr elf32 b j s) [i..<unat (eh_phnum elf32 b s)]))"
  assumes n: "52 + unat (eh_phnum elf32 b s) * 32 \<le> n" "direct m n b"
    and wf: "\<forall>sg \<in> set (rest i). user_seg m b n sg" and t: "agree n b s t"
  shows "load_phdrs m b i t = Some (put_segments sg_dest b (rest i) t)"
  using wf t
proof (induction "unat (eh_phnum elf32 b s) - i" arbitrary: i t)
  case 0
  then have "rest i = []" "\<not> i < unat (eh_phnum elf32 b t)" using e32.header_agree(3) [OF 0(3) n(1)] by (simp_all add: rest_def)
  then show ?case by (simp add: load_phdrs.simps [of _ _ i])
next
  case (Suc k)
  let ?ph = "eh_phdr elf32 b i s"
  have i: "i < unat (eh_phnum elf32 b s)" using Suc.hyps(2) by simp
  have rd: "i < unat (eh_phnum elf32 b t)" "Elf32_Phdr b i t = ?ph"
    using e32.header_agree(3,4) [OF Suc.prems(2) n(1)] i by (simp_all add: elf32_def)
  note rest = file_range_drop [of i "unat (eh_phnum elf32 b s)" "\<lambda>j. eh_phdr elf32 b j s", OF i, folded rest_def]
  have k: "k = unat (eh_phnum elf32 b s) - Suc i" using Suc.hyps(2) by simp
  show ?case
  proof (cases "loadable ?ph")
    case False
    then have "load_phdrs m b i t = load_phdrs m b (Suc i) t"
      using rd by (subst load_phdrs.simps) (auto simp: loadable_def Let_def)
    then show ?thesis using Suc.hyps(1) [OF k, of t] Suc.prems rest False by simp
  next
    case True
    then have r: "rest i = seg_of ?ph # rest (Suc i)" using rest by simp
    then have wf: "user_seg m b n (seg_of ?ph)" using Suc.prems(1) by simp
    let ?t = "put_segment (sg_dest (seg_of ?ph)) b (seg_of ?ph) t"
    have "load_phdrs m b i t = load_phdrs m b (Suc i) ?t"
      using rd True load_segment_eq [OF wf n(2), of t] by (subst load_phdrs.simps) (simp add: loadable_def Let_def seg_of_def)
    moreover have "agree n b s ?t"
    proof (rule agree_trans [OF Suc.prems(2)])
      have "\<not> within (b + of_nat k) (sg_dest (seg_of ?ph)) (sg_memsz (seg_of ?ph))" if "k < n" for k
        using wf that within_apart by (auto simp: user_seg_def)
      then show "agree n b t ?t" using wf by (simp add: agree_def put_segment_outside user_seg_def)
    qed
    ultimately show ?thesis using Suc.hyps(1) [OF k, of ?t] Suc.prems(1) r by simp
  qed
qed

section \<open>The windows after initialisation\<close>

lemma unat_offset: "unat (a :: u32) + i < 2 ^ 32 \<Longrightarrow> unat (a + of_nat i) = unat a + i"
  using unat_of_nat_lt [of i, where 'a = 32] by (subst unat_add_lem [THEN iffD1]) auto

lemma direct_kseg: "0x80000000 \<le> unat b \<Longrightarrow> unat b + n \<le> 0xC0000000 \<Longrightarrow> direct m n b"
  unfolding direct_def
proof (intro allI impI)
  fix i
  assume "0x80000000 \<le> unat b" "unat b + n \<le> 0xC0000000" "i < n"
  then have "0x80000000 \<le> b + of_nat i \<and> b + of_nat i < 0xC0000000"
    using unat_offset [of b i] by (simp add: word_le_nat_alt word_less_nat_alt)
  then show "kaddr m (b + of_nat i) = Some (PHYSADDR (b + of_nat i))" by (simp add: kaddr_def)
qed

lemma user_phys: "v < 0x20000000 \<Longrightarrow> PHYSADDR v = v"
proof -
  assume "v < 0x20000000"
  then have "unat v < 2 ^ 29" by (simp add: word_less_nat_alt)
  then have "unat (PHYSADDR v) = unat v" by (simp add: PHYSADDR_take_bit unat_take_bit_mod)
  then show ?thesis by (rule unsigned_word_eqI)
qed

lemma user_window: "0x200000 \<le> v \<Longrightarrow> v \<le> 0x1ffffff \<Longrightarrow> translate v mmu_ready = Some (PHYSADDR v, PAGE_CACHEABLE)"
proof -
  assume v: "0x200000 \<le> v" "v \<le> 0x1ffffff"
  have "v < 0x20000000" using v(2) by (rule order_le_less_trans) simp
  then show ?thesis using ready_windows(2) [OF v] by (simp add: user_phys)
qed

text \<open>A segment lies in the user memory from 2 MByte to 32 MByte.\<close>

definition in_user :: "segment \<Rightarrow> bool" where
  "in_user sg \<longleftrightarrow> 0x200000 \<le> unat (sg_dest sg) \<and> unat (sg_dest sg) + sg_memsz sg \<le> 0x2000000"

lemma in_user_window:
  assumes "in_user sg" "i < sg_memsz sg"
  shows "translate (sg_dest sg + of_nat i) mmu_ready = Some (PHYSADDR (sg_dest sg + of_nat i), PAGE_CACHEABLE)"
    "kaddr mmu_ready (sg_dest sg + of_nat i) = Some (PHYSADDR (sg_dest sg + of_nat i))"
proof -
  have "unat (sg_dest sg + of_nat i) = unat (sg_dest sg) + i" using assms unat_offset [of "sg_dest sg" i] by (simp add: in_user_def)
  then have v: "0x200000 \<le> sg_dest sg + of_nat i" "sg_dest sg + of_nat i \<le> 0x1ffffff"
    using assms by (simp_all add: in_user_def word_le_nat_alt)
  then show t: "translate (sg_dest sg + of_nat i) mmu_ready = Some (PHYSADDR (sg_dest sg + of_nat i), PAGE_CACHEABLE)" by (rule user_window)
  have "\<not> 0x80000000 \<le> sg_dest sg + of_nat i" using v(2) by (simp add: word_le_nat_alt)
  then show "kaddr mmu_ready (sg_dest sg + of_nat i) = Some (PHYSADDR (sg_dest sg + of_nat i))" using t by (simp add: kaddr_def)
qed

text \<open>A program the kernel can load: a file in KSEG0 whose segments are well formed, lie in user memory, and apart from each other and from the file.\<close>

definition loadable_file :: "u32 \<Rightarrow> nat \<Rightarrow> 'a hwst_scheme \<Rightarrow> bool" where
  "loadable_file b n s \<longleftrightarrow> rd32 b s = ELFMAGIC \<and> 0x80000000 \<le> unat b \<and> unat b + n \<le> 0xA0000000
     \<and> 52 + unat (eh_phnum elf32 b s) * 32 \<le> n \<and> segs_apart sg_dest (file_segments elf32 b s)
     \<and> (\<forall>sg \<in> set (file_segments elf32 b s). wf_seg sg \<and> in_user sg \<and> (sg_filesz sg \<noteq> 0 \<longrightarrow> sg_off sg + sg_filesz sg \<le> n)
          \<and> bytes_apart n b (sg_memsz sg) (sg_dest sg))"

lemma loadable_user_seg: "loadable_file b n s \<Longrightarrow> sg \<in> set (file_segments elf32 b s) \<Longrightarrow> user_seg mmu_ready b n sg"
  using in_user_window(2) [of sg] by (auto simp: loadable_file_def user_seg_def direct_def in_user_def)

lemma kernel_copies:
  assumes "loadable_file b n s"
  shows "kernel_copy_sections mmu_ready b s = Some (rd32 (b + 24) s, put_segments sg_dest b (file_segments elf32 b s) s)"
proof -
  have "direct mmu_ready n b" using assms by (intro direct_kseg) (simp_all add: loadable_file_def)
  then have "load_phdrs mmu_ready b 0 s = Some (put_segments sg_dest b (file_segments elf32 b s) s)"
    using load_phdrs_spec [of b s n mmu_ready 0 s] loadable_user_seg [OF assms] assms
    by (simp add: loadable_file_def file_segments_def agree_refl)
  then show ?thesis using assms by (simp add: kernel_copy_sections_def loadable_file_def elf32_def)
qed

lemma loaded_byte:
  assumes "loadable_file b n s" "sg \<in> set (file_segments elf32 b s)" "i < sg_memsz sg"
  shows "ldb (PHYSADDR (sg_dest sg + of_nat i)) (put_segments sg_dest b (file_segments elf32 b s) s) = seg_byte b sg i s"
proof -
  have "\<forall>sg \<in> set (file_segments elf32 b s). wf_seg sg \<and> sg_memsz sg < 2 ^ 29 \<and> (sg_filesz sg \<noteq> 0 \<longrightarrow> sg_off sg + sg_filesz sg \<le> n)"
    using loadable_user_seg [OF assms(1)] by (auto simp: user_seg_def)
  moreover have "source_apart sg_dest b n (file_segments elf32 b s)" "segs_apart sg_dest (file_segments elf32 b s)"
    using assms(1) by (auto simp: loadable_file_def source_apart_def)
  ultimately have "ldb (sg_dest sg + of_nat i) (put_segments sg_dest b (file_segments elf32 b s) s) = seg_byte b sg i s"
    using assms(2,3) by (intro put_segments_inside)
  then show ?thesis
    using ldb_phys [of "PHYSADDR (sg_dest sg + of_nat i)" "sg_dest sg + of_nat i" "put_segments sg_dest b (file_segments elf32 b s) s"] by simp
qed

lemma user_status_mode: "user_status st AND 0x1f = 0x13"
proof -
  have "user_status st = (st AND NOT 0x1e) OR 0x20013" by (simp add: user_status_def)
  moreover have "((st AND NOT 0x1e) OR 0x20013) AND 0x1f = (st AND (NOT 0x1e AND 0x1f)) OR (0x20013 AND 0x1f)"
    by (simp only: bit.conj_disj_distrib2 and.assoc)
  moreover have "(st AND 1) OR 0x13 = 0x13" by (rule bit_word_eqI) (auto simp: bit_simps)
  ultimately show ?thesis by simp
qed

section \<open>Vectors\<close>

text \<open>Where the processor goes from a jump instruction: the delay slot gives the upper four bits.\<close>

definition jump_target :: "u32 \<Rightarrow> u32 \<Rightarrow> u32" where
  "jump_target pc instr = ((pc + 4) AND 0xF0000000) OR push_bit 2 (instr AND 0x03ffffff)"

definition vector_leads :: "int \<Rightarrow> u32 \<Rightarrow> 'a hwst_scheme \<Rightarrow> bool" where
  "vector_leads type addr s \<longleftrightarrow> (let v = KSEG0 + of_int (type * 0x80) in
     ldw v s = 0 \<and> ldw (v + 4) s = 0 \<and> ldw (v + 12) s = 0
     \<and> drop_bit 26 (ldw (v + 8) s) = 2 \<and> jump_target (v + 8) (ldw (v + 8) s) = addr)"

definition kseg0_code :: "u32 \<Rightarrow> bool" where
  "kseg0_code addr \<longleftrightarrow> addr AND 0xF0000000 = 0x80000000 \<and> addr AND 3 = 0"

lemma jump_encoding:
  assumes "kseg0_code addr"
  shows "0x80000000 OR push_bit 2 ((0x08000000 OR (0x03ffffff AND drop_bit 2 addr)) AND 0x03ffffff) = addr"
    "drop_bit 26 (0x08000000 OR (0x03ffffff AND drop_bit 2 addr)) = (2 :: u32)"
proof -
  have m: "(0x03ffffff :: u32) = mask 26" "(0xF0000000 :: u32) = push_bit 28 (mask 4)" "(3 :: u32) = mask 2"
    by (simp_all add: mask_eq_exp_minus_1)
  have jump: "bit (0x08000000 :: int) n \<longleftrightarrow> n = 27" for n
  proof -
    have "(0x08000000 :: int) = 2 ^ 27" by simp
    then show ?thesis by (simp only: bit_exp_iff) auto
  qed
  have low: "(0x08000000 OR (0x03ffffff AND drop_bit 2 addr)) AND 0x03ffffff = 0x03ffffff AND drop_bit 2 addr"
    unfolding m by (rule bit_word_eqI) (auto simp: bit_simps jump)
  have shifted: "2 \<le> n \<Longrightarrow> Suc (Suc (n - 2)) = n" for n :: nat by simp
  have parts: "addr = (addr AND 0xF0000000) OR push_bit 2 (0x03ffffff AND drop_bit 2 addr) OR (addr AND 3)"
    unfolding m by (rule bit_word_eqI) (auto simp: bit_simps shifted not_less)
  show "0x80000000 OR push_bit 2 ((0x08000000 OR (0x03ffffff AND drop_bit 2 addr)) AND 0x03ffffff) = addr"
    using parts assms unfolding low kseg0_code_def by simp
  show "drop_bit 26 (0x08000000 OR (0x03ffffff AND drop_bit 2 addr)) = (2 :: u32)"
    unfolding m by (rule bit_word_eqI) (auto simp: bit_simps jump bit_2_iff)
qed

lemma vector_word: "addr AND 0xF0000000 = 0x80000000 \<Longrightarrow> 0 \<le> k \<Longrightarrow> k \<le> V_INTERRUPT \<Longrightarrow>
   (KSEG0 + of_int (k * 0x80) + 8 + 4) AND 0xF0000000 = 0x80000000"
proof -
  assume "0 \<le> k" "k \<le> V_INTERRUPT"
  then consider "k = 0" | "k = 1" | "k = 2" | "k = 3" | "k = 4" unfolding V_INTERRUPT_def by linarith
  then show ?thesis by cases (simp_all add: KSEG0_def)
qed

lemma install_leads:
  assumes "\<forall>s a. ldw a (flush s) = ldw a s" "\<forall>s a. ldw a (inval s) = ldw a s" "0 \<le> k" "k \<le> V_INTERRUPT" "kseg0_code addr"
  shows "\<exists>t. install_exception_handler flush inval k addr s = Some t \<and> vector_leads k addr t
     \<and> (\<forall>j h. 0 \<le> j \<and> j \<le> V_INTERRUPT \<and> j \<noteq> k \<and> vector_leads j h s \<longrightarrow> vector_leads j h t)"
proof -
  define v where "v = KSEG0 + of_int (k * 0x80)"
  define w where "w = (0x08000000 OR (0x03ffffff AND drop_bit 2 addr) :: u32)"
  define u where "u = stw 0 (v + 12) (stw w (v + 8) (stw 0 (v + 4) (stw 0 v s)))"
  have i: "install_exception_handler flush inval k addr s = Some (inval (flush u))"
    using assms(4) by (simp add: install_exception_handler_def Let_def u_def v_def w_def)
  have t: "ldw a (inval (flush u)) = ldw a u" for a using assms(1,2) by simp
  have at: "j \<in> {0, 1, 2, 3, 4}" if "0 \<le> j" "j \<le> V_INTERRUPT" for j using that unfolding V_INTERRUPT_def by auto
  have off: "PHYSADDR (KSEG0 + of_int (j * 0x80) + d) = of_int (j * 0x80) + d" if "j \<in> {0, 1, 2, 3, 4}" "d \<in> {0, 4, 8, 12}" for j d
    using that by (auto simp: KSEG0_def PHYSADDR_def)
  note k = at [OF assms(3,4)]
  have own: "ldw v u = 0" "ldw (v + 4) u = 0" "ldw (v + 8) u = w" "ldw (v + 12) u = 0"
    using off [OF k, of 0] off [OF k, of 4] off [OF k, of 8] off [OF k, of 12] k by (auto simp: u_def v_def)
  have "(v + 8 + 4) AND 0xF0000000 = 0x80000000"
    using vector_word [of addr k] assms(3-5) by (simp add: kseg0_code_def v_def)
  then have "jump_target (v + 8) w = addr" using jump_encoding(1) [OF assms(5)] by (simp add: jump_target_def w_def)
  then have "vector_leads k addr (inval (flush u))"
    using jump_encoding(2) [OF assms(5), folded w_def] unfolding vector_leads_def Let_def v_def [symmetric] t own by simp
  moreover have "vector_leads j h (inval (flush u))" if j: "0 \<le> j" "j \<le> V_INTERRUPT" "j \<noteq> k" "vector_leads j h s" for j h
  proof -
    have "ldw (KSEG0 + of_int (j * 0x80) + d) u = ldw (KSEG0 + of_int (j * 0x80) + d) s" if "d \<in> {0, 4, 8, 12}" for d
      using off [OF at [OF j(1,2)] that] off [OF k, of 0] off [OF k, of 4] off [OF k, of 8] off [OF k, of 12] at [OF j(1,2)] k j(3) that
      by (auto simp: u_def v_def)
    from this [of 0] this [of 4] this [of 8] this [of 12] show ?thesis using j(4) by (simp add: vector_leads_def Let_def t)
  qed
  ultimately show ?thesis using i by blast
qed

section \<open>Properties\<close>

text \<open>
  C5. The kernel starts the program it carries. When the file is well formed, lies in KSEG0 and has its segments in user memory between 2 and 32 MByte, and the TLB
  is as its initialisation leaves it, loading always succeeds without an exception: the processor continues at the entry point
  in user mode with interrupts enabled, and through the TLB the program sees every byte of every segment, the bytes from the file first and zeros after them.
\<close>

theorem kernel_starts_program:
  assumes "length (tlb m0) = 48" "end_addr \<le> KSEG0 + ZERO_REG_ADDRESS" "mmu_init_module end_addr m0 = Some m"
    and "loadable_file b n s" "rd32 (b + 24) s \<noteq> 0"
    and "\<forall>s. mem (flush s) = mem s" "\<forall>s. mem (inval s) = mem s"
  shows "\<exists>t. kernel_loader flush inval m b s = Some (\<lparr>us_epc = rd32 (b + 24) s, us_sp = 0x01e00000, us_a0 = 0\<rparr>, t)
     \<and> cp0_status t AND 0x1f = 0x13
     \<and> (\<forall>sg \<in> set (file_segments elf32 b s). \<forall>i < sg_memsz sg.
          \<exists>p c. translate (sg_dest sg + of_nat i) m = Some (p, c) \<and> ldb p t = seg_byte b sg i s)"
proof -
  have m: "m = mmu_ready" using mmu_init_ready [OF assms(1,2)] assms(3) by simp
  let ?u = "put_segments sg_dest b (file_segments elf32 b s) s"
  let ?v = "inval (flush ?u)"
  have "kernel_loader flush inval m b s = Some (\<lparr>us_epc = rd32 (b + 24) s, us_sp = 0x01e00000, us_a0 = 0\<rparr>,
      ?v\<lparr>cp0_status := user_status (cp0_status ?v)\<rparr>)"
    using kernel_copies [OF assms(4)] assms(5) by (simp add: kernel_loader_def m Let_def)
  moreover have "ldb p (?v\<lparr>cp0_status := st\<rparr>) = ldb p ?u" for p st using assms(6,7) by (simp add: ldb_def ldw_def)
  moreover have "user_status st AND 0x1f = 0x13" for st by (rule user_status_mode)
  ultimately show ?thesis
    using in_user_window(1) loaded_byte [OF assms(4)] assms(4) by (fastforce simp: m loadable_file_def)
qed

text \<open>
  C23. \<open>start_kernel\<close> installs the interrupt handler first (in \<open>irq_init_module\<close>) and the handlers for TLB refills,
  common exceptions, the counter and debugging later; the code in between does not write to the vectors. Afterwards each of the five vectors of
  the processor (every 128 bytes from the start of KSEG0: TLB refill, counter, debug, common, interrupt) consists of two \<open>nop\<close>s, a jump to its
  handler and the \<open>nop\<close> of the delay slot, for handlers anywhere in the first 256 MByte of KSEG0; installing one does not disturb the others.
\<close>

theorem exception_vectors_lead:
  assumes "\<forall>s a. ldw a (flush s) = ldw a s" "\<forall>s a. ldw a (inval s) = ldw a s"
    and between: "\<forall>s a. PHYSADDR a < 0x280 \<longrightarrow> ldw a (between s) = ldw a s"
    and "kseg0_code tlb_refill" "kseg0_code common" "kseg0_code counter" "kseg0_code debug" "kseg0_code interrupt"
  shows "\<exists>t. Option.bind (install_interrupt_handler flush inval interrupt s)
        (\<lambda>s. install_handlers flush inval tlb_refill common counter debug (between s)) = Some t
     \<and> vector_leads 0 tlb_refill t \<and> vector_leads 1 counter t \<and> vector_leads 2 debug t
     \<and> vector_leads 3 common t \<and> vector_leads 4 interrupt t"
proof -
  note V = V_TLB_REFILL_def V_COMMON_def V_COUNTER_def V_DEBUG_def V_INTERRUPT_def
  have install: "\<exists>t. install_exception_handler flush inval k addr s = Some t \<and> vector_leads k addr t
      \<and> (\<forall>j h. 0 \<le> j \<and> j \<le> V_INTERRUPT \<and> j \<noteq> k \<and> vector_leads j h s \<longrightarrow> vector_leads j h t)"
    if "0 \<le> k" "k \<le> V_INTERRUPT" "kseg0_code addr" for k addr s by (rule install_leads [OF assms(1,2) that])
  obtain r where r: "install_exception_handler flush inval 4 interrupt s = Some r" "vector_leads 4 interrupt r"
    using install [of 4 interrupt s] assms(8) by (auto simp: V)
  have b: "vector_leads 4 interrupt (between r)"
    using r(2) between by (simp add: vector_leads_def KSEG0_def PHYSADDR_def Let_def)
  obtain s1 where 1: "install_exception_handler flush inval 0 tlb_refill (between r) = Some s1" "vector_leads 0 tlb_refill s1"
    "vector_leads 4 interrupt s1" using install [of 0 tlb_refill "between r"] assms(4) b by (auto simp: V)
  obtain s2 where 2: "install_exception_handler flush inval 3 common s1 = Some s2" "vector_leads 3 common s2"
    "vector_leads 0 tlb_refill s2" "vector_leads 4 interrupt s2" using install [of 3 common s1] assms(5) 1(2,3) by (auto simp: V)
  obtain s3 where 3: "install_exception_handler flush inval 1 counter s2 = Some s3" "vector_leads 1 counter s3"
    "vector_leads 0 tlb_refill s3" "vector_leads 3 common s3" "vector_leads 4 interrupt s3"
    using install [of 1 counter s2] assms(6) 2(2-4) by (auto simp: V)
  obtain s4 where 4: "install_exception_handler flush inval 2 debug s3 = Some s4" "vector_leads 2 debug s4"
    "vector_leads 0 tlb_refill s4" "vector_leads 3 common s4" "vector_leads 1 counter s4" "vector_leads 4 interrupt s4"
    using install [of 2 debug s3] assms(7) 3(2-5) by (auto simp: V)
  have "Option.bind (install_interrupt_handler flush inval interrupt s)
      (\<lambda>s. install_handlers flush inval tlb_refill common counter debug (between s)) = Some s4"
    using r(1) 1(1) 2(1) 3(1) 4(1) by (simp add: install_interrupt_handler_def install_handlers_def V)
  then show ?thesis using 4(2-6) by blast
qed

section \<open>Witnesses\<close>

text \<open>A file in KSEG0 with one segment of four bytes from the file and four zero bytes, for the address \<open>0x300000\<close>.\<close>

definition sample_program :: hwst where
  "sample_program = \<lparr>cp0_status = 0, hwreg = \<lambda>_. 0, mem = (\<lambda>a.
     if 0x40000 \<le> a \<and> a < 0x4005c then
       [0x464c457f, 0x101, 0, 0, 0x80002, 1, 0x300000, 52, 0, 0, 0x200034, 1, 0, 1, 84, 0x300000, 0x300000, 4, 8, 7, 4, 0x11223344, 0]
         ! unat (drop_bit 2 (a - 0x40000))
     else 0), dcache_wb = []\<rparr>"

lemma sample_program_facts:
  "file_segments elf32 0x80040000 sample_program = [\<lparr>sg_dest = 0x300000, sg_off = 84, sg_filesz = 4, sg_memsz = 8\<rparr>]"
  "rd32 0x80040000 sample_program = ELFMAGIC" "rd32 0x80040018 sample_program = 0x300000" "eh_phnum elf32 0x80040000 sample_program = 1"
  "seg_byte 0x80040000 \<lparr>sg_dest = 0x300000, sg_off = 84, sg_filesz = 4, sg_memsz = 8\<rparr> 1 sample_program = 0x33"
  by code_simp+

lemma sample_program_loadable: "loadable_file 0x80040000 92 sample_program"
proof -
  have "PHYSADDR (0x80040000 + of_nat i) \<noteq> PHYSADDR (0x300000 + of_nat j)" if "i < 92" "j < 8" for i j
  proof -
    have "PHYSADDR (0x80040000 + of_nat i) = 0x40000 + of_nat i"
    proof -
      have "PHYSADDR (0x80040000 + of_nat i) = PHYSADDR (PHYSADDR 0x80040000 + of_nat i)" by (rule PHYSADDR_add_left [symmetric])
      also have "\<dots> = PHYSADDR (0x40000 + of_nat i)" by (simp add: PHYSADDR_def)
      also have "\<dots> = 0x40000 + of_nat i" using that(1) unat_offset [of "0x40000" i] by (intro user_phys) (simp add: word_less_nat_alt)
      finally show ?thesis .
    qed
    moreover have "PHYSADDR (0x300000 + of_nat j) = 0x300000 + of_nat j"
      using that(2) unat_offset [of "0x300000" j] by (intro user_phys) (simp add: word_less_nat_alt)
    moreover have "unat ((0x40000 :: u32) + of_nat i) \<noteq> unat ((0x300000 :: u32) + of_nat j)"
      using that unat_offset [of "0x40000" i] unat_offset [of "0x300000" j] by simp
    ultimately show ?thesis by metis
  qed
  then have "bytes_apart 92 0x80040000 8 0x300000" by (simp add: bytes_apart_def)
  then show ?thesis by (simp add: loadable_file_def sample_program_facts segs_apart_def wf_seg_def in_user_def)
qed

theorem kernel_starts_program_witness:
  "\<exists>us t. kernel_loader id id mmu_ready 0x80040000 sample_program = Some (us, t) \<and> us_epc us = 0x300000 \<and> ldb 0x300001 t = 0x33"
proof -
  have e: "(0x80070000 :: u32) \<le> KSEG0 + ZERO_REG_ADDRESS" by code_simp
  have "\<exists>t. kernel_loader id id mmu_ready 0x80040000 sample_program = Some (\<lparr>us_epc = 0x300000, us_sp = 0x01e00000, us_a0 = 0\<rparr>, t)
      \<and> (\<forall>i < 8. \<exists>p c. translate (0x300000 + of_nat i) mmu_ready = Some (p, c)
           \<and> ldb p t = seg_byte 0x80040000 \<lparr>sg_dest = 0x300000, sg_off = 84, sg_filesz = 4, sg_memsz = 8\<rparr> i sample_program)"
    using kernel_starts_program [OF mmu_reset_length e mmu_init_ready [OF mmu_reset_length e] sample_program_loadable, of id id]
    by (auto simp: sample_program_facts)
  moreover have "translate 0x300001 mmu_ready = Some (0x300001, PAGE_CACHEABLE)" using ready_windows(2) [of "0x300001"] by simp
  ultimately show ?thesis using sample_program_facts(5) by (fastforce dest: spec [of _ 1])
qed

theorem exception_vectors_lead_witness:
  "\<exists>t. Option.bind (install_interrupt_handler id id 0x80010400 sample_program)
        (\<lambda>s. install_handlers id id 0x80010000 0x80010100 0x80010200 0x80010300 (id s)) = Some t
     \<and> vector_leads 2 0x80010300 t \<and> vector_leads 4 0x80010400 t"
  using exception_vectors_lead [of id id id "0x80010000" "0x80010100" "0x80010200" "0x80010300" "0x80010400" sample_program]
  by (auto simp: kseg0_code_def)

end
