(* ===== verification/Spec2Isabelle.thy ===== *)
theory Spec2Isabelle
  imports IopHeap Cdvd Printf Crc32 BootLog Rom Sema Mmu Irq SbiosLoad Boot Pad Mc Sound Misc KernelLoad
begin

text \<open>
  A verification library for kernelreloaded, the programs that start an operating system on a PlayStation 2.

  \<^bold>\<open>The parts of the program.\<close> The \<^emph>\<open>loader\<close> (\<open>loader/\<close>) runs on the console's own kernel. It checks its own integrity, reads an
  operating system kernel, an SBIOS image and modules for the I/O processor, checks the ELF files, copies them to their places and jumps to the kernel with a
  command line. The \<^emph>\<open>SBIOS\<close> (\<open>TGE/sbios/\<close>) stays in memory and serves the operating system: it talks to the I/O processor
  (IOP) over the SIF, a pair of DMA channels, and offers controllers, memory cards, sound, the disc drive and the IOP's memory as calls that return
  at once and report later through an end function. The \<^emph>\<open>kernel\<close> (\<open>kernel/\<close>) is a small operating system kernel of the repository's own, with
  a fixed TLB, interrupt dispatch, semaphores and one user program. Modules for the IOP and tools for the host complete the repository.

  \<^bold>\<open>State.\<close> A component's static data is a record, one field for each C variable; a component that calls another extends its record, so the SBIOS is
  the chain of records \<open>hwst\<close> (\<open>Core\<close>: status register, hardware registers, memory, list of cache write-backs), \<open>sifdma\<close>, \<open>sifcmd\<close>, \<open>sifrpc\<close>,
  \<open>services\<close> and one record for each service. Every operation is polymorphic in what extends its record, which also gives the
  frame property that a layer leaves the variables of the layers above alone (the lemmas named \<open>_more\<close>). Memory is words at physical addresses; KSEG0 and KSEG1
  name the same memory (\<open>PHYSADDR\<close>). Link-time addresses of objects and functions are fields with the prefix \<open>a_\<close>. C integers are words of their
  width; \<open>int\<close> results that are only compared with zero are \<open>int\<close>.

  \<^bold>\<open>Errors and loops.\<close> Error codes are returned as the code returns them. \<open>None\<close> stands for not returning (a loop that does not end, a panic, a
  processor exception) or for reading outside an object. Loops whose bound is a machine integer are \<open>function\<close>s with a measure; loops that
  depend on a list in memory or on hardware are \<open>partial_function (option)\<close>, or recursion over the list of values that the hardware gives
  when it is read (\<open>intrs\<close>, \<open>irqs\<close>, the status values of the serial port), and the properties prove that they return.

  \<^bold>\<open>Parameters.\<close> Code outside the repository is an argument: the functions of the operating system that the SBIOS calls
  (\<open>notify\<close>, \<open>ext\<close>), the answers of the IOP (\<open>iop\<close>), interrupts that arrive while a loop polls, \<open>fread\<close>, \<open>gzread\<close> and \<open>memalign\<close> of the
  C library (\<open>Rom\<close>, \<open>Boot\<close>), the registers of the EE that react to a write (\<open>Irq\<close>), cache instructions and the display encoder
  (assembly files). What a theorem needs of them is a hypothesis, e.g. \<open>good_notify\<close>: a notification leaves the variables of the SBIOS alone.

  \<^bold>\<open>Theories, in the order in which they build on each other.\<close>

  \<^item> \<open>Prelude\<close>: C types, lemmas on words and lists, and two interfaces. \<open>simulation\<close>: a step function
    follows another one under a relation, hence so do whole runs (used by \<open>BootLog\<close>). \<open>slot_pool\<close>: allocation from a
    table of slots never hands out a slot twice, for every sequence of allocations and releases (RPC packets, semaphores).
  \<^item> \<open>Core\<close>, \<open>Bytes\<close>: processor access (\<open>core.h\<close>, \<open>hwreg.h\<close>), byte access, \<open>memcpy\<close>, \<open>memset\<close>, \<open>memcmp\<close>.
  \<^item> \<open>SifDma\<close> (\<open>sifdma.c\<close>): the ring of 32 DMA tags. A transfer never overwrites a tag the hardware has not finished with,
    returns for every list, fails exactly when tags run out, and makes the controller deliver header and data in order.
  \<^item> \<open>SifCmd\<close> (\<open>sifcmd.c\<close>): command packets and handler tables. A delivered packet reaches exactly the handler registered for its command.
    The interface \<open>handler_table\<close> says what adding and removing handlers does to later look-ups.
  \<^item> \<open>SifRpc\<close> (\<open>sifrpc.c\<close>): calls and binds return on every path with the documented error, no packet is used twice, and the answer to a pending request runs
    its end function once. The interface of the packet table is \<open>slot_pool\<close>.
  \<^item> \<open>Services\<close> (\<open>mutex.c\<close>, argument blocks of \<open>tge_sbios.h\<close>): \<open>locked_service\<close> (at most one request is out) and \<open>command_set\<close> (commands
    behind one lock and one client: each returns, and holds the lock exactly when its request is out).
  \<^item> \<open>Buffers\<close>: filling buffers outside the packet table; \<open>request_buffer\<close> is the interface of services that put their words into
    one buffer and send it (\<open>Pad\<close>, \<open>Sound\<close>).
  \<^item> \<open>IopHeap\<close> (\<open>iopheap.c\<close>), \<open>Scmd\<close> (\<open>scmd.c\<close>), \<open>Ncmd\<close> (\<open>ncmd.c\<close>), \<open>Cdvd\<close> (\<open>cdvd.c\<close>), \<open>Pad\<close> (\<open>pad.c\<close>), \<open>Mc\<close> (\<open>mc.c\<close>),
    \<open>Sound\<close> (\<open>sound.c\<close>): the services. For each, every operation returns on every path with the documented code; a request that is sent carries the words of its argument
    block. In addition: an allocation answer reaches its caller; the table of contents copy is bounded; six rounds bring up the drive, and it is bound in order
    under every interleaving; a port just opened reports nothing until the IOP writes; a write to a memory card is split without loss; the stages
    of the sound driver stay in order under every interleaving.
  \<^item> \<open>IopMem\<close> (\<open>iopmem.c\<close>, \<open>smod.c\<close>, \<open>iopmemdebug.c\<close>, \<open>iop/sharedmem\<close>): the module list of the IOP and the console mailbox, in which every
    interleaving of the two processors prints the text in order.
  \<^item> \<open>Misc\<close> (\<open>misc.c\<close>): the search for the display driver in the boot ROM, the display calls, serial port and caches.
  \<^item> \<open>Printf\<close> (\<open>snprintf.c\<close> and \<open>printf.c\<close> of SBIOS and kernel): bounds of the buffer, and the output as the text the format stands for.
  \<^item> \<open>Sema\<close> (\<open>kernel/thread.c\<close>), \<open>Irq\<close> (\<open>irq.c\<close>, \<open>intc.c\<close>, \<open>dmac.c\<close>, \<open>timers.c\<close>), \<open>Mmu\<close> (\<open>mmu.c\<close>): semaphores as counters with unique identifiers,
    interrupt dispatch in ascending order and the mirror of the DMA mask, the address translation that the fixed TLB gives (checked page by page by an executable test).
  \<^item> \<open>KernelLoad\<close> (\<open>kernel/loader.c\<close>, \<open>exception.c\<close>): loading the user program through that TLB, entering user mode, exception vectors.
    This property spans \<open>Mmu\<close> and \<open>Elf\<close>.
  \<^item> \<open>Crc32\<close> (\<open>crc32check.c\<close>, \<open>tools/crc32gen\<close>): the table-driven checksum equals the bit-serial one; \<open>running_checksum\<close> is the interface
    from which burst detection follows.
  \<^item> \<open>BootLog\<close> (\<open>bootlog.c\<close>), \<open>Rom\<close> (\<open>rom.c\<close>): the ring of sixteen lines refines the complete log; embedded files read as streams.
  \<^item> \<open>Elf\<close>, \<open>SbiosLoad\<close>, \<open>Boot\<close> (\<open>loader.c\<close>): which files the check accepts, that it stays in bounds, that an accepted file is copied
    completely; the scan of machine code for the SBIOS call table; command line, compressed kernels and modules. \<open>elf_reader\<close> is the interface
    of the two ELF classes, interpreted on both.

  Each theory ends with concrete states on which its properties are applied.

  \<^bold>\<open>Bounds.\<close> The ring and the tables have the sizes of the code (32 tags, 32 packets, 32 semaphores, 48 TLB entries). Hypotheses on
  addresses say that buffers lie outside the packet table and do not overlap (\<open>words_off\<close>, \<open>words_apart\<close>, \<open>bytes_apart\<close>), as the linker arranges.

  \<^bold>\<open>Not modelled.\<close> The user interface of the loader (C++ on a graphics library), drivers that only program hardware or call the SDK
  (modules, NVRAM, pads and expansion bay of the loader), the video and diagnostic output of the kernel, the network driver and file systems for the IOP (taken from
  other projects, on an operating system that is not part of the repository), tools that convert images or search memory dumps, and
  code that the build leaves out (\<open>#if 0\<close>, \<open>F_\<close> switches, the build for older modules). Console output is left out of the models. Caches are not modelled beyond the list of
  write-backs, and a volatile register is a cell unless a theory says otherwise. The assembly files are represented by what the C code expects of them.
\<close>

end
